(* ===== verification/Prelude.thy ===== *)
theory Prelude
  imports Main "HOL-Library.Word" "HOL-Library.List_Lexorder" "HOL-Library.Char_ord"
begin

text \<open>
  Shared vocabulary of the development: the machine types of the Rust core, the pieces of the
  Rust standard library the modelled code uses (\<open>BTreeMap\<close>, \<open>str::split_once\<close>, saturating and
  checked integer arithmetic), and the lemmas about them that the component theories rely on.

  A \<open>HashMap\<close> is a partial function; a \<open>BTreeMap\<close>, whose iteration order the code observes, is
  an association list kept strictly sorted by key (predicate \<open>bt_wf\<close>).  Strings are byte strings
  (\<open>char list\<close>), compared lexicographically as Rust's \<open>str\<close> does.
\<close>

named_theorems bt_simps \<open>laws of the sorted association lists that model BTreeMap\<close>

type_synonym u8 = "8 word"
type_synonym u16 = "16 word"
type_synonym u32 = "32 word"
type_synonym u64 = "64 word"
type_synonym i64 = "64 word" \<comment> \<open>two's complement: \<open>+\<close> wraps as \<open>i64\<close> does in a release build\<close>
type_synonym bytes = "8 word list"
type_synonym script = bytes

section \<open>Sorted association lists: BTreeMap\<close>

fun bt_insert :: "'k::linorder \<Rightarrow> 'v \<Rightarrow> ('k \<times> 'v) list \<Rightarrow> ('k \<times> 'v) list" where
  "bt_insert k v [] = [(k, v)]"
| "bt_insert k v ((k', v') # m) =
     (if k < k' then (k, v) # (k', v') # m
      else if k = k' then (k, v) # m
      else (k', v') # bt_insert k v m)"

fun bt_remove :: "'k::linorder \<Rightarrow> ('k \<times> 'v) list \<Rightarrow> ('k \<times> 'v) list" where
  "bt_remove k [] = []"
| "bt_remove k ((k', v') # m) = (if k = k' then m else (k', v') # bt_remove k m)"

abbreviation bt_get :: "('k \<times> 'v) list \<Rightarrow> 'k \<Rightarrow> 'v option" where
  "bt_get \<equiv> map_of"

definition bt_of_list :: "('k::linorder \<times> 'v) list \<Rightarrow> ('k \<times> 'v) list" where
  \<comment> \<open>\<open>collect()\<close> into a \<open>BTreeMap\<close>: a later pair with the same key replaces the earlier one\<close>
  "bt_of_list kvs = fold (\<lambda>(k, v) m. bt_insert k v m) kvs []"

definition bt_wf :: "('k::linorder \<times> 'v) list \<Rightarrow> bool" where
  "bt_wf m \<longleftrightarrow> sorted_wrt (<) (map fst m)"

lemma set_keys_bt_insert [bt_simps]: "fst ` set (bt_insert k v m) = insert k (fst ` set m)"
  by (induction k v m rule: bt_insert.induct) auto

lemma set_bt_remove: "set (bt_remove k m) \<subseteq> set m"
  by (induction k m rule: bt_remove.induct) auto

lemma bt_wf_Nil [simp, intro]: "bt_wf []"
  by (simp add: bt_wf_def)

lemma bt_wf_Cons: "bt_wf ((k, v) # m) \<longleftrightarrow> (\<forall>k' \<in> fst ` set m. k < k') \<and> bt_wf m"
  by (auto simp: bt_wf_def)

lemma bt_wf_insert [intro]: "bt_wf m \<Longrightarrow> bt_wf (bt_insert k v m)"
  by (induction k v m rule: bt_insert.induct) (fastforce simp: bt_wf_Cons set_keys_bt_insert)+

lemma bt_wf_remove [intro]: "bt_wf m \<Longrightarrow> bt_wf (bt_remove k m)"
proof (induction k m rule: bt_remove.induct)
  case (2 k k' v' m)
  then show ?case
    using set_bt_remove[of k m] by (auto simp: bt_wf_Cons)
qed simp

lemma bt_get_insert [bt_simps]: "bt_get (bt_insert k v m) = (bt_get m)(k \<mapsto> v)"
  by (induction k v m rule: bt_insert.induct) (auto simp: fun_eq_iff)

lemma bt_get_notin: "k \<notin> fst ` set m \<Longrightarrow> bt_get m k = None"
  by (simp add: map_of_eq_None_iff)

lemma bt_get_remove [bt_simps]:
  assumes "bt_wf m"
  shows "bt_get (bt_remove k m) = (bt_get m)(k := None)"
  using assms
proof (induction k m rule: bt_remove.induct)
  case (2 k k' v' m)
  have "k \<notin> fst ` set m" if "k = k'"
    using 2(2) that by (auto simp: bt_wf_Cons)
  with 2 show ?case
    by (auto simp: bt_wf_Cons fun_eq_iff bt_get_notin)
qed (simp add: fun_eq_iff)

lemma bt_wf_of_list [intro]: "bt_wf (bt_of_list kvs)"
proof -
  have "bt_wf (fold (\<lambda>(k, v) m. bt_insert k v m) kvs m)" if "bt_wf m" for m
    using that by (induction kvs arbitrary: m) auto
  then show ?thesis by (auto simp: bt_of_list_def)
qed

lemma bt_get_of_list: "bt_get (bt_of_list kvs) = map_of (rev kvs)"
proof -
  have "bt_get (fold (\<lambda>(k, v) m. bt_insert k v m) kvs m) = (bt_get m) ++ map_of (rev kvs)" for m
    by (induction kvs arbitrary: m) (auto simp: bt_get_insert map_add_def fun_eq_iff split: option.splits)
  from this[of "[]"] show ?thesis by (simp add: bt_of_list_def)
qed

lemma bt_wf_distinct: "bt_wf m \<Longrightarrow> distinct (map fst m)"
  by (simp add: bt_wf_def strict_sorted_iff)

lemma bt_wf_sorted: "bt_wf m \<Longrightarrow> sorted (map fst m)"
  by (simp add: bt_wf_def strict_sorted_iff)

lemma bt_get_mem: "bt_wf m \<Longrightarrow> bt_get m k = Some v \<longleftrightarrow> (k, v) \<in> set m"
  by (simp add: bt_wf_distinct)

subsection \<open>Extensional equality of sorted maps\<close>

lemma bt_wf_ext:
  assumes "bt_wf a" and "bt_wf b" and "bt_get a = bt_get b"
  shows "a = b"
proof -
  have "map fst a = map fst b"
    using assms bt_wf_sorted bt_wf_distinct
    by (intro sorted_distinct_set_unique) (auto simp flip: dom_map_of_conv_image_fst)
  moreover have "map snd m = map (the \<circ> bt_get m) (map fst m)" if "bt_wf m" for m :: "('a \<times> 'b) list"
    using bt_wf_distinct[OF that] by (auto simp: map_of_is_SomeI)
  ultimately have "map snd a = map snd b" using assms by metis
  with \<open>map fst a = map fst b\<close> show ?thesis by (metis zip_map_fst_snd)
qed

lemma map_of_rev_wf: "bt_wf m \<Longrightarrow> map_of (rev m) = map_of m"
  by (rule map_of_inject_set[THEN iffD2]) (auto simp: bt_wf_distinct simp flip: rev_map)

lemma bt_of_list_id: "bt_wf m \<Longrightarrow> bt_of_list m = m"
  by (intro bt_wf_ext) (auto simp: bt_get_of_list map_of_rev_wf)

lemma bt_get_fold_insert:
  "bt_get (fold (\<lambda>(k, v). bt_insert k v) a b) = bt_get b ++ map_of (rev a)"
  by (induction a arbitrary: b) (auto simp: bt_get_insert map_add_def fun_eq_iff split: option.splits)

lemma bt_wf_fold_insert [intro]: "bt_wf b \<Longrightarrow> bt_wf (fold (\<lambda>(k, v). bt_insert k v) a b)"
  by (induction a arbitrary: b) auto

section \<open>Strings\<close>

fun split_once :: "char \<Rightarrow> string \<Rightarrow> (string \<times> string) option" where
  \<comment> \<open>\<open>str::split_once\<close> with a character pattern: split at its first occurrence\<close>
  "split_once c [] = None"
| "split_once c (x # xs) =
     (if x = c then Some ([], xs) else map_option (\<lambda>(a, b). (x # a, b)) (split_once c xs))"

lemma split_once_Some: "split_once c s = Some (a, b) \<longleftrightarrow> s = a @ c # b \<and> c \<notin> set a"
proof (induction s arbitrary: a)
  case Nil
  then show ?case by simp
next
  case (Cons x s)
  show ?case
    by (cases a) (auto simp: Cons.IH)
qed

definition is_ascii_digit :: "char \<Rightarrow> bool" where
  "is_ascii_digit c \<longleftrightarrow> CHR ''0'' \<le> c \<and> c \<le> CHR ''9''"

definition is_lower_hex :: "char \<Rightarrow> bool" where
  "is_lower_hex c \<longleftrightarrow> is_ascii_digit c \<or> CHR ''a'' \<le> c \<and> c \<le> CHR ''f''"

section \<open>Fallible steps over a state\<close>

text \<open>
  The \<open>?\<close> operator: run a step, return its error if it fails, otherwise continue with its value in
  the state it left. The rules turn a composition into the existence of its intermediate states.
\<close>

definition and_then :: "('e + 'a) \<times> 's \<Rightarrow> ('a \<Rightarrow> 's \<Rightarrow> ('e + 'b) \<times> 's) \<Rightarrow> ('e + 'b) \<times> 's" where
  "and_then m f = (case m of (Inl e, s) \<Rightarrow> (Inl e, s) | (Inr a, s) \<Rightarrow> f a s)"

definition map_err :: "('e \<Rightarrow> 'd) \<Rightarrow> ('e + 'a) \<times> 's \<Rightarrow> ('d + 'a) \<times> 's" where
  "map_err g m = (case m of (Inl e, s) \<Rightarrow> (Inl (g e), s) | (Inr a, s) \<Rightarrow> (Inr a, s))"

lemma and_then_simps [simp]: "and_then (Inl e, s) f = (Inl e, s)" "and_then (Inr a, s) f = f a s"
  by (simp_all add: and_then_def)

lemma map_err_simps [simp]: "map_err g (Inl e, s) = (Inl (g e), s)" "map_err g (Inr a, s) = (Inr a, s)"
  by (simp_all add: map_err_def)

named_theorems step_iff \<open>when a composed step succeeds, and when it fails\<close>

lemma and_then_Inr [step_iff]: "and_then m f = (Inr b, t) \<longleftrightarrow> (\<exists>a s. m = (Inr a, s) \<and> f a s = (Inr b, t))"
  by (auto simp: and_then_def split: prod.splits sum.splits)

lemma and_then_Inl [step_iff]:
  "and_then m f = (Inl e, t) \<longleftrightarrow> m = (Inl e, t) \<or> (\<exists>a s. m = (Inr a, s) \<and> f a s = (Inl e, t))"
  by (auto simp: and_then_def split: prod.splits sum.splits)

lemma map_err_Inr [step_iff]: "map_err g m = (Inr b, t) \<longleftrightarrow> m = (Inr b, t)"
  by (auto simp: map_err_def split: prod.splits sum.splits)

lemma map_err_Inl [step_iff]: "map_err g m = (Inl d, t) \<longleftrightarrow> (\<exists>e. m = (Inl e, t) \<and> d = g e)"
  by (auto simp: map_err_def split: prod.splits sum.splits)

lemma snd_map_err [simp]: "snd (map_err g m) = snd m"
  by (auto simp: map_err_def split: prod.splits sum.splits)

end
