(* ===== verification/Json.thy ===== *)
theory Json
  imports Prelude "HOL-Library.Countable"
begin

text \<open>
  JSON values as \<open>serde_json::Value\<close> has them (its default feature set: an object is a
  \<open>BTreeMap\<close>), the accessors the core uses on them, decimal printing and parsing of \<open>u64\<close>
  (\<open>u64::to_string\<close>, \<open>str::parse::<u64>\<close>), and the byte codec \<open>serde_json::from_slice\<close> /
  \<open>serde_json::to_vec\<close>.  The codec's text format belongs to the library, so it is a parameter
  (record \<open>json_codec\<close>); the only law used of it is \<open>codec_ok\<close>: a document of the kind the core
  writes (\<open>json_wf\<close>) reads back.
\<close>

datatype json_num =
    PosInt u64
  | NegInt int
  | Float u64 \<comment> \<open>the IEEE bit pattern; no modelled code computes with it\<close>

datatype json =
    JNull
  | JBool bool
  | JNum json_num
  | JString string
  | JArray "json list"
  | JObject "(string \<times> json) list"

fun as_array :: "json \<Rightarrow> json list option" where
  "as_array (JArray xs) = Some xs"
| "as_array _ = None"

fun as_object :: "json \<Rightarrow> (string \<times> json) list option" where
  "as_object (JObject kvs) = Some kvs"
| "as_object _ = None"

fun as_str :: "json \<Rightarrow> string option" where
  "as_str (JString s) = Some s"
| "as_str _ = None"

fun as_u64 :: "json \<Rightarrow> u64 option" where
  "as_u64 (JNum (PosInt n)) = Some n"
| "as_u64 _ = None"

text \<open>Field access as serde's derived struct readers do it.\<close>

definition fld :: "(string \<times> json) list \<Rightarrow> string \<Rightarrow> (json \<Rightarrow> 'a option) \<Rightarrow> 'a option" where
  "fld ob k f = Option.bind (map_of ob k) f"

definition opt_fld :: "(string \<times> json) list \<Rightarrow> string \<Rightarrow> (json \<Rightarrow> 'a option) \<Rightarrow> 'a option option" where
  \<comment> \<open>an \<open>Option\<close> field: missing or \<open>null\<close> is \<open>None\<close>\<close>
  "opt_fld ob k f = (case map_of ob k of None \<Rightarrow> Some None | Some JNull \<Rightarrow> Some None
     | Some v \<Rightarrow> map_option Some (f v))"

section \<open>The byte codec\<close>

record json_codec =
  from_slice :: "bytes \<Rightarrow> json option"
  to_vec :: "json \<Rightarrow> bytes"

text \<open>
  The documents whose text reads back as the same tree: no object repeats a key, a negative number is
  in the range of \<open>i64\<close>, and there is no floating-point number (the library's default float parser is
  not exact).  A tree has the members of an object in the order of the text: the declared order for a
  derived struct writer (its reader goes by name), the sorted order for a \<open>Value\<close> or a map.
\<close>

fun json_wf :: "json \<Rightarrow> bool" where
  "json_wf (JNum (NegInt n)) = (- (2 ^ 63) \<le> n \<and> n < 0)"
| "json_wf (JNum (Float _)) = False"
| "json_wf (JArray xs) = list_all json_wf xs"
| "json_wf (JObject kvs) = (distinct (map fst kvs) \<and> list_all (\<lambda>(_, v). json_wf v) kvs)"
| "json_wf _ = True"

definition codec_ok :: "json_codec \<Rightarrow> bool" where
  "codec_ok c \<longleftrightarrow> (\<forall>v. json_wf v \<longrightarrow> from_slice c (to_vec c v) = Some v)"

lemma codec_okD [simp]: "codec_ok c \<Longrightarrow> json_wf v \<Longrightarrow> from_slice c (to_vec c v) = Some v"
  by (simp add: codec_ok_def)

lemma json_wf_strings [simp]: "json_wf (JArray (map JString ks))"
  by (simp add: list_all_iff)

text \<open>A concrete codec with that law: a value is written in unary by its place in an enumeration.\<close>

instance word :: (len) countable
  by (rule countable_classI[of unat]) (rule word_unat_eq_iff[THEN iffD2])

instance json_num :: countable
  by countable_datatype

instance json :: countable
  by countable_datatype

definition unary_codec :: json_codec where
  "unary_codec = \<lparr> from_slice = (\<lambda>b. Some (from_nat (length b))), to_vec = (\<lambda>v. replicate (to_nat v) 0) \<rparr>"

lemma codec_ok_unary [simp]: "codec_ok unary_codec"
  by (simp add: codec_ok_def unary_codec_def)

section \<open>Decimal integers\<close>

definition digit_char :: "nat \<Rightarrow> char" where
  "digit_char d = char_of (48 + d)"

definition digit_val :: "char \<Rightarrow> nat" where
  "digit_val c = of_char c - 48"

fun nat_to_string :: "nat \<Rightarrow> string" where
  "nat_to_string n =
     (if n < 10 then [digit_char n] else nat_to_string (n div 10) @ [digit_char (n mod 10)])"

declare nat_to_string.simps [simp del]

definition u64_to_string :: "u64 \<Rightarrow> string" where
  "u64_to_string n = nat_to_string (unat n)"

fun parse_digits :: "nat \<Rightarrow> nat \<Rightarrow> string \<Rightarrow> nat option" where
  \<comment> \<open>the accumulating loop of \<open>from_str_radix\<close>: each step may overflow the type's limit\<close>
  "parse_digits lim acc [] = Some acc"
| "parse_digits lim acc (c # cs) =
     (if is_ascii_digit c \<and> acc * 10 + digit_val c < lim
      then parse_digits lim (acc * 10 + digit_val c) cs
      else None)"

definition parse_u64 :: "string \<Rightarrow> u64 option" where
  "parse_u64 s =
     (let ds = (case s of [] \<Rightarrow> [] | c # cs \<Rightarrow> if c = CHR ''+'' then cs else s)
      in if ds = [] then None else map_option of_nat (parse_digits (2 ^ 64) 0 ds))"

lemma is_ascii_digit_iff: "is_ascii_digit c \<longleftrightarrow> 48 \<le> (of_char c :: nat) \<and> (of_char c :: nat) \<le> 57"
  by (simp add: is_ascii_digit_def less_eq_char_def)

lemma of_char_digit_char: "d < 10 \<Longrightarrow> (of_char (digit_char d) :: nat) = 48 + d"
  by (simp add: digit_char_def)

lemma digit_char_props [simp]:
  assumes "d < 10"
  shows "is_ascii_digit (digit_char d)" and "digit_val (digit_char d) = d"
  using assms by (simp_all add: is_ascii_digit_iff digit_val_def of_char_digit_char)

lemma nat_to_string_nonempty [simp]: "nat_to_string n \<noteq> []"
  by (subst nat_to_string.simps) simp

lemma nat_to_string_digits: "c \<in> set (nat_to_string n) \<Longrightarrow> is_ascii_digit c"
proof (induction n rule: nat_to_string.induct)
  case (1 n)
  then show ?case
    by (subst (asm) (2) nat_to_string.simps) (auto split: if_splits)
qed

lemma parse_digits_append:
  "parse_digits lim acc (xs @ ys) = Option.bind (parse_digits lim acc xs) (\<lambda>a. parse_digits lim a ys)"
  by (induction xs arbitrary: acc) auto

lemma parse_digits_nat_to_string: "n < lim \<Longrightarrow> parse_digits lim 0 (nat_to_string n) = Some n"
proof (induction n rule: nat_to_string.induct)
  case (1 n)
  show ?case
  proof (cases "n < 10")
    case True
    with 1 show ?thesis by (simp add: nat_to_string.simps[of n])
  next
    case False
    with 1 have "parse_digits lim 0 (nat_to_string (n div 10)) = Some (n div 10)" by simp
    with False 1 show ?thesis
      by (simp add: nat_to_string.simps[of n] parse_digits_append)
  qed
qed

lemma plus_no_digit: "\<not> is_ascii_digit (CHR ''+'')"
  by (simp add: is_ascii_digit_iff)

lemma parse_u64_to_string [simp]: "parse_u64 (u64_to_string n) = Some n"
proof -
  obtain c cs where s: "nat_to_string (unat n) = c # cs"
    by (cases "nat_to_string (unat n)") auto
  then have "is_ascii_digit c" using nat_to_string_digits[of c "unat n"] by simp
  then have "c \<noteq> CHR ''+''" using plus_no_digit by blast
  moreover have "unat n < 2 ^ 64" using unsigned_less[of n] by simp
  ultimately show ?thesis
    using parse_digits_nat_to_string[of "unat n" "2 ^ 64"] by (simp add: parse_u64_def u64_to_string_def s)
qed

end
