(* ===== verification/Monitor_Keys.thy ===== *)
theory Monitor_Keys
  imports Json
begin

text \<open>
  The monitor manifest of \<open>src/rust/src/vss/store.rs\<close>: the key format of a channel monitor
  (\<open>is_valid_monitor_key\<close>, \<open>monitor_vss_key\<close>), the parser of the \<open>_monitor_keys\<close> blob
  (\<open>parse_monitor_manifest\<close>) and the tracking set \<open>MonitorKeySet\<close>, which separates the keys the
  store is responsible for from those it may publish.
\<close>

type_synonym key = string

definition MONITOR_MANIFEST_KEY :: key where
  "MONITOR_MANIFEST_KEY = ''_monitor_keys''"

definition KNOWN_PEERS_VSS_KEY :: key where
  "KNOWN_PEERS_VSS_KEY = ''_known_peers''"

definition CLOSE_RECORDS_VSS_KEY :: key where
  "CLOSE_RECORDS_VSS_KEY = ''close_records''"

definition FORCE_CLOSE_RECOVERY_VSS_KEY :: key where
  "FORCE_CLOSE_RECOVERY_VSS_KEY = ''force_close_recovery''"

definition CHANNEL_MANAGER_VSS_KEY :: key where
  "CHANNEL_MANAGER_VSS_KEY = ''channel_manager''"

definition FIXED_REMOTE_KEYS :: "key list" where
  "FIXED_REMOTE_KEYS =
     [CHANNEL_MANAGER_VSS_KEY, MONITOR_MANIFEST_KEY, KNOWN_PEERS_VSS_KEY, CLOSE_RECORDS_VSS_KEY,
      FORCE_CLOSE_RECOVERY_VSS_KEY]"

lemmas fixed_key_defs =
  MONITOR_MANIFEST_KEY_def KNOWN_PEERS_VSS_KEY_def CLOSE_RECORDS_VSS_KEY_def
  FORCE_CLOSE_RECOVERY_VSS_KEY_def CHANNEL_MANAGER_VSS_KEY_def

definition MAX_MANIFEST_ENTRIES :: nat where
  "MAX_MANIFEST_ENTRIES = 1000"

section \<open>Monitor keys\<close>

definition is_valid_monitor_key :: "string \<Rightarrow> bool" where
  "is_valid_monitor_key k =
     (case split_once CHR '':'' k of
        None \<Rightarrow> False
      | Some (txid, index) \<Rightarrow>
          length txid = 64 \<and> list_all is_lower_hex txid \<and> index \<noteq> [] \<and> list_all is_ascii_digit index)"

definition hex_digit :: "nat \<Rightarrow> char" where
  "hex_digit d = (if d < 10 then char_of (48 + d) else char_of (87 + d))"

definition hex_str :: "bytes \<Rightarrow> string" where
  "hex_str bs = concat (map (\<lambda>b. [hex_digit (unat b div 16), hex_digit (unat b mod 16)]) bs)"

record funding_outpoint =
  fo_txid :: bytes \<comment> \<open>\<open>Txid::to_byte_array\<close>: the 32 raw bytes\<close>
  fo_index :: "16 word"

definition monitor_vss_key :: "funding_outpoint \<Rightarrow> string" where
  "monitor_vss_key fo = hex_str (fo_txid fo) @ CHR '':'' # nat_to_string (unat (fo_index fo))"

lemma is_lower_hex_iff:
  "is_lower_hex c \<longleftrightarrow>
     48 \<le> (of_char c :: nat) \<and> (of_char c :: nat) \<le> 57 \<or> 97 \<le> (of_char c :: nat) \<and> (of_char c :: nat) \<le> 102"
  by (simp add: is_lower_hex_def is_ascii_digit_iff less_eq_char_def)

lemma hex_digit_lower_hex: "d < 16 \<Longrightarrow> is_lower_hex (hex_digit d)"
  by (auto simp: is_lower_hex_iff hex_digit_def)

lemma byte_nibbles: "unat (b :: u8) div 16 < 16"
  using unsigned_less[where 'a = nat, of b] by (simp add: less_mult_imp_div_less)

lemma hex_str_lower_hex: "c \<in> set (hex_str bs) \<Longrightarrow> is_lower_hex c"
  by (auto simp: hex_str_def hex_digit_lower_hex byte_nibbles)

lemma length_hex_str: "length (hex_str bs) = 2 * length bs"
  by (induction bs) (auto simp: hex_str_def)

lemma colon_not_hex: "\<not> is_lower_hex CHR '':''"
  by (simp add: is_lower_hex_iff)

text \<open>Every key the wallet derives from a funding outpoint passes the manifest's own format check.\<close>

lemma monitor_vss_key_valid:
  assumes "length (fo_txid fo) = 32"
  shows "is_valid_monitor_key (monitor_vss_key fo)"
proof -
  have "CHR '':'' \<notin> set (hex_str (fo_txid fo))"
    using hex_str_lower_hex colon_not_hex by blast
  then have "split_once CHR '':'' (monitor_vss_key fo)
      = Some (hex_str (fo_txid fo), nat_to_string (unat (fo_index fo)))"
    by (simp add: monitor_vss_key_def split_once_Some)
  then show ?thesis
    using assms hex_str_lower_hex nat_to_string_digits
    by (auto simp: is_valid_monitor_key_def length_hex_str list_all_iff)
qed

lemma valid_monitor_key_not_fixed: "is_valid_monitor_key k \<Longrightarrow> k \<notin> set FIXED_REMOTE_KEYS"
  by (auto simp: FIXED_REMOTE_KEYS_def fixed_key_defs is_valid_monitor_key_def)

section \<open>Parsing the manifest\<close>

datatype manifest_error =
    ManifestNotJson
  | ManifestNotArray
  | ManifestEmpty
  | ManifestTooLong nat
  | ManifestInvalidKey json

fun manifest_keys :: "string set \<Rightarrow> string list \<Rightarrow> json list \<Rightarrow> manifest_error + string list" where
  "manifest_keys seen ks [] = Inr ks"
| "manifest_keys seen ks (entry # entries) =
     (case as_str entry of
        None \<Rightarrow> Inl (ManifestInvalidKey entry)
      | Some k \<Rightarrow>
          if \<not> is_valid_monitor_key k then Inl (ManifestInvalidKey entry)
          else if k \<in> seen then manifest_keys seen ks entries
          else manifest_keys (insert k seen) (ks @ [k]) entries)"

definition parse_monitor_manifest :: "json_codec \<Rightarrow> bytes \<Rightarrow> manifest_error + string list" where
  "parse_monitor_manifest c bs =
     (case from_slice c bs of
        None \<Rightarrow> Inl ManifestNotJson
      | Some parsed \<Rightarrow>
          (case as_array parsed of
             None \<Rightarrow> Inl ManifestNotArray
           | Some entries \<Rightarrow>
               if entries = [] then Inl ManifestEmpty
               else if length entries > MAX_MANIFEST_ENTRIES then Inl (ManifestTooLong (length entries))
               else manifest_keys {} [] entries))"

definition manifest_payload :: "json_codec \<Rightarrow> string list \<Rightarrow> bytes" where
  \<comment> \<open>\<open>serde_json::to_vec(&keys)\<close> of a \<open>Vec<String>\<close>\<close>
  "manifest_payload c ks = to_vec c (JArray (map JString ks))"

lemma manifest_keys_strings:
  assumes "\<forall>k \<in> set ks. is_valid_monitor_key k" and "distinct ks" and "set ks \<inter> seen = {}"
  shows "manifest_keys seen acc (map JString ks) = Inr (acc @ ks)"
  using assms
proof (induction ks arbitrary: seen acc)
  case (Cons k ks)
  then have "manifest_keys (insert k seen) (acc @ [k]) (map JString ks) = Inr ((acc @ [k]) @ ks)"
    by (intro Cons.IH) auto
  with Cons.prems show ?case by simp
qed simp

lemma manifest_keys_sound:
  assumes "manifest_keys seen acc es = Inr ks" and "distinct acc" and "seen = set acc"
    and "\<forall>k \<in> set acc. is_valid_monitor_key k"
  shows "distinct ks \<and> (\<forall>k \<in> set ks. is_valid_monitor_key k)
    \<and> length ks \<le> length acc + length es \<and> JString ` set ks = JString ` set acc \<union> set es"
  using assms
proof (induction seen acc es arbitrary: ks rule: manifest_keys.induct)
  case (1 seen acc)
  then show ?case by simp
next
  case (2 seen acc e es)
  from 2(3) obtain k where k: "e = JString k" "is_valid_monitor_key k"
    by (cases e) (auto split: if_splits)
  show ?case
  proof (cases "k \<in> seen")
    case True
    with k 2(3) have "manifest_keys seen acc es = Inr ks" by simp
    with 2(1)[of k ks] k True 2(4-6) show ?thesis by auto
  next
    case False
    with k 2(3) have "manifest_keys (insert k seen) (acc @ [k]) es = Inr ks" by simp
    with 2(2)[of k ks] k False 2(4-6) show ?thesis by auto
  qed
qed

lemma parse_monitor_manifest_sound:
  assumes "parse_monitor_manifest c bs = Inr ks"
  shows "ks \<noteq> [] \<and> distinct ks \<and> length ks \<le> MAX_MANIFEST_ENTRIES \<and> (\<forall>k \<in> set ks. is_valid_monitor_key k)"
proof -
  from assms obtain es where es: "from_slice c bs = Some (JArray es)" "es \<noteq> []"
      "length es \<le> MAX_MANIFEST_ENTRIES" "manifest_keys {} [] es = Inr ks"
    by (auto simp: parse_monitor_manifest_def split: option.splits if_splits elim: as_array.elims)
  with manifest_keys_sound[of "{}" "[]" es ks] show ?thesis by auto
qed

text \<open>
  What a manifest write puts on the wire is exactly what the parser gives back, provided the list is
  neither empty nor longer than the cap; past the cap the wallet's own parser rejects it.
\<close>

lemma parse_manifest_payload:
  assumes "codec_ok c" and "\<forall>k \<in> set ks. is_valid_monitor_key k" and "distinct ks"
  shows "parse_monitor_manifest c (manifest_payload c ks) =
    (if ks = [] then Inl ManifestEmpty
     else if length ks > MAX_MANIFEST_ENTRIES then Inl (ManifestTooLong (length ks))
     else Inr ks)"
  using assms manifest_keys_strings[of ks "{}" "[]"] codec_okD[OF assms(1) json_wf_strings[of ks]]
  by (simp add: parse_monitor_manifest_def manifest_payload_def)

section \<open>MonitorKeySet\<close>

datatype key_provenance = Publishable | Unverified

record monitor_key_set =
  mks_keys :: "(key \<times> key_provenance) list"

definition with_provenance :: "key list \<Rightarrow> key_provenance \<Rightarrow> monitor_key_set" where
  "with_provenance ks p = \<lparr> mks_keys = bt_of_list (map (\<lambda>k. (k, p)) ks) \<rparr>"

definition tracked_only :: "key list \<Rightarrow> monitor_key_set" where
  "tracked_only ks = with_provenance ks Unverified"

definition all_publishable :: "key list \<Rightarrow> monitor_key_set" where
  "all_publishable ks = with_provenance ks Publishable"

definition from_parts :: "key list \<Rightarrow> key set \<Rightarrow> monitor_key_set" where
  "from_parts tracked publ =
     \<lparr> mks_keys = bt_of_list (map (\<lambda>k. (k, if k \<in> publ then Publishable else Unverified)) tracked) \<rparr>"

definition insert_unverified :: "key \<Rightarrow> monitor_key_set \<Rightarrow> monitor_key_set" where
  "insert_unverified k m =
     (case bt_get (mks_keys m) k of
        Some _ \<Rightarrow> m
      | None \<Rightarrow> m\<lparr> mks_keys := bt_insert k Unverified (mks_keys m) \<rparr>)"

definition mark_publishable :: "key \<Rightarrow> monitor_key_set \<Rightarrow> monitor_key_set" where
  "mark_publishable k m = m\<lparr> mks_keys := bt_insert k Publishable (mks_keys m) \<rparr>"

definition extend_publishable :: "key list \<Rightarrow> monitor_key_set \<Rightarrow> monitor_key_set" where
  "extend_publishable ks m = fold mark_publishable ks m"

definition mks_remove :: "key \<Rightarrow> monitor_key_set \<Rightarrow> monitor_key_set" where
  "mks_remove k m = m\<lparr> mks_keys := bt_remove k (mks_keys m) \<rparr>"

definition mks_is_empty :: "monitor_key_set \<Rightarrow> bool" where
  "mks_is_empty m \<longleftrightarrow> mks_keys m = []"

definition publishable :: "monitor_key_set \<Rightarrow> key list" where
  "publishable m = map fst (filter (\<lambda>(_, p). p = Publishable) (mks_keys m))"

definition provenance :: "monitor_key_set \<Rightarrow> key \<Rightarrow> key_provenance option" where
  "provenance m k = bt_get (mks_keys m) k"

definition mks_wf :: "monitor_key_set \<Rightarrow> bool" where
  "mks_wf m \<longleftrightarrow> bt_wf (mks_keys m)"

named_theorems mks_simps \<open>what each MonitorKeySet operation does to the provenance of every key\<close>

lemma provenance_insert_unverified [mks_simps]:
  "provenance (insert_unverified k m) =
     (case provenance m k of Some _ \<Rightarrow> provenance m | None \<Rightarrow> (provenance m)(k \<mapsto> Unverified))"
  by (auto simp: provenance_def insert_unverified_def bt_get_insert fun_eq_iff split: option.splits)

lemma provenance_mark_publishable [mks_simps]:
  "provenance (mark_publishable k m) = (provenance m)(k \<mapsto> Publishable)"
  by (simp add: provenance_def mark_publishable_def bt_get_insert fun_eq_iff)

lemma provenance_extend_publishable [mks_simps]:
  "provenance (extend_publishable ks m) = (\<lambda>k. if k \<in> set ks then Some Publishable else provenance m k)"
  unfolding extend_publishable_def
  by (induction ks arbitrary: m) (auto simp: mks_simps fun_eq_iff)

lemma provenance_remove [mks_simps]:
  "mks_wf m \<Longrightarrow> provenance (mks_remove k m) = (provenance m)(k := None)"
  by (simp add: provenance_def mks_remove_def mks_wf_def bt_get_remove fun_eq_iff)

lemma mks_wf_ops [intro, simp]:
  "mks_wf (with_provenance ks p)"
  "mks_wf (from_parts ks P)"
  "mks_wf m \<Longrightarrow> mks_wf (insert_unverified k m)"
  "mks_wf m \<Longrightarrow> mks_wf (mark_publishable k m)"
  "mks_wf m \<Longrightarrow> mks_wf (mks_remove k m)"
  by (auto simp: mks_wf_def with_provenance_def from_parts_def insert_unverified_def
      mark_publishable_def mks_remove_def split: option.splits)

lemma mks_wf_extend [intro, simp]: "mks_wf m \<Longrightarrow> mks_wf (extend_publishable ks m)"
  unfolding extend_publishable_def by (induction ks arbitrary: m) auto

lemma set_publishable:
  assumes "mks_wf m"
  shows "set (publishable m) = {k. provenance m k = Some Publishable}"
  using bt_get_mem[OF assms[unfolded mks_wf_def]]
  by (force simp: publishable_def provenance_def)

lemma sorted_map_fst_filter: "sorted_wrt (<) (map fst xs) \<Longrightarrow> sorted_wrt (<) (map fst (filter P xs))"
  by (induction xs) auto

lemma sorted_publishable: "mks_wf m \<Longrightarrow> sorted_wrt (<) (publishable m)"
  unfolding mks_wf_def bt_wf_def publishable_def by (rule sorted_map_fst_filter)

lemma distinct_publishable: "mks_wf m \<Longrightarrow> distinct (publishable m)"
  using sorted_publishable by (auto simp: strict_sorted_iff)

lemma publishable_Nil_iff: "mks_wf m \<Longrightarrow> publishable m = [] \<longleftrightarrow> (\<forall>k. provenance m k \<noteq> Some Publishable)"
  using set_publishable[of m] by (metis (mono_tags, lifting) empty_iff list.set(1) mem_Collect_eq set_empty subsetI subset_empty)

text \<open>The order in which evidence accumulates: nothing tracked, tracked only, publishable.\<close>

definition prov_le :: "key_provenance option \<Rightarrow> key_provenance option \<Rightarrow> bool" where
  "prov_le a b \<longleftrightarrow> a = None \<or> a = b \<or> b = Some Publishable"

definition mks_le :: "monitor_key_set \<Rightarrow> monitor_key_set \<Rightarrow> bool" where
  "mks_le m m' \<longleftrightarrow> (\<forall>k. prov_le (provenance m k) (provenance m' k))"

lemma mks_le_refl [simp]: "mks_le m m"
  by (simp add: mks_le_def prov_le_def)

lemma mks_le_trans: "mks_le a b \<Longrightarrow> mks_le b c \<Longrightarrow> mks_le a c"
  unfolding mks_le_def prov_le_def by (metis option.distinct(1))

lemma mks_le_ops [simp]:
  "mks_le m (insert_unverified k m)"
  "mks_le m (mark_publishable k m)"
  "mks_le m (extend_publishable ks m)"
  by (auto simp: mks_le_def prov_le_def mks_simps split: option.splits)

lemma mks_le_publishable: "mks_le m m' \<Longrightarrow> provenance m k = Some Publishable \<Longrightarrow> provenance m' k = Some Publishable"
  by (auto simp: mks_le_def prov_le_def dest: spec[of _ k])

end
