(* ===== verification/Local_Store.thy ===== *)
theory Local_Store
  imports Prelude "HOL-Library.AList"
begin

text \<open>
  The local key-value store, LDK's \<open>FilesystemStore\<close> behind the \<open>KVStoreSync\<close> interface: a record of
  its four operations over a state of any type. Its contract is stated as locales, \<open>kv_store\<close> (what
  was written reads back, other keys are untouched) and \<open>listed_store\<close> (a listing names exactly the
  readable keys), \<open>atomic_store\<close> (a failed write changes nothing, as the store's write to a temporary
  file and rename provides) and \<open>removable_store\<close> (a removal affects its key only). An in-memory disk and one with a write quota meet the contract.
\<close>

type_synonym io_error = string

record 'l disk =
  d_read :: "string \<Rightarrow> string \<Rightarrow> string \<Rightarrow> 'l \<Rightarrow> (io_error + bytes)"
  d_write :: "string \<Rightarrow> string \<Rightarrow> string \<Rightarrow> bytes \<Rightarrow> 'l \<Rightarrow> (io_error + unit) \<times> 'l"
  d_remove :: "string \<Rightarrow> string \<Rightarrow> string \<Rightarrow> bool \<Rightarrow> 'l \<Rightarrow> (io_error + unit) \<times> 'l"
  d_list :: "string \<Rightarrow> string \<Rightarrow> 'l \<Rightarrow> (io_error + string list)"

locale kv_store =
  fixes rd :: "string \<Rightarrow> string \<Rightarrow> string \<Rightarrow> 's \<Rightarrow> io_error + bytes"
    and wr :: "string \<Rightarrow> string \<Rightarrow> string \<Rightarrow> bytes \<Rightarrow> 's \<Rightarrow> (io_error + unit) \<times> 's"
  assumes read_written: "wr p q k b s = (Inr (), s') \<Longrightarrow> rd p q k s' = Inr b"
    and read_other: "wr p q k b s = (res, s') \<Longrightarrow> (p', q', k') \<noteq> (p, q, k) \<Longrightarrow> rd p' q' k' s' = rd p' q' k' s"

locale listed_store = kv_store rd wr
  for rd :: "string \<Rightarrow> string \<Rightarrow> string \<Rightarrow> 's \<Rightarrow> io_error + bytes"
    and wr :: "string \<Rightarrow> string \<Rightarrow> string \<Rightarrow> bytes \<Rightarrow> 's \<Rightarrow> (io_error + unit) \<times> 's" +
  fixes ls :: "string \<Rightarrow> string \<Rightarrow> 's \<Rightarrow> io_error + string list"
  assumes lists: "ls p q s = Inr ks \<Longrightarrow> k \<in> set ks \<longleftrightarrow> (\<exists>b. rd p q k s = Inr b)"

locale atomic_store = listed_store rd wr ls
  for rd :: "string \<Rightarrow> string \<Rightarrow> string \<Rightarrow> 's \<Rightarrow> io_error + bytes"
    and wr :: "string \<Rightarrow> string \<Rightarrow> string \<Rightarrow> bytes \<Rightarrow> 's \<Rightarrow> (io_error + unit) \<times> 's"
    and ls :: "string \<Rightarrow> string \<Rightarrow> 's \<Rightarrow> io_error + string list" +
  assumes failed_write: "wr p q k b s = (Inl err, s') \<Longrightarrow> rd p q k s' = rd p q k s"
begin

lemma read_after_write:
  assumes "wr p q k b s = (res, s')"
  shows "rd p' q' k' s' = (if (p', q', k') = (p, q, k) \<and> res = Inr () then Inr b else rd p' q' k' s)"
proof (cases res)
  case (Inl err)
  with assms failed_write read_other show ?thesis by (metis Inl_Inr_False prod.inject)
next
  case (Inr u)
  with assms read_written read_other show ?thesis by (cases u) fastforce
qed

end

locale removable_store = atomic_store rd wr ls
  for rd :: "string \<Rightarrow> string \<Rightarrow> string \<Rightarrow> 's \<Rightarrow> io_error + bytes"
    and wr :: "string \<Rightarrow> string \<Rightarrow> string \<Rightarrow> bytes \<Rightarrow> 's \<Rightarrow> (io_error + unit) \<times> 's"
    and ls :: "string \<Rightarrow> string \<Rightarrow> 's \<Rightarrow> io_error + string list" +
  fixes rm :: "string \<Rightarrow> string \<Rightarrow> string \<Rightarrow> bool \<Rightarrow> 's \<Rightarrow> (io_error + unit) \<times> 's"
  assumes read_after_remove: "rm p q k lazy s = (res, s') \<Longrightarrow>
    rd p' q' k' s' = Inr b \<longleftrightarrow> rd p' q' k' s = Inr b \<and> ((p', q', k') \<noteq> (p, q, k) \<or> res \<noteq> Inr ())"

section \<open>An in-memory disk\<close>

type_synonym mem = "((string \<times> string \<times> string) \<times> bytes) list"

definition mem_read :: "string \<Rightarrow> string \<Rightarrow> string \<Rightarrow> mem \<Rightarrow> io_error + bytes" where
  "mem_read p q k l = (case map_of l (p, q, k) of None \<Rightarrow> Inl ''NotFound'' | Some b \<Rightarrow> Inr b)"

definition mem_write :: "string \<Rightarrow> string \<Rightarrow> string \<Rightarrow> bytes \<Rightarrow> mem \<Rightarrow> (io_error + unit) \<times> mem" where
  "mem_write p q k b l = (Inr (), AList.update (p, q, k) b l)"

definition mem_remove :: "string \<Rightarrow> string \<Rightarrow> string \<Rightarrow> bool \<Rightarrow> mem \<Rightarrow> (io_error + unit) \<times> mem" where
  "mem_remove p q k lazy l = (Inr (), AList.delete (p, q, k) l)"

definition mem_list :: "string \<Rightarrow> string \<Rightarrow> mem \<Rightarrow> io_error + string list" where
  "mem_list p q l = Inr (remdups (map (\<lambda>(i, _). snd (snd i)) (filter (\<lambda>(i, _). fst i = p \<and> fst (snd i) = q) l)))"

definition mem_disk :: "mem disk" where
  "mem_disk = \<lparr> d_read = mem_read, d_write = mem_write, d_remove = mem_remove, d_list = mem_list \<rparr>"

lemma mem_read_Inr: "mem_read p q k l = Inr b \<longleftrightarrow> map_of l (p, q, k) = Some b"
  by (simp add: mem_read_def split: option.splits)

lemma mem_list_mem: "mem_list p q l = Inr ks \<Longrightarrow> k \<in> set ks \<longleftrightarrow> (\<exists>b. mem_read p q k l = Inr b)"
proof -
  assume "mem_list p q l = Inr ks"
  then have "set ks = {k. (p, q, k) \<in> fst ` set l}"
    by (force simp: mem_list_def)
  then show ?thesis
    by (metis (no_types, lifting) mem_Collect_eq mem_read_Inr map_of_eq_None_iff not_Some_eq)
qed

interpretation mem_kv: removable_store "d_read mem_disk" "d_write mem_disk" "d_list mem_disk" "d_remove mem_disk"
  by unfold_locales
    (auto simp: mem_disk_def mem_read_def mem_write_def mem_remove_def update_conv' delete_conv' mem_list_mem
      split: option.splits if_splits)

text \<open>A disk with room for a bounded number of writes: it fails once the quota is used up.\<close>

definition quota_write :: "string \<Rightarrow> string \<Rightarrow> string \<Rightarrow> bytes \<Rightarrow> nat \<times> mem \<Rightarrow> (io_error + unit) \<times> nat \<times> mem" where
  "quota_write p q k b s =
     (case s of (0, l) \<Rightarrow> (Inl ''StorageFull'', (0, l))
      | (Suc n, l) \<Rightarrow> (Inr (), (n, AList.update (p, q, k) b l)))"

definition quota_disk :: "(nat \<times> mem) disk" where
  "quota_disk = \<lparr> d_read = (\<lambda>p q k s. mem_read p q k (snd s)), d_write = quota_write,
     d_remove = (\<lambda>p q k lazy s. (Inr (), fst s, AList.delete (p, q, k) (snd s))),
     d_list = (\<lambda>p q s. mem_list p q (snd s)) \<rparr>"

interpretation quota_kv: removable_store "d_read quota_disk" "d_write quota_disk" "d_list quota_disk" "d_remove quota_disk"
  by unfold_locales
    (auto simp: quota_disk_def mem_read_def quota_write_def update_conv' delete_conv' mem_list_mem
      split: option.splits prod.splits nat.splits if_splits)

end
