(* ===== verification/Vss_Transport.thy ===== *)
theory Vss_Transport
  imports Monitor_Keys Local_Store
begin

text \<open>
  The remote interface the VSS store is built on (the local one is in \<open>Local_Store\<close>).

  \<^item> \<open>VssTransport\<close> of \<open>src/rust/src/vss/store.rs\<close>: versioned remote objects.  An implementation
    is a record of operations over a state \<open>'r\<close> that stands for the remote side and the network
    (record \<open>transport\<close>); a call returns its result and the next remote state, so any behaviour of
    the network, of the server and of the calls' failures is an instance.

  The locale \<open>vss_server\<close> states what the transport promises to a sole writer.  One call may stand
  for several requests, because the wire client repeats a request after a transient failure, so the
  laws allow every acknowledgement to be lost: a put may be applied and reported as an error, and it
  may be applied and then reported as a conflict, which its own repetition met; a delete may be
  applied and reported as an error.  \<open>MockTransport\<close> of \<open>src/rust/src/vss/mod.rs\<close>, the in-memory
  server of the repository, is modelled here and interprets the locale; so does the wire client of
  \<open>Vss_Client\<close> over any lawful server.
\<close>

section \<open>Errors\<close>

datatype crypto_error = BlobTooShort | DecryptFailed

datatype vss_error =
    Conflict string
  | InvalidRequest string
  | Auth string
  | NoSuchKey string
  | InternalServer string
  | Http "16 word" string
  | Network string
  | Crypto crypto_error
  | TooManyListPages

fun is_conflict :: "vss_error \<Rightarrow> bool" where
  "is_conflict (Conflict _) = True"
| "is_conflict _ = False"

section \<open>The transport interface\<close>

type_synonym version = i64
type_synonym versioned_value = "(bytes \<times> version) option"

record 'r transport =
  t_get :: "key \<Rightarrow> 'r \<Rightarrow> (vss_error + versioned_value) \<times> 'r"
  t_get_by_stored_key :: "string \<Rightarrow> 'r \<Rightarrow> (vss_error + versioned_value) \<times> 'r"
  t_put :: "key \<Rightarrow> bytes \<Rightarrow> version \<Rightarrow> 'r \<Rightarrow> (vss_error + version) \<times> 'r"
  t_put_many :: "(key \<times> bytes \<times> version) list \<Rightarrow> 'r \<Rightarrow> (vss_error + unit) \<times> 'r"
  t_delete :: "key \<Rightarrow> version \<Rightarrow> 'r \<Rightarrow> (vss_error + unit) \<times> 'r"
  t_list :: "'r \<Rightarrow> (vss_error + (string \<times> version) list) \<times> 'r"
  t_obfuscate :: "key \<Rightarrow> string"

section \<open>What a VSS server promises a sole writer\<close>

definition version_of :: "versioned_value \<Rightarrow> version" where
  "version_of v = (case v of None \<Rightarrow> 0 | Some (_, n) \<Rightarrow> n)"

lemma version_of_simps [simp]: "version_of None = 0" "version_of (Some (b, n)) = n"
  by (simp_all add: version_of_def)

locale vss_server =
  fixes t :: "'r transport" and srv :: "'r \<Rightarrow> key \<rightharpoonup> bytes \<times> version"
  assumes put_ok: "t_put t k b v w = (Inr v', w') \<Longrightarrow>
      version_of (srv w k) = v \<and> v' = v + 1 \<and> srv w' = (srv w)(k \<mapsto> (b, v + 1))"
    and put_conflict: "t_put t k b v w = (Inl (Conflict m), w') \<Longrightarrow>
      version_of (srv w k) \<noteq> v \<and> srv w' = srv w
      \<or> version_of (srv w k) = v \<and> srv w' = (srv w)(k \<mapsto> (b, v + 1))"
    and put_error: "t_put t k b v w = (Inl e, w') \<Longrightarrow> \<not> is_conflict e \<Longrightarrow>
      srv w' = srv w \<or> version_of (srv w k) = v \<and> srv w' = (srv w)(k \<mapsto> (b, v + 1))"
    and get_ok: "t_get t k w = (Inr r, w') \<Longrightarrow> r = srv w k \<and> srv w' = srv w"
    and get_error: "t_get t k w = (Inl e, w') \<Longrightarrow> srv w' = srv w"
    and delete_ok: "t_delete t k v w = (Inr u, w') \<Longrightarrow> srv w' = (srv w)(k := None)"
    and delete_error: "t_delete t k v w = (Inl e, w') \<Longrightarrow> srv w' = srv w \<or> srv w' = (srv w)(k := None)"
begin

lemma put_other_key:
  assumes "t_put t k b v w = (r, w')" and "k' \<noteq> k"
  shows "srv w' k' = srv w k'"
proof (cases r)
  case (Inl e)
  show ?thesis
  proof (cases "is_conflict e")
    case True
    then obtain m where "e = Conflict m" by (cases e) auto
    with put_conflict[of k b v w m w'] assms Inl show ?thesis by auto
  next
    case False
    with put_error[of k b v w e w'] assms Inl show ?thesis by auto
  qed
next
  case (Inr v')
  with put_ok[of k b v w v' w'] assms show ?thesis by simp
qed

lemma get_frame: "t_get t k w = (r, w') \<Longrightarrow> srv w' = srv w"
  by (cases r) (auto dest: get_ok get_error)

text \<open>The ways a put can leave the object it addresses.\<close>

lemma put_cases:
  assumes "t_put t k b v w = (r, w')"
  obtains (ok) "r = Inr (v + 1)" "version_of (srv w k) = v" "srv w' = (srv w)(k \<mapsto> (b, v + 1))"
  | (conflict) m where "r = Inl (Conflict m)" "version_of (srv w k) \<noteq> v" "srv w' = srv w"
  | (conflict_landed) m where "r = Inl (Conflict m)" "version_of (srv w k) = v"
      "srv w' = (srv w)(k \<mapsto> (b, v + 1))"
  | (lost_ack) e where "r = Inl e" "\<not> is_conflict e" "version_of (srv w k) = v"
      "srv w' = (srv w)(k \<mapsto> (b, v + 1))"
  | (not_applied) e where "r = Inl e" "\<not> is_conflict e" "srv w' = srv w"
proof (cases r)
  case (Inl e)
  show ?thesis
  proof (cases "is_conflict e")
    case True
    then obtain m where "e = Conflict m" by (cases e) auto
    with put_conflict[of k b v w m w'] assms Inl conflict conflict_landed show ?thesis by auto
  next
    case False
    with put_error[of k b v w e w'] assms Inl lost_ack not_applied show ?thesis by auto
  qed
next
  case (Inr v')
  with put_ok[of k b v w v' w'] assms ok show ?thesis by auto
qed

end

section \<open>The in-memory server of the repository\<close>

record mock =
  m_state :: "key \<rightharpoonup> bytes \<times> version"
  m_fail_puts :: bool
  m_fail_gets :: bool
  m_fail_put_many :: bool
  m_fail_list :: bool
  m_fail_puts_keys :: "key set"
  m_fail_gets_keys :: "key set"
  m_undecryptable_keys :: "key set"
  m_commit_then_fail_keys :: "key set"
  m_put_attempts :: "(key \<times> bytes \<times> version) list"
  m_put_many_calls :: "(key \<times> bytes \<times> version) list list"
  m_get_calls :: "key list"
  m_list_calls :: nat
  m_keys :: "key list" \<comment> \<open>an enumeration of the keys of \<open>m_state\<close>, in the hash map's iteration order\<close>

definition mock_new :: mock where
  "mock_new = \<lparr> m_state = Map.empty, m_fail_puts = False, m_fail_gets = False,
     m_fail_put_many = False, m_fail_list = False, m_fail_puts_keys = {}, m_fail_gets_keys = {},
     m_undecryptable_keys = {}, m_commit_then_fail_keys = {}, m_put_attempts = [],
     m_put_many_calls = [], m_get_calls = [], m_list_calls = 0, m_keys = [] \<rparr>"

definition mock_store :: "key \<Rightarrow> bytes \<times> version \<Rightarrow> mock \<Rightarrow> mock" where
  "mock_store k x m = m\<lparr> m_state := (m_state m)(k \<mapsto> x),
     m_keys := (if k \<in> set (m_keys m) then m_keys m else m_keys m @ [k]) \<rparr>"

definition mock_put_sync :: "key \<Rightarrow> bytes \<Rightarrow> version \<Rightarrow> mock \<Rightarrow> (vss_error + version) \<times> mock" where
  "mock_put_sync k b v m0 =
     (let m = m0\<lparr> m_put_attempts := m_put_attempts m0 @ [(k, b, v)] \<rparr> in
      if m_fail_puts m \<or> k \<in> m_fail_puts_keys m
      then (Inl (InternalServer ''mock: put failure injected''), m)
      else let current = version_of (m_state m k) in
        if v \<noteq> current then (Inl (Conflict ''mock: version mismatch''), m)
        else let m' = mock_store k (b, v + 1) m in
          if k \<in> m_commit_then_fail_keys m'
          then (Inl (Network ''mock: put committed but the acknowledgement was lost''), m')
          else (Inr (v + 1), m'))"

definition mock_get :: "key \<Rightarrow> mock \<Rightarrow> (vss_error + versioned_value) \<times> mock" where
  "mock_get k m0 =
     (let m = m0\<lparr> m_get_calls := m_get_calls m0 @ [k] \<rparr> in
      (if m_fail_gets m \<or> k \<in> m_fail_gets_keys m
       then Inl (Network ''mock: get failure injected'')
       else if k \<in> m_undecryptable_keys m then Inl (Crypto DecryptFailed)
       else Inr (m_state m k), m))"

definition mock_put_many :: "(key \<times> bytes \<times> version) list \<Rightarrow> mock \<Rightarrow> (vss_error + unit) \<times> mock" where
  "mock_put_many items m0 =
     (let m = m0\<lparr> m_put_many_calls := m_put_many_calls m0 @ [items] \<rparr> in
      if m_fail_put_many m then (Inl (InternalServer ''mock: put_many failure injected''), m)
      else (case find (\<lambda>(k, _, v). v \<noteq> version_of (m_state m k)) items of
              Some _ \<Rightarrow> (Inl (Conflict ''mock: transactional conflict''), m)
            | None \<Rightarrow> (Inr (), fold (\<lambda>(k, b, v). mock_store k (b, v + 1)) items m)))"

definition mock_delete :: "key \<Rightarrow> version \<Rightarrow> mock \<Rightarrow> (vss_error + unit) \<times> mock" where
  "mock_delete k v m =
     (case m_state m k of
        Some (_, current) \<Rightarrow>
          if current \<noteq> v then (Inl (Conflict ''mock: delete version mismatch''), m)
          else (Inr (), m\<lparr> m_state := (m_state m)(k := None), m_keys := removeAll k (m_keys m) \<rparr>)
      | None \<Rightarrow> (Inr (), m\<lparr> m_state := (m_state m)(k := None), m_keys := removeAll k (m_keys m) \<rparr>))"

definition mock_list_key_versions :: "mock \<Rightarrow> (vss_error + (string \<times> version) list) \<times> mock" where
  "mock_list_key_versions m0 =
     (let m = m0\<lparr> m_list_calls := m_list_calls m0 + 1 \<rparr> in
      (if m_fail_list m then Inl (Network ''mock: list failure injected'')
       else Inr (map (\<lambda>k. (k, version_of (m_state m k))) (m_keys m)), m))"

definition mock_transport :: "mock transport" where
  "mock_transport = \<lparr> t_get = mock_get, t_get_by_stored_key = mock_get, t_put = mock_put_sync,
     t_put_many = mock_put_many, t_delete = mock_delete, t_list = mock_list_key_versions,
     t_obfuscate = (\<lambda>k. k) \<rparr>"

lemma mock_transport_sel [simp]:
  "t_get mock_transport = mock_get" "t_put mock_transport = mock_put_sync"
  "t_delete mock_transport = mock_delete" "t_list mock_transport = mock_list_key_versions"
  "t_put_many mock_transport = mock_put_many" "t_get_by_stored_key mock_transport = mock_get"
  "t_obfuscate mock_transport = (\<lambda>k. k)"
  by (simp_all add: mock_transport_def)

lemma mock_store_state [simp]: "m_state (mock_store k x m) = (m_state m)(k \<mapsto> x)"
  by (simp add: mock_store_def)

interpretation mock_srv: vss_server mock_transport m_state
  by unfold_locales
    (auto simp: mock_put_sync_def mock_get_def mock_delete_def Let_def mock_store_def
      split: if_splits option.splits prod.splits)

end
