(* ===== verification/Vss_Store.thy ===== *)
theory Vss_Store
  imports Vss_Transport
begin

text \<open>
  The dual-write store of \<open>src/rust/src/vss/store.rs\<close>, operation by operation: the fund-critical
  put loop with its content-compare fence, the gating and the best-effort manifest writes, the
  monitor write job, the bounded channel-manager attempt, the last-writer-wins and merge writes,
  archiving, and the \<open>DualWriteKvStore\<close> front.

  The struct \<open>Inner\<close> is the record \<open>inner\<close>.  Its immutable parts (transport, disk, codec, tuning)
  are the record \<open>env\<close>.  \<open>rem\<close> and \<open>loc\<close> are the states of the remote side and of the disk;
  \<open>client\<close> is the state a merge callback closes over.  The completion sink and the event sink are
  the lists \<open>completed\<close> and \<open>events\<close> of what was reported.  Messages that only carry formatted
  text are represented by the values formatted into them; log lines are omitted.  The \<open>await\<close>ed
  retry loops run forever in the source, so each takes a fuel argument and returns \<open>None\<close> while it
  is still retrying; durations are in milliseconds.  Tasks the source spawns are queued in
  \<open>tasks\<close>; a step of the caller executes one of them, in any order.
\<close>

section \<open>State\<close>

record retry_tuning =
  initial_backoff :: nat
  max_backoff :: nat
  degraded_after :: nat
  cm_attempt_timeout :: nat

definition default_tuning :: retry_tuning where
  "default_tuning = \<lparr> initial_backoff = 500, max_backoff = 60000, degraded_after = 10000,
     cm_attempt_timeout = 10000 \<rparr>"

datatype fence_detail =
    DivergentKey key version
  | DivergentChannelManager version

datatype store_event =
    Fenced fence_detail
  | BackupDegradedKey key nat
  | BackupDegradedManifest nat

type_synonym channel_id = bytes

record monitor_write =
  monitor_name :: string
  vss_key :: key
  local_key :: string
  mw_channel_id :: channel_id
  update_id :: u64
  mw_bytes :: bytes

record 'c monitor =
  \<comment> \<open>what \<open>extract_monitor_write\<close> reads of LDK's \<open>ChannelMonitor\<close>\<close>
  mon_funding_txo :: funding_outpoint
  mon_channel_id :: channel_id
  mon_latest_update_id :: u64
  mon_encoded :: bytes
  mon_persistence_key :: string

definition extract_monitor_write :: "string \<Rightarrow> 'c monitor \<Rightarrow> monitor_write" where
  "extract_monitor_write name m =
     \<lparr> monitor_name = name, vss_key = monitor_vss_key (mon_funding_txo m), local_key = name,
       mw_channel_id = mon_channel_id m, update_id = mon_latest_update_id m,
       mw_bytes = mon_encoded m \<rparr>"

type_synonym 'c merge_fn = "bytes \<Rightarrow> 'c \<Rightarrow> bytes \<times> 'c"

datatype (dead 'c) job =
    MonitorJob monitor_write bool
  | LwwJob key bytes
  | MergeJob key bytes "'c merge_fn"
  | DeleteJob key
  | ManifestJob
  | ArchiveJob key

record ('r, 'l, 'c) env =
  e_remote :: "'r transport option"
  e_local :: "'l disk"
  e_codec :: json_codec
  e_tuning :: retry_tuning
  e_write_flag :: "fence_detail \<Rightarrow> 'l \<Rightarrow> (io_error + unit) \<times> 'l"
  e_flag_exists :: "'l \<Rightarrow> bool"
  e_elapsed :: "'r \<Rightarrow> bool" \<comment> \<open>whether the bounded attempt's timer fired before the reply\<close>

record ('r, 'l, 'c) inner =
  rem :: 'r
  loc :: 'l
  client :: 'c
  versions :: "key \<rightharpoonup> version"
  monitor_keys :: monitor_key_set
  name_to_vss_key :: "string \<rightharpoonup> key"
  chains :: "key \<rightharpoonup> nat"
  tasks :: "(nat option \<times> 'c job) list" \<comment> \<open>spawned tasks: the task awaited first, and the work\<close>
  completion :: bool
  completed :: "(channel_id \<times> u64) list"
  fenced :: bool
  cm_pending :: "bytes option"
  events :: "store_event list"
  probe_empty :: bool

definition vss_new ::
  "('r, 'l, 'c) env \<Rightarrow> 'r \<Rightarrow> 'l \<Rightarrow> 'c \<Rightarrow> (key \<rightharpoonup> version) \<Rightarrow> monitor_key_set \<Rightarrow> bool \<Rightarrow> ('r, 'l, 'c) inner"
where
  "vss_new e r l c vs mks pe =
     \<lparr> rem = r, loc = l, client = c, versions = vs, monitor_keys = mks, name_to_vss_key = Map.empty,
       chains = Map.empty, tasks = [], completion = False, completed = [],
       fenced = e_flag_exists e l, cm_pending = None, events = [], probe_empty = pe \<rparr>"

definition set_completion_sink :: "('r, 'l, 'c) inner \<Rightarrow> ('r, 'l, 'c) inner" where
  "set_completion_sink s = s\<lparr> completion := True \<rparr>"

definition cached_version :: "('r, 'l, 'c) inner \<Rightarrow> key \<Rightarrow> version" where
  "cached_version s k = (case versions s k of Some v \<Rightarrow> v | None \<Rightarrow> 0)"

definition record_version :: "key \<Rightarrow> version \<Rightarrow> ('r, 'l, 'c) inner \<Rightarrow> ('r, 'l, 'c) inner" where
  "record_version k v s = s\<lparr> versions := (versions s)(k \<mapsto> v) \<rparr>"

definition update_keys ::
  "(monitor_key_set \<Rightarrow> monitor_key_set) \<Rightarrow> ('r, 'l, 'c) inner \<Rightarrow> ('r, 'l, 'c) inner"
where
  "update_keys f s = s\<lparr> monitor_keys := f (monitor_keys s) \<rparr>"

definition enqueue :: "key \<Rightarrow> 'c job \<Rightarrow> ('r, 'l, 'c) inner \<Rightarrow> ('r, 'l, 'c) inner" where
  "enqueue k j s = s\<lparr> tasks := tasks s @ [(chains s k, j)], chains := (chains s)(k \<mapsto> length (tasks s)) \<rparr>"

definition spawn :: "'c job \<Rightarrow> ('r, 'l, 'c) inner \<Rightarrow> ('r, 'l, 'c) inner" where
  "spawn j s = s\<lparr> tasks := tasks s @ [(None, j)] \<rparr>"

definition trip_fence ::
  "('r, 'l, 'c) env \<Rightarrow> fence_detail \<Rightarrow> ('r, 'l, 'c) inner \<Rightarrow> ('r, 'l, 'c) inner"
where
  "trip_fence e d s =
     (if fenced s then s
      else s\<lparr> fenced := True, loc := snd (e_write_flag e d (loc s)), events := events s @ [Fenced d] \<rparr>)"

section \<open>Backoff\<close>

record backoff_state =
  backoff :: nat
  waited :: nat
  degraded_notified :: bool

definition backoff_init :: "retry_tuning \<Rightarrow> backoff_state" where
  "backoff_init t = \<lparr> backoff = initial_backoff t, waited = 0, degraded_notified = False \<rparr>"

definition backoff_step ::
  "retry_tuning \<Rightarrow> (nat \<Rightarrow> store_event) \<Rightarrow> backoff_state \<Rightarrow> ('r, 'l, 'c) inner
     \<Rightarrow> backoff_state \<times> ('r, 'l, 'c) inner"
where
  "backoff_step t ev b s =
     (let waited' = waited b + backoff b;
          b' = b\<lparr> waited := waited', backoff := min (backoff b * 2) (max_backoff t) \<rparr>
      in if \<not> degraded_notified b \<and> waited' \<ge> degraded_after t
         then (b'\<lparr> degraded_notified := True \<rparr>, s\<lparr> events := events s @ [ev waited'] \<rparr>)
         else (b', s))"

datatype fence_stop = FenceStop

datatype 'a outcome =
    Stop 'a
  | Retry \<comment> \<open>sleep for the backoff, then the next iteration\<close>
  | Continue \<comment> \<open>the next iteration at once\<close>

section \<open>The fund-critical put loop\<close>

definition fund_critical_attempt ::
  "('r, 'l, 'c) env \<Rightarrow> 'r transport \<Rightarrow> key \<Rightarrow> bytes \<Rightarrow> ('r, 'l, 'c) inner
     \<Rightarrow> (fence_stop + unit) outcome \<times> ('r, 'l, 'c) inner"
where
  "fund_critical_attempt e r k b s =
     (if fenced s then (Stop (Inl FenceStop), s)
      else case t_put r k b (cached_version s k) (rem s) of
        (Inr new_version, w) \<Rightarrow> (Stop (Inr ()), record_version k new_version (s\<lparr> rem := w \<rparr>))
      | (Inl err, w) \<Rightarrow>
          if is_conflict err then
            (case t_get r k w of
               (Inr (Some (remote_bytes, remote_version)), w') \<Rightarrow>
                 let s' = record_version k remote_version (s\<lparr> rem := w' \<rparr>) in
                 if remote_bytes = b then (Stop (Inr ()), s')
                 else (Stop (Inl FenceStop), trip_fence e (DivergentKey k remote_version) s')
             | (Inr None, w') \<Rightarrow> (Retry, record_version k 0 (s\<lparr> rem := w' \<rparr>))
             | (Inl _, w') \<Rightarrow> (Retry, s\<lparr> rem := w' \<rparr>))
          else (Retry, s\<lparr> rem := w \<rparr>))"

fun fund_critical_loop ::
  "('r, 'l, 'c) env \<Rightarrow> 'r transport \<Rightarrow> key \<Rightarrow> bytes \<Rightarrow> nat \<Rightarrow> backoff_state \<Rightarrow> ('r, 'l, 'c) inner
     \<Rightarrow> (fence_stop + unit) option \<times> ('r, 'l, 'c) inner"
where
  "fund_critical_loop e r k b 0 bo s = (None, s)"
| "fund_critical_loop e r k b (Suc n) bo s =
     (case fund_critical_attempt e r k b s of
        (Stop res, s') \<Rightarrow> (Some res, s')
      | (Retry, s') \<Rightarrow>
          (case backoff_step (e_tuning e) (BackupDegradedKey k) bo s' of
             (bo', s'') \<Rightarrow> fund_critical_loop e r k b n bo' s'')
      | (Continue, s') \<Rightarrow> fund_critical_loop e r k b n bo s')"

definition put_fund_critical_with_retry ::
  "('r, 'l, 'c) env \<Rightarrow> nat \<Rightarrow> key \<Rightarrow> bytes \<Rightarrow> ('r, 'l, 'c) inner
     \<Rightarrow> (fence_stop + unit) option \<times> ('r, 'l, 'c) inner"
where
  "put_fund_critical_with_retry e n k b s =
     (case e_remote e of
        None \<Rightarrow> (Some (Inr ()), s)
      | Some r \<Rightarrow> fund_critical_loop e r k b n (backoff_init (e_tuning e)) s)"

section \<open>Manifest writes\<close>

definition merge_server_manifest ::
  "('r, 'l, 'c) env \<Rightarrow> bytes \<Rightarrow> ('r, 'l, 'c) inner \<Rightarrow> ('r, 'l, 'c) inner"
where
  "merge_server_manifest e remote_bytes s =
     (case parse_monitor_manifest (e_codec e) remote_bytes of
        Inr server_keys \<Rightarrow> update_keys (extend_publishable server_keys) s
      | Inl _ \<Rightarrow> s)"

definition manifest_attempt ::
  "('r, 'l, 'c) env \<Rightarrow> 'r transport \<Rightarrow> ('r, 'l, 'c) inner
     \<Rightarrow> (fence_stop + unit) outcome \<times> ('r, 'l, 'c) inner"
where
  "manifest_attempt e r s =
     (if fenced s then (Stop (Inl FenceStop), s)
      else let ks = publishable (monitor_keys s) in
        if ks = [] then (Stop (Inr ()), s)
        else case t_put r MONITOR_MANIFEST_KEY (manifest_payload (e_codec e) ks)
                    (cached_version s MONITOR_MANIFEST_KEY) (rem s) of
          (Inr new_version, w) \<Rightarrow>
            (Stop (Inr ()), record_version MONITOR_MANIFEST_KEY new_version (s\<lparr> rem := w \<rparr>))
        | (Inl err, w) \<Rightarrow>
            if is_conflict err then
              (case t_get r MONITOR_MANIFEST_KEY w of
                 (Inr (Some (remote_bytes, remote_version)), w') \<Rightarrow>
                   (Continue, merge_server_manifest e remote_bytes
                      (record_version MONITOR_MANIFEST_KEY remote_version (s\<lparr> rem := w' \<rparr>)))
               | (Inr None, w') \<Rightarrow> (Continue, record_version MONITOR_MANIFEST_KEY 0 (s\<lparr> rem := w' \<rparr>))
               | (Inl _, w') \<Rightarrow> (Retry, s\<lparr> rem := w' \<rparr>))
            else (Retry, s\<lparr> rem := w \<rparr>))"

fun manifest_loop ::
  "('r, 'l, 'c) env \<Rightarrow> 'r transport \<Rightarrow> nat \<Rightarrow> backoff_state \<Rightarrow> ('r, 'l, 'c) inner
     \<Rightarrow> (fence_stop + unit) option \<times> ('r, 'l, 'c) inner"
where
  "manifest_loop e r 0 bo s = (None, s)"
| "manifest_loop e r (Suc n) bo s =
     (case manifest_attempt e r s of
        (Stop res, s') \<Rightarrow> (Some res, s')
      | (Retry, s') \<Rightarrow>
          (case backoff_step (e_tuning e) BackupDegradedManifest bo s' of
             (bo', s'') \<Rightarrow> manifest_loop e r n bo' s'')
      | (Continue, s') \<Rightarrow> manifest_loop e r n bo s')"

definition write_manifest_with_retry_locked ::
  "('r, 'l, 'c) env \<Rightarrow> nat \<Rightarrow> ('r, 'l, 'c) inner \<Rightarrow> (fence_stop + unit) option \<times> ('r, 'l, 'c) inner"
where
  "write_manifest_with_retry_locked e n s =
     (case e_remote e of
        None \<Rightarrow> (Some (Inr ()), s)
      | Some r \<Rightarrow> manifest_loop e r n (backoff_init (e_tuning e)) s)"

definition retire_manifest :: "'r transport \<Rightarrow> ('r, 'l, 'c) inner \<Rightarrow> ('r, 'l, 'c) inner" where
  "retire_manifest r s =
     (let v = cached_version s MONITOR_MANIFEST_KEY in
      if v = 0 then s
      else case t_delete r MONITOR_MANIFEST_KEY v (rem s) of
        (Inr _, w) \<Rightarrow> s\<lparr> rem := w, versions := (versions s)(MONITOR_MANIFEST_KEY := None) \<rparr>
      | (Inl _, w) \<Rightarrow> s\<lparr> rem := w \<rparr>)"

fun manifest_best_effort ::
  "('r, 'l, 'c) env \<Rightarrow> 'r transport \<Rightarrow> nat \<Rightarrow> ('r, 'l, 'c) inner \<Rightarrow> ('r, 'l, 'c) inner"
where
  "manifest_best_effort e r 0 s = s"
| "manifest_best_effort e r (Suc n) s =
     (let ks = publishable (monitor_keys s) in
      if ks = [] then retire_manifest r s
      else case t_put r MONITOR_MANIFEST_KEY (manifest_payload (e_codec e) ks)
                  (cached_version s MONITOR_MANIFEST_KEY) (rem s) of
        (Inr new_version, w) \<Rightarrow> record_version MONITOR_MANIFEST_KEY new_version (s\<lparr> rem := w \<rparr>)
      | (Inl err, w) \<Rightarrow>
          if is_conflict err then
            (case t_get r MONITOR_MANIFEST_KEY w of
               (Inr (Some (remote_bytes, remote_version)), w') \<Rightarrow>
                 manifest_best_effort e r n
                   (merge_server_manifest e remote_bytes
                      (record_version MONITOR_MANIFEST_KEY remote_version (s\<lparr> rem := w' \<rparr>)))
             | (Inr None, w') \<Rightarrow>
                 manifest_best_effort e r n (record_version MONITOR_MANIFEST_KEY 0 (s\<lparr> rem := w' \<rparr>))
             | (Inl _, w') \<Rightarrow> s\<lparr> rem := w' \<rparr>)
          else s\<lparr> rem := w \<rparr>)"

definition write_manifest_once_best_effort ::
  "('r, 'l, 'c) env \<Rightarrow> ('r, 'l, 'c) inner \<Rightarrow> ('r, 'l, 'c) inner"
where
  "write_manifest_once_best_effort e s =
     (case e_remote e of
        None \<Rightarrow> s
      | Some r \<Rightarrow> if fenced s then s else manifest_best_effort e r 2 s)"

section \<open>The monitor write job\<close>

definition MONITOR_NS :: string where
  "MONITOR_NS = ''monitors''" \<comment> \<open>LDK's \<open>CHANNEL_MONITOR_PERSISTENCE_PRIMARY_NAMESPACE\<close>\<close>

definition ARCHIVED_NS :: string where
  "ARCHIVED_NS = ''archived_monitors''"

fun local_write_with_retry ::
  "('r, 'l, 'c) env \<Rightarrow> nat \<Rightarrow> string \<Rightarrow> string \<Rightarrow> string \<Rightarrow> bytes \<Rightarrow> ('r, 'l, 'c) inner
     \<Rightarrow> unit option \<times> ('r, 'l, 'c) inner"
where
  "local_write_with_retry e 0 p q k b s = (None, s)"
| "local_write_with_retry e (Suc n) p q k b s =
     (case d_write (e_local e) p q k b (loc s) of
        (Inr _, l) \<Rightarrow> (Some (), s\<lparr> loc := l \<rparr>)
      | (Inl _, l) \<Rightarrow> local_write_with_retry e n p q k b (s\<lparr> loc := l \<rparr>))"

definition signal_completion :: "monitor_write \<Rightarrow> ('r, 'l, 'c) inner \<Rightarrow> ('r, 'l, 'c) inner" where
  "signal_completion mw s =
     (if completion s then s\<lparr> completed := completed s @ [(mw_channel_id mw, update_id mw)] \<rparr> else s)"

definition finish_monitor_job ::
  "('r, 'l, 'c) env \<Rightarrow> nat \<Rightarrow> monitor_write \<Rightarrow> ('r, 'l, 'c) inner \<Rightarrow> unit option \<times> ('r, 'l, 'c) inner"
where
  "finish_monitor_job e n mw s =
     (case local_write_with_retry e n MONITOR_NS [] (local_key mw) (mw_bytes mw) s of
        (None, s') \<Rightarrow> (None, s')
      | (Some _, s') \<Rightarrow> (Some (), signal_completion mw s'))"

definition run_monitor_job ::
  "('r, 'l, 'c) env \<Rightarrow> nat \<Rightarrow> monitor_write \<Rightarrow> bool \<Rightarrow> ('r, 'l, 'c) inner
     \<Rightarrow> unit option \<times> ('r, 'l, 'c) inner"
where
  "run_monitor_job e n mw is_new s =
     (if fenced s then (Some (), s)
      else case put_fund_critical_with_retry e n (vss_key mw) (mw_bytes mw) s of
        (None, s1) \<Rightarrow> (None, s1)
      | (Some (Inl _), s1) \<Rightarrow> (Some (), s1)
      | (Some (Inr _), s1) \<Rightarrow>
          let s2 = update_keys (mark_publishable (vss_key mw)) s1 in
          if is_new then
            (case write_manifest_with_retry_locked e n s2 of
               (None, s3) \<Rightarrow> (None, s3)
             | (Some (Inl _), s3) \<Rightarrow> (Some (), s3)
             | (Some (Inr _), s3) \<Rightarrow> finish_monitor_job e n mw s3)
          else finish_monitor_job e n mw s2)"

section \<open>The channel manager's bounded attempt\<close>

definition stash_cm_pending :: "bytes \<Rightarrow> ('r, 'l, 'c) inner \<Rightarrow> ('r, 'l, 'c) inner" where
  "stash_cm_pending b s = s\<lparr> cm_pending := Some b \<rparr>"

definition clear_cm_pending :: "('r, 'l, 'c) inner \<Rightarrow> ('r, 'l, 'c) inner" where
  "clear_cm_pending s = s\<lparr> cm_pending := None \<rparr>"

definition cm_remote_attempt ::
  "('r, 'l, 'c) env \<Rightarrow> bytes \<Rightarrow> ('r, 'l, 'c) inner \<Rightarrow> ('r, 'l, 'c) inner"
where
  "cm_remote_attempt e b s =
     (case e_remote e of
        None \<Rightarrow> s
      | Some r \<Rightarrow>
          if fenced s then s
          else case t_put r CHANNEL_MANAGER_VSS_KEY b (cached_version s CHANNEL_MANAGER_VSS_KEY) (rem s) of
            (res, w) \<Rightarrow>
              if e_elapsed e w then stash_cm_pending b (s\<lparr> rem := w \<rparr>)
              else case res of
                Inr new_version \<Rightarrow>
                  clear_cm_pending (record_version CHANNEL_MANAGER_VSS_KEY new_version (s\<lparr> rem := w \<rparr>))
              | Inl err \<Rightarrow>
                  if is_conflict err then
                    (case t_get r CHANNEL_MANAGER_VSS_KEY w of
                       (got, w') \<Rightarrow>
                         if e_elapsed e w' then stash_cm_pending b (s\<lparr> rem := w' \<rparr>)
                         else case got of
                           Inr (Some (remote_bytes, remote_version)) \<Rightarrow>
                             let s' = record_version CHANNEL_MANAGER_VSS_KEY remote_version (s\<lparr> rem := w' \<rparr>) in
                             if remote_bytes = b then clear_cm_pending s'
                             else trip_fence e (DivergentChannelManager remote_version) s'
                         | Inr None \<Rightarrow>
                             stash_cm_pending b (record_version CHANNEL_MANAGER_VSS_KEY 0 (s\<lparr> rem := w' \<rparr>))
                         | Inl _ \<Rightarrow> stash_cm_pending b (s\<lparr> rem := w' \<rparr>))
                  else stash_cm_pending b (s\<lparr> rem := w \<rparr>))"

definition cm_dirty :: "('r, 'l, 'c) inner \<Rightarrow> bool" where
  "cm_dirty s \<longleftrightarrow> cm_pending s \<noteq> None"

definition cm_remote_write_bounded ::
  "('r, 'l, 'c) env \<Rightarrow> bytes \<Rightarrow> ('r, 'l, 'c) inner \<Rightarrow> ('r, 'l, 'c) inner"
where
  "cm_remote_write_bounded e b s =
     (if e_remote e = None \<or> fenced s then s
      else if cm_dirty s then s
      else cm_remote_attempt e b s)"

definition cm_retry_pending ::
  "('r, 'l, 'c) env \<Rightarrow> ('r, 'l, 'c) inner \<Rightarrow> ('r, 'l, 'c) inner"
where
  "cm_retry_pending e s = (case cm_pending s of None \<Rightarrow> s | Some b \<Rightarrow> cm_remote_attempt e b s)"

section \<open>Best-effort writes\<close>

definition put_lww_attempt ::
  "('r, 'l, 'c) env \<Rightarrow> key \<Rightarrow> bytes \<Rightarrow> ('r, 'l, 'c) inner \<Rightarrow> ('r, 'l, 'c) inner"
where
  "put_lww_attempt e k b s =
     (case e_remote e of
        None \<Rightarrow> s
      | Some r \<Rightarrow>
          if fenced s then s
          else case t_put r k b (cached_version s k) (rem s) of
            (Inr new_version, w) \<Rightarrow> record_version k new_version (s\<lparr> rem := w \<rparr>)
          | (Inl err, w) \<Rightarrow>
              if is_conflict err then
                (case t_get r k w of
                   (Inl _, w') \<Rightarrow> s\<lparr> rem := w' \<rparr>
                 | (Inr got, w') \<Rightarrow>
                     let server_version = version_of got;
                         s' = record_version k server_version (s\<lparr> rem := w' \<rparr>)
                     in case t_put r k b server_version (rem s') of
                       (Inr new_version, w'') \<Rightarrow> record_version k new_version (s'\<lparr> rem := w'' \<rparr>)
                     | (Inl _, w'') \<Rightarrow> s'\<lparr> rem := w'' \<rparr>)
              else s\<lparr> rem := w \<rparr>)"

definition put_merge_attempt ::
  "('r, 'l, 'c) env \<Rightarrow> key \<Rightarrow> bytes \<Rightarrow> 'c merge_fn \<Rightarrow> ('r, 'l, 'c) inner \<Rightarrow> ('r, 'l, 'c) inner"
where
  "put_merge_attempt e k b merge s =
     (case e_remote e of
        None \<Rightarrow> s
      | Some r \<Rightarrow>
          if fenced s then s
          else case t_put r k b (cached_version s k) (rem s) of
            (Inr new_version, w) \<Rightarrow> record_version k new_version (s\<lparr> rem := w \<rparr>)
          | (Inl err, w) \<Rightarrow>
              if is_conflict err then
                (case t_get r k w of
                   (Inl _, w') \<Rightarrow> s\<lparr> rem := w' \<rparr>
                 | (Inr got, w') \<Rightarrow>
                     let (merged_bytes, server_version, c') =
                           (case got of
                              Some (remote_bytes, server_version) \<Rightarrow>
                                (case merge remote_bytes (client s) of (mb, c') \<Rightarrow> (mb, server_version, c'))
                            | None \<Rightarrow> (b, 0, client s));
                         s' = record_version k server_version (s\<lparr> rem := w', client := c' \<rparr>)
                     in case t_put r k merged_bytes server_version (rem s') of
                       (Inr new_version, w'') \<Rightarrow> record_version k new_version (s'\<lparr> rem := w'' \<rparr>)
                     | (Inl _, w'') \<Rightarrow> s'\<lparr> rem := w'' \<rparr>)
              else s\<lparr> rem := w \<rparr>)"

definition delete_attempt ::
  "('r, 'l, 'c) env \<Rightarrow> key \<Rightarrow> ('r, 'l, 'c) inner \<Rightarrow> ('r, 'l, 'c) inner"
where
  "delete_attempt e k s =
     (case e_remote e of
        None \<Rightarrow> s
      | Some r \<Rightarrow>
          if fenced s then s
          else case t_delete r k (cached_version s k) (rem s) of
            (_, w) \<Rightarrow> record_version k 0 (s\<lparr> rem := w \<rparr>))"

definition fetch_versioned ::
  "('r, 'l, 'c) env \<Rightarrow> key \<Rightarrow> ('r, 'l, 'c) inner \<Rightarrow> versioned_value \<times> ('r, 'l, 'c) inner"
where
  "fetch_versioned e k s =
     (case e_remote e of
        None \<Rightarrow> (None, s)
      | Some r \<Rightarrow>
          (case t_get r k (rem s) of
             (Inr (Some (b, v)), w) \<Rightarrow> (Some (b, v), record_version k v (s\<lparr> rem := w \<rparr>))
           | (Inr None, w) \<Rightarrow> (None, s\<lparr> rem := w \<rparr>)
           | (Inl _, w) \<Rightarrow> (None, s\<lparr> rem := w \<rparr>)))"

definition put_lww :: "('r, 'l, 'c) env \<Rightarrow> key \<Rightarrow> bytes \<Rightarrow> ('r, 'l, 'c) inner \<Rightarrow> ('r, 'l, 'c) inner" where
  "put_lww e k b s = (if e_remote e = None then s else enqueue k (LwwJob k b) s)"

definition put_with_merge ::
  "('r, 'l, 'c) env \<Rightarrow> key \<Rightarrow> bytes \<Rightarrow> 'c merge_fn \<Rightarrow> ('r, 'l, 'c) inner \<Rightarrow> ('r, 'l, 'c) inner"
where
  "put_with_merge e k b merge s = (if e_remote e = None then s else enqueue k (MergeJob k b merge) s)"

definition delete_best_effort :: "('r, 'l, 'c) env \<Rightarrow> key \<Rightarrow> ('r, 'l, 'c) inner \<Rightarrow> ('r, 'l, 'c) inner" where
  "delete_best_effort e k s = (if e_remote e = None then s else enqueue k (DeleteJob k) s)"

definition backfill_manifest_if_needed :: "('r, 'l, 'c) env \<Rightarrow> ('r, 'l, 'c) inner \<Rightarrow> ('r, 'l, 'c) inner" where
  "backfill_manifest_if_needed e s =
     (if e_remote e = None then s
      else if \<not> mks_is_empty (monitor_keys s) \<and> versions s MONITOR_MANIFEST_KEY = None
      then spawn ManifestJob s
      else s)"

section \<open>The Persist callbacks\<close>

datatype update_status = Completed | InProgress | UnrecoverableError

definition register_loaded_monitor :: "'m monitor \<Rightarrow> ('r, 'l, 'c) inner \<Rightarrow> ('r, 'l, 'c) inner" where
  "register_loaded_monitor m s =
     (let k = monitor_vss_key (mon_funding_txo m) in
      update_keys (insert_unverified k)
        (s\<lparr> name_to_vss_key := (name_to_vss_key s)(mon_persistence_key m \<mapsto> k) \<rparr>))"

definition queue_monitor_write ::
  "('r, 'l, 'c) env \<Rightarrow> monitor_write \<Rightarrow> bool \<Rightarrow> ('r, 'l, 'c) inner \<Rightarrow> update_status \<times> ('r, 'l, 'c) inner"
where
  "queue_monitor_write e mw is_new s =
     (let s1 = s\<lparr> name_to_vss_key := (name_to_vss_key s)(monitor_name mw \<mapsto> vss_key mw) \<rparr> in
      if e_remote e = None then
        (case d_write (e_local e) MONITOR_NS [] (local_key mw) (mw_bytes mw) (loc s1) of
           (Inr _, l) \<Rightarrow> (Completed, s1\<lparr> loc := l \<rparr>)
         | (Inl _, l) \<Rightarrow> (UnrecoverableError, s1\<lparr> loc := l \<rparr>))
      else
        let s2 = (if is_new then update_keys (insert_unverified (vss_key mw)) s1 else s1) in
        if fenced s2 then (InProgress, s2)
        else (InProgress, enqueue (vss_key mw) (MonitorJob mw is_new) s2))"

definition persist_new_channel ::
  "('r, 'l, 'c) env \<Rightarrow> string \<Rightarrow> 'm monitor \<Rightarrow> ('r, 'l, 'c) inner \<Rightarrow> update_status \<times> ('r, 'l, 'c) inner"
where
  "persist_new_channel e name m s = queue_monitor_write e (extract_monitor_write name m) True s"

definition update_persisted_channel ::
  "('r, 'l, 'c) env \<Rightarrow> string \<Rightarrow> 'm monitor \<Rightarrow> ('r, 'l, 'c) inner \<Rightarrow> update_status \<times> ('r, 'l, 'c) inner"
where
  "update_persisted_channel e name m s = queue_monitor_write e (extract_monitor_write name m) False s"

definition archive_local :: "('r, 'l, 'c) env \<Rightarrow> string \<Rightarrow> 'l \<Rightarrow> 'l" where
  "archive_local e name l =
     (case d_read (e_local e) MONITOR_NS [] name l of
        Inl _ \<Rightarrow> l
      | Inr b \<Rightarrow>
          (case d_write (e_local e) ARCHIVED_NS [] name b l of
             (Inl _, l') \<Rightarrow> l'
           | (Inr _, l') \<Rightarrow> snd (d_remove (e_local e) MONITOR_NS [] name False l')))"

definition archive_monitor ::
  "('r, 'l, 'c) env \<Rightarrow> string \<Rightarrow> ('r, 'l, 'c) inner \<Rightarrow> ('r, 'l, 'c) inner"
where
  "archive_monitor e name s =
     (let s1 = s\<lparr> loc := archive_local e name (loc s) \<rparr> in
      case name_to_vss_key s1 name of
        None \<Rightarrow> s1
      | Some k \<Rightarrow>
          let s2 = update_keys (mks_remove k)
                     (s1\<lparr> name_to_vss_key := (name_to_vss_key s1)(name := None),
                          chains := (chains s1)(k := None) \<rparr>)
          in if e_remote e = None \<or> fenced s2 then s2 else spawn (ArchiveJob k) s2)"

definition archive_remote ::
  "('r, 'l, 'c) env \<Rightarrow> key \<Rightarrow> ('r, 'l, 'c) inner \<Rightarrow> ('r, 'l, 'c) inner"
where
  "archive_remote e k s =
     (let s1 = write_manifest_once_best_effort e s in
      case e_remote e of
        None \<Rightarrow> s1
      | Some r \<Rightarrow>
          if fenced s1 then s1
          else case t_delete r k (cached_version s1 k) (rem s1) of
            (Inr _, w) \<Rightarrow> s1\<lparr> rem := w, versions := (versions s1)(k := None) \<rparr>
          | (Inl _, w) \<Rightarrow> s1\<lparr> rem := w \<rparr>)"

section \<open>DualWriteKvStore\<close>

definition is_channel_manager_key :: "string \<Rightarrow> string \<Rightarrow> string \<Rightarrow> bool" where
  "is_channel_manager_key p q k \<longleftrightarrow> p = [] \<and> q = [] \<and> k = ''manager''"

definition dual_write ::
  "('r, 'l, 'c) env \<Rightarrow> string \<Rightarrow> string \<Rightarrow> string \<Rightarrow> bytes \<Rightarrow> ('r, 'l, 'c) inner
     \<Rightarrow> (io_error + unit) \<times> ('r, 'l, 'c) inner"
where
  "dual_write e p q k buf s =
     (let s1 = (if is_channel_manager_key p q k then cm_remote_write_bounded e buf s else s) in
      case d_write (e_local e) p q k buf (loc s1) of
        (res, l) \<Rightarrow> (res, s1\<lparr> loc := l \<rparr>))"

definition dual_read ::
  "('r, 'l, 'c) env \<Rightarrow> string \<Rightarrow> string \<Rightarrow> string \<Rightarrow> ('r, 'l, 'c) inner \<Rightarrow> (io_error + bytes)"
where
  "dual_read e p q k s = d_read (e_local e) p q k (loc s)"

definition dual_remove ::
  "('r, 'l, 'c) env \<Rightarrow> string \<Rightarrow> string \<Rightarrow> string \<Rightarrow> bool \<Rightarrow> ('r, 'l, 'c) inner
     \<Rightarrow> (io_error + unit) \<times> ('r, 'l, 'c) inner"
where
  "dual_remove e p q k lazy s =
     (case d_remove (e_local e) p q k lazy (loc s) of (res, l) \<Rightarrow> (res, s\<lparr> loc := l \<rparr>))"

definition dual_list ::
  "('r, 'l, 'c) env \<Rightarrow> string \<Rightarrow> string \<Rightarrow> ('r, 'l, 'c) inner \<Rightarrow> (io_error + string list)"
where
  "dual_list e p q s = d_list (e_local e) p q (loc s)"

end
