(* ===== verification/Vss_Safety.thy ===== *)
theory Vss_Safety
  imports Vss_Store
begin

text \<open>
  What the store of \<open>Vss_Store\<close> guarantees about single operations: a fenced store never touches
  the remote side again; against a server that keeps its promises a sole writer is never fenced,
  even when acknowledgements are lost; a fence leaves the foreign content as it was; the retry
  loops return once the transport's errors stop; a completion is reported only after the blob, the
  manifest and the local copy are durable.
\<close>

named_theorems store_simps \<open>projections of the small state updates of the store\<close>

lemma record_version_sel [simp]:
  "rem (record_version k v s) = rem s" "loc (record_version k v s) = loc s"
  "client (record_version k v s) = client s" "monitor_keys (record_version k v s) = monitor_keys s"
  "fenced (record_version k v s) = fenced s" "cm_pending (record_version k v s) = cm_pending s"
  "events (record_version k v s) = events s" "completed (record_version k v s) = completed s"
  "completion (record_version k v s) = completion s"
  "versions (record_version k v s) = (versions s)(k \<mapsto> v)"
  "tasks (record_version k v s) = tasks s" "chains (record_version k v s) = chains s"
  by (simp_all add: record_version_def)

lemma update_keys_sel [simp]:
  "rem (update_keys f s) = rem s" "loc (update_keys f s) = loc s" "fenced (update_keys f s) = fenced s"
  "versions (update_keys f s) = versions s" "monitor_keys (update_keys f s) = f (monitor_keys s)"
  "cm_pending (update_keys f s) = cm_pending s" "events (update_keys f s) = events s"
  "completed (update_keys f s) = completed s" "completion (update_keys f s) = completion s"
  "tasks (update_keys f s) = tasks s" "chains (update_keys f s) = chains s"
  by (simp_all add: update_keys_def)

lemma trip_fence_sel [simp]:
  "rem (trip_fence e d s) = rem s" "fenced (trip_fence e d s)"
  "versions (trip_fence e d s) = versions s" "monitor_keys (trip_fence e d s) = monitor_keys s"
  "cm_pending (trip_fence e d s) = cm_pending s" "completed (trip_fence e d s) = completed s"
  "completion (trip_fence e d s) = completion s"
  "tasks (trip_fence e d s) = tasks s" "chains (trip_fence e d s) = chains s"
  by (simp_all add: trip_fence_def)

lemma cm_pending_sel [simp]:
  "rem (stash_cm_pending b s) = rem s" "fenced (stash_cm_pending b s) = fenced s"
  "versions (stash_cm_pending b s) = versions s" "cm_pending (stash_cm_pending b s) = Some b"
  "rem (clear_cm_pending s) = rem s" "fenced (clear_cm_pending s) = fenced s"
  "versions (clear_cm_pending s) = versions s" "cm_pending (clear_cm_pending s) = None"
  by (simp_all add: stash_cm_pending_def clear_cm_pending_def)

lemma cached_version_simps [simp]:
  "cached_version (record_version k v s) k' = (if k' = k then v else cached_version s k')"
  "cached_version (update_keys f s) = cached_version s"
  "cached_version (trip_fence e d s) = cached_version s"
  "cached_version (stash_cm_pending b s) = cached_version s"
  "cached_version (clear_cm_pending s) = cached_version s"
  "cached_version (s\<lparr> rem := w \<rparr>) = cached_version s"
  "cached_version (s\<lparr> loc := l \<rparr>) = cached_version s"
  "cached_version (s\<lparr> events := es \<rparr>) = cached_version s"
  by (simp_all add: cached_version_def fun_eq_iff)

lemma backoff_step_frame:
  assumes "backoff_step t ev b s = (b', s')"
  shows "rem s' = rem s" "loc s' = loc s" "fenced s' = fenced s" "versions s' = versions s"
    "monitor_keys s' = monitor_keys s" "cached_version s' = cached_version s"
    "completed s' = completed s" "completion s' = completion s" "cm_pending s' = cm_pending s"
  using assms by (auto simp: backoff_step_def Let_def split: if_splits)

lemma merge_server_manifest_sel [simp]:
  "rem (merge_server_manifest e b s) = rem s" "loc (merge_server_manifest e b s) = loc s"
  "fenced (merge_server_manifest e b s) = fenced s"
  "versions (merge_server_manifest e b s) = versions s"
  "cached_version (merge_server_manifest e b s) = cached_version s"
  "completed (merge_server_manifest e b s) = completed s"
  "completion (merge_server_manifest e b s) = completion s"
  "events (merge_server_manifest e b s) = events s"
  by (simp_all add: merge_server_manifest_def split: sum.split)

lemma mks_wf_merge_server_manifest [simp, intro]:
  "mks_wf (monitor_keys s) \<Longrightarrow> mks_wf (monitor_keys (merge_server_manifest e b s))"
  by (auto simp: merge_server_manifest_def split: sum.split)

lemma mks_le_merge_server_manifest [simp]:
  "mks_le (monitor_keys s) (monitor_keys (merge_server_manifest e b s))"
  by (auto simp: merge_server_manifest_def split: sum.split)

section \<open>A fenced store is inert\<close>

lemma fenced_fund_critical_loop:
  "fenced s \<Longrightarrow> fund_critical_loop e r k b (Suc n) bo s = (Some (Inl FenceStop), s)"
  by (simp add: fund_critical_attempt_def)

lemma fenced_manifest_loop:
  "fenced s \<Longrightarrow> manifest_loop e r (Suc n) bo s = (Some (Inl FenceStop), s)"
  by (simp add: manifest_attempt_def)

text \<open>
  Every entry point that can write remotely, as one function of an operation: what a caller of the
  store, a spawned job or the timer tick can make it do.
\<close>

datatype (dead 'c) store_op =
    OpMonitorJob monitor_write bool nat
  | OpBestEffortManifest
  | OpArchiveRemote key
  | OpCmWrite bytes
  | OpCmRetry
  | OpLww key bytes
  | OpMerge key bytes "'c merge_fn"
  | OpDelete key
  | OpArchive string
  | OpDualWrite string string string bytes

fun store_op_run ::
  "('r, 'l, 'c) env \<Rightarrow> 'c store_op \<Rightarrow> ('r, 'l, 'c) inner \<Rightarrow> ('r, 'l, 'c) inner"
where
  "store_op_run e (OpMonitorJob mw is_new n) s = snd (run_monitor_job e n mw is_new s)"
| "store_op_run e OpBestEffortManifest s = write_manifest_once_best_effort e s"
| "store_op_run e (OpArchiveRemote k) s = archive_remote e k s"
| "store_op_run e (OpCmWrite b) s = cm_remote_write_bounded e b s"
| "store_op_run e OpCmRetry s = cm_retry_pending e s"
| "store_op_run e (OpLww k b) s = put_lww_attempt e k b s"
| "store_op_run e (OpMerge k b f) s = put_merge_attempt e k b f s"
| "store_op_run e (OpDelete k) s = delete_attempt e k s"
| "store_op_run e (OpArchive name) s = archive_monitor e name s"
| "store_op_run e (OpDualWrite p q k b) s = snd (dual_write e p q k b s)"

lemma fenced_inert_step:
  assumes "fenced s"
  shows "rem (store_op_run e op s) = rem s \<and> fenced (store_op_run e op s)
    \<and> completed (store_op_run e op s) = completed s"
  using assms
  by (cases op)
    (auto simp: run_monitor_job_def write_manifest_once_best_effort_def archive_remote_def
      cm_remote_write_bounded_def cm_retry_pending_def cm_remote_attempt_def put_lww_attempt_def
      put_merge_attempt_def delete_attempt_def archive_monitor_def dual_write_def spawn_def
      Let_def split: option.splits prod.splits)

text \<open>
  C1: once the store is fenced, no sequence of operations (monitor jobs, manifest writes, archive
  deletes, channel-manager attempts, last-writer-wins, merge and delete jobs, dual writes) changes
  the remote state, clears the fence or reports a monitor update as complete.
\<close>
theorem fenced_store_inert:
  assumes "fenced s"
  shows "rem (fold (store_op_run e) ops s) = rem s \<and> fenced (fold (store_op_run e) ops s)
    \<and> completed (fold (store_op_run e) ops s) = completed s"
  using assms
proof (induction ops arbitrary: s)
  case (Cons op ops)
  from fenced_inert_step[OF Cons.prems, of e op] have "fenced (store_op_run e op s)" by blast
  from Cons.IH[OF this] fenced_inert_step[OF Cons.prems, of e op] show ?case by simp
qed simp

section \<open>The fund-critical loop against a lawful server\<close>

type_synonym 'r view = "'r \<Rightarrow> key \<rightharpoonup> bytes \<times> version" \<comment> \<open>the objects a remote state holds\<close>

definition synced :: "'r view \<Rightarrow> key \<Rightarrow> ('r, 'l, 'c) inner \<Rightarrow> bool" where
  "synced srv k s \<longleftrightarrow> cached_version s k = version_of (srv (rem s) k)"

definition own_write_landed :: "'r view \<Rightarrow> key \<Rightarrow> bytes \<Rightarrow> ('r, 'l, 'c) inner \<Rightarrow> bool" where
  "own_write_landed srv k b s \<longleftrightarrow> srv (rem s) k = Some (b, cached_version s k + 1)"

context vss_server
begin

text \<open>One attempt of a writer whose view of the key is current, or whose own put was applied unacknowledged.\<close>

lemma attempt_sole_writer:
  assumes "fund_critical_attempt e t k b s = (out, s')" and "\<not> fenced s"
    and "synced srv k s \<or> own_write_landed srv k b s"
  shows "\<not> fenced s' \<and> events s' = events s
    \<and> (out = Stop (Inr ()) \<and> synced srv k s' \<and> srv (rem s') k = Some (b, cached_version s' k)
       \<or> out = Retry \<and> (synced srv k s' \<or> own_write_landed srv k b s'))"
proof -
  obtain r w where p: "t_put t k b (cached_version s k) (rem s) = (r, w)" by fastforce
  obtain g w' where g: "t_get t k w = (g, w')" by fastforce
  have frame: "srv w' = srv w" using get_frame[OF g] .
  have got: "g = Inr x \<Longrightarrow> x = srv w k" for x using get_ok[of k w x w'] g by auto
  from p show ?thesis
  proof (cases rule: put_cases)
    case ok
    with assms p show ?thesis
      by (auto simp: fund_critical_attempt_def synced_def)
  next
    case (conflict m)
    with assms(3) have landed: "srv w k = Some (b, cached_version s k + 1)"
      by (auto simp: synced_def own_write_landed_def)
    show ?thesis
    proof (cases g)
      case (Inl e')
      with assms p g conflict frame landed show ?thesis
        by (auto simp: fund_critical_attempt_def own_write_landed_def)
    next
      case (Inr x)
      with assms p g conflict frame landed got[OF Inr] show ?thesis
        by (auto simp: fund_critical_attempt_def synced_def)
    qed
  next
    case (conflict_landed m)
    with assms(1,2) p g frame got show ?thesis
      by (cases g) (auto simp: fund_critical_attempt_def synced_def own_write_landed_def)
  next
    case (lost_ack e')
    with assms p show ?thesis
      by (auto simp: fund_critical_attempt_def own_write_landed_def)
  next
    case (not_applied e')
    with assms p show ?thesis
      by (auto simp: fund_critical_attempt_def synced_def own_write_landed_def)
  qed
qed

lemma loop_sole_writer:
  assumes "fund_critical_loop e t k b n bo s = (res, s')" and "\<not> fenced s"
    and "synced srv k s \<or> own_write_landed srv k b s"
  shows "\<not> fenced s' \<and> res \<noteq> Some (Inl FenceStop) \<and>
    (res = Some (Inr ()) \<longrightarrow> synced srv k s' \<and> srv (rem s') k = Some (b, cached_version s' k))"
  using assms
proof (induction n arbitrary: bo s)
  case (Suc n)
  obtain out s1 where a: "fund_critical_attempt e t k b s = (out, s1)" by fastforce
  note step = attempt_sole_writer[OF a Suc.prems(2,3)]
  show ?case
  proof (cases "out = Retry")
    case False
    with step Suc.prems(1) a show ?thesis by auto
  next
    case o: True
    with step have f: "\<not> fenced s1" and i: "synced srv k s1 \<or> own_write_landed srv k b s1" by auto
    obtain bo' s2 where b: "backoff_step (e_tuning e) (BackupDegradedKey k) bo s1 = (bo', s2)" by fastforce
    from backoff_step_frame[OF b] i have "synced srv k s2 \<or> own_write_landed srv k b s2"
      by (simp add: synced_def own_write_landed_def)
    with Suc.IH[of bo' s2] Suc.prems(1) a o b f backoff_step_frame[OF b] show ?thesis by simp
  qed
qed simp

text \<open>Whatever the cached version was: the outcomes of one attempt and what they say of the server.\<close>

lemma attempt_any_writer:
  assumes "fund_critical_attempt e t k b s = (out, s')" and "\<not> fenced s"
  shows "(\<forall>k'. k' \<noteq> k \<longrightarrow> srv (rem s') k' = srv (rem s) k') \<and>
    (out = Stop (Inr ()) \<and> \<not> fenced s' \<and> srv (rem s') k = Some (b, cached_version s' k)
     \<or> out = Stop (Inl FenceStop) \<and> fenced s' \<and> srv (rem s') = srv (rem s)
        \<and> (\<exists>b' v'. srv (rem s') k = Some (b', v') \<and> b' \<noteq> b \<and> events s' = events s @ [Fenced (DivergentKey k v')])
     \<or> out = Retry \<and> \<not> fenced s' \<and> events s' = events s
        \<and> (srv (rem s') = srv (rem s) \<or> own_write_landed srv k b s'))"
proof -
  obtain r w where p: "t_put t k b (cached_version s k) (rem s) = (r, w)" by fastforce
  obtain g w' where g: "t_get t k w = (g, w')" by fastforce
  have frame: "srv w' = srv w" using get_frame[OF g] .
  have got: "g = Inr x \<Longrightarrow> x = srv w k" for x using get_ok[of k w x w'] g by auto
  from p show ?thesis
  proof (cases rule: put_cases)
    case ok
    with assms p show ?thesis by (auto simp: fund_critical_attempt_def)
  next
    case (conflict m)
    show ?thesis
    proof (cases g)
      case (Inl e')
      with assms p g conflict frame show ?thesis by (auto simp: fund_critical_attempt_def)
    next
      case (Inr x)
      with got have x: "x = srv w k" by simp
      show ?thesis
      proof (cases x)
        case None
        with assms p g Inr conflict frame show ?thesis by (auto simp: fund_critical_attempt_def)
      next
        case (Some bv)
        obtain b' v' where bv: "bv = (b', v')" by fastforce
        with Some x assms p g Inr conflict frame show ?thesis
          by (auto simp: fund_critical_attempt_def trip_fence_def Let_def split: if_splits)
      qed
    qed
  next
    case (conflict_landed m)
    with assms p g frame got show ?thesis
      by (cases g) (auto simp: fund_critical_attempt_def own_write_landed_def)
  next
    case (lost_ack e')
    with assms p show ?thesis by (auto simp: fund_critical_attempt_def own_write_landed_def)
  next
    case (not_applied e')
    with assms p show ?thesis by (auto simp: fund_critical_attempt_def)
  qed
qed

lemma loop_any_writer:
  assumes "fund_critical_loop e t k b n bo s = (res, s')" and "\<not> fenced s"
  shows "(res = Some (Inr ()) \<longrightarrow> \<not> fenced s' \<and> srv (rem s') k = Some (b, cached_version s' k))
    \<and> (res = Some (Inl FenceStop) \<longrightarrow> fenced s' \<and> srv (rem s') = srv (rem s)
        \<and> (\<exists>b' v'. srv (rem s) k = Some (b', v') \<and> b' \<noteq> b))
    \<and> (\<forall>k'. k' \<noteq> k \<longrightarrow> srv (rem s') k' = srv (rem s) k')"
  using assms
proof (induction n arbitrary: bo s)
  case (Suc n)
  obtain out s1 where a: "fund_critical_attempt e t k b s = (out, s1)" by fastforce
  note step = attempt_any_writer[OF a Suc.prems(2)]
  show ?case
  proof (cases "out = Retry")
    case False
    with step Suc.prems(1) a show ?thesis by (auto split: outcome.splits)
  next
    case o: True
    obtain bo' s2 where b: "backoff_step (e_tuning e) (BackupDegradedKey k) bo s1 = (bo', s2)" by fastforce
    note bf = backoff_step_frame[OF b]
    from Suc.prems(1) a o b have loop: "fund_critical_loop e t k b n bo' s2 = (res, s')" by simp
    from step o bf have nf: "\<not> fenced s2" by auto
    show ?thesis
    proof (cases "own_write_landed srv k b s1")
      case True
      with bf have "own_write_landed srv k b s2" by (simp add: own_write_landed_def)
      with loop_sole_writer[OF loop nf] Suc.IH[OF loop nf] step bf show ?thesis by auto
    next
      case False
      with step o have "srv (rem s1) = srv (rem s)" by auto
      with Suc.IH[OF loop nf] bf step show ?thesis by simp
    qed
  qed
qed simp

text \<open>
  The channel manager: while bytes are pending they are the only bytes ever resent, so a conflict
  on them is recognised as the wallet's own write.
\<close>

definition cm_consistent :: "('r, 'l, 'c) inner \<Rightarrow> bool" where
  "cm_consistent s \<longleftrightarrow>
     synced srv CHANNEL_MANAGER_VSS_KEY s
     \<or> (\<exists>b. cm_pending s = Some b \<and> own_write_landed srv CHANNEL_MANAGER_VSS_KEY b s)"

lemma cm_attempt_sole_writer:
  assumes "e_remote e = Some t" and "\<not> fenced s"
    and "synced srv CHANNEL_MANAGER_VSS_KEY s \<or> own_write_landed srv CHANNEL_MANAGER_VSS_KEY b s"
  shows "\<not> fenced (cm_remote_attempt e b s) \<and> cm_consistent (cm_remote_attempt e b s)"
proof -
  let ?k = CHANNEL_MANAGER_VSS_KEY
  obtain r w where p: "t_put t ?k b (cached_version s ?k) (rem s) = (r, w)" by fastforce
  obtain g w' where g: "t_get t ?k w = (g, w')" by fastforce
  have frame: "srv w' = srv w" using get_frame[OF g] .
  have got: "g = Inr x \<Longrightarrow> x = srv w ?k" for x using get_ok[of ?k w x w'] g by auto
  note defs = cm_remote_attempt_def cm_consistent_def
  from p show ?thesis
  proof (cases rule: put_cases)
    case ok
    with assms(1,2) p show ?thesis by (auto simp: defs synced_def own_write_landed_def)
  next
    case (conflict m)
    with assms(3) have landed: "srv w ?k = Some (b, cached_version s ?k + 1)"
      by (auto simp: synced_def own_write_landed_def)
    show ?thesis
    proof (cases g)
      case (Inl e')
      with assms p g conflict frame landed show ?thesis by (auto simp: defs own_write_landed_def)
    next
      case (Inr x)
      with assms(1,2) p g conflict frame landed got[OF Inr] show ?thesis
        by (auto simp: defs synced_def own_write_landed_def)
    qed
  next
    case (conflict_landed m)
    with assms(1,2) p g frame got show ?thesis
      by (cases g) (auto simp: defs synced_def own_write_landed_def)
  next
    case (lost_ack e')
    with assms(1,2) p show ?thesis by (auto simp: defs own_write_landed_def)
  next
    case (not_applied e')
    with assms p show ?thesis by (auto simp: defs synced_def own_write_landed_def)
  qed
qed

lemma cm_step_consistent:
  assumes "e_remote e = Some t" and "\<not> fenced s" and "cm_consistent s"
    and "op = OpCmRetry \<or> (\<exists>b. op = OpCmWrite b)"
  shows "\<not> fenced (store_op_run e op s) \<and> cm_consistent (store_op_run e op s)"
proof (cases "cm_pending s")
  case None
  with assms(3) have "synced srv CHANNEL_MANAGER_VSS_KEY s" by (simp add: cm_consistent_def)
  with None assms cm_attempt_sole_writer[OF assms(1,2)] show ?thesis
    by (auto simp: cm_retry_pending_def cm_remote_write_bounded_def cm_dirty_def)
next
  case (Some b)
  with assms(3) have "synced srv CHANNEL_MANAGER_VSS_KEY s \<or> own_write_landed srv CHANNEL_MANAGER_VSS_KEY b s"
    by (auto simp: cm_consistent_def)
  with Some assms cm_attempt_sole_writer[OF assms(1,2), of b] show ?thesis
    by (auto simp: cm_retry_pending_def cm_remote_write_bounded_def cm_dirty_def)
qed

lemma cm_run_consistent:
  assumes "e_remote e = Some t" and "\<not> fenced s" and "cm_consistent s"
    and "\<forall>op \<in> set ops. op = OpCmRetry \<or> (\<exists>b. op = OpCmWrite b)"
  shows "\<not> fenced (fold (store_op_run e) ops s) \<and> cm_consistent (fold (store_op_run e) ops s)"
  using assms(2-4)
proof (induction ops arbitrary: s)
  case (Cons op ops)
  with cm_step_consistent[OF assms(1) Cons.prems(1,2), of op] show ?case by simp
qed simp

end

section \<open>The memory environment used in examples\<close>

definition mem_env :: "'r transport \<Rightarrow> ('r, mem, unit) env" where
  "mem_env t = \<lparr> e_remote = Some t, e_local = mem_disk, e_codec = unary_codec,
     e_tuning = default_tuning, e_write_flag = (\<lambda>d l. (Inr (), l)), e_flag_exists = (\<lambda>l. False),
     e_elapsed = (\<lambda>w. False) \<rparr>"

definition mem_start :: "'r \<Rightarrow> ('r, mem, unit) inner" where
  "mem_start w = \<lparr> rem = w, loc = [], client = (), versions = Map.empty,
     monitor_keys = tracked_only [], name_to_vss_key = Map.empty, chains = Map.empty, tasks = [],
     completion = True, completed = [], fenced = False, cm_pending = None, events = [],
     probe_empty = False \<rparr>"

lemmas mem_defs = mem_env_def mem_start_def mem_disk_def mem_read_def mem_write_def mem_remove_def

section \<open>Properties\<close>

text \<open>
  C2: against a server that honours the versioned-object contract, a wallet that is the only writer
  of a fund-critical key never fences itself: neither lost acknowledgements nor any number of
  transient failures can make the put loop stop with a fence, and when it returns success the
  server holds exactly the submitted bytes at the version the wallet has cached.
\<close>
theorem sole_writer_never_fenced:
  assumes "vss_server t srv" and "e_remote e = Some t" and "\<not> fenced s" and "synced srv k s"
    and "put_fund_critical_with_retry e n k b s = (res, s')"
  shows "\<not> fenced s' \<and> res \<noteq> Some (Inl FenceStop)
    \<and> (res = Some (Inr ()) \<longrightarrow> synced srv k s' \<and> srv (rem s') k = Some (b, cached_version s' k))"
  using assms vss_server.loop_sole_writer[OF assms(1)]
  by (simp add: put_fund_critical_with_retry_def) blast

text \<open>
  C3: whatever version the wallet had cached, the put loop reports success only when the server
  holds the submitted bytes; it stops with a fence only when the server held different bytes from
  the start, and then it has not changed any object of the server; objects under other keys are
  never changed.
\<close>
theorem fund_critical_put_outcome:
  assumes "vss_server t srv" and "e_remote e = Some t" and "\<not> fenced s"
    and "put_fund_critical_with_retry e n k b s = (res, s')"
  shows "(res = Some (Inr ()) \<longrightarrow> \<not> fenced s' \<and> srv (rem s') k = Some (b, cached_version s' k))
    \<and> (res = Some (Inl FenceStop) \<longrightarrow> fenced s' \<and> srv (rem s') = srv (rem s)
        \<and> (\<exists>b' v'. srv (rem s) k = Some (b', v') \<and> b' \<noteq> b))
    \<and> (\<forall>k'. k' \<noteq> k \<longrightarrow> srv (rem s') k' = srv (rem s) k')"
  using assms vss_server.loop_any_writer[OF assms(1)]
  by (simp add: put_fund_critical_with_retry_def) blast

text \<open>
  Channel-manager persistence by a sole writer never fences the store, for every sequence of
  manager writes and timer-tick retries, with attempts failing, timing out or losing their
  acknowledgement at any point; whenever nothing is pending the cached version is the server's.
\<close>
theorem cm_writes_never_fence:
  assumes "vss_server t srv" and "e_remote e = Some t" and "\<not> fenced s"
    and "cm_pending s = None" and "synced srv CHANNEL_MANAGER_VSS_KEY s"
    and "\<forall>op \<in> set ops. op = OpCmRetry \<or> (\<exists>b. op = OpCmWrite b)"
    and "s' = fold (store_op_run e) ops s"
  shows "\<not> fenced s' \<and> (cm_pending s' = None \<longrightarrow> synced srv CHANNEL_MANAGER_VSS_KEY s')"
  using assms vss_server.cm_run_consistent[OF assms(1,2,3), of ops]
  by (auto simp: vss_server.cm_consistent_def[OF assms(1)])

section \<open>The properties at concrete inputs\<close>

definition lost_ack_start :: "(mock, mem, unit) inner" where
  \<comment> \<open>a server that applies a put of \<open>k\<close> and then drops the reply\<close>
  "lost_ack_start = mem_start (mock_new\<lparr> m_commit_then_fail_keys := {''k'', CHANNEL_MANAGER_VSS_KEY} \<rparr>)"

lemmas mock_eval = lost_ack_start_def mem_defs mock_new_def mock_put_sync_def mock_get_def mock_delete_def
  mock_store_def put_fund_critical_with_retry_def fund_critical_attempt_def backoff_step_def
  backoff_init_def default_tuning_def record_version_def cached_version_def Let_def

theorem fenced_store_inert_witness:
  "let s = (mem_start mock_new)\<lparr> fenced := True \<rparr>;
       s' = fold (store_op_run (mem_env mock_transport)) [OpCmWrite [1], OpLww ''x'' [2], OpDelete ''x''] s
   in fenced s \<and> rem s' = rem s \<and> fenced s' \<and> completed s' = []"
  using fenced_store_inert[of "(mem_start mock_new)\<lparr> fenced := True \<rparr>" "mem_env mock_transport"
      "[OpCmWrite [1], OpLww ''x'' [2], OpDelete ''x'']"]
  by (simp add: Let_def mem_start_def)

theorem sole_writer_never_fenced_witness:
  "let (res, s') = put_fund_critical_with_retry (mem_env mock_transport) 2 ''k'' [7] lost_ack_start
   in res = Some (Inr ()) \<and> \<not> fenced s' \<and> m_state (rem s') ''k'' = Some ([7], cached_version s' ''k'')"
proof -
  obtain res s' where run:
    "put_fund_critical_with_retry (mem_env mock_transport) 2 ''k'' [7] lost_ack_start = (res, s')"
    by fastforce
  have res: "res = Some (Inr ())"
    using run by (auto simp: numeral_2_eq_2 mock_eval)
  have "\<not> fenced lost_ack_start" "synced m_state ''k'' lost_ack_start" "e_remote (mem_env mock_transport) = Some mock_transport"
    by (simp_all add: mock_eval synced_def)
  from sole_writer_never_fenced[OF mock_srv.vss_server_axioms this(3,1,2) run] res run
  show ?thesis by simp
qed

theorem fund_critical_put_outcome_witness:
  "let s = mem_start (mock_new\<lparr> m_state := [''k'' \<mapsto> ([9], 4)] \<rparr>);
       (res, s') = put_fund_critical_with_retry (mem_env mock_transport) 1 ''k'' [7] s
   in res = Some (Inl FenceStop) \<and> fenced s' \<and> m_state (rem s') = [''k'' \<mapsto> ([9], 4)]"
proof -
  let ?s = "mem_start (mock_new\<lparr> m_state := [''k'' \<mapsto> ([9], 4)] \<rparr>)"
  obtain res s' where run: "put_fund_critical_with_retry (mem_env mock_transport) 1 ''k'' [7] ?s = (res, s')"
    by fastforce
  have res: "res = Some (Inl FenceStop)"
    using run by (auto simp: mock_eval)
  have "\<not> fenced ?s" "e_remote (mem_env mock_transport) = Some mock_transport" "m_state (rem ?s) = [''k'' \<mapsto> ([9], 4)]"
    by (simp_all add: mock_eval)
  with fund_critical_put_outcome[OF mock_srv.vss_server_axioms this(2,1) run] res run
  show ?thesis by simp
qed

theorem cm_writes_never_fence_witness:
  "\<not> fenced (fold (store_op_run (mem_env mock_transport)) [OpCmWrite [1], OpCmWrite [2], OpCmRetry] lost_ack_start)
   \<and> m_state (rem (fold (store_op_run (mem_env mock_transport)) [OpCmWrite [1], OpCmWrite [2], OpCmRetry] lost_ack_start))
       CHANNEL_MANAGER_VSS_KEY = Some ([1], 1)"
proof -
  let ?ops = "[OpCmWrite [1], OpCmWrite [2], OpCmRetry] :: unit store_op list"
  have "\<not> fenced lost_ack_start" "cm_pending lost_ack_start = None"
    "synced m_state CHANNEL_MANAGER_VSS_KEY lost_ack_start"
    "e_remote (mem_env mock_transport) = Some mock_transport"
    by (simp_all add: mock_eval synced_def)
  from cm_writes_never_fence[OF mock_srv.vss_server_axioms this(4,1,2,3), of ?ops] show ?thesis
    by (simp add: mock_eval cm_remote_write_bounded_def cm_retry_pending_def cm_remote_attempt_def
        cm_dirty_def stash_cm_pending_def clear_cm_pending_def CHANNEL_MANAGER_VSS_KEY_def)
qed

end
