(* ===== verification/Vss_Durability.thy ===== *)
theory Vss_Durability
  imports Vss_Safety
begin

text \<open>
  Durability and progress of the VSS store: manifest writes publish exactly the publishable keys
  and never lose a key another device published; a monitor update is reported complete only when
  its blob is on the server, its key is listed by the server's manifest (new channels) and its
  bytes are on disk; the retry loops end as soon as the transport stops failing.  The contract of
  the local \<open>KVStoreSync\<close> is the locale \<open>kv_store\<close>; \<open>DualWriteKvStore\<close> is shown to provide it
  again to the background processor.
\<close>

section \<open>The dual-write front provides the KVStoreSync contract\<close>

text \<open>The front the background processor writes to, over a lawful local store.\<close>

locale dual_store =
  fixes e :: "('r, 'l, 'c) env"
  assumes local_kv: "kv_store (d_read (e_local e)) (d_write (e_local e))"
    and flag_outside_kv: "d_read (e_local e) p q k (snd (e_write_flag e d l)) = d_read (e_local e) p q k l"
begin

lemma cm_write_keeps_local: "dual_read e p q k (cm_remote_write_bounded e b s) = dual_read e p q k s"
  by (auto simp: dual_read_def cm_remote_write_bounded_def cm_remote_attempt_def trip_fence_def
      stash_cm_pending_def clear_cm_pending_def record_version_def flag_outside_kv Let_def
      split: option.splits prod.splits sum.splits)

end

sublocale dual_store \<subseteq> dual: kv_store "dual_read e" "dual_write e"
proof unfold_locales
  fix p q k b s s'
  assume w: "dual_write e p q k b s = (Inr (), s')"
  show "dual_read e p q k s' = Inr b"
    using w kv_store.read_written[OF local_kv]
    by (auto simp: dual_write_def dual_read_def Let_def split: prod.splits)
next
  fix p q k b s res s' p' q' k'
  assume w: "dual_write e p q k b s = (res, s')" and ne: "(p', q', k') \<noteq> (p, q, k)"
  define s1 where "s1 = (if is_channel_manager_key p q k then cm_remote_write_bounded e b s else s)"
  from w obtain l where l: "d_write (e_local e) p q k b (loc s1) = (res, l)" and s': "s' = s1\<lparr> loc := l \<rparr>"
    by (auto simp: dual_write_def Let_def s1_def split: prod.splits)
  have "dual_read e p' q' k' s' = dual_read e p' q' k' s1"
    using kv_store.read_other[OF local_kv l ne] by (simp add: s' dual_read_def)
  also have "\<dots> = dual_read e p' q' k' s"
    by (simp add: s1_def cm_write_keeps_local)
  finally show "dual_read e p' q' k' s' = dual_read e p' q' k' s" .
qed

interpretation mem_dual: dual_store "mem_env mock_transport"
  by (rule dual_store.intro) (simp_all add: mem_env_def mem_kv.kv_store_axioms)

section \<open>Manifest writes\<close>

context vss_server
begin

lemma manifest_attempt_cases:
  assumes "manifest_attempt e t s = (out, s')" and "\<not> fenced s" and "publishable (monitor_keys s) \<noteq> []"
  shows "\<not> fenced s' \<and> mks_le (monitor_keys s) (monitor_keys s') \<and>
    (mks_wf (monitor_keys s) \<longrightarrow> mks_wf (monitor_keys s')) \<and> loc s' = loc s \<and> completed s' = completed s \<and>
    completion s' = completion s \<and>
    (\<forall>k'. k' \<noteq> MONITOR_MANIFEST_KEY \<longrightarrow> srv (rem s') k' = srv (rem s) k') \<and>
    (out = Stop (Inr ()) \<and> monitor_keys s' = monitor_keys s \<and> synced srv MONITOR_MANIFEST_KEY s \<and>
       srv (rem s') MONITOR_MANIFEST_KEY =
         Some (manifest_payload (e_codec e) (publishable (monitor_keys s)), cached_version s' MONITOR_MANIFEST_KEY)
     \<or> out = Continue \<and> synced srv MONITOR_MANIFEST_KEY s' \<and>
       (\<not> synced srv MONITOR_MANIFEST_KEY s \<longrightarrow> srv (rem s') = srv (rem s) \<and>
       (\<forall>b v ks. srv (rem s) MONITOR_MANIFEST_KEY = Some (b, v) \<longrightarrow> parse_monitor_manifest (e_codec e) b = Inr ks
          \<longrightarrow> set ks \<subseteq> {k. provenance (monitor_keys s') k = Some Publishable}))
     \<or> out = Retry \<and> monitor_keys s' = monitor_keys s \<and> cached_version s' = cached_version s \<and>
       (synced srv MONITOR_MANIFEST_KEY s \<or> srv (rem s') = srv (rem s)))"
proof -
  let ?k = MONITOR_MANIFEST_KEY
  let ?b = "manifest_payload (e_codec e) (publishable (monitor_keys s))"
  obtain r w where p: "t_put t ?k ?b (cached_version s ?k) (rem s) = (r, w)" by fastforce
  obtain g w' where g: "t_get t ?k w = (g, w')" by fastforce
  have frame: "srv w' = srv w" using get_frame[OF g] .
  have got: "g = Inr x \<Longrightarrow> x = srv w ?k" for x using get_ok[of ?k w x w'] g by auto
  from p show ?thesis
  proof (cases rule: put_cases)
    case ok
    with assms p show ?thesis by (auto simp: manifest_attempt_def synced_def)
  next
    case (conflict m)
    show ?thesis
    proof (cases g)
      case (Inl e')
      with assms p g conflict frame show ?thesis by (auto simp: manifest_attempt_def)
    next
      case (Inr x)
      with got have x: "x = srv w ?k" by simp
      show ?thesis
      proof (cases x)
        case None
        with x assms p g Inr conflict frame show ?thesis
          by (auto simp: manifest_attempt_def synced_def)
      next
        case (Some bv)
        obtain b' v' where bv: "bv = (b', v')" by fastforce
        with Some x assms p g Inr conflict frame show ?thesis
          by (auto simp: manifest_attempt_def synced_def merge_server_manifest_def mks_simps split: sum.splits)
      qed
    qed
  next
    case (conflict_landed m)
    with assms p g frame got show ?thesis
      using mks_le_merge_server_manifest[of "record_version ?k (cached_version s ?k + 1) (s\<lparr> rem := w' \<rparr>)" e ?b]
        mks_wf_merge_server_manifest[of "record_version ?k (cached_version s ?k + 1) (s\<lparr> rem := w' \<rparr>)" e ?b]
      by (cases g) (auto simp: manifest_attempt_def synced_def)
  next
    case (lost_ack e')
    with assms p show ?thesis by (auto simp: manifest_attempt_def synced_def)
  next
    case (not_applied e')
    with assms p show ?thesis by (auto simp: manifest_attempt_def synced_def)
  qed
qed

lemma publishable_mono:
  assumes "mks_wf m" and "mks_wf m'" and "mks_le m m'"
  shows "set (publishable m) \<subseteq> set (publishable m')"
  using assms by (auto simp: set_publishable intro: mks_le_publishable)

lemma manifest_loop_frame:
  assumes "manifest_loop e t n bo s = (res, s')" and "\<not> fenced s"
    and "publishable (monitor_keys s) \<noteq> []" and "mks_wf (monitor_keys s)"
  shows "res \<noteq> Some (Inl FenceStop) \<and> \<not> fenced s' \<and> mks_wf (monitor_keys s')
    \<and> mks_le (monitor_keys s) (monitor_keys s') \<and> loc s' = loc s \<and> completed s' = completed s
    \<and> completion s' = completion s
    \<and> (\<forall>k'. k' \<noteq> MONITOR_MANIFEST_KEY \<longrightarrow> srv (rem s') k' = srv (rem s) k')
    \<and> (res = Some (Inr ()) \<longrightarrow> srv (rem s') MONITOR_MANIFEST_KEY =
         Some (manifest_payload (e_codec e) (publishable (monitor_keys s')), cached_version s' MONITOR_MANIFEST_KEY))"
  using assms
proof (induction n arbitrary: bo s)
  case (Suc n)
  obtain out s1 where a: "manifest_attempt e t s = (out, s1)" by fastforce
  note step = manifest_attempt_cases[OF a Suc.prems(2,3)]
  have wf1: "mks_wf (monitor_keys s1)" using step Suc.prems(4) by blast
  have ne1: "publishable (monitor_keys s1) \<noteq> []"
    using publishable_mono[OF Suc.prems(4) wf1] step Suc.prems(3) by fastforce
  consider (stop) "out = Stop (Inr ())" | (continue) "out = Continue" | (retry) "out = Retry"
    using step by auto
  then show ?case
  proof cases
    case stop
    with Suc.prems a step show ?thesis by auto
  next
    case continue
    with Suc.prems(1) a have "manifest_loop e t n bo s1 = (res, s')" by simp
    from Suc.IH[OF this] step ne1 wf1 show ?thesis using mks_le_trans by auto
  next
    case retry
    obtain bo' s2 where b: "backoff_step (e_tuning e) BackupDegradedManifest bo s1 = (bo', s2)" by fastforce
    with retry Suc.prems(1) a have "manifest_loop e t n bo' s2 = (res, s')" by simp
    from Suc.IH[OF this] step ne1 wf1 backoff_step_frame[OF b] show ?thesis
      using mks_le_trans by auto
  qed
qed simp

lemma manifest_loop_merges:
  assumes "manifest_loop e t n bo s = (Some (Inr ()), s')" and "\<not> fenced s"
    and "publishable (monitor_keys s) \<noteq> []" and "mks_wf (monitor_keys s)"
    and "\<not> synced srv MONITOR_MANIFEST_KEY s"
    and "srv (rem s) MONITOR_MANIFEST_KEY = Some (b, v)" and "parse_monitor_manifest (e_codec e) b = Inr ks"
  shows "set ks \<subseteq> set (publishable (monitor_keys s'))"
  using assms
proof (induction n arbitrary: bo s)
  case (Suc n)
  obtain out s1 where a: "manifest_attempt e t s = (out, s1)" by fastforce
  note step = manifest_attempt_cases[OF a Suc.prems(2,3)]
  have wf1: "mks_wf (monitor_keys s1)" using step Suc.prems(4) by blast
  have ne1: "publishable (monitor_keys s1) \<noteq> []"
    using publishable_mono[OF Suc.prems(4) wf1] step Suc.prems(3) by fastforce
  consider (continue) "out = Continue" | (retry) "out = Retry"
    using step Suc.prems(5) by auto
  then show ?case
  proof cases
    case continue
    with Suc.prems(1) a have loop: "manifest_loop e t n bo s1 = (Some (Inr ()), s')" by simp
    from step continue Suc.prems(5-7) have "set ks \<subseteq> set (publishable (monitor_keys s1))"
      by (auto simp: set_publishable[OF wf1])
    with manifest_loop_frame[OF loop _ ne1 wf1] step publishable_mono[OF wf1] show ?thesis by blast
  next
    case retry
    obtain bo' s2 where b: "backoff_step (e_tuning e) BackupDegradedManifest bo s1 = (bo', s2)" by fastforce
    with retry Suc.prems(1) a have loop: "manifest_loop e t n bo' s2 = (Some (Inr ()), s')" by simp
    note bf = backoff_step_frame[OF b]
    from step retry Suc.prems(5) have same: "srv (rem s1) = srv (rem s)" "cached_version s1 = cached_version s"
      by auto
    from Suc.IH[OF loop] Suc.prems(5-7) step ne1 wf1 bf same show ?thesis by (simp add: synced_def)
  qed
qed simp

end

section \<open>The monitor job\<close>

lemma fund_critical_attempt_frame:
  assumes "fund_critical_attempt e r k b s = (out, s')"
  shows "monitor_keys s' = monitor_keys s \<and> completed s' = completed s \<and> completion s' = completion s
    \<and> (\<not> fenced s' \<longrightarrow> loc s' = loc s)"
  using assms
  by (auto simp: fund_critical_attempt_def trip_fence_def Let_def record_version_def
      split: if_splits prod.splits sum.splits option.splits)

lemma fund_critical_loop_fenced_mono:
  "fund_critical_loop e r k b n bo s = (res, s') \<Longrightarrow> fenced s \<Longrightarrow> fenced s'"
  by (cases n) (auto simp: fund_critical_attempt_def)

lemma fund_critical_loop_frame:
  assumes "fund_critical_loop e r k b n bo s = (res, s')"
  shows "monitor_keys s' = monitor_keys s \<and> completed s' = completed s \<and> completion s' = completion s
    \<and> (\<not> fenced s' \<longrightarrow> loc s' = loc s)"
  using assms
proof (induction n arbitrary: bo s)
  case (Suc n)
  obtain out s1 where a: "fund_critical_attempt e r k b s = (out, s1)" by fastforce
  note step = fund_critical_attempt_frame[OF a]
  obtain bo' s2 where b: "backoff_step (e_tuning e) (BackupDegradedKey k) bo s1 = (bo', s2)" by fastforce
  note bf = backoff_step_frame[OF b]
  show ?case
  proof (cases out)
    case (Stop x)
    with Suc.prems a step show ?thesis by auto
  next
    case Retry
    with Suc.prems a b have loop: "fund_critical_loop e r k b n bo' s2 = (res, s')" by simp
    from Suc.IH[OF loop] fund_critical_loop_fenced_mono[OF loop] bf step show ?thesis by auto
  next
    case Continue
    with Suc.prems a have loop: "fund_critical_loop e r k b n bo s1 = (res, s')" by simp
    from Suc.IH[OF loop] fund_critical_loop_fenced_mono[OF loop] step show ?thesis by auto
  qed
qed simp

lemma local_write_frame:
  assumes "local_write_with_retry e n p q k b s = (res, s')"
  shows "rem s' = rem s \<and> fenced s' = fenced s \<and> monitor_keys s' = monitor_keys s \<and> versions s' = versions s
    \<and> completed s' = completed s \<and> completion s' = completion s"
  using assms
proof (induction n arbitrary: s)
  case (Suc n)
  then show ?case by (auto split: prod.splits sum.splits)
qed simp

lemma local_write_durable:
  assumes "kv_store (d_read (e_local e)) (d_write (e_local e))"
    and "local_write_with_retry e n p q k b s = (Some (), s')"
  shows "d_read (e_local e) p q k (loc s') = Inr b"
  using assms(2)
proof (induction n arbitrary: s)
  case (Suc n)
  then show ?case
    by (auto split: prod.splits sum.splits intro: kv_store.read_written[OF assms(1)])
qed simp

lemma finish_monitor_job_durable:
  assumes "kv_store (d_read (e_local e)) (d_write (e_local e))"
    and "finish_monitor_job e n mw s = (Some (), s')"
  shows "rem s' = rem s \<and> fenced s' = fenced s \<and> monitor_keys s' = monitor_keys s \<and> versions s' = versions s
    \<and> d_read (e_local e) MONITOR_NS [] (local_key mw) (loc s') = Inr (mw_bytes mw)
    \<and> completed s' = (if completion s then completed s @ [(mw_channel_id mw, update_id mw)] else completed s)"
proof -
  from assms(2) obtain s1 where w: "local_write_with_retry e n MONITOR_NS [] (local_key mw) (mw_bytes mw) s = (Some (), s1)"
      and s': "s' = signal_completion mw s1"
    by (auto simp: finish_monitor_job_def split: prod.splits option.splits)
  from local_write_frame[OF w] local_write_durable[OF assms(1) w] show ?thesis
    by (simp add: s' signal_completion_def)
qed

context vss_server
begin

lemma monitor_job_gate:
  assumes "e_remote e = Some t" and "kv_store (d_read (e_local e)) (d_write (e_local e))"
    and "mks_wf (monitor_keys s)" and "vss_key mw \<noteq> MONITOR_MANIFEST_KEY"
    and "run_monitor_job e n mw is_new s = (Some (), s')" and "completed s' \<noteq> completed s"
  shows "\<not> fenced s' \<and> completed s' = completed s @ [(mw_channel_id mw, update_id mw)]
    \<and> (\<exists>v. srv (rem s') (vss_key mw) = Some (mw_bytes mw, v))
    \<and> d_read (e_local e) MONITOR_NS [] (local_key mw) (loc s') = Inr (mw_bytes mw)
    \<and> mks_wf (monitor_keys s') \<and> provenance (monitor_keys s') (vss_key mw) = Some Publishable
    \<and> (is_new \<longrightarrow> (\<exists>v. srv (rem s') MONITOR_MANIFEST_KEY =
         Some (manifest_payload (e_codec e) (publishable (monitor_keys s')), v)))"
proof -
  have nf: "\<not> fenced s" using assms(5,6) by (auto simp: run_monitor_job_def)
  obtain r1 s1 where p: "fund_critical_loop e t (vss_key mw) (mw_bytes mw) n (backoff_init (e_tuning e)) s = (r1, s1)"
    by fastforce
  note put = fund_critical_loop_frame[OF p] loop_any_writer[OF p nf]
  have r1: "r1 = Some (Inr ())"
    using assms(1,5,6) nf p put
    by (auto simp: run_monitor_job_def put_fund_critical_with_retry_def split: option.splits sum.splits fence_stop.splits)
  define s2 where "s2 = update_keys (mark_publishable (vss_key mw)) s1"
  have wf2: "mks_wf (monitor_keys s2)" and nf2: "\<not> fenced s2"
    and pub2: "provenance (monitor_keys s2) (vss_key mw) = Some Publishable"
    using put r1 assms(3) by (simp_all add: s2_def mks_simps)
  have ne2: "publishable (monitor_keys s2) \<noteq> []"
    using pub2 by (auto simp: publishable_Nil_iff[OF wf2])
  show ?thesis
  proof (cases is_new)
    case False
    with assms(1,5) nf p r1 have "finish_monitor_job e n mw s2 = (Some (), s')"
      by (simp add: run_monitor_job_def put_fund_critical_with_retry_def s2_def)
    from finish_monitor_job_durable[OF assms(2) this] assms(6) put r1 False wf2 nf2 pub2 show ?thesis
      by (auto simp: s2_def split: if_splits)
  next
    case True
    obtain r3 s3 where m: "manifest_loop e t n (backoff_init (e_tuning e)) s2 = (r3, s3)" by fastforce
    note man = manifest_loop_frame[OF m nf2 ne2 wf2]
    have r3: "r3 = Some (Inr ())" and fin: "finish_monitor_job e n mw s3 = (Some (), s')"
      using assms(1,5,6) nf p r1 put True m man
      by (auto simp: run_monitor_job_def put_fund_critical_with_retry_def write_manifest_with_retry_locked_def
          s2_def split: option.splits sum.splits fence_stop.splits)
    from man r3 put r1 assms(4) have "\<exists>v. srv (rem s3) (vss_key mw) = Some (mw_bytes mw, v)"
      by (auto simp: s2_def)
    with finish_monitor_job_durable[OF assms(2) fin] assms(6) man r3 put r1 True pub2 show ?thesis
      by (auto simp: s2_def mks_le_publishable split: if_splits)
  qed
qed

end

section \<open>Progress\<close>

text \<open>
  The transport recovers: a bound on the number of failures still to come never grows and is used up
  by each of them.  A conflict with another version is an answer, not a failure; a conflict on the
  version the server does hold is one (a lost acknowledgement inside the call).
\<close>

definition errors_bounded :: "'r transport \<Rightarrow> 'r view \<Rightarrow> ('r \<Rightarrow> nat) \<Rightarrow> bool" where
  "errors_bounded t srv outage \<longleftrightarrow>
     (\<forall>k b v w r w'. t_put t k b v w = (r, w') \<longrightarrow>
        outage w' \<le> outage w \<and> (\<forall>err. r = Inl err \<longrightarrow>
          \<not> is_conflict err \<or> version_of (srv w k) = v \<longrightarrow> outage w' < outage w))
     \<and> (\<forall>k w r w'. t_get t k w = (r, w') \<longrightarrow>
        outage w' \<le> outage w \<and> (\<forall>err. r = Inl err \<longrightarrow> outage w' < outage w))"

lemma errors_bounded_put:
  assumes "errors_bounded t srv outage" and "t_put t k b v w = (r, w')"
  shows "outage w' \<le> outage w" and "r = Inl err \<Longrightarrow> \<not> is_conflict err \<Longrightarrow> outage w' < outage w"
    and "r = Inl err \<Longrightarrow> version_of (srv w k) = v \<Longrightarrow> outage w' < outage w"
  using assms unfolding errors_bounded_def by blast+

lemma errors_bounded_get:
  assumes "errors_bounded t srv outage" and "t_get t k w = (r, w')"
  shows "outage w' \<le> outage w" and "r = Inl err \<Longrightarrow> outage w' < outage w"
  using assms unfolding errors_bounded_def by blast+

text \<open>The disk recovers: likewise for the failed writes of the local store.\<close>

definition writes_bounded :: "'l disk \<Rightarrow> ('l \<Rightarrow> nat) \<Rightarrow> bool" where
  "writes_bounded d flaws \<longleftrightarrow>
     (\<forall>p q k b l r l'. d_write d p q k b l = (r, l') \<longrightarrow>
        flaws l' \<le> flaws l \<and> (\<forall>err. r = Inl err \<longrightarrow> flaws l' < flaws l))"

lemma local_write_returns:
  assumes "writes_bounded (e_local e) flaws" and "flaws (loc s) < n"
  shows "\<exists>s'. local_write_with_retry e n p q k b s = (Some (), s')"
  using assms(2)
proof (induction n arbitrary: s)
  case (Suc n)
  obtain r l where w: "d_write (e_local e) p q k b (loc s) = (r, l)" by fastforce
  show ?case
  proof (cases r)
    case (Inl err)
    with w assms(1) have "flaws l < flaws (loc s)" unfolding writes_bounded_def by blast
    with Suc.prems Suc.IH[of "s\<lparr> loc := l \<rparr>"] w Inl show ?thesis by simp
  qed (use w in simp)
qed simp

definition retries_left :: "('r \<Rightarrow> nat) \<Rightarrow> 'r view \<Rightarrow> key \<Rightarrow> ('r, 'l, 'c) inner \<Rightarrow> nat" where
  "retries_left outage srv k s = 2 * outage (rem s) + (if synced srv k s then 0 else 1)"

context vss_server
begin

lemma attempt_progress:
  assumes "errors_bounded t srv outage" and "fund_critical_attempt e t k b s = (out, s')"
  shows "(\<exists>res. out = Stop res) \<or> out = Retry \<and> retries_left outage srv k s' < retries_left outage srv k s"
proof (cases "fenced s")
  case True
  with assms show ?thesis by (auto simp: fund_critical_attempt_def)
next
  case False
  obtain r w where p: "t_put t k b (cached_version s k) (rem s) = (r, w)" by fastforce
  obtain g w' where g: "t_get t k w = (g, w')" by fastforce
  note ob = errors_bounded_put[OF assms(1) p] errors_bounded_get[OF assms(1) g]
  have frame: "srv w' = srv w" using get_frame[OF g] .
  have got: "g = Inr x \<Longrightarrow> x = srv w k" for x using get_ok[of k w x w'] g by auto
  from p show ?thesis
  proof (cases rule: put_cases)
    case ok
    with assms(2) p False show ?thesis by (auto simp: fund_critical_attempt_def)
  next
    case (conflict m)
    show ?thesis
    proof (cases g)
      case (Inl e')
      with assms(2) p g False conflict ob frame show ?thesis
        by (auto simp: fund_critical_attempt_def retries_left_def synced_def)
    next
      case (Inr x)
      with got[OF Inr] assms(2) p g False conflict ob frame show ?thesis
        by (cases "srv w k") (auto simp: fund_critical_attempt_def retries_left_def synced_def Let_def split: if_splits)
    qed
  next
    case (conflict_landed m)
    with assms(2) p g False ob(3)[of "Conflict m"] ob(4) ob(5) frame got show ?thesis
      by (cases g) (auto simp: fund_critical_attempt_def retries_left_def synced_def Let_def)
  next
    case (lost_ack e')
    with assms(2) p False ob(2)[of e'] show ?thesis
      by (auto simp: fund_critical_attempt_def retries_left_def)
  next
    case (not_applied e')
    with assms(2) p False ob(2)[of e'] show ?thesis
      by (auto simp: fund_critical_attempt_def retries_left_def)
  qed
qed

lemma manifest_progress:
  assumes "errors_bounded t srv outage" and "manifest_attempt e t s = (out, s')"
  shows "(\<exists>res. out = Stop res)
    \<or> retries_left outage srv MONITOR_MANIFEST_KEY s' < retries_left outage srv MONITOR_MANIFEST_KEY s"
proof (cases "fenced s \<or> publishable (monitor_keys s) = []")
  case True
  with assms show ?thesis by (auto simp: manifest_attempt_def Let_def split: if_splits)
next
  case False
  let ?k = MONITOR_MANIFEST_KEY
  obtain r w where p:
    "t_put t ?k (manifest_payload (e_codec e) (publishable (monitor_keys s))) (cached_version s ?k) (rem s) = (r, w)"
    by fastforce
  obtain g w' where g: "t_get t ?k w = (g, w')" by fastforce
  note ob = errors_bounded_put[OF assms(1) p] errors_bounded_get[OF assms(1) g]
  have frame: "srv w' = srv w" using get_frame[OF g] .
  have got: "g = Inr x \<Longrightarrow> x = srv w ?k" for x using get_ok[of ?k w x w'] g by auto
  from p show ?thesis
  proof (cases rule: put_cases)
    case ok
    with assms(2) p False show ?thesis by (auto simp: manifest_attempt_def)
  next
    case (conflict m)
    show ?thesis
    proof (cases g)
      case (Inl e')
      with assms(2) p g False conflict ob frame show ?thesis
        by (auto simp: manifest_attempt_def retries_left_def synced_def)
    next
      case (Inr x)
      with got[OF Inr] assms(2) p g False conflict ob frame show ?thesis
        by (cases "srv w ?k") (auto simp: manifest_attempt_def retries_left_def synced_def)
    qed
  next
    case (conflict_landed m)
    with assms(2) p g False ob(3)[of "Conflict m"] ob(4) ob(5) frame got show ?thesis
      by (cases g) (auto simp: manifest_attempt_def retries_left_def synced_def Let_def)
  next
    case (lost_ack e')
    with assms(2) p False ob(2)[of e'] show ?thesis
      by (auto simp: manifest_attempt_def retries_left_def)
  next
    case (not_applied e')
    with assms(2) p False ob(2)[of e'] show ?thesis
      by (auto simp: manifest_attempt_def retries_left_def)
  qed
qed

lemma retries_left_backoff:
  "backoff_step tn ev bo s = (bo', s') \<Longrightarrow> retries_left outage srv k s' = retries_left outage srv k s"
  by (simp add: backoff_step_frame retries_left_def synced_def)

lemma fund_critical_loop_returns:
  assumes "errors_bounded t srv outage" and "retries_left outage srv k s < n"
  shows "\<exists>res. fst (fund_critical_loop e t k b n bo s) = Some res"
  using assms(2)
proof (induction n arbitrary: bo s)
  case (Suc n)
  obtain out s1 where a: "fund_critical_attempt e t k b s = (out, s1)" by fastforce
  obtain bo' s2 where b: "backoff_step (e_tuning e) (BackupDegradedKey k) bo s1 = (bo', s2)" by fastforce
  from attempt_progress[OF assms(1) a] Suc.IH[of s2 bo'] Suc.prems a b retries_left_backoff[OF b]
  show ?case by fastforce
qed simp

lemma manifest_loop_returns:
  assumes "errors_bounded t srv outage" and "retries_left outage srv MONITOR_MANIFEST_KEY s < n"
  shows "\<exists>res. fst (manifest_loop e t n bo s) = Some res"
  using assms(2)
proof (induction n arbitrary: bo s)
  case (Suc n)
  obtain out s1 where a: "manifest_attempt e t s = (out, s1)" by fastforce
  obtain bo' s2 where b: "backoff_step (e_tuning e) BackupDegradedManifest bo s1 = (bo', s2)" by fastforce
  note step = manifest_progress[OF assms(1) a] retries_left_backoff[OF b]
  show ?case
  proof (cases out)
    case (Stop x)
    with a show ?thesis by simp
  next
    case Retry
    with step a b Suc.IH[of s2 bo'] Suc.prems show ?thesis by simp
  next
    case Continue
    with step a Suc.IH[of s1 bo] Suc.prems show ?thesis by simp
  qed
qed simp

lemma fund_critical_loop_outage:
  assumes "errors_bounded t srv outage" and "fund_critical_loop e t k b n bo s = (res, s')"
  shows "outage (rem s') \<le> outage (rem s)"
  using assms(2)
proof (induction n arbitrary: bo s)
  case (Suc n)
  obtain out s1 where a: "fund_critical_attempt e t k b s = (out, s1)" by fastforce
  obtain bo' s2 where b: "backoff_step (e_tuning e) (BackupDegradedKey k) bo s1 = (bo', s2)" by fastforce
  have "outage (rem s1) \<le> outage (rem s)"
    using a errors_bounded_put(1)[OF assms(1)] errors_bounded_get(1)[OF assms(1)]
    by (fastforce simp: fund_critical_attempt_def Let_def dest: order_trans
        split: if_splits prod.splits sum.splits option.splits)
  with attempt_progress[OF assms(1) a] Suc.IH[of bo' s2] Suc.prems a b backoff_step_frame(1)[OF b]
  show ?case by fastforce
qed simp

text \<open>With the transport and the disk recovering, a sole writer's job runs to its completion signal.\<close>

lemma monitor_job_completes:
  fixes e :: "('r, 'l, 'c) env" and s :: "('r, 'l, 'c) inner"
  assumes "e_remote e = Some t" and "errors_bounded t srv outage"
    and "writes_bounded (e_local e) flaws"
    and "\<not> fenced s" and "mks_wf (monitor_keys s)" and "synced srv (vss_key mw) s" and "completion s"
    and "2 * outage (rem s) + 1 < n" and "flaws (loc s) < n"
  shows "\<exists>s'. run_monitor_job e n mw is_new s = (Some (), s')
    \<and> completed s' = completed s @ [(mw_channel_id mw, update_id mw)]"
proof -
  obtain r1 s1 where p: "fund_critical_loop e t (vss_key mw) (mw_bytes mw) n (backoff_init (e_tuning e)) s = (r1, s1)"
    by fastforce
  have "retries_left outage srv (vss_key mw) s < n" using assms(8) by (simp add: retries_left_def)
  from fund_critical_loop_returns[OF assms(2) this, of e "mw_bytes mw" "backoff_init (e_tuning e)"] p
  obtain r where r: "r1 = Some r" by auto
  note put = loop_sole_writer[OF p assms(4)] fund_critical_loop_frame[OF p] fund_critical_loop_outage[OF assms(2) p]
  have r1: "r1 = Some (Inr ())"
    using put(1) assms(6) r by (cases r) (auto intro: fence_stop.exhaust)
  define s2 where "s2 = update_keys (mark_publishable (vss_key mw)) s1"
  have wf2: "mks_wf (monitor_keys s2)" and nf2: "\<not> fenced s2"
    and pub2: "provenance (monitor_keys s2) (vss_key mw) = Some Publishable"
    using put assms(5,6) by (simp_all add: s2_def mks_simps)
  have ne2: "publishable (monitor_keys s2) \<noteq> []" using pub2 by (auto simp: publishable_Nil_iff[OF wf2])
  obtain r3 s3 where m: "manifest_loop e t n (backoff_init (e_tuning e)) s2 = (r3, s3)" by fastforce
  have "retries_left outage srv MONITOR_MANIFEST_KEY s2 < n"
    using put(3) assms(8) by (simp add: retries_left_def s2_def)
  from manifest_loop_returns[OF assms(2) this, of e "backoff_init (e_tuning e)"] m
  obtain r' where r': "r3 = Some r'" by auto
  note man = manifest_loop_frame[OF m nf2 ne2 wf2]
  have r3: "r3 = Some (Inr ())"
    using man r' by (cases r') (auto intro: fence_stop.exhaust)
  have fin: "\<exists>x'. finish_monitor_job e n mw x = (Some (), x')
      \<and> completed x' = completed x @ [(mw_channel_id mw, update_id mw)]"
    if c: "completion x" and l: "loc x = loc s" for x :: "('r, 'l, 'c) inner"
  proof -
    obtain x1 where w: "local_write_with_retry e n MONITOR_NS [] (local_key mw) (mw_bytes mw) x = (Some (), x1)"
      using local_write_returns[OF assms(3), of x n] assms(9) l by metis
    with c local_write_frame[OF w] show ?thesis by (simp add: finish_monitor_job_def signal_completion_def)
  qed
  have locs: "loc s2 = loc s" "loc s3 = loc s" using put assms(6) man by (simp_all add: s2_def)
  show ?thesis
  proof (cases is_new)
    case True
    with fin[of s3] locs man put assms r1 r3 p m show ?thesis
      by (simp add: run_monitor_job_def put_fund_critical_with_retry_def write_manifest_with_retry_locked_def s2_def)
  next
    case False
    with fin[of s2] locs put assms r1 p show ?thesis
      by (simp add: run_monitor_job_def put_fund_critical_with_retry_def s2_def)
  qed
qed

end

section \<open>Properties\<close>

text \<open>
  C4: a monitor update is reported complete to LDK only when it is durable everywhere: the server
  holds its bytes under its key, the local store reads the same bytes back, and for a new channel
  the manifest on the server is the serialized list of the publishable keys, with this key among
  them, which the wallet's own parser accepts as long as the keys are well formed and within the
  manifest's cap.
\<close>
theorem monitor_completion_gated:
  assumes "vss_server t srv" and "e_remote e = Some t"
    and "kv_store (d_read (e_local e)) (d_write (e_local e))" and "codec_ok (e_codec e)"
    and "mks_wf (monitor_keys s)" and "is_valid_monitor_key (vss_key mw)"
    and "run_monitor_job e n mw is_new s = (Some (), s')" and "completed s' \<noteq> completed s"
  shows "completed s' = completed s @ [(mw_channel_id mw, update_id mw)] \<and> \<not> fenced s'
    \<and> (\<exists>v. srv (rem s') (vss_key mw) = Some (mw_bytes mw, v))
    \<and> d_read (e_local e) MONITOR_NS [] (local_key mw) (loc s') = Inr (mw_bytes mw)
    \<and> (is_new \<longrightarrow> (\<exists>b v ks. srv (rem s') MONITOR_MANIFEST_KEY = Some (b, v)
         \<and> ks = publishable (monitor_keys s') \<and> vss_key mw \<in> set ks
         \<and> (list_all is_valid_monitor_key ks \<and> length ks \<le> MAX_MANIFEST_ENTRIES
             \<longrightarrow> parse_monitor_manifest (e_codec e) b = Inr ks)))"
proof -
  have "vss_key mw \<noteq> MONITOR_MANIFEST_KEY"
    using valid_monitor_key_not_fixed[OF assms(6)] by (auto simp: FIXED_REMOTE_KEYS_def)
  note gate = vss_server.monitor_job_gate[OF assms(1-3,5) this assms(7,8)]
  have mem: "vss_key mw \<in> set (publishable (monitor_keys s'))"
    using gate by (simp add: set_publishable)
  then have "list_all is_valid_monitor_key (publishable (monitor_keys s')) \<Longrightarrow>
      length (publishable (monitor_keys s')) \<le> MAX_MANIFEST_ENTRIES \<Longrightarrow>
      parse_monitor_manifest (e_codec e) (manifest_payload (e_codec e) (publishable (monitor_keys s')))
        = Inr (publishable (monitor_keys s'))"
    using parse_manifest_payload[OF assms(4)] gate distinct_publishable by (auto simp: list_all_iff)
  with gate mem show ?thesis by blast
qed

text \<open>
  C5: a gating manifest write that meets a manifest the wallet has not seen (its cached version is
  stale) publishes every key of that manifest again: no monitor another device tracks is dropped.
\<close>
theorem manifest_write_keeps_server_keys:
  assumes "vss_server t srv" and "e_remote e = Some t" and "\<not> fenced s"
    and "mks_wf (monitor_keys s)" and "publishable (monitor_keys s) \<noteq> []"
    and "\<not> synced srv MONITOR_MANIFEST_KEY s"
    and "srv (rem s) MONITOR_MANIFEST_KEY = Some (b, v)" and "parse_monitor_manifest (e_codec e) b = Inr ks"
    and "write_manifest_with_retry_locked e n s = (Some (Inr ()), s')"
  shows "set ks \<union> set (publishable (monitor_keys s)) \<subseteq> set (publishable (monitor_keys s'))
    \<and> (\<exists>v'. srv (rem s') MONITOR_MANIFEST_KEY = Some (manifest_payload (e_codec e) (publishable (monitor_keys s')), v'))"
proof -
  from assms(2,9) have loop: "manifest_loop e t n (backoff_init (e_tuning e)) s = (Some (Inr ()), s')"
    by (simp add: write_manifest_with_retry_locked_def)
  note frame = vss_server.manifest_loop_frame[OF assms(1) loop assms(3,5,4)]
  from vss_server.manifest_loop_merges[OF assms(1) loop assms(3,5,4,6,7,8)]
    vss_server.publishable_mono[OF assms(1,4)] frame show ?thesis by blast
qed

text \<open>
  C6: liveness of monitor persistence: if the transport has finitely many failures left and so has
  the disk, a sole writer's monitor job returns within the stated number of iterations of each of
  its loops and signals completion; the bound is linear in the number of outstanding failures, those
  of the remote puts and reads and those of the local write, which is retried until it succeeds.
\<close>
theorem monitor_job_completes_after_outage:
  assumes "vss_server t srv" and "e_remote e = Some t" and "errors_bounded t srv outage"
    and "writes_bounded (e_local e) flaws"
    and "\<not> fenced s" and "mks_wf (monitor_keys s)" and "synced srv (vss_key mw) s" and "completion s"
    and "2 * outage (rem s) + 1 < n" and "flaws (loc s) < n"
  shows "\<exists>s'. run_monitor_job e n mw is_new s = (Some (), s')
    \<and> completed s' = completed s @ [(mw_channel_id mw, update_id mw)]"
  using vss_server.monitor_job_completes[OF assms] .

section \<open>The properties at concrete inputs\<close>

definition example_key :: key where
  "example_key = replicate 64 CHR ''a'' @ '':0''"

definition example_write :: monitor_write where
  "example_write = \<lparr> monitor_name = ''m'', vss_key = example_key, local_key = ''m'',
     mw_channel_id = [1], update_id = 5, mw_bytes = [7] \<rparr>"

lemma example_key_valid: "is_valid_monitor_key example_key"
proof -
  have "split_once CHR '':'' example_key = Some (replicate 64 CHR ''a'', ''0'')"
    by (simp add: split_once_Some example_key_def)
  then show ?thesis
    by (simp add: is_valid_monitor_key_def list_all_iff is_lower_hex_iff is_ascii_digit_iff)
qed

lemma example_key_not_manifest: "example_key \<noteq> MONITOR_MANIFEST_KEY"
  using valid_monitor_key_not_fixed[OF example_key_valid] by (auto simp: FIXED_REMOTE_KEYS_def)

lemmas job_eval = run_monitor_job_def write_manifest_with_retry_locked_def manifest_attempt_def
  finish_monitor_job_def signal_completion_def update_keys_def mark_publishable_def tracked_only_def
  with_provenance_def bt_of_list_def publishable_def example_write_def

lemma example_job_completes:
  "\<exists>s'. run_monitor_job (mem_env mock_transport) 1 example_write True (mem_start mock_new) = (Some (), s')
    \<and> completed s' = [([1], 5)]"
  by (simp add: mock_eval job_eval example_key_not_manifest)

theorem monitor_completion_gated_witness:
  "\<exists>s' v. run_monitor_job (mem_env mock_transport) 1 example_write True (mem_start mock_new) = (Some (), s')
    \<and> completed s' = [([1], 5)] \<and> m_state (rem s') example_key = Some ([7], v)
    \<and> d_read mem_disk MONITOR_NS [] ''m'' (loc s') = Inr [7]"
proof -
  obtain s' where run: "run_monitor_job (mem_env mock_transport) 1 example_write True (mem_start mock_new) = (Some (), s')"
    and c: "completed s' = [([1], 5)]"
    using example_job_completes by blast
  have h: "e_remote (mem_env mock_transport) = Some mock_transport"
    "e_local (mem_env mock_transport) = mem_disk" "codec_ok (e_codec (mem_env mock_transport))"
    "mks_wf (monitor_keys (mem_start mock_new))" "is_valid_monitor_key (vss_key example_write)"
    "completed s' \<noteq> completed (mem_start mock_new)"
    using c by (simp_all add: mem_env_def mem_start_def tracked_only_def example_write_def example_key_valid)
  have kv: "kv_store (d_read (e_local (mem_env mock_transport))) (d_write (e_local (mem_env mock_transport)))"
    using mem_kv.kv_store_axioms by (simp add: h)
  from monitor_completion_gated[OF mock_srv.vss_server_axioms h(1) kv h(3,4,5) run h(6)] run c h(2)
  show ?thesis by (auto simp: example_write_def)
qed

definition foreign_manifest_start :: "(mock, mem, unit) inner" where
  \<comment> \<open>another device published a manifest at version 3 that this wallet has not read\<close>
  "foreign_manifest_start = (mem_start (mock_new\<lparr> m_state :=
     [MONITOR_MANIFEST_KEY \<mapsto> (manifest_payload unary_codec [example_key], 3)] \<rparr>))
     \<lparr> monitor_keys := all_publishable [CHR ''b'' # tl example_key] \<rparr>"

theorem manifest_write_keeps_server_keys_witness:
  "\<exists>s'. write_manifest_with_retry_locked (mem_env mock_transport) 2 foreign_manifest_start = (Some (Inr ()), s')
    \<and> example_key \<in> set (publishable (monitor_keys s'))"
proof -
  let ?e = "mem_env mock_transport" and ?s = foreign_manifest_start
  have parse: "parse_monitor_manifest unary_codec (manifest_payload unary_codec [example_key]) = Inr [example_key]"
    using parse_manifest_payload[of unary_codec "[example_key]"] example_key_valid
    by (simp add: MAX_MANIFEST_ENTRIES_def)
  have "\<exists>s'. write_manifest_with_retry_locked ?e 2 ?s = (Some (Inr ()), s')"
    using parse
    by (simp add: numeral_2_eq_2 mock_eval job_eval foreign_manifest_start_def all_publishable_def
        merge_server_manifest_def extend_publishable_def)
  then obtain s' where run: "write_manifest_with_retry_locked ?e 2 ?s = (Some (Inr ()), s')" by blast
  have h: "e_remote ?e = Some mock_transport" "\<not> fenced ?s" "mks_wf (monitor_keys ?s)"
    "publishable (monitor_keys ?s) \<noteq> []" "\<not> synced m_state MONITOR_MANIFEST_KEY ?s"
    "m_state (rem ?s) MONITOR_MANIFEST_KEY = Some (manifest_payload unary_codec [example_key], 3)"
    by (simp_all add: foreign_manifest_start_def mock_eval all_publishable_def synced_def publishable_def
        with_provenance_def bt_of_list_def mks_wf_def bt_wf_def)
  have p: "parse_monitor_manifest (e_codec ?e) (manifest_payload unary_codec [example_key]) = Inr [example_key]"
    using parse by (simp add: mem_env_def)
  from manifest_write_keeps_server_keys[OF mock_srv.vss_server_axioms h p run] run show ?thesis by auto
qed

text \<open>A transport that fails its first calls, counted down in its state, and then behaves as the in-memory server.\<close>

definition flaky :: "(nat \<times> (key \<rightharpoonup> bytes \<times> version)) transport" where
  "flaky = \<lparr>
     t_get = (\<lambda>k (n, st). if n > 0 then (Inl (Network []), (n - 1, st))
        else (fst (mock_get k (mock_new\<lparr> m_state := st \<rparr>)), (0, st))),
     t_get_by_stored_key = (\<lambda>k (n, st). (Inl (Network []), (n, st))),
     t_put = (\<lambda>k b v (n, st). if n > 0 then (Inl (Network []), (n - 1, st))
        else case mock_put_sync k b v (mock_new\<lparr> m_state := st \<rparr>) of (r, m) \<Rightarrow> (r, (0, m_state m))),
     t_put_many = (\<lambda>items (n, st). (Inl (Network []), (n, st))),
     t_delete = (\<lambda>k v (n, st). case mock_delete k v (mock_new\<lparr> m_state := st \<rparr>) of (r, m) \<Rightarrow> (r, (n, m_state m))),
     t_list = (\<lambda>(n, st). (Inl (Network []), (n, st))),
     t_obfuscate = (\<lambda>k. k) \<rparr>"

lemmas flaky_eval = flaky_def mock_put_sync_def mock_get_def mock_delete_def mock_store_def mock_new_def Let_def

lemma flaky_server: "vss_server flaky snd"
  by unfold_locales (auto simp: flaky_eval split: if_splits option.splits prod.splits)

lemma flaky_errors: "errors_bounded flaky snd fst"
  by (auto simp: errors_bounded_def flaky_eval split: if_splits)

text \<open>A disk whose first writes fail, counted down in its state.\<close>

definition recovering_disk :: "(nat \<times> mem) disk" where
  "recovering_disk = quota_disk\<lparr> d_write := (\<lambda>p q k b (n, l).
     if n > 0 then (Inl ''EIO'', (n - 1, l)) else (Inr (), (0, AList.update (p, q, k) b l))) \<rparr>"

definition outage_env :: "(nat \<times> (key \<rightharpoonup> bytes \<times> version), nat \<times> mem, unit) env" where
  "outage_env = \<lparr> e_remote = Some flaky, e_local = recovering_disk, e_codec = unary_codec,
     e_tuning = default_tuning, e_write_flag = (\<lambda>d l. (Inr (), l)), e_flag_exists = (\<lambda>l. False),
     e_elapsed = (\<lambda>w. False) \<rparr>"

definition outage_start :: "(nat \<times> (key \<rightharpoonup> bytes \<times> version), nat \<times> mem, unit) inner" where
  "outage_start = (vss_new outage_env (3, Map.empty) (4, []) () Map.empty (tracked_only []) False)\<lparr> completion := True \<rparr>"

lemma recovering_writes: "writes_bounded recovering_disk fst"
  by (auto simp: writes_bounded_def recovering_disk_def split: if_splits)

theorem monitor_job_completes_after_outage_witness:
  "\<exists>s'. run_monitor_job outage_env 9 example_write True outage_start = (Some (), s')
    \<and> completed s' = [([1], 5)]"
proof -
  have h: "e_remote outage_env = Some flaky" "writes_bounded (e_local outage_env) fst"
    "\<not> fenced outage_start" "mks_wf (monitor_keys outage_start)"
    "synced snd (vss_key example_write) outage_start" "completion outage_start"
    "2 * fst (rem outage_start) + 1 < (9 :: nat)" "fst (loc outage_start) < (9 :: nat)"
    by (simp_all add: outage_env_def outage_start_def vss_new_def recovering_writes tracked_only_def synced_def
        cached_version_def)
  from monitor_job_completes_after_outage[OF flaky_server h(1) flaky_errors h(2-8), of True] show ?thesis
    by (simp add: outage_start_def vss_new_def example_write_def)
qed

end
