(* ===== verification/Text.thy ===== *)
theory Text
  imports Json
begin

text \<open>
  The \<open>str\<close> operations of the Rust standard library that the payment parsers use, on byte strings (a
  Rust \<open>str\<close> is its UTF-8 encoding): trimming of Unicode white space, letter case, splitting, counting
  of characters, and UTF-8 validity. Letter case is exact for the bytes the parsers look at: of the
  characters outside ASCII only the Kelvin sign has an ASCII lower case, every other one is left as
  it is.
\<close>

definition byte :: "char \<Rightarrow> nat" where
  "byte c = of_char c"

definition is_lower :: "char \<Rightarrow> bool" where "is_lower c \<longleftrightarrow> 97 \<le> byte c \<and> byte c \<le> 122"
definition is_upper :: "char \<Rightarrow> bool" where "is_upper c \<longleftrightarrow> 65 \<le> byte c \<and> byte c \<le> 90"
definition is_alpha :: "char \<Rightarrow> bool" where "is_alpha c \<longleftrightarrow> is_lower c \<or> is_upper c"
definition is_alnum :: "char \<Rightarrow> bool" where "is_alnum c \<longleftrightarrow> is_alpha c \<or> is_ascii_digit c"

definition lower_char :: "char \<Rightarrow> char" where
  "lower_char c = (if is_upper c then char_of (byte c + 32) else c)"

definition upper_char :: "char \<Rightarrow> char" where
  "upper_char c = (if is_lower c then char_of (byte c - 32) else c)"

definition bytes_str :: "nat list \<Rightarrow> string" where
  "bytes_str bs = map char_of bs"

definition KELVIN :: string where "KELVIN = bytes_str [0xE2, 0x84, 0xAA]"

fun to_lowercase :: "string \<Rightarrow> string" where
  "to_lowercase [] = []"
| "to_lowercase (a # b # c # s) =
     (if [a, b, c] = KELVIN then CHR ''k'' # to_lowercase s else lower_char a # to_lowercase (b # c # s))"
| "to_lowercase (a # s) = lower_char a # to_lowercase s"

definition to_ascii_uppercase :: "string \<Rightarrow> string" where
  "to_ascii_uppercase s = map upper_char s"

definition ws_seqs :: "string list" where
  \<comment> \<open>the encodings of the characters with the property \<open>White_Space\<close>\<close>
  "ws_seqs = map bytes_str
     ([[9], [10], [11], [12], [13], [32], [0xC2, 0x85], [0xC2, 0xA0], [0xE1, 0x9A, 0x80],
       [0xE2, 0x80, 0xA8], [0xE2, 0x80, 0xA9], [0xE2, 0x80, 0xAF], [0xE2, 0x81, 0x9F], [0xE3, 0x80, 0x80]]
      @ map (\<lambda>i. [0xE2, 0x80, 0x80 + i]) [0..<11])"

definition strip_prefix :: "string \<Rightarrow> string \<Rightarrow> string option" where
  "strip_prefix p s = (if take (length p) s = p then Some (drop (length p) s) else None)"

function strip_seqs :: "string list \<Rightarrow> string \<Rightarrow> string" where
  "strip_seqs seqs s =
     (case find (\<lambda>w. w \<noteq> [] \<and> take (length w) s = w) seqs of
        None \<Rightarrow> s
      | Some w \<Rightarrow> if s = [] then s else strip_seqs seqs (drop (length w) s))"
  by pat_completeness auto
termination
  by (relation "measure (\<lambda>(seqs, s). length s)") (auto simp: find_Some_iff)

declare strip_seqs.simps [simp del]

definition trim_start :: "string \<Rightarrow> string" where
  "trim_start s = strip_seqs ws_seqs s"

definition trim_end :: "string \<Rightarrow> string" where
  "trim_end s = rev (strip_seqs (map rev ws_seqs) (rev s))"

definition trim :: "string \<Rightarrow> string" where
  "trim s = trim_end (trim_start s)"

definition printable :: "char \<Rightarrow> bool" where
  "printable c \<longleftrightarrow> 33 \<le> byte c \<and> byte c \<le> 126"

lemma strip_seqs_id:
  assumes "\<forall>w \<in> set seqs. w \<noteq> [] \<longrightarrow> s \<noteq> [] \<longrightarrow> hd w \<noteq> hd s"
  shows "strip_seqs seqs s = s"
proof -
  have "\<not> (w \<noteq> [] \<and> take (length w) s = w)" if "w \<in> set seqs" "s \<noteq> []" for w
    using assms that by (metis hd_take length_greater_0_conv)
  then have "s \<noteq> [] \<Longrightarrow> find (\<lambda>w. w \<noteq> [] \<and> take (length w) s = w) seqs = None"
    by (auto simp: find_None_iff)
  then show ?thesis by (cases "s = []") (subst strip_seqs.simps; simp split: option.splits)+
qed

lemma ws_not_printable: "w \<in> set ws_seqs \<Longrightarrow> \<not> printable (hd w) \<and> \<not> printable (last w)"
  by (auto simp: ws_seqs_def bytes_str_def printable_def byte_def upt_rec)

lemma trim_id: "s \<noteq> [] \<Longrightarrow> printable (hd s) \<Longrightarrow> printable (last s) \<Longrightarrow> trim s = s"
proof -
  assume s: "s \<noteq> []" "printable (hd s)" "printable (last s)"
  have "trim_start s = s" unfolding trim_start_def
    by (rule strip_seqs_id) (use s ws_not_printable in metis)
  moreover have "strip_seqs (map rev ws_seqs) (rev s) = rev s"
    by (rule strip_seqs_id) (use s ws_not_printable in \<open>auto simp: hd_rev, metis\<close>)
  ultimately show ?thesis by (simp add: trim_def trim_end_def)
qed

definition chars_count :: "string \<Rightarrow> nat" where
  \<comment> \<open>the bytes that are not continuation bytes\<close>
  "chars_count s = length (filter (\<lambda>c. \<not> (0x80 \<le> byte c \<and> byte c < 0xC0)) s)"

definition eq_ignore_ascii_case :: "string \<Rightarrow> string \<Rightarrow> bool" where
  "eq_ignore_ascii_case a b \<longleftrightarrow> map lower_char a = map lower_char b"

fun split_on :: "char \<Rightarrow> string \<Rightarrow> string list" where
  \<comment> \<open>\<open>str::split\<close>\<close>
  "split_on c [] = [[]]"
| "split_on c (x # xs) =
     (if x = c then [] # split_on c xs
      else case split_on c xs of [] \<Rightarrow> [[x]] | p # ps \<Rightarrow> (x # p) # ps)"

fun str_contains :: "string \<Rightarrow> string \<Rightarrow> bool" where
  \<comment> \<open>\<open>s.contains(p)\<close>, pattern first\<close>
  "str_contains p [] \<longleftrightarrow> p = []"
| "str_contains p (c # s) \<longleftrightarrow> take (length p) (c # s) = p \<or> str_contains p s"

lemma to_lowercase_id: "list_all (\<lambda>c. byte c < 128 \<and> \<not> is_upper c) s \<Longrightarrow> to_lowercase s = s"
proof (induction s rule: to_lowercase.induct)
  case (2 a b c s)
  have "[a, b, c] \<noteq> KELVIN" using 2(3) by (auto simp: KELVIN_def bytes_str_def byte_def)
  with 2 show ?case by (simp add: lower_char_def)
qed (simp_all add: lower_char_def)

lemma str_contains_infix: "str_contains p (a @ p @ b)"
proof (induction a)
  case Nil
  show ?case by (cases "p @ b") (simp_all, metis append_eq_conv_conj)
next
  case (Cons c a)
  then show ?case by simp
qed

definition rsplit_once :: "char \<Rightarrow> string \<Rightarrow> (string \<times> string) option" where
  "rsplit_once c s = map_option (\<lambda>(a, b). (rev b, rev a)) (split_once c (rev s))"

section \<open>UTF-8 validity\<close>

definition cont :: "nat \<Rightarrow> bool" where
  "cont b \<longleftrightarrow> 0x80 \<le> b \<and> b \<le> 0xBF"

definition lead3 :: "nat \<Rightarrow> nat \<Rightarrow> bool" where
  "lead3 a b \<longleftrightarrow> a = 0xE0 \<and> 0xA0 \<le> b \<and> b \<le> 0xBF \<or> (0xE1 \<le> a \<and> a \<le> 0xEC \<or> a = 0xEE \<or> a = 0xEF) \<and> cont b
     \<or> a = 0xED \<and> 0x80 \<le> b \<and> b \<le> 0x9F"

definition lead4 :: "nat \<Rightarrow> nat \<Rightarrow> bool" where
  "lead4 a b \<longleftrightarrow> a = 0xF0 \<and> 0x90 \<le> b \<and> b \<le> 0xBF \<or> 0xF1 \<le> a \<and> a \<le> 0xF3 \<and> cont b
     \<or> a = 0xF4 \<and> 0x80 \<le> b \<and> b \<le> 0x8F"

fun utf8_valid :: "nat list \<Rightarrow> bool" where
  "utf8_valid [] = True"
| "utf8_valid (a # r) =
     (if a < 0x80 then utf8_valid r
      else case r of
        b # r1 \<Rightarrow>
          if 0xC2 \<le> a \<and> a \<le> 0xDF then cont b \<and> utf8_valid r1
          else (case r1 of
             c # r2 \<Rightarrow>
               if lead3 a b then cont c \<and> utf8_valid r2
               else (case r2 of
                  d # r3 \<Rightarrow> lead4 a b \<and> cont c \<and> cont d \<and> utf8_valid r3
                | [] \<Rightarrow> False)
           | [] \<Rightarrow> False)
      | [] \<Rightarrow> False)"

definition as_bytes :: "string \<Rightarrow> bytes" where
  "as_bytes s = map (\<lambda>c. of_nat (of_char c)) s"

definition from_utf8 :: "bytes \<Rightarrow> string option" where
  \<comment> \<open>\<open>String::from_utf8\<close>\<close>
  "from_utf8 b = (if utf8_valid (map unat b) then Some (map (\<lambda>w. char_of (unat w)) b) else None)"

lemma unat_of_char [simp]: "unat (of_nat (of_char c :: nat) :: u8) = of_char c"
proof -
  have "(of_char c :: nat) < 256" by (rule nat_of_char_less_256)
  then show ?thesis by (simp add: unat_of_nat)
qed

lemma utf8_ascii: "(\<forall>b \<in> set bs. b < 0x80) \<Longrightarrow> utf8_valid bs"
  by (induction bs) auto

lemma from_utf8_ascii:
  assumes "\<forall>c \<in> set s. byte c < 0x80"
  shows "from_utf8 (as_bytes s) = Some s"
proof -
  have "map unat (as_bytes s) = map of_char s"
    by (simp add: as_bytes_def comp_def)
  moreover have "utf8_valid (map of_char s)"
    using assms by (intro utf8_ascii) (auto simp: byte_def)
  moreover have "map (\<lambda>w. char_of (unat w)) (as_bytes s) = s"
    by (simp add: as_bytes_def comp_def)
  ultimately show ?thesis by (simp add: from_utf8_def)
qed

section \<open>Words\<close>

definition ws_len :: "string \<Rightarrow> nat" where
  \<comment> \<open>the length of the white space character the string starts with, or 0\<close>
  "ws_len s = (case find (\<lambda>w. w \<noteq> [] \<and> take (length w) s = w) ws_seqs of None \<Rightarrow> 0 | Some w \<Rightarrow> length w)"

fun split_ws :: "string \<Rightarrow> string \<Rightarrow> string list" where
  "split_ws acc [] = (if acc = [] then [] else [rev acc])"
| "split_ws acc (c # s) =
     (case ws_len (c # s) of
        0 \<Rightarrow> split_ws (c # acc) s
      | Suc n \<Rightarrow> (if acc = [] then [] else [rev acc]) @ split_ws [] (drop n s))"

definition split_whitespace :: "string \<Rightarrow> string list" where
  "split_whitespace s = split_ws [] s"

fun join_spaces :: "string list \<Rightarrow> string" where
  "join_spaces [] = []"
| "join_spaces [w] = w"
| "join_spaces (w # ws) = w @ CHR '' '' # join_spaces ws"

lemma ws_len_ascii:
  assumes "byte c < 0x80"
  shows "ws_len (c # s) = (if byte c \<in> {9, 10, 11, 12, 13, 32} then 1 else 0)"
proof -
  have c: "c = char_of n \<longleftrightarrow> byte c = n" if "n < 256" for n :: nat
    using that by (auto simp: byte_def)
  have "byte c = n \<longleftrightarrow> False" if "0x80 \<le> n" for n using assms that by auto
  with c show ?thesis
    by (simp add: ws_len_def ws_seqs_def bytes_str_def upt_rec)
qed

end
