(* ===== verification/Data_Dir.thy ===== *)
theory Data_Dir
  imports Text Local_Store
begin

text \<open>
  The wallet's data directory and the files the core keeps in it beside the key-value store: the
  mnemonic (\<open>src/rust/src/keys.rs\<close>), the restore marker (\<open>src/rust/src/restore.rs\<close>) and the fenced
  flag. The operating system's file operations are the record \<open>fs\<close>, a parameter of the model over a
  state of any type; the store under \<open>store/\<close> is one of its components.

  The locale \<open>data_dir\<close> says what those operations do to the files and to the store, for calls that
  succeed and for calls that fail, so that a process that dies between two calls is the instance in
  which every later call fails; \<open>crash_fs\<close> is that instance. A failed write may leave any prefix of
  the bytes behind, a failed directory removal any part of the store.
\<close>

record 'f fs =
  fs_create_dir :: "'f \<Rightarrow> (io_error + unit) \<times> 'f"
  fs_exists :: "string \<Rightarrow> 'f \<Rightarrow> bool"
  fs_read :: "string \<Rightarrow> 'f \<Rightarrow> io_error + bytes"
  fs_create :: "string \<Rightarrow> 'f \<Rightarrow> (io_error + unit) \<times> 'f"
  fs_create_new :: "string \<Rightarrow> 'f \<Rightarrow> (io_error + unit) \<times> 'f"
  fs_write_all :: "string \<Rightarrow> bytes \<Rightarrow> 'f \<Rightarrow> (io_error + unit) \<times> 'f"
  fs_sync :: "string \<Rightarrow> 'f \<Rightarrow> (io_error + unit) \<times> 'f"
  fs_sync_dir :: "'f \<Rightarrow> 'f"
  fs_remove :: "string \<Rightarrow> 'f \<Rightarrow> (io_error + unit) \<times> 'f"
  fs_store_exists :: "'f \<Rightarrow> bool"
  fs_remove_store :: "'f \<Rightarrow> (io_error + unit) \<times> 'f"
  fs_kv :: "'f disk"

definition MNEMONIC_FILE_NAME :: string where "MNEMONIC_FILE_NAME = ''mnemonic''"
definition RESTORE_IN_PROGRESS_FILE_NAME :: string where "RESTORE_IN_PROGRESS_FILE_NAME = ''restore_in_progress''"
definition FENCED_FLAG_FILE_NAME :: string where "FENCED_FLAG_FILE_NAME = ''fenced''"

lemma file_names_distinct [simp]:
  "MNEMONIC_FILE_NAME \<noteq> RESTORE_IN_PROGRESS_FILE_NAME" "RESTORE_IN_PROGRESS_FILE_NAME \<noteq> MNEMONIC_FILE_NAME"
  "FENCED_FLAG_FILE_NAME \<noteq> RESTORE_IN_PROGRESS_FILE_NAME" "RESTORE_IN_PROGRESS_FILE_NAME \<noteq> FENCED_FLAG_FILE_NAME"
  "MNEMONIC_FILE_NAME \<noteq> FENCED_FLAG_FILE_NAME" "FENCED_FLAG_FILE_NAME \<noteq> MNEMONIC_FILE_NAME"
  by (simp_all add: MNEMONIC_FILE_NAME_def RESTORE_IN_PROGRESS_FILE_NAME_def FENCED_FLAG_FILE_NAME_def)

section \<open>The mnemonic\<close>

text \<open>
  A \<open>Mnemonic\<close> of the bip39 crate is its word list, written as its \<open>Display\<close> form; \<open>bip39\<close> is the
  crate's \<open>parse_in_normalized\<close> for English. What is used of it is that the form it prints is ASCII
  words with single spaces and parses back.
\<close>

type_synonym mnemonic = string

definition normalized :: "string \<Rightarrow> string" where
  "normalized raw = join_spaces (split_whitespace raw)"

definition bip39_ok :: "(string \<Rightarrow> mnemonic option) \<Rightarrow> bool" where
  "bip39_ok bip39 \<longleftrightarrow> (\<forall>s m. bip39 s = Some m \<longrightarrow>
     bip39 m = Some m \<and> normalized m = m \<and> (\<forall>c \<in> set m. byte c < 0x80))"

datatype keys_error =
    KeysWriteFailed | KeysReadFailed | KeysInvalidMnemonic | KeysMnemonicExists | KeysRestoreInProgress

definition parse_mnemonic :: "(string \<Rightarrow> mnemonic option) \<Rightarrow> string \<Rightarrow> keys_error + mnemonic" where
  "parse_mnemonic bip39 raw =
     (case bip39 (normalized raw) of
        None \<Rightarrow> Inl KeysInvalidMnemonic
      | Some m \<Rightarrow> if length (split_whitespace m) \<noteq> 12 then Inl KeysInvalidMnemonic else Inr m)"

definition write_mnemonic :: "'f fs \<Rightarrow> mnemonic \<Rightarrow> 'f \<Rightarrow> (keys_error + unit) \<times> 'f" where
  "write_mnemonic F m s0 =
     and_then (map_err (\<lambda>_. KeysWriteFailed) (fs_create_dir F s0)) (\<lambda>_ s1.
     and_then (map_err (\<lambda>e. if e = ''AlreadyExists'' then KeysMnemonicExists else KeysWriteFailed)
                 (fs_create_new F MNEMONIC_FILE_NAME s1)) (\<lambda>_ s2.
     and_then (map_err (\<lambda>_. KeysWriteFailed) (fs_write_all F MNEMONIC_FILE_NAME (as_bytes m) s2)) (\<lambda>_ s3.
     map_err (\<lambda>_. KeysWriteFailed) (fs_sync F MNEMONIC_FILE_NAME s3))))"

definition read_or_generate_mnemonic ::
  "'f fs \<Rightarrow> (string \<Rightarrow> mnemonic option) \<Rightarrow> mnemonic \<Rightarrow> 'f \<Rightarrow> (keys_error + mnemonic) \<times> 'f"
where
  \<comment> \<open>\<open>fresh\<close> is what \<open>generate_mnemonic\<close> draws from the operating system's entropy\<close>
  "read_or_generate_mnemonic F bip39 fresh s =
     (if fs_exists F MNEMONIC_FILE_NAME s then
        (case fs_read F MNEMONIC_FILE_NAME s of
           Inl e \<Rightarrow> (Inl KeysReadFailed, s)
         | Inr bs \<Rightarrow>
             (case from_utf8 bs of
                None \<Rightarrow> (Inl KeysInvalidMnemonic, s)
              | Some raw \<Rightarrow> (parse_mnemonic bip39 raw, s)))
      else if fs_exists F RESTORE_IN_PROGRESS_FILE_NAME s then (Inl KeysRestoreInProgress, s)
      else and_then (write_mnemonic F fresh s) (\<lambda>_ s1. (Inr fresh, s1)))"

section \<open>The restore marker\<close>

record restore_marker =
  rm_mnemonic :: string
  rm_started_at_ms :: u64

definition marker_to_json :: "restore_marker \<Rightarrow> json" where
  "marker_to_json r = JObject [(''mnemonic'', JString (rm_mnemonic r)), (''started_at_ms'', JNum (PosInt (rm_started_at_ms r)))]"

definition make_marker :: "string option \<Rightarrow> u64 option \<Rightarrow> restore_marker option" where
  "make_marker m t = Option.bind m (\<lambda>m. map_option (\<lambda>t. \<lparr> rm_mnemonic = m, rm_started_at_ms = t \<rparr>) t)"

fun marker_of_json :: "json \<Rightarrow> restore_marker option" where
  "marker_of_json (JObject ob) = make_marker (fld ob ''mnemonic'' as_str) (fld ob ''started_at_ms'' as_u64)"
| "marker_of_json (JArray [m, t]) = make_marker (as_str m) (as_u64 t)"
| "marker_of_json _ = None"

definition write_marker :: "'f fs \<Rightarrow> json_codec \<Rightarrow> restore_marker \<Rightarrow> 'f \<Rightarrow> (io_error + unit) \<times> 'f" where
  "write_marker F c r s0 =
     and_then (fs_create F RESTORE_IN_PROGRESS_FILE_NAME s0) (\<lambda>_ s1.
     and_then (fs_write_all F RESTORE_IN_PROGRESS_FILE_NAME (to_vec c (marker_to_json r)) s1) (\<lambda>_ s2.
     and_then (fs_sync F RESTORE_IN_PROGRESS_FILE_NAME s2) (\<lambda>_ s3.
     (Inr (), fs_sync_dir F s3))))"

definition read_marker :: "'f fs \<Rightarrow> json_codec \<Rightarrow> 'f \<Rightarrow> restore_marker option" where
  "read_marker F c s =
     (case fs_read F RESTORE_IN_PROGRESS_FILE_NAME s of
        Inl e \<Rightarrow> None
      | Inr bs \<Rightarrow> Option.bind (from_slice c bs) marker_of_json)"

definition remove_file_if_exists :: "'f fs \<Rightarrow> string \<Rightarrow> 'f \<Rightarrow> (io_error + unit) \<times> 'f" where
  "remove_file_if_exists F n s =
     (case fs_remove F n s of
        (Inl e, s') \<Rightarrow> if e = ''NotFound'' then (Inr (), s') else (Inl e, s')
      | (Inr u, s') \<Rightarrow> (Inr u, s'))"

definition remove_marker :: "'f fs \<Rightarrow> 'f \<Rightarrow> (io_error + unit) \<times> 'f" where
  "remove_marker F s =
     (case fs_remove F RESTORE_IN_PROGRESS_FILE_NAME s of
        (Inl e, s') \<Rightarrow> if e = ''NotFound'' then (Inr (), s') else (Inl e, s')
      | (Inr u, s') \<Rightarrow> (Inr u, s'))"

definition clear_local_wallet_state :: "'f fs \<Rightarrow> 'f \<Rightarrow> (io_error + unit) \<times> 'f" where
  "clear_local_wallet_state F s0 =
     and_then (if fs_store_exists F s0 then fs_remove_store F s0 else (Inr (), s0)) (\<lambda>_ s1.
     and_then (remove_file_if_exists F MNEMONIC_FILE_NAME s1) (\<lambda>_ s2.
     remove_file_if_exists F FENCED_FLAG_FILE_NAME s2))"

datatype build_error =
    AlreadyRunning | InstanceAlreadyRunning | NotRunning | WriteFailed | ReadFailed | InvalidMnemonic
  | MnemonicExists | RestoreInProgress | OrphanedMonitors | MissingChannelMonitor | WalletSetupFailed
  | InvalidMonitorData | WatchChannelFailed | ChainSyncFailed | WrongNetworkBackend | InvalidEsploraConfig
  | InvalidSystemTime | RuntimeSetupFailed | WalletFenced | VssSetupFailed | VssRecoveryFailed
  | VssVersionSeedFailed

fun build_error_of_keys :: "keys_error \<Rightarrow> build_error" where
  "build_error_of_keys KeysWriteFailed = WriteFailed"
| "build_error_of_keys KeysReadFailed = ReadFailed"
| "build_error_of_keys KeysInvalidMnemonic = InvalidMnemonic"
| "build_error_of_keys KeysMnemonicExists = MnemonicExists"
| "build_error_of_keys KeysRestoreInProgress = RestoreInProgress"

definition mnemonic_on_disk :: "'f fs \<Rightarrow> (string \<Rightarrow> mnemonic option) \<Rightarrow> 'f \<Rightarrow> mnemonic option" where
  \<comment> \<open>\<open>read_to_string(...).ok().and_then(|raw| parse_mnemonic(&raw).ok())\<close>\<close>
  "mnemonic_on_disk F bip39 s =
     (case fs_read F MNEMONIC_FILE_NAME s of
        Inl e \<Rightarrow> None
      | Inr bs \<Rightarrow> Option.bind (from_utf8 bs)
          (\<lambda>raw. case parse_mnemonic bip39 raw of Inl e \<Rightarrow> None | Inr m \<Rightarrow> Some m))"

definition prepare_marker_resume ::
  "'f fs \<Rightarrow> json_codec \<Rightarrow> (string \<Rightarrow> mnemonic option) \<Rightarrow> 'f \<Rightarrow> (build_error + unit) \<times> 'f"
where
  "prepare_marker_resume F c bip39 s =
     (case read_marker F c s of
        None \<Rightarrow> (Inr (), s)
      | Some marker \<Rightarrow>
          (case parse_mnemonic bip39 (rm_mnemonic marker) of
             Inl e \<Rightarrow> (Inr (), s)
           | Inr target \<Rightarrow>
               if mnemonic_on_disk F bip39 s = Some target then (Inr (), s)
               else and_then (map_err (\<lambda>_. WriteFailed) (clear_local_wallet_state F s)) (\<lambda>_ s1.
                    map_err build_error_of_keys (write_mnemonic F target s1))))"

section \<open>What the file operations promise\<close>

type_synonym kv_content = "string \<times> string \<times> string \<rightharpoonup> bytes"

locale data_dir =
  fixes F :: "'f fs" and files :: "'f \<Rightarrow> string \<rightharpoonup> bytes" and kv :: "'f \<Rightarrow> kv_content"
  assumes create_dir: "fs_create_dir F s = (r, s') \<Longrightarrow> files s' = files s \<and> kv s' = kv s"
    and file_exists: "fs_exists F n s \<longleftrightarrow> files s n \<noteq> None"
    and file_read: "fs_read F n s = Inr b \<Longrightarrow> files s n = Some b"
    and create: "fs_create F n s = (r, s') \<Longrightarrow>
      kv s' = kv s \<and> files s' = (case r of Inr _ \<Rightarrow> (files s)(n \<mapsto> []) | Inl _ \<Rightarrow> files s)"
    and create_new: "fs_create_new F n s = (r, s') \<Longrightarrow> kv s' = kv s
      \<and> (case r of Inr _ \<Rightarrow> files s n = None \<and> files s' = (files s)(n \<mapsto> []) | Inl _ \<Rightarrow> files s' = files s)"
    and write_all: "fs_write_all F n b s = (r, s') \<Longrightarrow> files s n = Some b0 \<Longrightarrow> kv s' = kv s
      \<and> (case r of Inr _ \<Rightarrow> files s' = (files s)(n \<mapsto> b0 @ b) | Inl _ \<Rightarrow> (\<exists>j. files s' = (files s)(n \<mapsto> b0 @ take j b)))"
    and sync: "fs_sync F n s = (r, s') \<Longrightarrow> files s' = files s \<and> kv s' = kv s"
    and sync_dir: "files (fs_sync_dir F s) = files s" "kv (fs_sync_dir F s) = kv s"
    and file_remove: "fs_remove F n s = (r, s') \<Longrightarrow> kv s' = kv s
      \<and> (case r of Inr _ \<Rightarrow> files s' = (files s)(n := None)
         | Inl e \<Rightarrow> files s' = files s \<and> (e = ''NotFound'' \<longrightarrow> files s n = None))"
    and store_exists: "\<not> fs_store_exists F s \<Longrightarrow> kv s = Map.empty"
    and remove_store: "fs_remove_store F s = (r, s') \<Longrightarrow> files s' = files s
      \<and> (case r of Inr _ \<Rightarrow> kv s' = Map.empty | Inl _ \<Rightarrow> kv s' \<subseteq>\<^sub>m kv s)"
    and kv_write: "d_write (fs_kv F) p q k b s = (res, s') \<Longrightarrow> files s' = files s
      \<and> kv s' = (case res of Inr _ \<Rightarrow> (kv s)((p, q, k) \<mapsto> b) | Inl _ \<Rightarrow> kv s)"
    and kv_remove: "d_remove (fs_kv F) p q k lazy s = (res, s') \<Longrightarrow> files s' = files s
      \<and> kv s' = (case res of Inr _ \<Rightarrow> (kv s)((p, q, k) := None) | Inl _ \<Rightarrow> kv s)"
    and kv_read: "d_read (fs_kv F) p q k s = Inr b \<Longrightarrow> kv s (p, q, k) = Some b"
    and kv_read_absent: "d_read (fs_kv F) p q k s = Inl ''NotFound'' \<Longrightarrow> kv s (p, q, k) = None"
    and kv_list: "d_list (fs_kv F) p q s = Inr ks \<Longrightarrow> k \<in> set ks \<longleftrightarrow> kv s (p, q, k) \<noteq> None"
begin

lemma remove_if_exists:
  "remove_file_if_exists F n s = (r, s') \<Longrightarrow> kv s' = kv s
     \<and> (case r of Inr _ \<Rightarrow> files s' = (files s)(n := None) | Inl _ \<Rightarrow> files s' = files s)"
  using file_remove[of n s "fst (fs_remove F n s)" "snd (fs_remove F n s)"]
  by (cases "fs_remove F n s")
    (auto simp: remove_file_if_exists_def fun_upd_idem split: if_splits sum.splits)

lemma write_all_other:
  "fs_write_all F n b s = (r, s') \<Longrightarrow> files s n = Some b0 \<Longrightarrow> n' \<noteq> n \<Longrightarrow> files s' n' = files s n'"
  using write_all[of n b s r s' b0] by (cases r) auto

text \<open>Writing the mnemonic touches no other file and not the store; on success the words are there.\<close>

lemma write_mnemonic_frame:
  assumes "write_mnemonic F m s = (r, s')"
  shows "kv s' = kv s \<and> (\<forall>n. n \<noteq> MNEMONIC_FILE_NAME \<longrightarrow> files s' n = files s n)"
  using assms unfolding write_mnemonic_def
  by (cases r)
    (auto simp: step_iff dest!: create_dir create_new sync split: sum.splits dest: write_all write_all_other)

lemma write_mnemonic_ok:
  assumes "write_mnemonic F m s = (Inr u, s')"
  shows "files s MNEMONIC_FILE_NAME = None \<and> files s' MNEMONIC_FILE_NAME = Some (as_bytes m)"
  using assms unfolding write_mnemonic_def
  by (auto simp: step_iff dest!: create_dir create_new sync dest: write_all)

lemma clear_frame:
  assumes "clear_local_wallet_state F s = (r, s')"
  shows "files s' RESTORE_IN_PROGRESS_FILE_NAME = files s RESTORE_IN_PROGRESS_FILE_NAME \<and> kv s' \<subseteq>\<^sub>m kv s"
  using assms unfolding clear_local_wallet_state_def
  by (cases r) (auto simp: step_iff dest!: remove_store remove_if_exists split: if_splits sum.splits)

lemma clear_ok:
  assumes "clear_local_wallet_state F s = (Inr u, s')"
  shows "kv s' = Map.empty \<and> files s' MNEMONIC_FILE_NAME = None \<and> files s' FENCED_FLAG_FILE_NAME = None"
  using assms unfolding clear_local_wallet_state_def
  by (auto simp: step_iff dest!: remove_store remove_if_exists dest: store_exists split: if_splits)

text \<open>
  Resuming: a marker whose words parse puts those words on disk, or finds them there; the marker
  stays, and when the clear was redone nothing of the old wallet is left.
\<close>

lemma resume_adopts_target:
  assumes "prepare_marker_resume F c bip39 s = (Inr u, s')"
    and "read_marker F c s = Some mk" and "parse_mnemonic bip39 (rm_mnemonic mk) = Inr target"
  shows "files s' RESTORE_IN_PROGRESS_FILE_NAME = files s RESTORE_IN_PROGRESS_FILE_NAME
    \<and> (s' = s \<and> mnemonic_on_disk F bip39 s = Some target
       \<or> files s' MNEMONIC_FILE_NAME = Some (as_bytes target) \<and> files s' FENCED_FLAG_FILE_NAME = None \<and> kv s' = Map.empty)"
proof (cases "mnemonic_on_disk F bip39 s = Some target")
  case True
  with assms show ?thesis by (simp add: prepare_marker_resume_def)
next
  case False
  with assms obtain s1 u1 where c: "clear_local_wallet_state F s = (Inr u1, s1)"
    and w: "write_mnemonic F target s1 = (Inr u, s')"
    by (auto simp: prepare_marker_resume_def step_iff)
  from write_mnemonic_frame[OF w] write_mnemonic_ok[OF w] clear_frame[OF c] clear_ok[OF c] show ?thesis
    by simp
qed

lemma write_marker_ok:
  assumes "write_marker F c r s = (Inr u, s')"
  shows "kv s' = kv s \<and> files s' = (files s)(RESTORE_IN_PROGRESS_FILE_NAME \<mapsto> to_vec c (marker_to_json r))"
  using assms unfolding write_marker_def
  by (auto simp: step_iff sync_dir dest!: create sync dest: write_all)

lemma write_marker_fail:
  assumes "write_marker F c r s = (Inl e, s')"
  shows "kv s' = kv s \<and> (\<forall>n. n \<noteq> RESTORE_IN_PROGRESS_FILE_NAME \<longrightarrow> files s' n = files s n)"
  using assms unfolding write_marker_def
  by (auto simp: step_iff dest!: create sync split: sum.splits dest: write_all write_all_other)

lemma remove_marker_frame:
  assumes "remove_marker F s = (r, s')"
  shows "kv s' = kv s \<and> (\<forall>n. n \<noteq> RESTORE_IN_PROGRESS_FILE_NAME \<longrightarrow> files s' n = files s n)
    \<and> (files s' RESTORE_IN_PROGRESS_FILE_NAME = None \<or> files s' = files s)"
  using assms file_remove[of RESTORE_IN_PROGRESS_FILE_NAME s]
  by (auto simp: remove_marker_def split: prod.splits sum.splits if_splits)

lemma remove_marker_ok:
  "remove_marker F s = (Inr u, s') \<Longrightarrow> files s' RESTORE_IN_PROGRESS_FILE_NAME = None"
  using file_remove[of RESTORE_IN_PROGRESS_FILE_NAME s]
  by (auto simp: remove_marker_def split: prod.splits sum.splits if_splits)

end

lemma marker_json_wf [simp]: "json_wf (marker_to_json r)"
  by (simp add: marker_to_json_def)

lemma marker_json_roundtrip [simp]: "marker_of_json (marker_to_json r) = Some r"
  by (cases r) (simp add: marker_to_json_def make_marker_def fld_def)

lemma parse_mnemonic_idem:
  assumes "bip39_ok bip39" and "parse_mnemonic bip39 raw = Inr m"
  shows "parse_mnemonic bip39 m = Inr m \<and> from_utf8 (as_bytes m) = Some m"
proof -
  from assms(2) have b: "bip39 (normalized raw) = Some m" "length (split_whitespace m) = 12"
    by (auto simp: parse_mnemonic_def split: option.splits if_splits)
  with assms(1) have "bip39 m = Some m" "normalized m = m" "\<forall>c \<in> set m. byte c < 0x80"
    by (auto simp: bip39_ok_def)
  with b from_utf8_ascii show ?thesis by (simp add: parse_mnemonic_def)
qed

section \<open>A directory whose process dies after a number of calls\<close>

record crash_dir =
  cd_files :: "(string \<times> bytes) list"
  cd_kv :: mem
  cd_left :: nat \<comment> \<open>calls left before the process is gone\<close>

definition tick :: "(crash_dir \<Rightarrow> (io_error + unit) \<times> crash_dir) \<Rightarrow> crash_dir \<Rightarrow> (io_error + unit) \<times> crash_dir" where
  "tick act s = (case cd_left s of 0 \<Rightarrow> (Inl ''Interrupted'', s) | Suc n \<Rightarrow> act (s\<lparr> cd_left := n \<rparr>))"

definition set_file :: "string \<Rightarrow> bytes \<Rightarrow> crash_dir \<Rightarrow> (io_error + unit) \<times> crash_dir" where
  "set_file n b s = (Inr (), s\<lparr> cd_files := AList.update n b (cd_files s) \<rparr>)"

definition crash_kv :: "crash_dir disk" where
  "crash_kv = \<lparr> d_read = (\<lambda>p q k s. mem_read p q k (cd_kv s)),
     d_write = (\<lambda>p q k b. tick (\<lambda>s. (Inr (), s\<lparr> cd_kv := AList.update (p, q, k) b (cd_kv s) \<rparr>))),
     d_remove = (\<lambda>p q k lazy. tick (\<lambda>s. (Inr (), s\<lparr> cd_kv := AList.delete (p, q, k) (cd_kv s) \<rparr>))),
     d_list = (\<lambda>p q s. mem_list p q (cd_kv s)) \<rparr>"

definition crash_fs :: "crash_dir fs" where
  "crash_fs = \<lparr> fs_create_dir = tick (\<lambda>s. (Inr (), s)),
     fs_exists = (\<lambda>n s. map_of (cd_files s) n \<noteq> None),
     fs_read = (\<lambda>n s. case map_of (cd_files s) n of None \<Rightarrow> Inl ''NotFound'' | Some b \<Rightarrow> Inr b),
     fs_create = (\<lambda>n. tick (set_file n [])),
     fs_create_new = (\<lambda>n. tick (\<lambda>s. if map_of (cd_files s) n \<noteq> None then (Inl ''AlreadyExists'', s) else set_file n [] s)),
     fs_write_all = (\<lambda>n b. tick (\<lambda>s. set_file n (the (map_of (cd_files s) n) @ b) s)),
     fs_sync = (\<lambda>n. tick (\<lambda>s. (Inr (), s))),
     fs_sync_dir = (\<lambda>s. s),
     fs_remove = (\<lambda>n. tick (\<lambda>s. if map_of (cd_files s) n = None then (Inl ''NotFound'', s)
                              else (Inr (), s\<lparr> cd_files := AList.delete n (cd_files s) \<rparr>))),
     fs_store_exists = (\<lambda>s. cd_kv s \<noteq> []),
     fs_remove_store = tick (\<lambda>s. (Inr (), s\<lparr> cd_kv := [] \<rparr>)),
     fs_kv = crash_kv \<rparr>"

interpretation crash: data_dir crash_fs "\<lambda>s. map_of (cd_files s)" "\<lambda>s. map_of (cd_kv s)"
proof
  fix p q k s ks
  assume "d_list (fs_kv crash_fs) p q s = Inr ks"
  then have "mem_list p q (cd_kv s) = Inr ks" by (simp add: crash_fs_def crash_kv_def)
  from mem_list_mem[OF this, of k] show "k \<in> set ks \<longleftrightarrow> map_of (cd_kv s) (p, q, k) \<noteq> None"
    by (auto simp: mem_read_def split: option.splits)
qed (auto simp: crash_fs_def crash_kv_def tick_def set_file_def update_conv' delete_conv' mem_read_def fun_upd_idem
    split: nat.splits if_splits option.splits intro!: exI[of _ 0])

end
