(* ===== verification/Known_Peers.thy ===== *)
theory Known_Peers
  imports Vss_Store
begin

text \<open>
  The known-peers store of \<open>src/rust/src/vss/known_peers.rs\<close>: a map from node public keys (hex) to
  host and port, one JSON object on disk and on the server. It is read leniently (an entry that is
  not a peer is skipped), written whole, and mirrored remotely last-writer-wins. The store's local
  disk is the one of the versioned store, so its state is the map beside an \<open>inner\<close>.
\<close>

record known_peer =
  kp_host :: string
  kp_port :: "16 word"

type_synonym peer_map = "(string \<times> known_peer) list"

definition KNOWN_PEERS_NS :: string where "KNOWN_PEERS_NS = ''known_peers''"
definition KNOWN_PEERS_LOCAL_KEY :: string where "KNOWN_PEERS_LOCAL_KEY = ''peers''"

definition peer_to_json :: "known_peer \<Rightarrow> json" where
  "peer_to_json p = JObject [(''host'', JString (kp_host p)), (''port'', JNum (PosInt (ucast (kp_port p))))]"

definition as_u16 :: "json \<Rightarrow> 16 word option" where
  "as_u16 v = (case as_u64 v of Some n \<Rightarrow> if unat n < 65536 then Some (ucast n) else None | None \<Rightarrow> None)"

definition make_peer :: "string option \<Rightarrow> 16 word option \<Rightarrow> known_peer option" where
  "make_peer h p = Option.bind h (\<lambda>h. map_option (\<lambda>p. \<lparr> kp_host = h, kp_port = p \<rparr>) p)"

fun peer_of_json :: "json \<Rightarrow> known_peer option" where
  \<comment> \<open>serde's derived reader: a map with both fields, or a sequence of them in order\<close>
  "peer_of_json (JObject ob) = make_peer (fld ob ''host'' as_str) (fld ob ''port'' as_u16)"
| "peer_of_json (JArray [h, p]) = make_peer (as_str h) (as_u16 p)"
| "peer_of_json _ = None"

datatype peers_error = PeersNotJson | PeersNotObject

definition parse_known_peers :: "json_codec \<Rightarrow> bytes \<Rightarrow> peers_error + peer_map" where
  "parse_known_peers c bs =
     (case from_slice c bs of
        None \<Rightarrow> Inl PeersNotJson
      | Some v \<Rightarrow>
          (case as_object v of
             None \<Rightarrow> Inl PeersNotObject
           | Some ob \<Rightarrow>
               Inr (fold (\<lambda>(k, v) m. case peer_of_json v of Some p \<Rightarrow> bt_insert k p m | None \<Rightarrow> m) ob [])))"

definition serialize_known_peers :: "json_codec \<Rightarrow> peer_map \<Rightarrow> bytes" where
  "serialize_known_peers c m = to_vec c (JObject (map (\<lambda>(k, p). (k, peer_to_json p)) m))"

definition read_local_known_peers :: "json_codec \<Rightarrow> 'l disk \<Rightarrow> 'l \<Rightarrow> peer_map" where
  "read_local_known_peers c d l =
     (case d_read d KNOWN_PEERS_NS '''' KNOWN_PEERS_LOCAL_KEY l of
        Inl e \<Rightarrow> []
      | Inr bs \<Rightarrow> (case parse_known_peers c bs of Inl e \<Rightarrow> [] | Inr m \<Rightarrow> m))"

definition write_local_known_peers :: "json_codec \<Rightarrow> 'l disk \<Rightarrow> peer_map \<Rightarrow> 'l \<Rightarrow> (io_error + unit) \<times> 'l" where
  "write_local_known_peers c d m l =
     d_write d KNOWN_PEERS_NS '''' KNOWN_PEERS_LOCAL_KEY (serialize_known_peers c m) l"

section \<open>The store\<close>

type_synonym ('r, 'l, 'c) peers_store = "peer_map \<times> ('r, 'l, 'c) inner"

definition kp_load :: "('r, 'l, 'c) env \<Rightarrow> ('r, 'l, 'c) inner \<Rightarrow> ('r, 'l, 'c) peers_store" where
  "kp_load e s = (read_local_known_peers (e_codec e) (e_local e) (loc s), s)"

definition kp_persist :: "('r, 'l, 'c) env \<Rightarrow> bytes \<Rightarrow> ('r, 'l, 'c) inner \<Rightarrow> (io_error + unit) \<times> ('r, 'l, 'c) inner" where
  "kp_persist e bs s =
     (case d_write (e_local e) KNOWN_PEERS_NS '''' KNOWN_PEERS_LOCAL_KEY bs (loc s) of
        (Inl err, l) \<Rightarrow> (Inl err, s\<lparr> loc := l \<rparr>)
      | (Inr u, l) \<Rightarrow> (Inr (), put_lww e KNOWN_PEERS_VSS_KEY bs (s\<lparr> loc := l \<rparr>)))"

definition kp_upsert ::
  "('r, 'l, 'c) env \<Rightarrow> string \<Rightarrow> string \<Rightarrow> 16 word \<Rightarrow> ('r, 'l, 'c) peers_store
     \<Rightarrow> (io_error + unit) \<times> ('r, 'l, 'c) peers_store"
where
  "kp_upsert e pubkey host port ks =
     (let m = bt_insert pubkey \<lparr> kp_host = host, kp_port = port \<rparr> (fst ks);
          (res, s) = kp_persist e (serialize_known_peers (e_codec e) m) (snd ks)
      in (res, (m, s)))"

definition kp_remove ::
  "('r, 'l, 'c) env \<Rightarrow> string \<Rightarrow> ('r, 'l, 'c) peers_store \<Rightarrow> (io_error + unit) \<times> ('r, 'l, 'c) peers_store"
where
  "kp_remove e pubkey ks =
     (let m = bt_remove pubkey (fst ks);
          (res, s) = kp_persist e (serialize_known_peers (e_codec e) m) (snd ks)
      in (res, (m, s)))"

definition kp_reconnect_targets ::
  "(string \<Rightarrow> 'id option) \<Rightarrow> (string \<Rightarrow> 'addr option) \<Rightarrow> ('r, 'l, 'c) peers_store \<Rightarrow> ('id \<times> 'addr) list"
where
  \<comment> \<open>the parsers of public keys and of socket addresses are parameters\<close>
  "kp_reconnect_targets parse_id parse_addr ks =
     List.map_filter
       (\<lambda>(pubkey, p). Option.bind (parse_id pubkey)
          (\<lambda>i. map_option (\<lambda>a. (i, a)) (parse_addr (kp_host p @ CHR '':'' # nat_to_string (unat (kp_port p))))))
       (fst ks)"

section \<open>Lemmas\<close>

lemma u16_u64 [simp]: "ucast (ucast (n :: 16 word) :: u64) = n"
  by (simp add: ucast_up_ucast_id is_up)

lemma unat_u16_u64 [simp]: "unat (ucast (n :: 16 word) :: u64) = unat n"
  using unsigned_less[of n, where 'a = nat] by (simp add: unsigned_ucast_eq take_bit_nat_eq_self)

lemma peer_json_roundtrip [simp]: "peer_of_json (peer_to_json p) = Some p"
  using unsigned_less[of "kp_port p", where 'a = nat]
  by (cases p) (simp add: peer_to_json_def make_peer_def fld_def as_u16_def)

lemma fold_insert_peers:
  "fold (\<lambda>(k, v) m. case peer_of_json v of Some p \<Rightarrow> bt_insert k p m | None \<Rightarrow> m)
     (map (\<lambda>(k, p). (k, peer_to_json p)) kps) m = fold (\<lambda>(k, p) m. bt_insert k p m) kps m"
  by (induction kps arbitrary: m) auto

lemma peers_json_wf: "bt_wf m \<Longrightarrow> json_wf (JObject (map (\<lambda>(k, p). (k, peer_to_json p)) m))"
  using bt_wf_distinct[of m]
  by (auto simp: list_all_iff peer_to_json_def comp_def case_prod_unfold)

lemma known_peers_decode:
  assumes "codec_ok c" and "bt_wf m"
  shows "parse_known_peers c (serialize_known_peers c m) = Inr m"
  using assms bt_of_list_id[OF assms(2)] codec_okD[OF assms(1) peers_json_wf[OF assms(2)]]
  by (simp add: parse_known_peers_def serialize_known_peers_def fold_insert_peers bt_of_list_def)

lemma loc_put_lww [simp]: "loc (put_lww e k b s) = loc s"
  by (simp add: put_lww_def enqueue_def)

lemma kp_persist_reload:
  assumes "codec_ok (e_codec e)" and "kv_store (d_read (e_local e)) (d_write (e_local e))" and "bt_wf m"
    and "kp_persist e (serialize_known_peers (e_codec e) m) s = (Inr u, s')"
  shows "kp_load e s' = (m, s')"
proof -
  from assms(4) obtain l where
    w: "d_write (e_local e) KNOWN_PEERS_NS '''' KNOWN_PEERS_LOCAL_KEY (serialize_known_peers (e_codec e) m) (loc s) = (Inr (), l)"
    and l: "loc s' = l"
    by (auto simp: kp_persist_def split: prod.splits sum.splits)
  with kv_store.read_written[OF assms(2) w] known_peers_decode[OF assms(1,3)] show ?thesis
    by (simp add: kp_load_def read_local_known_peers_def)
qed

datatype peer_op = Upsert string string "16 word" | Remove string

fun kp_step ::
  "('r, 'l, 'c) env \<Rightarrow> peer_op \<Rightarrow> ('r, 'l, 'c) peers_store \<Rightarrow> (io_error + unit) \<times> ('r, 'l, 'c) peers_store" where
  "kp_step e (Upsert k h p) ks = kp_upsert e k h p ks"
| "kp_step e (Remove k) ks = kp_remove e k ks"

fun peers_after :: "peer_op \<Rightarrow> (string \<rightharpoonup> known_peer) \<Rightarrow> string \<rightharpoonup> known_peer" where
  "peers_after (Upsert k h p) m = m(k \<mapsto> \<lparr> kp_host = h, kp_port = p \<rparr>)"
| "peers_after (Remove k) m = m(k := None)"

text \<open>A saved peer survives a restart. Whenever an upsert or a removal reports success, the map holds
  exactly the updated entries, and a store loaded afterwards from the disk holds the same map; when
  it reports a failure nothing is scheduled for the server.\<close>

theorem known_peers_survive_restart:
  assumes "codec_ok (e_codec e)" and "kv_store (d_read (e_local e)) (d_write (e_local e))" and "bt_wf (fst ks)"
    and "kp_step e opn ks = (res, ks')"
  shows "bt_wf (fst ks') \<and> map_of (fst ks') = peers_after opn (map_of (fst ks))
    \<and> (case res of Inr _ \<Rightarrow> kp_load e (snd ks') = ks' | Inl _ \<Rightarrow> tasks (snd ks') = tasks (snd ks))"
proof -
  obtain m s where ks: "ks = (m, s)" by (cases ks)
  define m' where "m' = (case opn of Upsert k h p \<Rightarrow> bt_insert k \<lparr> kp_host = h, kp_port = p \<rparr> m | Remove k \<Rightarrow> bt_remove k m)"
  have wfm: "bt_wf m" using assms(3) ks by simp
  then have m': "bt_wf m'" "map_of m' = peers_after opn (map_of m)"
    by (auto simp: m'_def bt_get_insert bt_get_remove fun_eq_iff split: peer_op.splits)
  obtain s' where p: "kp_persist e (serialize_known_peers (e_codec e) m') s = (res, s')" and ks': "ks' = (m', s')"
    using assms(4) ks by (cases opn) (auto simp: kp_upsert_def kp_remove_def m'_def Let_def split: prod.splits)
  have "tasks s' = tasks s" if "res = Inl err" for err
    using p that by (auto simp: kp_persist_def split: prod.splits sum.splits)
  then show ?thesis
    using m' ks ks' p kp_persist_reload[OF assms(1,2) m'(1)] by (auto split: sum.splits)
qed

definition peers_env :: "(mock, mem, unit) env" where
  "peers_env = \<lparr> e_remote = Some mock_transport, e_local = mem_disk, e_codec = unary_codec, e_tuning = default_tuning,
     e_write_flag = (\<lambda>d l. (Inr (), l)), e_flag_exists = (\<lambda>l. False), e_elapsed = (\<lambda>r. False) \<rparr>"

theorem known_peers_survive_restart_witness:
  "kp_load peers_env (snd (snd (kp_upsert peers_env ''02ab'' ''127.0.0.1'' 9735
       ([], vss_new peers_env mock_new [] () Map.empty (tracked_only []) True))))
     = snd (kp_upsert peers_env ''02ab'' ''127.0.0.1'' 9735
         ([], vss_new peers_env mock_new [] () Map.empty (tracked_only []) True))"
proof -
  let ?ks = "([], vss_new peers_env mock_new [] () Map.empty (tracked_only []) True)"
  have ok: "codec_ok (e_codec peers_env)" "kv_store (d_read (e_local peers_env)) (d_write (e_local peers_env))" "bt_wf (fst ?ks)"
    using mem_kv.kv_store_axioms by (simp_all add: peers_env_def bt_wf_def)
  have r: "kp_step peers_env (Upsert ''02ab'' ''127.0.0.1'' 9735) ?ks
      = (Inr (), snd (kp_upsert peers_env ''02ab'' ''127.0.0.1'' 9735 ?ks))"
    by (simp add: Let_def kp_upsert_def kp_persist_def peers_env_def mem_disk_def mem_write_def)
  from known_peers_survive_restart[OF ok r] show ?thesis by simp
qed

end
