(* ===== verification/Restore.thy ===== *)
theory Restore
  imports Data_Dir Known_Peers
begin

text \<open>
  The restore engine of \<open>src/rust/src/restore.rs\<close>, shared by the explicit restore and by silent
  recovery at startup: fetch the manifest, explain every key the server lists or identify it by
  fetching it, download and validate the whole backup, then write it locally.

  The remote side is a transport over a state \<open>'r\<close> (\<open>Vss_Transport\<close>), the data directory a file system
  over a state \<open>'f\<close> (\<open>Data_Dir\<close>). LDK's reader of a channel monitor under the entered seed is the
  parameter \<open>ldk\<close>: it answers the monitor's local name and its funding outpoint, or an error. Time is
  the parameter \<open>over\<close>, which says whether the budget of a pass that started in one remote state has run
  out in a later one. The parallel downloads of a chunk are all issued before the first answer is
  looked at, in chunk order. A formatted message is represented by the values it is formatted from;
  elapsed seconds, which only messages show, and log lines are left out.
\<close>

section \<open>Errors\<close>

record triage = \<comment> \<open>the report of \<open>backup_inconsistent\<close>\<close>
  tr_unexplained :: nat
  tr_listing :: nat
  tr_manifest :: nat
  tr_explained_by_manifest :: nat
  tr_present :: "key list"
  tr_absent :: "key list"
  tr_shown :: "string list"
  tr_elided :: nat
  tr_verified :: "(nat \<times> nat) option"

datatype inconsistency = CmMissing | MonitorMissing key | UnexplainedKeys triage

datatype download_failure = DownloadVss vss_error | IdentifyTimeout nat nat | MonitorsTimeout nat nat

datatype validation_failure = BadManifest manifest_error | CmTooSmall nat | BadMonitor key string | BadPeers peers_error

datatype write_stage = StorageDirStage | MarkerStage | ClearStage | MnemonicStage | DataStage | MarkerRemovalStage

datatype restore_error =
    NodeRunning | RestoreInvalidMnemonic | VssDisabled | Setup string | NoBackupFound
  | BackupInconsistent inconsistency
  | DownloadFailed download_failure
  | ValidationFailed validation_failure
  | LocalWriteFailed write_stage
  | Interrupted

definition download_err :: "vss_error \<Rightarrow> restore_error" where
  "download_err e = DownloadFailed (DownloadVss e)"

section \<open>The plan\<close>

definition RESTORE_CHUNK_SIZE :: nat where "RESTORE_CHUNK_SIZE = 10"
definition UNEXPLAINED_KEYS_IN_ERROR :: nat where "UNEXPLAINED_KEYS_IN_ERROR = 3"

record validated_monitor =
  vm_vss_key :: key
  vm_local_key :: string
  vm_bytes :: bytes
  vm_version :: version
  vm_key_verified :: bool

record restore_plan =
  rp_manifest_version :: "version option"
  rp_cm :: "(bytes \<times> version) option"
  rp_monitors :: "validated_monitor list"
  rp_peers :: "(peer_map \<times> version) option"

definition bset :: "key list \<Rightarrow> key list" where
  \<comment> \<open>\<open>collect()\<close> into a \<open>BTreeSet\<close>\<close>
  "bset ks = sort (remdups ks)"

definition plan_versions :: "restore_plan \<Rightarrow> key \<rightharpoonup> version" where
  "plan_versions p =
     (let v0 = (case rp_manifest_version p of Some v \<Rightarrow> [MONITOR_MANIFEST_KEY \<mapsto> v] | None \<Rightarrow> Map.empty);
          v1 = (case rp_cm p of Some (_, v) \<Rightarrow> v0(CHANNEL_MANAGER_VSS_KEY \<mapsto> v) | None \<Rightarrow> v0);
          v2 = fold (\<lambda>m vs. vs(vm_vss_key m \<mapsto> vm_version m)) (rp_monitors p) v1
      in (case rp_peers p of Some (_, v) \<Rightarrow> v2(KNOWN_PEERS_VSS_KEY \<mapsto> v) | None \<Rightarrow> v2))"

definition plan_monitor_keys :: "restore_plan \<Rightarrow> key list" where
  "plan_monitor_keys p = bset (map vm_vss_key (rp_monitors p))"

definition publishable_monitor_keys :: "restore_plan \<Rightarrow> key list" where
  "publishable_monitor_keys p = bset (map vm_vss_key (filter vm_key_verified (rp_monitors p)))"

section \<open>Explaining the listing\<close>

record 'r remote_env =
  re_transport :: "'r transport"
  re_codec :: json_codec
  re_over :: "'r \<Rightarrow> 'r \<Rightarrow> bool"
  re_ldk :: "bytes \<Rightarrow> string + string \<times> funding_outpoint"

definition fetch_manifest :: "'r remote_env \<Rightarrow> 'r \<Rightarrow> (restore_error + (key list \<times> version) option) \<times> 'r" where
  "fetch_manifest e w =
     and_then (map_err download_err (t_get (re_transport e) MONITOR_MANIFEST_KEY w)) (\<lambda>got w1.
       case got of
         None \<Rightarrow> (Inr None, w1)
       | Some (bs, v) \<Rightarrow>
           (case parse_monitor_manifest (re_codec e) bs of
              Inl d \<Rightarrow> (Inl (ValidationFailed (BadManifest d)), w1)
            | Inr ks \<Rightarrow> (Inr (Some (ks, v)), w1)))"

definition unexplained_remote_keys :: "(string \<times> version) list \<Rightarrow> key list \<Rightarrow> 'r transport \<Rightarrow> string list" where
  "unexplained_remote_keys listing mkeys t =
     (let expected = set (map (t_obfuscate t) (FIXED_REMOTE_KEYS @ mkeys))
      in map fst (filter (\<lambda>(k, _). k \<notin> expected) listing))"

definition backup_inconsistent ::
  "(string \<times> version) list \<Rightarrow> key list \<Rightarrow> 'r transport \<Rightarrow> nat \<Rightarrow> string list \<Rightarrow> (nat \<times> nat) option \<Rightarrow> restore_error"
where
  "backup_inconsistent listing mkeys t unexplained offenders verified =
     (let listed = set (map fst listing);
          shown = take UNEXPLAINED_KEYS_IN_ERROR offenders
      in BackupInconsistent (UnexplainedKeys
           \<lparr> tr_unexplained = unexplained, tr_listing = length listing, tr_manifest = length mkeys,
             tr_explained_by_manifest = length (filter (\<lambda>(k, _). k \<in> set (map (t_obfuscate t) mkeys)) listing),
             tr_present = filter (\<lambda>k. t_obfuscate t k \<in> listed) FIXED_REMOTE_KEYS,
             tr_absent = filter (\<lambda>k. t_obfuscate t k \<notin> listed) FIXED_REMOTE_KEYS,
             tr_shown = shown, tr_elided = length offenders - length shown, tr_verified = verified \<rparr>))"

record deserialized_monitor =
  dm_local_key :: string
  dm_derived_vss_key :: key

definition deserialize_monitor :: "'r remote_env \<Rightarrow> bytes \<Rightarrow> string + deserialized_monitor" where
  "deserialize_monitor e bs =
     (case re_ldk e bs of
        Inl err \<Rightarrow> Inl err
      | Inr (name, txo) \<Rightarrow> Inr \<lparr> dm_local_key = name, dm_derived_vss_key = monitor_vss_key txo \<rparr>)"

type_synonym verdict = "validated_monitor list \<times> string list" \<comment> \<open>adopted, rejected\<close>

fun verify_loop ::
  "'r remote_env \<Rightarrow> 'r \<Rightarrow> nat \<Rightarrow> nat \<Rightarrow> verdict \<Rightarrow> string list \<Rightarrow> 'r \<Rightarrow> (restore_error + verdict) \<times> 'r"
where
  "verify_loop e w0 len i verdict [] w = (Inr verdict, w)"
| "verify_loop e w0 len i (adopted, rejected) (ok # oks) w =
     (if re_over e w0 w then (Inl (DownloadFailed (IdentifyTimeout i len)), w)
      else case t_get_by_stored_key (re_transport e) ok w of
        (Inr None, w1) \<Rightarrow> verify_loop e w0 len (i + 1) (adopted, rejected) oks w1
      | (Inl (Crypto _), w1) \<Rightarrow> verify_loop e w0 len (i + 1) (adopted, rejected @ [ok]) oks w1
      | (Inl err, w1) \<Rightarrow> (Inl (download_err err), w1)
      | (Inr (Some (bs, v)), w1) \<Rightarrow>
          (case deserialize_monitor e bs of
             Inr parsed \<Rightarrow>
               verify_loop e w0 len (i + 1)
                 (adopted @ [\<lparr> vm_vss_key = dm_derived_vss_key parsed, vm_local_key = dm_local_key parsed, vm_bytes = bs,
                     vm_version = v,
                     vm_key_verified = (t_obfuscate (re_transport e) (dm_derived_vss_key parsed) = ok) \<rparr>], rejected) oks w1
           | Inl err \<Rightarrow> verify_loop e w0 len (i + 1) (adopted, rejected @ [ok]) oks w1))"

definition verify_unexplained_keys :: "'r remote_env \<Rightarrow> string list \<Rightarrow> 'r \<Rightarrow> (restore_error + verdict) \<times> 'r" where
  "verify_unexplained_keys e unexplained w = verify_loop e w (length unexplained) 0 ([], []) unexplained w"

definition adopt_unexplained_monitors ::
  "'r remote_env \<Rightarrow> (string \<times> version) list \<Rightarrow> key list \<Rightarrow> 'r \<Rightarrow> (restore_error + validated_monitor list) \<times> 'r"
where
  "adopt_unexplained_monitors e listing mkeys w =
     (let unexplained = unexplained_remote_keys listing mkeys (re_transport e) in
      if unexplained = [] then (Inr [], w)
      else and_then (verify_unexplained_keys e unexplained w) (\<lambda>(adopted, rejected) w1.
        if rejected \<noteq> [] then
          (Inl (backup_inconsistent listing mkeys (re_transport e) (length unexplained) rejected
                  (Some (length adopted, length rejected))), w1)
        else (Inr adopted, w1)))"

definition merge_adopted_monitors :: "restore_plan \<Rightarrow> validated_monitor list \<Rightarrow> restore_error + restore_plan \<times> nat" where
  "merge_adopted_monitors plan adopted =
     (let planned = set (map vm_local_key (rp_monitors plan));
          fresh = filter (\<lambda>m. vm_local_key m \<notin> planned) adopted;
          plan' = plan\<lparr> rp_monitors := rp_monitors plan @ fresh \<rparr>
      in if rp_monitors plan' \<noteq> [] \<and> rp_cm plan' = None then Inl (BackupInconsistent CmMissing)
         else Inr (plan', length fresh))"

section \<open>Manifest backfill\<close>

definition backfill_manifest :: "'r remote_env \<Rightarrow> key list \<Rightarrow> version \<Rightarrow> 'r \<Rightarrow> 'r" where
  "backfill_manifest e ks known w =
     (if ks = [] then w
      else case t_put (re_transport e) MONITOR_MANIFEST_KEY (manifest_payload (re_codec e) ks) known w of
        (Inr _, w1) \<Rightarrow> w1
      | (Inl err, w1) \<Rightarrow>
          if \<not> is_conflict err then w1
          else (case t_get (re_transport e) MONITOR_MANIFEST_KEY w1 of
            (Inr (Some (bs, v)), w2) \<Rightarrow>
              let merged = (case parse_monitor_manifest (re_codec e) bs of Inr remote \<Rightarrow> bset (ks @ remote) | Inl _ \<Rightarrow> ks)
              in snd (t_put (re_transport e) MONITOR_MANIFEST_KEY (manifest_payload (re_codec e) merged) v w2)
          | (_, w2) \<Rightarrow> w2))"

section \<open>Downloading and validating\<close>

fun chunks_of :: "nat \<Rightarrow> 'a list \<Rightarrow> 'a list list" where
  \<comment> \<open>\<open>slice::chunks\<close>\<close>
  "chunks_of n [] = []"
| "chunks_of n (x # xs) = (x # take (n - 1) xs) # chunks_of n (drop (n - 1) xs)"

fun get_all :: "'r transport \<Rightarrow> key list \<Rightarrow> 'r \<Rightarrow> (vss_error + versioned_value) list \<times> 'r" where
  "get_all t [] w = ([], w)"
| "get_all t (k # ks) w = (let (r, w1) = t_get t k w; (rs, w2) = get_all t ks w1 in (r # rs, w2))"

fun validate_chunk ::
  "'r remote_env \<Rightarrow> (key \<times> (vss_error + versioned_value)) list \<Rightarrow> restore_error + validated_monitor list"
where
  "validate_chunk e [] = Inr []"
| "validate_chunk e ((k, r) # rest) =
     (case r of
        Inl err \<Rightarrow> Inl (download_err err)
      | Inr None \<Rightarrow> Inl (BackupInconsistent (MonitorMissing k))
      | Inr (Some (bs, v)) \<Rightarrow>
          (case deserialize_monitor e bs of
             Inl err \<Rightarrow> Inl (ValidationFailed (BadMonitor k err))
           | Inr parsed \<Rightarrow>
               (case validate_chunk e rest of
                  Inl err \<Rightarrow> Inl err
                | Inr ms \<Rightarrow> Inr (\<lparr> vm_vss_key = k, vm_local_key = dm_local_key parsed, vm_bytes = bs, vm_version = v,
                                   vm_key_verified = True \<rparr> # ms))))"

fun download_chunks ::
  "'r remote_env \<Rightarrow> 'r \<Rightarrow> nat \<Rightarrow> validated_monitor list \<Rightarrow> key list list \<Rightarrow> 'r
     \<Rightarrow> (restore_error + validated_monitor list) \<times> 'r"
where
  "download_chunks e w0 len ms [] w = (Inr ms, w)"
| "download_chunks e w0 len ms (ch # chs) w =
     (if re_over e w0 w then (Inl (DownloadFailed (MonitorsTimeout (length ms) len)), w)
      else let (rs, w1) = get_all (re_transport e) ch w in
        (case validate_chunk e (zip ch rs) of
           Inl err \<Rightarrow> (Inl err, w1)
         | Inr ms' \<Rightarrow> download_chunks e w0 len (ms @ ms') chs w1))"

definition plan_with_peers ::
  "'r remote_env \<Rightarrow> version option \<Rightarrow> (bytes \<times> version) option \<Rightarrow> validated_monitor list \<Rightarrow> 'r
     \<Rightarrow> (restore_error + restore_plan) \<times> 'r"
where
  \<comment> \<open>the last fetch: the known peers complete the plan\<close>
  "plan_with_peers e mversion cm ms w =
     and_then (map_err download_err (t_get (re_transport e) KNOWN_PEERS_VSS_KEY w)) (\<lambda>got w1.
       case got of
         None \<Rightarrow> (Inr \<lparr> rp_manifest_version = mversion, rp_cm = cm, rp_monitors = ms, rp_peers = None \<rparr>, w1)
       | Some (bs, v) \<Rightarrow>
           (case parse_known_peers (re_codec e) bs of
              Inl err \<Rightarrow> (Inl (ValidationFailed (BadPeers err)), w1)
            | Inr m \<Rightarrow> (Inr \<lparr> rp_manifest_version = mversion, rp_cm = cm, rp_monitors = ms,
                             rp_peers = Some (m, v) \<rparr>, w1)))"

definition download_and_validate ::
  "'r remote_env \<Rightarrow> (key list \<times> version) option \<Rightarrow> 'r \<Rightarrow> (restore_error + restore_plan) \<times> 'r"
where
  "download_and_validate e manifest w =
     (let (mkeys, mversion) = (case manifest of Some (ks, v) \<Rightarrow> (ks, Some v) | None \<Rightarrow> ([], None)) in
      and_then (map_err download_err (t_get (re_transport e) CHANNEL_MANAGER_VSS_KEY w)) (\<lambda>cm w1.
      if mkeys \<noteq> [] \<and> cm = None then (Inl (BackupInconsistent CmMissing), w1)
      else if (case cm of Some (bs, _) \<Rightarrow> length bs < 32 | None \<Rightarrow> False)
      then (Inl (ValidationFailed (CmTooSmall (length (fst (the cm))))), w1)
      else and_then (download_chunks e w1 (length mkeys) [] (chunks_of RESTORE_CHUNK_SIZE mkeys) w1) (\<lambda>ms w2.
      plan_with_peers e mversion cm ms w2)))"

section \<open>Local writes\<close>

datatype local_write = ManagerWrite | MonitorWrite string | PeersWrite

definition MANAGER_KEY :: string where "MANAGER_KEY = ''manager''"

type_synonym 'f write_state = "local_write list \<times> 'f"

definition logged :: "local_write \<Rightarrow> ('f \<Rightarrow> (io_error + unit) \<times> 'f) \<Rightarrow> 'f write_state \<Rightarrow> (io_error + unit) \<times> 'f write_state" where
  \<comment> \<open>a write followed by its entry in the log\<close>
  "logged lw act s =
     (case act (snd s) of (Inl err, d) \<Rightarrow> (Inl err, (fst s, d)) | (Inr u, d) \<Rightarrow> (Inr (), (fst s @ [lw], d)))"

fun write_monitors :: "'f disk \<Rightarrow> validated_monitor list \<Rightarrow> 'f write_state \<Rightarrow> (io_error + unit) \<times> 'f write_state" where
  "write_monitors d [] s = (Inr (), s)"
| "write_monitors d (m # ms) s =
     and_then (logged (MonitorWrite (vm_local_key m)) (d_write d MONITOR_NS '''' (vm_local_key m) (vm_bytes m)) s)
       (\<lambda>_. write_monitors d ms)"

definition write_plan_local ::
  "'f disk \<Rightarrow> json_codec \<Rightarrow> restore_plan \<Rightarrow> bool \<Rightarrow> 'f write_state \<Rightarrow> (io_error + unit) \<times> 'f write_state"
where
  "write_plan_local d c plan stop_after_manager s =
     and_then (case rp_cm plan of
                 Some (bs, _) \<Rightarrow> logged ManagerWrite (d_write d '''' '''' MANAGER_KEY bs) s
               | None \<Rightarrow> (Inr (), s)) (\<lambda>_ s1.
     if stop_after_manager then (Inr (), s1)
     else and_then (write_monitors d (rp_monitors plan) s1) (\<lambda>_ s2.
       case rp_peers plan of
         Some (peers, _) \<Rightarrow> logged PeersWrite (write_local_known_peers c d peers) s2
       | None \<Rightarrow> (Inr (), s2)))"

fun rollback_one :: "'f disk \<Rightarrow> local_write \<Rightarrow> 'f \<Rightarrow> 'f" where
  "rollback_one d ManagerWrite s = snd (d_remove d '''' '''' MANAGER_KEY False s)"
| "rollback_one d (MonitorWrite k) s = snd (d_remove d MONITOR_NS '''' k False s)"
| "rollback_one d PeersWrite s = snd (d_remove d KNOWN_PEERS_NS '''' KNOWN_PEERS_LOCAL_KEY False s)"

definition rollback_local_writes :: "'f disk \<Rightarrow> local_write list \<Rightarrow> 'f \<Rightarrow> 'f" where
  "rollback_local_writes d log s = fold (rollback_one d) log s"

section \<open>The explicit restore\<close>

datatype crash_point = AfterMarker | AfterClear | AfterMnemonic | AfterManager

record ('r, 'f) restore_env =
  rs_fs :: "'f fs"
  rs_codec :: json_codec
  rs_bip39 :: "string \<Rightarrow> mnemonic option"
  rs_lock :: "'f \<Rightarrow> build_error option" \<comment> \<open>\<open>DataDirLock::acquire\<close>; the lock file is none of the modelled files\<close>
  rs_make_transport :: "mnemonic \<Rightarrow> string + 'r transport option" \<comment> \<open>key derivation and \<open>make_vss_transport\<close>\<close>
  rs_setup :: "string option" \<comment> \<open>the runtime's failure to start\<close>
  rs_scratch :: "string option" \<comment> \<open>the failure of the scratch directory or of the validation wallet\<close>
  rs_ldk :: "mnemonic \<Rightarrow> bytes \<Rightarrow> string + string \<times> funding_outpoint"
  rs_over :: "'r \<Rightarrow> 'r \<Rightarrow> bool"
  rs_now_ms :: u64

datatype emitted = EmitProgress string | EmitDegraded vss_error \<comment> \<open>\<open>CoreEvent\<close>s handed to the event sink\<close>

record ('r, 'f) world =
  w_rem :: 'r
  w_dir :: 'f
  w_events :: "emitted list"

definition progress :: "string \<Rightarrow> ('r, 'f) world \<Rightarrow> ('r, 'f) world" where
  "progress step w = w\<lparr> w_events := w_events w @ [EmitProgress step] \<rparr>"

definition on_dir :: "('f \<Rightarrow> ('e + 'a) \<times> 'f) \<Rightarrow> ('r, 'f) world \<Rightarrow> ('e + 'a) \<times> ('r, 'f) world" where
  "on_dir act w = (let (r, d) = act (w_dir w) in (r, w\<lparr> w_dir := d \<rparr>))"

definition on_rem :: "('r \<Rightarrow> ('e + 'a) \<times> 'r) \<Rightarrow> ('r, 'f) world \<Rightarrow> ('e + 'a) \<times> ('r, 'f) world" where
  "on_rem act w = (let (r, x) = act (w_rem w) in (r, w\<lparr> w_rem := x \<rparr>))"

definition STEP_DERIVING_KEYS :: string where "STEP_DERIVING_KEYS = ''Deriving keys...''"
definition STEP_CHECKING_SERVER :: string where "STEP_CHECKING_SERVER = ''Checking backup server...''"
definition STEP_STOPPING_WALLET :: string where "STEP_STOPPING_WALLET = ''Stopping wallet...''"
definition STEP_CLEARING_DATA :: string where "STEP_CLEARING_DATA = ''Clearing local data...''"
definition STEP_WRITING_DATA :: string where "STEP_WRITING_DATA = ''Writing restored data...''"
definition STEP_RESTARTING :: string where "STEP_RESTARTING = ''Restarting wallet...''"

definition step_downloading :: "nat \<Rightarrow> string" where
  "step_downloading n = ''Downloading '' @ nat_to_string n @ '' item(s)...''"

definition recover_plan ::
  "'r remote_env \<Rightarrow> (string \<times> version) list \<Rightarrow> (key list \<times> version) option \<Rightarrow> 'r
     \<Rightarrow> (restore_error + restore_plan \<times> nat) \<times> 'r"
where
  \<comment> \<open>identify, download, merge: the order both entry points run\<close>
  "recover_plan e listing manifest x =
     and_then (adopt_unexplained_monitors e listing (case manifest of Some (ks, _) \<Rightarrow> ks | None \<Rightarrow> []) x) (\<lambda>adopted x1.
     and_then (download_and_validate e manifest x1) (\<lambda>plan x2.
     (merge_adopted_monitors plan adopted, x2)))"

definition remote_env_of :: "('r, 'f) restore_env \<Rightarrow> mnemonic \<Rightarrow> 'r transport \<Rightarrow> 'r remote_env" where
  "remote_env_of e m t = \<lparr> re_transport = t, re_codec = rs_codec e, re_over = rs_over e, re_ldk = rs_ldk e m \<rparr>"

definition restore_download ::
  "('r, 'f) restore_env \<Rightarrow> 'r remote_env \<Rightarrow> ('r, 'f) world \<Rightarrow> (restore_error + restore_plan \<times> nat) \<times> ('r, 'f) world"
where
  "restore_download e re w0 =
     and_then (map_err download_err (on_rem (t_list (re_transport re)) (progress STEP_CHECKING_SERVER w0))) (\<lambda>listing w1.
     if listing = [] then (Inl NoBackupFound, w1)
     else and_then (on_rem (fetch_manifest re) (progress (step_downloading (length listing)) w1)) (\<lambda>manifest w2.
     case rs_scratch e of
       Some err \<Rightarrow> (Inl (Setup err), w2)
     | None \<Rightarrow> on_rem (recover_plan re listing manifest) w2))"

definition restore_prepare ::
  "('r, 'f) restore_env \<Rightarrow> string \<Rightarrow> ('r, 'f) world
     \<Rightarrow> (restore_error + mnemonic \<times> 'r remote_env \<times> restore_plan \<times> nat) \<times> ('r, 'f) world"
where
  "restore_prepare e raw w0 =
     and_then (map_err (\<lambda>_. LocalWriteFailed StorageDirStage) (on_dir (fs_create_dir (rs_fs e)) w0)) (\<lambda>_ w1.
     case rs_lock e (w_dir w1) of
       Some other \<Rightarrow> (Inl (if other = InstanceAlreadyRunning then NodeRunning else Setup ''lock''), w1)
     | None \<Rightarrow>
       let w2 = progress STEP_DERIVING_KEYS w1 in
       (case parse_mnemonic (rs_bip39 e) raw of
          Inl _ \<Rightarrow> (Inl RestoreInvalidMnemonic, w2)
        | Inr m \<Rightarrow>
          (case rs_make_transport e m of
             Inl err \<Rightarrow> (Inl (Setup err), w2)
           | Inr None \<Rightarrow> (Inl VssDisabled, w2)
           | Inr (Some t) \<Rightarrow>
             (case rs_setup e of
                Some err \<Rightarrow> (Inl (Setup err), w2)
              | None \<Rightarrow>
                and_then (restore_download e (remote_env_of e m t) w2) (\<lambda>(plan, n) w3.
                (Inr (m, remote_env_of e m t, plan, n), w3))))))"

type_synonym ('r, 'f) stage = "('r, 'f) world \<Rightarrow> (restore_error + unit) \<times> ('r, 'f) world"

definition restore_write_data :: "('r, 'f) restore_env \<Rightarrow> restore_plan \<Rightarrow> crash_point option \<Rightarrow> ('r, 'f) stage" where
  "restore_write_data e plan crash w3 =
     and_then (map_err (\<lambda>_. LocalWriteFailed DataStage)
       (on_dir (\<lambda>d. case write_plan_local (fs_kv (rs_fs e)) (rs_codec e) plan (crash = Some AfterManager) ([], d) of
                      (r, (log, d')) \<Rightarrow> (r, d')) w3)) (\<lambda>_ w4.
     if crash = Some AfterManager then (Inl Interrupted, w4)
     else map_err (\<lambda>_. LocalWriteFailed MarkerRemovalStage) (on_dir (remove_marker (rs_fs e)) w4))"

definition restore_write_words ::
  "('r, 'f) restore_env \<Rightarrow> mnemonic \<Rightarrow> restore_plan \<Rightarrow> crash_point option \<Rightarrow> ('r, 'f) stage" where
  "restore_write_words e m plan crash w2 =
     and_then (map_err (\<lambda>_. LocalWriteFailed MnemonicStage)
       (on_dir (write_mnemonic (rs_fs e) m) (progress STEP_WRITING_DATA w2))) (\<lambda>_ w3.
     if crash = Some AfterMnemonic then (Inl Interrupted, w3) else restore_write_data e plan crash w3)"

definition restore_clear ::
  "('r, 'f) restore_env \<Rightarrow> mnemonic \<Rightarrow> restore_plan \<Rightarrow> crash_point option \<Rightarrow> ('r, 'f) stage" where
  "restore_clear e m plan crash w1 =
     and_then (map_err (\<lambda>_. LocalWriteFailed ClearStage)
       (on_dir (clear_local_wallet_state (rs_fs e)) (progress STEP_CLEARING_DATA w1))) (\<lambda>_ w2.
     if crash = Some AfterClear then (Inl Interrupted, w2) else restore_write_words e m plan crash w2)"

definition restore_commit ::
  "('r, 'f) restore_env \<Rightarrow> mnemonic \<Rightarrow> restore_plan \<Rightarrow> crash_point option \<Rightarrow> ('r, 'f) stage" where
  \<comment> \<open>the two-phase destructive write: marker, clear, words, data, marker removal\<close>
  "restore_commit e m plan crash w0 =
     and_then (map_err (\<lambda>_. LocalWriteFailed MarkerStage)
       (on_dir (write_marker (rs_fs e) (rs_codec e) \<lparr> rm_mnemonic = m, rm_started_at_ms = rs_now_ms e \<rparr>)
          (progress STEP_STOPPING_WALLET w0))) (\<lambda>_ w1.
     if crash = Some AfterMarker then (Inl Interrupted, w1) else restore_clear e m plan crash w1)"

lemmas commit_defs = restore_commit_def restore_clear_def restore_write_words_def restore_write_data_def

definition run_restore ::
  "('r, 'f) restore_env \<Rightarrow> string \<Rightarrow> crash_point option \<Rightarrow> ('r, 'f) world \<Rightarrow> (restore_error + unit) \<times> ('r, 'f) world"
where
  "run_restore e raw crash w0 =
     and_then (restore_prepare e raw w0) (\<lambda>(m, re, plan, adopted_count) w1.
     and_then (restore_commit e m plan crash w1) (\<lambda>_ w2.
     let w3 = (if adopted_count > 0
               then w2\<lparr> w_rem := backfill_manifest re (publishable_monitor_keys plan)
                          (case rp_manifest_version plan of Some v \<Rightarrow> v | None \<Rightarrow> 0) (w_rem w2) \<rparr>
               else w2)
     in (Inr (), progress STEP_RESTARTING w3)))"

lemma concat_chunks_of [simp]: "0 < n \<Longrightarrow> concat (chunks_of n xs) = xs"
  by (induction n xs rule: chunks_of.induct) auto

section \<open>What a download finds\<close>

definition monitor_at ::
  "(string \<rightharpoonup> bytes \<times> version) \<Rightarrow> 'r remote_env \<Rightarrow> string \<Rightarrow> validated_monitor \<Rightarrow> bool" where
  \<comment> \<open>the plan's entry is the blob stored there, read by LDK under the wallet's keys\<close>
  "monitor_at content e ok m \<longleftrightarrow> content ok = Some (vm_bytes m, vm_version m)
     \<and> (\<exists>txo. re_ldk e (vm_bytes m) = Inr (vm_local_key m, txo))"

definition adopted_at ::
  "(string \<rightharpoonup> bytes \<times> version) \<Rightarrow> 'r remote_env \<Rightarrow> string \<Rightarrow> validated_monitor \<Rightarrow> bool" where
  "adopted_at content e ok m \<longleftrightarrow> monitor_at content e ok m
     \<and> (vm_key_verified m \<longleftrightarrow> t_obfuscate (re_transport e) (vm_vss_key m) = ok)
     \<and> (\<exists>txo. vm_vss_key m = monitor_vss_key txo)"

text \<open>
  The reads of a server: a read by plaintext key looks the obfuscated key up, a read by stored key the
  key itself, and no read changes what is stored.
\<close>

locale stored_server =
  fixes t :: "'r transport" and stored :: "'r \<Rightarrow> string \<rightharpoonup> bytes \<times> version"
  assumes get_stored: "t_get_by_stored_key t ok x = (r, x') \<Longrightarrow> stored x' = stored x \<and> (\<forall>v. r = Inr v \<longrightarrow> v = stored x ok)"
    and get_plain: "t_get t k x = (r, x') \<Longrightarrow> stored x' = stored x \<and> (\<forall>v. r = Inr v \<longrightarrow> v = stored x (t_obfuscate t k))"
begin

lemma verify_loop_step:
  assumes "verify_loop e w0 n i (ad, rej) (ok # oks) x = (Inr res, x')" and "re_transport e = t" and "stored x = content"
  obtains x1 where "stored x1 = content" "content ok = None" "verify_loop e w0 n (i + 1) (ad, rej) oks x1 = (Inr res, x')"
  | x1 where "stored x1 = content" "verify_loop e w0 n (i + 1) (ad, rej @ [ok]) oks x1 = (Inr res, x')"
  | x1 m where "stored x1 = content" "adopted_at content e ok m" "verify_loop e w0 n (i + 1) (ad @ [m], rej) oks x1 = (Inr res, x')"
proof -
  obtain r x1 where g: "t_get_by_stored_key t ok x = (r, x1)" by fastforce
  note run = assms(1)[simplified, unfolded assms(2) g] and G = get_stored[OF g]
  have x1: "stored x1 = content" using G assms(3) by simp
  consider (err) err where "r = Inl err" | (gone) "r = Inr None" | (got) bs v where "r = Inr (Some (bs, v))"
    by (metis old.prod.exhaust option.exhaust sum.exhaust)
  then show thesis
  proof cases
    case err
    with run that(2)[OF x1] show thesis by (auto split: if_splits vss_error.splits)
  next
    case gone
    with run that(1)[OF x1] G assms(3) show thesis by (auto split: if_splits)
  next
    case got
    show thesis
    proof (cases "re_ldk e bs")
      case (Inl err)
      with run got that(2)[OF x1] show thesis by (auto simp: deserialize_monitor_def split: if_splits)
    next
      case (Inr nt)
      obtain name txo where nt: "nt = (name, txo)" by (cases nt)
      let ?m = "\<lparr> vm_vss_key = monitor_vss_key txo, vm_local_key = name, vm_bytes = bs, vm_version = v,
        vm_key_verified = (t_obfuscate t (monitor_vss_key txo) = ok) \<rparr>"
      have "adopted_at content e ok ?m"
        using G got Inr nt assms(2,3) by (auto simp: adopted_at_def monitor_at_def)
      moreover have "verify_loop e w0 n (i + 1) (ad @ [?m], rej) oks x1 = (Inr res, x')"
        using run got Inr nt assms(2) by (auto simp: deserialize_monitor_def split: if_splits)
      ultimately show thesis by (rule that(3)[OF x1])
    qed
  qed
qed

text \<open>The identification loop adopts monitors only, and every key is adopted, rejected or gone.\<close>

lemma verify_loop_sound:
  assumes "verify_loop e w0 n i (ad, rej) oks x = (Inr (ad', rej'), x')" and "re_transport e = t" and "stored x = content"
  shows "stored x' = content \<and> (\<exists>ad2 rej2. ad' = ad @ ad2 \<and> rej' = rej @ rej2
    \<and> (\<forall>ok \<in> set oks. content ok = None \<or> ok \<in> set rej2 \<or> (\<exists>m \<in> set ad2. adopted_at content e ok m))
    \<and> (\<forall>m \<in> set ad2. \<exists>ok \<in> set oks. adopted_at content e ok m))"
  using assms(1,3)
proof (induction oks arbitrary: i ad rej x)
  case (Cons ok oks)
  from verify_loop_step[OF Cons.prems(1) assms(2) Cons.prems(2)] show ?case
  proof cases
    case (1 x1)
    from Cons.IH[OF 1(3,1)] 1(2) show ?thesis by fastforce
  next
    case (2 x1)
    from Cons.IH[OF 2(2,1)] obtain ad2 rej2 where "stored x' = content" "ad' = ad @ ad2" "rej' = rej @ ok # rej2"
      "\<forall>ok \<in> set oks. content ok = None \<or> ok \<in> set rej2 \<or> (\<exists>m \<in> set ad2. adopted_at content e ok m)"
      "\<forall>m \<in> set ad2. \<exists>ok \<in> set oks. adopted_at content e ok m" by auto
    then show ?thesis by (intro conjI exI[of _ ad2] exI[of _ "ok # rej2"]) auto
  next
    case (3 x1 m)
    from Cons.IH[OF 3(3,1)] obtain ad2 rej2 where "stored x' = content" "ad' = ad @ m # ad2" "rej' = rej @ rej2"
      "\<forall>ok \<in> set oks. content ok = None \<or> ok \<in> set rej2 \<or> (\<exists>m \<in> set ad2. adopted_at content e ok m)"
      "\<forall>m \<in> set ad2. \<exists>ok \<in> set oks. adopted_at content e ok m" by auto
    with 3(2) show ?thesis by (intro conjI exI[of _ "m # ad2"] exI[of _ rej2]) auto
  qed
qed simp

lemma adopt_sound:
  assumes "adopt_unexplained_monitors e listing mkeys x = (Inr adopted, x')" and "re_transport e = t" and "stored x = content"
  shows "stored x' = content \<and> (\<forall>(ok, v) \<in> set listing. ok \<in> t_obfuscate t ` (set FIXED_REMOTE_KEYS \<union> set mkeys) \<or> content ok = None
       \<or> (\<exists>m \<in> set adopted. adopted_at content e ok m))
    \<and> (\<forall>m \<in> set adopted. \<exists>ok \<in> fst ` set listing. adopted_at content e ok m)"
proof (cases "unexplained_remote_keys listing mkeys t = []")
  case True
  with assms show ?thesis
    by (auto simp: adopt_unexplained_monitors_def unexplained_remote_keys_def Let_def filter_empty_conv image_Un)
next
  case False
  with assms have "verify_loop e x (length (unexplained_remote_keys listing mkeys t)) 0 ([], [])
      (unexplained_remote_keys listing mkeys t) x = (Inr (adopted, []), x')"
    by (auto simp: adopt_unexplained_monitors_def Let_def step_iff verify_unexplained_keys_def split: if_splits)
  from verify_loop_sound[OF this assms(2,3)]
  have "stored x' = content" and "\<forall>ok \<in> set (unexplained_remote_keys listing mkeys t). content ok = None \<or> (\<exists>m \<in> set adopted. adopted_at content e ok m)"
    and "\<forall>m \<in> set adopted. \<exists>ok \<in> set (unexplained_remote_keys listing mkeys t). adopted_at content e ok m" by auto
  then show ?thesis
    by (fastforce simp: unexplained_remote_keys_def Let_def)
qed

text \<open>Every key of a validated chunk has its blob, and the blob is a monitor of this wallet.\<close>

lemma validate_chunk_sound:
  assumes "validate_chunk e (zip ch (fst (get_all t ch x))) = Inr ms" and "stored x = content"
  shows "map vm_vss_key ms = ch
    \<and> (\<forall>m \<in> set ms. vm_key_verified m \<and> monitor_at content e (t_obfuscate t (vm_vss_key m)) m)"
  using assms
proof (induction ch arbitrary: x ms)
  case (Cons k ch)
  obtain r x1 where g: "t_get t k x = (r, x1)" by fastforce
  from Cons.prems(1) g obtain bs v d ms1 where r: "r = Inr (Some (bs, v))" and d: "deserialize_monitor e bs = Inr d"
    and v: "validate_chunk e (zip ch (fst (get_all t ch x1))) = Inr ms1"
    and ms: "ms = \<lparr> vm_vss_key = k, vm_local_key = dm_local_key d, vm_bytes = bs, vm_version = v, vm_key_verified = True \<rparr> # ms1"
    by (auto split: sum.splits option.splits prod.splits)
  from get_plain[OF g] r d Cons.prems(2) have x1: "stored x1 = content" and "content (t_obfuscate t k) = Some (bs, v)" "\<exists>txo. re_ldk e bs = Inr (dm_local_key d, txo)"
    by (auto simp: deserialize_monitor_def split: sum.splits)
  with Cons.IH[OF v x1] ms show ?case by (auto simp: monitor_at_def)
qed simp

lemma get_all_frame: "stored (snd (get_all t ch x)) = stored x"
proof (induction ch arbitrary: x)
  case (Cons k ch)
  then show ?case using get_plain[of k x] by (auto split: prod.splits) (metis snd_conv)
qed simp

lemma download_chunks_sound:
  assumes "download_chunks e w0 n ms0 chs x = (Inr ms, x')" and "re_transport e = t" and "stored x = content"
  shows "stored x' = content \<and> (\<exists>ms2. ms = ms0 @ ms2 \<and> map vm_vss_key ms2 = concat chs
    \<and> (\<forall>m \<in> set ms2. vm_key_verified m \<and> monitor_at content e (t_obfuscate t (vm_vss_key m)) m))"
  using assms(1,3)
proof (induction chs arbitrary: ms0 x)
  case (Cons ch chs)
  obtain rs x1 where g: "get_all t ch x = (rs, x1)" by fastforce
  have x1: "stored x1 = content" using get_all_frame[of ch x] g Cons.prems(2) by simp
  from Cons.prems(1) assms(2) g obtain ms1 where v: "validate_chunk e (zip ch rs) = Inr ms1"
    and d: "download_chunks e w0 n (ms0 @ ms1) chs x1 = (Inr ms, x')"
    by (auto split: if_splits sum.splits)
  from validate_chunk_sound[of e ch x ms1 content] v g Cons.prems(2) have 1: "map vm_vss_key ms1 = ch"
    "\<forall>m \<in> set ms1. vm_key_verified m \<and> monitor_at content e (t_obfuscate t (vm_vss_key m)) m" by auto
  from Cons.IH[OF d x1] obtain ms2 where "stored x' = content" "ms = (ms0 @ ms1) @ ms2" "map vm_vss_key ms2 = concat chs"
    "\<forall>m \<in> set ms2. vm_key_verified m \<and> monitor_at content e (t_obfuscate t (vm_vss_key m)) m" by blast
  with 1 show ?case by (intro conjI exI[of _ "ms1 @ ms2"]) auto
qed simp

lemma download_sound:
  assumes "download_and_validate e manifest x = (Inr plan, x')" and "re_transport e = t" and "stored x = content"
  shows "map vm_vss_key (rp_monitors plan) = (case manifest of Some (ks, _) \<Rightarrow> ks | None \<Rightarrow> [])
    \<and> (\<forall>m \<in> set (rp_monitors plan). vm_key_verified m \<and> monitor_at content e (t_obfuscate t (vm_vss_key m)) m)
    \<and> rp_cm plan = content (t_obfuscate t CHANNEL_MANAGER_VSS_KEY)"
proof -
  obtain ks mv where km: "(case manifest of Some (ks, v) \<Rightarrow> (ks, Some v) | None \<Rightarrow> ([], None)) = (ks, mv)"
    by fastforce
  have tail: "rp_monitors plan = ms \<and> rp_cm plan = cm" if pw: "plan_with_peers e mv cm ms y = (Inr plan, x')" for cm ms y
  proof -
    from pw obtain got y1 where "(case got of
        None \<Rightarrow> (Inr \<lparr> rp_manifest_version = mv, rp_cm = cm, rp_monitors = ms, rp_peers = None \<rparr>, y1)
      | Some (bs, v) \<Rightarrow> (case parse_known_peers (re_codec e) bs of
              Inl err \<Rightarrow> (Inl (ValidationFailed (BadPeers err)), y1)
            | Inr m \<Rightarrow> (Inr \<lparr> rp_manifest_version = mv, rp_cm = cm, rp_monitors = ms, rp_peers = Some (m, v) \<rparr>, y1)))
      = (Inr plan, x')"
      unfolding plan_with_peers_def and_then_Inr by blast
    then show ?thesis by (cases got) (auto split: sum.splits)
  qed
  from assms(1) obtain x1 ms x2 cm where
    cm: "t_get t CHANNEL_MANAGER_VSS_KEY x = (Inr cm, x1)" and dc: "download_chunks e x1 (length ks) [] (chunks_of RESTORE_CHUNK_SIZE ks) x1 = (Inr ms, x2)"
    and pw: "plan_with_peers e mv cm ms x2 = (Inr plan, x')"
    unfolding download_and_validate_def km assms(2) by (auto simp: step_iff split: if_splits)
  from dc have "download_chunks e x1 (length ks) [] (chunks_of RESTORE_CHUNK_SIZE ks) x1 = (Inr (rp_monitors plan), x2)"
    using tail[OF pw] by simp
  from download_chunks_sound[OF this assms(2)] get_plain[OF cm] assms(3) km tail[OF pw] show ?thesis
    by (auto simp: RESTORE_CHUNK_SIZE_def split: option.splits)
qed

lemma recover_plan_sound:
  assumes "recover_plan e listing manifest x = (Inr (plan, n), x')" and "re_transport e = t" and "stored x = content"
  shows "(\<forall>m \<in> set (rp_monitors plan). \<exists>ok. monitor_at content e ok m \<and> (vm_key_verified m \<longrightarrow> ok = t_obfuscate t (vm_vss_key m)))
    \<and> (\<forall>(ok, v) \<in> set listing. ok \<in> t_obfuscate t ` set FIXED_REMOTE_KEYS \<or> content ok = None
         \<or> (\<exists>m. monitor_at content e ok m \<and> vm_local_key m \<in> vm_local_key ` set (rp_monitors plan)))
    \<and> rp_cm plan = content (t_obfuscate t CHANNEL_MANAGER_VSS_KEY)"
proof -
  define ks where "ks = (case manifest of Some (ks, _) \<Rightarrow> ks | None \<Rightarrow> [])"
  from assms(1) obtain adopted x1 plan0 x2 where
    ad: "adopt_unexplained_monitors e listing ks x = (Inr adopted, x1)"
    and dl: "download_and_validate e manifest x1 = (Inr plan0, x2)"
    and mg: "merge_adopted_monitors plan0 adopted = Inr (plan, n)"
    by (auto simp: recover_plan_def step_iff simp flip: ks_def)
  note A0 = adopt_sound[OF ad assms(2,3)]
  note A = conjunct2[OF A0] and D = download_sound[OF dl assms(2) conjunct1[OF A0], folded ks_def]
  have C: "rp_cm plan = rp_cm plan0"
    using mg by (auto simp: merge_adopted_monitors_def Let_def split: if_splits)
  have P: "rp_monitors plan = rp_monitors plan0 @ filter (\<lambda>m. vm_local_key m \<notin> vm_local_key ` set (rp_monitors plan0)) adopted"
    using mg by (auto simp: merge_adopted_monitors_def Let_def split: if_splits)
  have listed: "\<exists>m. monitor_at content e ok m \<and> vm_local_key m \<in> vm_local_key ` set (rp_monitors plan)"
    if "ok \<in> t_obfuscate t ` set ks" for ok
  proof -
    from that have "ok \<in> t_obfuscate t ` vm_vss_key ` set (rp_monitors plan0)"
      unfolding conjunct1[OF D, symmetric] set_map .
    then obtain m where m: "m \<in> set (rp_monitors plan0)" "ok = t_obfuscate t (vm_vss_key m)" by (elim imageE) simp
    then have "monitor_at content e ok m" "m \<in> set (rp_monitors plan)" using D P by simp_all
    then show ?thesis by blast
  qed
  have adopted: "vm_local_key m \<in> vm_local_key ` set (rp_monitors plan)" if "m \<in> set adopted" for m
    using that P by auto
  have "ok \<in> t_obfuscate t ` set FIXED_REMOTE_KEYS \<or> content ok = None
         \<or> (\<exists>m. monitor_at content e ok m \<and> vm_local_key m \<in> vm_local_key ` set (rp_monitors plan))"
    if "(ok, v) \<in> set listing" for ok v
  proof -
    from bspec[OF conjunct1[OF A] that]
    have "ok \<in> t_obfuscate t ` (set FIXED_REMOTE_KEYS \<union> set ks) \<or> content ok = None
        \<or> (\<exists>m \<in> set adopted. adopted_at content e ok m)" by (simp only: prod.case)
    then consider "ok \<in> t_obfuscate t ` set FIXED_REMOTE_KEYS" | "ok \<in> t_obfuscate t ` set ks" | "content ok = None"
      | m where "m \<in> set adopted" "monitor_at content e ok m"
      unfolding adopted_at_def image_Un by (metis Un_iff)
    then show ?thesis using listed adopted by cases blast+
  qed
  moreover have "\<exists>ok. monitor_at content e ok m \<and> (vm_key_verified m \<longrightarrow> ok = t_obfuscate t (vm_vss_key m))"
    if "m \<in> set (rp_monitors plan)" for m
  proof (cases "m \<in> set (rp_monitors plan0)")
    case True
    with D show ?thesis by blast
  next
    case False
    with that P A obtain ok where "adopted_at content e ok m" by auto
    with assms(2) show ?thesis unfolding adopted_at_def by blast
  qed
  ultimately show ?thesis using C D by auto
qed

end

section \<open>What the local writes leave on disk\<close>

definition monitors_kv :: "validated_monitor list \<Rightarrow> kv_content \<Rightarrow> kv_content" where
  "monitors_kv ms k0 = fold (\<lambda>m k. k((MONITOR_NS, '''', vm_local_key m) \<mapsto> vm_bytes m)) ms k0"

definition plan_kv :: "json_codec \<Rightarrow> restore_plan \<Rightarrow> kv_content \<Rightarrow> kv_content" where
  "plan_kv c plan k0 =
     (let k1 = (case rp_cm plan of Some (bs, _) \<Rightarrow> k0(('''', '''', MANAGER_KEY) \<mapsto> bs) | None \<Rightarrow> k0);
          k2 = monitors_kv (rp_monitors plan) k1
      in (case rp_peers plan of
            Some (m, _) \<Rightarrow> k2((KNOWN_PEERS_NS, '''', KNOWN_PEERS_LOCAL_KEY) \<mapsto> serialize_known_peers c m)
          | None \<Rightarrow> k2))"

lemma namespaces_distinct [simp]: "KNOWN_PEERS_NS \<noteq> MONITOR_NS" "MONITOR_NS \<noteq> KNOWN_PEERS_NS" "MONITOR_NS \<noteq> []" "[] \<noteq> MONITOR_NS" "[] \<noteq> KNOWN_PEERS_NS" "KNOWN_PEERS_NS \<noteq> []"
  by (simp_all add: KNOWN_PEERS_NS_def MONITOR_NS_def)

lemma write_peers_eq:
  "write_local_known_peers c d m = d_write d KNOWN_PEERS_NS '''' KNOWN_PEERS_LOCAL_KEY (serialize_known_peers c m)"
  by (simp add: write_local_known_peers_def fun_eq_iff)

lemma monitors_kv_other: "p \<noteq> MONITOR_NS \<Longrightarrow> monitors_kv ms k0 (p, q, k) = k0 (p, q, k)"
  unfolding monitors_kv_def by (induction ms arbitrary: k0) auto

lemma monitors_kv_absent:
  "q \<noteq> [] \<or> k \<notin> vm_local_key ` set ms \<Longrightarrow> monitors_kv ms k0 (MONITOR_NS, q, k) = k0 (MONITOR_NS, q, k)"
  unfolding monitors_kv_def by (induction ms arbitrary: k0) auto

lemma monitors_kv_present:
  "k \<in> vm_local_key ` set ms \<Longrightarrow>
     \<exists>m \<in> set ms. vm_local_key m = k \<and> monitors_kv ms k0 (MONITOR_NS, '''', k) = Some (vm_bytes m)"
proof (induction ms arbitrary: k0)
  case (Cons m ms)
  show ?case
  proof (cases "k \<in> vm_local_key ` set ms")
    case True
    from Cons.IH[OF True] show ?thesis by (auto simp: monitors_kv_def)
  next
    case False
    with Cons.prems have "vm_local_key m = k" by auto
    with monitors_kv_absent[of "[]" k ms] False show ?thesis by (auto simp: monitors_kv_def)
  qed
qed simp

lemma plan_kv_monitor: "plan_kv c plan k0 (MONITOR_NS, '''', k)
    = monitors_kv (rp_monitors plan) k0 (MONITOR_NS, '''', k)"
proof -
  have "monitors_kv ms (k1(('''', '''', MANAGER_KEY) \<mapsto> bs)) (MONITOR_NS, '''', k) = monitors_kv ms k1 (MONITOR_NS, '''', k)"
    for ms k1 bs
  proof (cases "k \<in> vm_local_key ` set ms")
    case True
    then show ?thesis unfolding monitors_kv_def by (induction ms arbitrary: k1 rule: rev_induct) auto
  next
    case False
    then show ?thesis by (simp add: monitors_kv_absent)
  qed
  then show ?thesis by (auto simp: plan_kv_def Let_def split: option.splits)
qed

lemma plan_kv_manager: "plan_kv c plan k0 ('''', '''', MANAGER_KEY)
    = (case rp_cm plan of Some (bs, _) \<Rightarrow> Some bs | None \<Rightarrow> k0 ('''', '''', MANAGER_KEY))"
  by (auto simp: plan_kv_def Let_def monitors_kv_other split: option.splits)

context data_dir
begin

lemma logged_cases:
  assumes "logged lw (d_write (fs_kv F) p q k b) s = (r, s')"
  shows "files (snd s') = files (snd s)
    \<and> (case r of Inr _ \<Rightarrow> fst s' = fst s @ [lw] \<and> kv (snd s') = (kv (snd s))((p, q, k) \<mapsto> b) | Inl _ \<Rightarrow> fst s' = fst s \<and> kv (snd s') = kv (snd s))"
  using assms kv_write[of p q k b "snd s"] by (fastforce simp: logged_def split: prod.splits sum.splits)

lemma write_monitors_effect:
  assumes "write_monitors (fs_kv F) ms s = (r, s')"
  shows "files (snd s') = files (snd s) \<and> (\<forall>u. r = Inr u \<longrightarrow> kv (snd s') = monitors_kv ms (kv (snd s)))"
  using assms
proof (induction ms arbitrary: s)
  case Nil
  then show ?case by (auto simp: monitors_kv_def)
next
  case (Cons m ms)
  obtain r1 s1 where l: "logged (MonitorWrite (vm_local_key m)) (d_write (fs_kv F) MONITOR_NS '''' (vm_local_key m) (vm_bytes m)) s = (r1, s1)"
    by (meson surj_pair)
  note step = logged_cases[OF l]
  show ?case
  proof (cases r1)
    case (Inl err)
    with Cons.prems l step show ?thesis by auto
  next
    case (Inr u)
    with Cons.prems l have "write_monitors (fs_kv F) ms s1 = (r, s')" by simp
    from Cons.IH[OF this] step Inr show ?thesis by (simp add: monitors_kv_def)
  qed
qed

lemma write_plan_effect:
  assumes "write_plan_local (fs_kv F) c plan False s = (r, s')"
  shows "files (snd s') = files (snd s) \<and> (\<forall>u. r = Inr u \<longrightarrow> kv (snd s') = plan_kv c plan (kv (snd s)))"
proof -
  obtain r1 s1 where cm: "(case rp_cm plan of Some (bs, _) \<Rightarrow> logged ManagerWrite (d_write (fs_kv F) '''' '''' MANAGER_KEY bs) s
      | None \<Rightarrow> (Inr (), s)) = (r1, s1)" by (meson surj_pair)
  have 1: "files (snd s1) = files (snd s)" "r1 = Inr u \<Longrightarrow> kv (snd s1) =
      (case rp_cm plan of Some (bs, _) \<Rightarrow> (kv (snd s))(('''', '''', MANAGER_KEY) \<mapsto> bs) | None \<Rightarrow> kv (snd s))" for u
    using cm by (auto split: option.splits dest: logged_cases)
  show ?thesis
  proof (cases r1)
    case (Inl err)
    with assms cm 1 show ?thesis by (auto simp: write_plan_local_def)
  next
    case (Inr u)
    obtain r2 s2 where ms: "write_monitors (fs_kv F) (rp_monitors plan) s1 = (r2, s2)" by (meson surj_pair)
    note 2 = write_monitors_effect[OF ms]
    show ?thesis
    proof (cases r2)
      case (Inl err)
      with assms cm ms Inr 1 2 show ?thesis by (auto simp: write_plan_local_def)
    next
      case r2: (Inr u')
      have "(case rp_peers plan of Some (peers, _) \<Rightarrow> logged PeersWrite (write_local_known_peers c (fs_kv F) peers) s2
          | None \<Rightarrow> (Inr (), s2)) = (r, s')"
        using assms cm ms Inr r2 by (simp add: write_plan_local_def)
      then show ?thesis
        using 1 2 Inr r2
        by (auto simp: plan_kv_def Let_def write_peers_eq split: option.splits dest: logged_cases)
    qed
  qed
qed

lemma write_plan_stop_files:
  assumes "write_plan_local (fs_kv F) c plan stop s = (r, s')"
  shows "files (snd s') = files (snd s)"
  using assms write_plan_effect[of c plan s r s']
  by (cases stop) (auto simp: write_plan_local_def and_then_def split: option.splits prod.splits sum.splits dest: logged_cases)

end

section \<open>The explicit restore, end to end\<close>

lemma on_dirD: "on_dir act w = (r, w') \<Longrightarrow> act (w_dir w) = (r, w_dir w') \<and> w_rem w' = w_rem w"
  by (auto simp: on_dir_def split: prod.splits)

lemma on_remD: "on_rem act w = (r, w') \<Longrightarrow> act (w_rem w) = (r, w_rem w') \<and> w_dir w' = w_dir w"
  by (auto simp: on_rem_def split: prod.splits)

lemma progress_sel [simp]: "w_dir (progress st w) = w_dir w" "w_rem (progress st w) = w_rem w"
  by (simp_all add: progress_def)

lemma restore_download_ok:
  assumes "restore_download e re w = (Inr (plan, n), w')"
  obtains listing x2 manifest x3 where "t_list (re_transport re) (w_rem w) = (Inr listing, x2)"
    "fetch_manifest re x2 = (Inr manifest, x3)" "recover_plan re listing manifest x3 = (Inr (plan, n), w_rem w')"
proof -
  from assms obtain listing w1 where l: "on_rem (t_list (re_transport re)) (progress STEP_CHECKING_SERVER w) = (Inr listing, w1)"
    and rest: "and_then (on_rem (fetch_manifest re) (progress (step_downloading (length listing)) w1)) (\<lambda>manifest w2.
      case rs_scratch e of Some err \<Rightarrow> (Inl (Setup err), w2) | None \<Rightarrow> on_rem (recover_plan re listing manifest) w2) = (Inr (plan, n), w')"
    unfolding restore_download_def and_then_Inr[of "map_err _ _"] map_err_Inr by (auto split: if_splits)
  from rest obtain manifest w2 where m: "on_rem (fetch_manifest re) (progress (step_downloading (length listing)) w1) = (Inr manifest, w2)"
    and p: "on_rem (recover_plan re listing manifest) w2 = (Inr (plan, n), w')"
    unfolding and_then_Inr by (auto split: option.splits)
  from on_remD[OF l] on_remD[OF m] on_remD[OF p] that show thesis by simp
qed

lemma restore_prepare_ok:
  assumes "restore_prepare e raw w = (Inr (m, re, plan, n), w')"
  obtains t w1 where "parse_mnemonic (rs_bip39 e) raw = Inr m" "rs_make_transport e m = Inr (Some t)"
    "re = remote_env_of e m t" "restore_download e re w1 = (Inr (plan, n), w')" "w_rem w1 = w_rem w"
  using assms that unfolding restore_prepare_def
  by (auto simp: step_iff Let_def dest!: on_dirD split: option.splits sum.splits if_splits)

lemma restore_download_dir: "restore_download e re w = (r, w') \<Longrightarrow> w_dir w' = w_dir w"
  by (auto simp: restore_download_def and_then_def map_err_def dest!: on_remD split: prod.splits sum.splits option.splits if_splits)

context data_dir
begin

lemma restore_prepare_frame:
  assumes "restore_prepare e raw w = (r, w')" and "rs_fs e = F"
  shows "files (w_dir w') = files (w_dir w) \<and> kv (w_dir w') = kv (w_dir w)"
proof -
  obtain r1 w1 where c: "on_dir (fs_create_dir F) w = (r1, w1)" by fastforce
  then have 1: "files (w_dir w1) = files (w_dir w)" "kv (w_dir w1) = kv (w_dir w)"
    using create_dir[of "w_dir w"] by (auto dest!: on_dirD)
  have "w_dir w' = w_dir w1"
    using assms c
    by (auto simp: restore_prepare_def and_then_def map_err_def Let_def dest!: restore_download_dir
        split: prod.splits sum.splits option.splits if_splits)
  with 1 show ?thesis by simp
qed

text \<open>A commit that is not interrupted leaves the plan, the words and neither marker nor fence.\<close>

lemma restore_commit_ok:
  assumes "restore_commit e m plan None w = (Inr u, w')" and "rs_fs e = F"
  shows "kv (w_dir w') = plan_kv (rs_codec e) plan Map.empty
    \<and> files (w_dir w') MNEMONIC_FILE_NAME = Some (as_bytes m) \<and> files (w_dir w') FENCED_FLAG_FILE_NAME = None
    \<and> files (w_dir w') RESTORE_IN_PROGRESS_FILE_NAME = None"
proof -
  from assms obtain d1 d2 d3 d4 where
    mk: "write_marker F (rs_codec e) \<lparr> rm_mnemonic = m, rm_started_at_ms = rs_now_ms e \<rparr> (w_dir w) = (Inr (), d1)"
    and cl: "clear_local_wallet_state F d1 = (Inr (), d2)" and mn: "write_mnemonic F m d2 = (Inr (), d3)"
    and wp: "(case write_plan_local (fs_kv F) (rs_codec e) plan False ([], d3) of (r, (log, d)) \<Rightarrow> (r, d)) = (Inr (), d4)"
    and rm: "remove_marker F d4 = (Inr (), w_dir w')"
    unfolding commit_defs by (auto simp: step_iff dest!: on_dirD)
  from wp obtain log where "write_plan_local (fs_kv F) (rs_codec e) plan False ([], d3) = (Inr (), (log, d4))"
    by (auto split: prod.splits)
  from write_plan_effect[OF this] write_mnemonic_ok[OF mn] write_mnemonic_frame[OF mn] clear_ok[OF cl] remove_marker_frame[OF rm]
    remove_marker_ok[OF rm]
  show ?thesis by simp
qed

end

lemma restore_commit_errors:
  "restore_commit e m plan crash w = (Inl err, w') \<Longrightarrow> err = Interrupted \<or> (\<exists>st. err = LocalWriteFailed st)"
  unfolding commit_defs
  by (auto simp: step_iff split: if_splits)

context stored_server
begin

lemma fetch_manifest_frame:
  assumes "fetch_manifest e x = (Inr manifest, x')" and "re_transport e = t"
  shows "stored x' = stored x"
proof -
  obtain r x1 where g: "t_get t MONITOR_MANIFEST_KEY x = (r, x1)" by fastforce
  have "x' = x1"
    using assms g by (auto simp: fetch_manifest_def and_then_def map_err_def split: sum.splits option.splits prod.splits)
  with get_plain[OF g] show ?thesis by simp
qed

lemma restore_download_sound:
  assumes "restore_download e re w = (Inr (plan, n), w')" and "re_transport re = t"
    and "\<And>l x'. t_list t (w_rem w) = (Inr l, x') \<Longrightarrow> stored x' = stored (w_rem w) \<and> dom (stored (w_rem w)) \<subseteq> fst ` set l"
  shows "(\<forall>m \<in> set (rp_monitors plan). \<exists>txo. re_ldk re (vm_bytes m) = Inr (vm_local_key m, txo))
    \<and> (\<forall>ok bs v. stored (w_rem w) ok = Some (bs, v) \<longrightarrow> ok \<notin> t_obfuscate t ` set FIXED_REMOTE_KEYS \<longrightarrow>
         (\<exists>name txo. re_ldk re bs = Inr (name, txo) \<and> name \<in> vm_local_key ` set (rp_monitors plan)))
    \<and> rp_cm plan = stored (w_rem w) (t_obfuscate t CHANNEL_MANAGER_VSS_KEY)"
proof -
  from restore_download_ok[OF assms(1)] obtain listing x2 manifest x3 where
    l: "t_list t (w_rem w) = (Inr listing, x2)" and f: "fetch_manifest re x2 = (Inr manifest, x3)"
    and p: "recover_plan re listing manifest x3 = (Inr (plan, n), w_rem w')" using assms(2) by metis
  let ?c = "stored (w_rem w)"
  have x3: "stored x3 = ?c" using fetch_manifest_frame[OF f assms(2)] assms(3)[OF l] by simp
  note S = recover_plan_sound[OF p assms(2) x3]
  have "\<exists>name txo. re_ldk re bs = Inr (name, txo) \<and> name \<in> vm_local_key ` set (rp_monitors plan)"
    if "?c ok = Some (bs, v)" "ok \<notin> t_obfuscate t ` set FIXED_REMOTE_KEYS" for ok bs v
  proof -
    from that(1) assms(3)[OF l] obtain v' where "(ok, v') \<in> set listing" by force
    with S that obtain m where "monitor_at ?c re ok m" "vm_local_key m \<in> vm_local_key ` set (rp_monitors plan)" by fastforce
    with that(1) show ?thesis by (auto simp: monitor_at_def)
  qed
  with S show ?thesis unfolding monitor_at_def by blast
qed

end

text \<open>C10: a restore that fails before it starts writing leaves the wallet as it was: whatever the server
  answers and whichever error is reported, other than a failed local write or an injected crash, the
  mnemonic, the marker, the fence and the whole local store are unchanged.\<close>

theorem aborted_restore_touches_nothing:
  assumes "data_dir (rs_fs e) files kv" and "run_restore e raw crash w = (Inl err, w')"
    and "err \<noteq> Interrupted" and "\<And>st. err = LocalWriteFailed st \<Longrightarrow> st = StorageDirStage"
  shows "files (w_dir w') = files (w_dir w) \<and> kv (w_dir w') = kv (w_dir w)"
proof -
  from assms(2) consider "restore_prepare e raw w = (Inl err, w')"
    | m re plan n w1 where "restore_prepare e raw w = (Inr (m, re, plan, n), w1)" "restore_commit e m plan crash w1 = (Inl err, w')"
    unfolding run_restore_def by (auto simp: step_iff Let_def)
  then show ?thesis
  proof cases
    case 1
    with data_dir.restore_prepare_frame[OF assms(1)] show ?thesis by blast
  next
    case 2
    note restore_commit_errors
    have "err \<noteq> LocalWriteFailed StorageDirStage"
      using 2(2) unfolding commit_defs by (auto simp: step_iff split: if_splits)
    with restore_commit_errors[OF 2(2)] assms(3,4) show ?thesis by blast
  qed
qed


section \<open>An example wallet\<close>

interpretation mock_stored: stored_server mock_transport m_state
  by unfold_locales (auto simp: mock_get_def Let_def split: if_splits)

definition example_words :: mnemonic where "example_words = ''a b c d e f g h i j k l''"

definition example_server :: "string list \<Rightarrow> mock" where
  \<comment> \<open>a channel manager and, under each of the keys, a monitor that no manifest lists\<close>
  "example_server ks = fold (\<lambda>k. mock_store k ([1], 1)) ks (mock_store CHANNEL_MANAGER_VSS_KEY (replicate 32 0, 1) mock_new)"

definition example_restore_env :: "(mock, crash_dir) restore_env" where
  "example_restore_env = \<lparr> rs_fs = crash_fs, rs_codec = \<lparr> from_slice = (\<lambda>_. None), to_vec = (\<lambda>_. []) \<rparr>,
     rs_bip39 = (\<lambda>s. if s = example_words then Some s else None), rs_lock = (\<lambda>_. None),
     rs_make_transport = (\<lambda>_. Inr (Some mock_transport)), rs_setup = None, rs_scratch = None,
     rs_ldk = (\<lambda>_ bs. if bs = [1] then Inr (''chan'', \<lparr> fo_txid = replicate 32 0, fo_index = 0 \<rparr>) else Inl ''unreadable''),
     rs_over = (\<lambda>_ _. False), rs_now_ms = 0 \<rparr>"

definition example_world :: "mock \<Rightarrow> (mock, crash_dir) world" where
  "example_world server = \<lparr> w_rem = server,
     w_dir = \<lparr> cd_files = [(''fenced'', [1])], cd_kv = [((''monitors'', [], ''old''), [7])], cd_left = 100 \<rparr>, w_events = [] \<rparr>"

lemma example_words_parse:
  "parse_mnemonic (\<lambda>s. if s = example_words then Some s else None) ''a  b c d e f g h i j k l'' = Inr example_words"
  by (simp add: parse_mnemonic_def normalized_def split_whitespace_def ws_len_ascii byte_def example_words_def)

lemmas example_restore_simps =
  run_restore_def restore_prepare_def restore_download_def example_restore_env_def example_world_def example_words_parse
  on_dir_def on_rem_def progress_def mock_list_key_versions_def mock_new_def Let_def remote_env_of_def crash_fs_def tick_def

theorem aborted_restore_touches_nothing_witness:
  "fst (run_restore example_restore_env ''a  b c d e f g h i j k l'' None (example_world mock_new)) = Inl NoBackupFound
   \<and> map_of (cd_kv (w_dir (snd (run_restore example_restore_env ''a  b c d e f g h i j k l'' None (example_world mock_new)))))
       = [(''monitors'', [], ''old'') \<mapsto> [7]]"
proof -
  let ?r = "run_restore example_restore_env ''a  b c d e f g h i j k l'' None (example_world mock_new)"
  have "fst ?r = Inl NoBackupFound" by (simp add: example_restore_simps)
  then have r: "?r = (Inl NoBackupFound, snd ?r)" by (metis prod.collapse)
  have d: "data_dir (rs_fs example_restore_env) (\<lambda>s. map_of (cd_files s)) (\<lambda>s. map_of (cd_kv s))"
    using crash.data_dir_axioms by (simp add: example_restore_env_def)
  from aborted_restore_touches_nothing[OF d r] \<open>fst ?r = _\<close> show ?thesis by (simp add: example_world_def)
qed


end
