(* ===== verification/Startup.thy ===== *)
theory Startup
  imports Restore
begin

text \<open>
  The startup phases of \<open>src/rust/src/vss/startup.rs\<close> and the part of \<open>Node::start\<close> and
  \<open>builder::build\<close> that leads to them: the fence check, the resumption of an interrupted restore, the
  mnemonic, and the branch between a fresh wallet, silent recovery, migration and version seeding.
  LDK's \<open>read_channel_monitors\<close> is the parameter \<open>rm\<close> (the local name and funding outpoint of every
  monitor in the store, or nothing when one does not read); the chain backend, the on-chain wallet and
  the clock, set up between the mnemonic and the branch, are one answer \<open>bo_components\<close>;
  what they write is outside the keys of the channel state.
\<close>

section \<open>The branch\<close>

record 'r vss_startup_state =
  vs_remote :: "'r transport option"
  vs_versions :: "key \<rightharpoonup> version"
  vs_monitor_keys :: monitor_key_set
  vs_probe_empty :: bool
  vs_recovered :: bool

definition local_only :: "'r vss_startup_state" where
  "local_only = \<lparr> vs_remote = None, vs_versions = Map.empty, vs_monitor_keys = tracked_only [], vs_probe_empty = False,
     vs_recovered = False \<rparr>"

definition local_channel_manager :: "'f disk \<Rightarrow> 'f \<Rightarrow> build_error + bytes option" where
  "local_channel_manager d s =
     (case d_read d '''' '''' MANAGER_KEY s of
        Inr bs \<Rightarrow> Inr (Some bs)
      | Inl e \<Rightarrow> if e = ''NotFound'' then Inr None else Inl ReadFailed)"

fun remove_monitors :: "'f disk \<Rightarrow> string list \<Rightarrow> 'f \<Rightarrow> (build_error + unit) \<times> 'f" where
  "remove_monitors d [] s = (Inr (), s)"
| "remove_monitors d (k # ks) s =
     and_then (map_err (\<lambda>_. WriteFailed) (d_remove d MONITOR_NS '''' k False s)) (\<lambda>_. remove_monitors d ks)"

definition wipe_local_ldk_state :: "'f disk \<Rightarrow> 'f \<Rightarrow> (build_error + unit) \<times> 'f" where
  "wipe_local_ldk_state d s =
     (case d_list d MONITOR_NS '''' s of
        Inl _ \<Rightarrow> (Inl ReadFailed, s)
      | Inr ks \<Rightarrow>
          and_then (remove_monitors d ks s) (\<lambda>_ s1.
          map_err (\<lambda>_. WriteFailed) (d_remove d '''' '''' MANAGER_KEY False s1)))"

definition write_recovered_plan ::
  "'r remote_env \<Rightarrow> 'f disk \<Rightarrow> restore_plan \<Rightarrow> nat \<Rightarrow> ('r, 'f) world
     \<Rightarrow> (build_error + 'r vss_startup_state) \<times> ('r, 'f) world"
where
  \<comment> \<open>the second half of \<open>silent_recovery\<close>: write or roll back, then the courtesy backfill\<close>
  "write_recovered_plan re d plan adopted_count w1 =
     (case write_plan_local d (re_codec re) plan False ([], w_dir w1) of
        (Inl _, (log, dir)) \<Rightarrow> (Inl VssRecoveryFailed, w1\<lparr> w_dir := rollback_local_writes d log dir \<rparr>)
      | (Inr _, (log, dir)) \<Rightarrow>
          let w2 = w1\<lparr> w_dir := dir \<rparr>;
              w3 = (if adopted_count > 0
                    then w2\<lparr> w_rem := backfill_manifest re (publishable_monitor_keys plan)
                               (case rp_manifest_version plan of Some v \<Rightarrow> v | None \<Rightarrow> 0) (w_rem w2) \<rparr>
                    else w2)
          in (Inr \<lparr> vs_remote = Some (re_transport re), vs_versions = plan_versions plan,
                    vs_monitor_keys = from_parts (plan_monitor_keys plan) (set (publishable_monitor_keys plan)),
                    vs_probe_empty = False, vs_recovered = True \<rparr>, w3))"

definition silent_recovery ::
  "'r remote_env \<Rightarrow> 'f disk \<Rightarrow> (string \<times> version) list \<Rightarrow> ('r, 'f) world
     \<Rightarrow> (build_error + 'r vss_startup_state) \<times> ('r, 'f) world"
where
  "silent_recovery re d listing w0 =
     and_then (map_err (\<lambda>_. VssRecoveryFailed) (on_rem (\<lambda>x.
        and_then (fetch_manifest re x) (\<lambda>manifest. recover_plan re listing manifest)) w0)) (\<lambda>(plan, adopted_count).
     write_recovered_plan re d plan adopted_count)"

fun read_raw :: "'f disk \<Rightarrow> (string \<times> funding_outpoint) list \<Rightarrow> 'f \<Rightarrow> build_error + (key \<times> bytes) list" where
  "read_raw d [] s = Inr []"
| "read_raw d ((name, txo) # ms) s =
     (case d_read d MONITOR_NS '''' name s of
        Inl _ \<Rightarrow> Inl ReadFailed
      | Inr raw \<Rightarrow> (case read_raw d ms s of Inl e \<Rightarrow> Inl e | Inr es \<Rightarrow> Inr ((monitor_vss_key txo, raw) # es)))"

definition migration_items ::
  "json_codec \<Rightarrow> 'f disk \<Rightarrow> bytes option \<Rightarrow> (key \<times> bytes) list \<Rightarrow> 'f \<Rightarrow> (key \<times> bytes \<times> version) list"
where
  "migration_items c d cm entries s =
     (case cm of Some bs \<Rightarrow> [(CHANNEL_MANAGER_VSS_KEY, bs, 0)] | None \<Rightarrow> [])
     @ map (\<lambda>(k, raw). (k, raw, 0)) entries
     @ (if entries = [] then [] else [(MONITOR_MANIFEST_KEY, manifest_payload c (bset (map fst entries)), 0)])
     @ (let peers = read_local_known_peers c d s
        in if peers = [] then [] else [(KNOWN_PEERS_VSS_KEY, serialize_known_peers c peers, 0)])"

definition migrate ::
  "'r remote_env \<Rightarrow> 'f disk \<Rightarrow> bytes option \<Rightarrow> (key \<times> bytes) list \<Rightarrow> ('r, 'f) world
     \<Rightarrow> (build_error + 'r vss_startup_state) \<times> ('r, 'f) world"
where
  "migrate re d cm entries w =
     (let items = migration_items (re_codec re) d cm entries (w_dir w);
          mkeys = bset (map fst entries)
      in case on_rem (t_put_many (re_transport re) items) w of
        (Inr _, w1) \<Rightarrow>
          (Inr \<lparr> vs_remote = Some (re_transport re), vs_versions = map_of (map (\<lambda>(k, _, _). (k, 1)) items),
                 vs_monitor_keys = all_publishable mkeys, vs_probe_empty = True, vs_recovered = False \<rparr>, w1)
      | (Inl e, w1) \<Rightarrow>
          (Inr \<lparr> vs_remote = None, vs_versions = Map.empty, vs_monitor_keys = tracked_only mkeys, vs_probe_empty = True,
                 vs_recovered = False \<rparr>, w1\<lparr> w_events := w_events w1 @ [EmitDegraded e] \<rparr>))"

definition seed_versions :: "'r transport \<Rightarrow> (string \<times> version) list \<Rightarrow> key list \<Rightarrow> key \<rightharpoonup> version" where
  "seed_versions t listing mkeys =
     fold (\<lambda>k vs. case map_of (rev listing) (t_obfuscate t k) of Some v \<Rightarrow> vs(k \<mapsto> v) | None \<Rightarrow> vs)
       (FIXED_REMOTE_KEYS @ mkeys) Map.empty"

definition seed ::
  "'r remote_env \<Rightarrow> (string \<times> version) list \<Rightarrow> (key \<times> bytes) list \<Rightarrow> 'r vss_startup_state"
where
  "seed re listing entries =
     (let mkeys = bset (map fst entries);
          vs = seed_versions (re_transport re) listing mkeys
      in \<lparr> vs_remote = Some (re_transport re), vs_versions = vs,
           vs_monitor_keys = from_parts mkeys (set (filter (\<lambda>k. vs k \<noteq> None) mkeys)),
           vs_probe_empty = False, vs_recovered = False \<rparr>)"

definition remove_marker_quietly :: "'f fs \<Rightarrow> ('r, 'f) world \<Rightarrow> ('r, 'f) world" where
  "remove_marker_quietly F w = w\<lparr> w_dir := snd (fs_remove F RESTORE_IN_PROGRESS_FILE_NAME (w_dir w)) \<rparr>"

definition recover_void ::
  "'r remote_env \<Rightarrow> 'f fs \<Rightarrow> bool \<Rightarrow> (string \<times> version) list \<Rightarrow> ('r, 'f) world
     \<Rightarrow> (build_error + 'r vss_startup_state) \<times> ('r, 'f) world"
where
  \<comment> \<open>local LDK state is empty or void\<close>
  "recover_void re F marker listing w0 =
     and_then (if marker then on_dir (wipe_local_ldk_state (fs_kv F)) w0 else (Inr (), w0)) (\<lambda>_ w1.
     if listing = [] then
       (Inr \<lparr> vs_remote = Some (re_transport re), vs_versions = Map.empty, vs_monitor_keys = tracked_only [],
              vs_probe_empty = True, vs_recovered = False \<rparr>,
        if marker then remove_marker_quietly F w1 else w1)
     else and_then (silent_recovery re (fs_kv F) listing w1) (\<lambda>st w2.
       (Inr st, if marker then remove_marker_quietly F w2 else w2)))"

definition establish_vss_state ::
  "'r remote_env \<Rightarrow> 'f fs \<Rightarrow> ('f \<Rightarrow> (string \<times> funding_outpoint) list option) \<Rightarrow> ('r, 'f) world
     \<Rightarrow> (build_error + 'r vss_startup_state) \<times> ('r, 'f) world"
where
  "establish_vss_state re F rm w0 =
     (let d = fs_kv F; marker = fs_exists F RESTORE_IN_PROGRESS_FILE_NAME (w_dir w0) in
      case local_channel_manager d (w_dir w0) of
        Inl e \<Rightarrow> (Inl e, w0)
      | Inr cm \<Rightarrow>
        (case d_list d MONITOR_NS '''' (w_dir w0) of
           Inl _ \<Rightarrow> (Inl ReadFailed, w0)
         | Inr local_keys \<Rightarrow>
           let void = (marker \<or> (cm = None \<and> local_keys = [])) in
           and_then (map_err (\<lambda>_. if void then VssRecoveryFailed else VssVersionSeedFailed)
                       (on_rem (t_list (re_transport re)) w0)) (\<lambda>listing w1.
           if void then recover_void re F marker listing w1
           else case rm (w_dir w1) of
             None \<Rightarrow> (Inl InvalidMonitorData, w1)
           | Some monitors \<Rightarrow>
             (case read_raw d monitors (w_dir w1) of
                Inl e \<Rightarrow> (Inl e, w1)
              | Inr entries \<Rightarrow>
                  if listing = [] then migrate re d cm entries w1
                  else (Inr (seed re listing entries), w1)))))"

section \<open>The start of the node\<close>

record ('r, 'f) boot_env =
  bo_restore :: "('r, 'f) restore_env"
  bo_fresh :: mnemonic
  bo_components :: "mnemonic \<Rightarrow> build_error option"
  bo_read_monitors :: "mnemonic \<Rightarrow> 'f \<Rightarrow> (string \<times> funding_outpoint) list option"

definition vss_transport :: "('r, 'f) boot_env \<Rightarrow> mnemonic \<Rightarrow> ('r, 'f) world \<Rightarrow> build_error + 'r transport option" where
  "vss_transport b m w =
     (case rs_make_transport (bo_restore b) m of
        Inl _ \<Rightarrow> Inl VssSetupFailed
      | Inr None \<Rightarrow>
          if fs_exists (rs_fs (bo_restore b)) RESTORE_IN_PROGRESS_FILE_NAME (w_dir w) then Inl RestoreInProgress else Inr None
      | Inr (Some t) \<Rightarrow> Inr (Some t))"

definition build_vss_phase ::
  "('r, 'f) boot_env \<Rightarrow> mnemonic \<Rightarrow> 'r transport option \<Rightarrow> ('r, 'f) world \<Rightarrow> (build_error + 'r vss_startup_state) \<times> ('r, 'f) world"
where
  "build_vss_phase b m tr w =
     (case tr of
        Some t \<Rightarrow> establish_vss_state (remote_env_of (bo_restore b) m t) (rs_fs (bo_restore b)) (bo_read_monitors b m) w
      | None \<Rightarrow> (Inr local_only, w))"

definition build_vss ::
  "('r, 'f) boot_env \<Rightarrow> ('r, 'f) world \<Rightarrow> (build_error + mnemonic \<times> 'r vss_startup_state) \<times> ('r, 'f) world"
where
  \<comment> \<open>\<open>builder::build\<close> up to and including the VSS phase\<close>
  "build_vss b w0 =
     (let e = bo_restore b; F = rs_fs e in
      and_then (map_err (\<lambda>_. WriteFailed) (on_dir (fs_create_dir F) w0)) (\<lambda>_ w1.
      and_then (on_dir (prepare_marker_resume F (rs_codec e) (rs_bip39 e)) w1) (\<lambda>_ w2.
      if fs_exists F FENCED_FLAG_FILE_NAME (w_dir w2) then (Inl WalletFenced, w2)
      else and_then (map_err build_error_of_keys (on_dir (read_or_generate_mnemonic F (rs_bip39 e) (bo_fresh b)) w2)) (\<lambda>m w3.
      case vss_transport b m w3 of
        Inl err \<Rightarrow> (Inl err, w3)
      | Inr tr \<Rightarrow>
        (case bo_components b m of
           Some err \<Rightarrow> (Inl err, w3)
         | None \<Rightarrow> and_then (build_vss_phase b m tr w3) (\<lambda>st w4. (Inr (m, st), w4)))))))"

definition node_start ::
  "('r, 'f) boot_env \<Rightarrow> ('r, 'f) world \<Rightarrow> (build_error + mnemonic \<times> 'r vss_startup_state) \<times> ('r, 'f) world"
where
  \<comment> \<open>\<open>Node::start\<close> of a stopped node, up to the VSS phase of its build\<close>
  "node_start b w0 =
     (let e = bo_restore b; F = rs_fs e in
      if fs_exists F FENCED_FLAG_FILE_NAME (w_dir w0) then (Inl WalletFenced, w0)
      else and_then (map_err (\<lambda>_. WriteFailed) (on_dir (fs_create_dir F) w0)) (\<lambda>_ w1.
      case rs_lock e (w_dir w1) of
        Some err \<Rightarrow> (Inl err, w1)
      | None \<Rightarrow> if rs_setup e \<noteq> None then (Inl RuntimeSetupFailed, w1) else build_vss b w1))"

section \<open>The channel state on disk\<close>

definition ldk_keys :: "(string \<times> string \<times> string) set" where
  "ldk_keys = insert ('''', '''', MANAGER_KEY) ({MONITOR_NS} \<times> {''''} \<times> UNIV)"

abbreviation ldk_part :: "kv_content \<Rightarrow> kv_content" where
  "ldk_part k \<equiv> k |` ldk_keys"

lemma ldk_part_insert: "x \<in> ldk_keys \<Longrightarrow> ldk_part (k(x \<mapsto> b)) = (ldk_part k)(x \<mapsto> b)"
  by (auto simp: restrict_map_def fun_eq_iff)

lemma ldk_key_simps [simp]: "('''', '''', MANAGER_KEY) \<in> ldk_keys" "(MONITOR_NS, '''', n) \<in> ldk_keys"
  "(KNOWN_PEERS_NS, q, n) \<notin> ldk_keys"
  by (auto simp: ldk_keys_def)

lemma ldk_part_monitors_kv: "ldk_part (monitors_kv ms k) = monitors_kv ms (ldk_part k)"
  unfolding monitors_kv_def by (induction ms arbitrary: k) (auto simp: ldk_part_insert)

lemma ldk_part_plan_kv: "ldk_part (plan_kv c plan k) = ldk_part (plan_kv c plan (ldk_part k))"
  by (auto simp: plan_kv_def Let_def ldk_part_monitors_kv ldk_part_insert restrict_map_insert split: option.splits)

context data_dir
begin

lemma remove_monitors_effect:
  assumes "remove_monitors (fs_kv F) ks s = (r, s')"
  shows "files s' = files s \<and> kv s' \<subseteq>\<^sub>m kv s
    \<and> (\<forall>u. r = Inr u \<longrightarrow> kv s' = (\<lambda>x. if x \<in> {MONITOR_NS} \<times> {''''} \<times> set ks then None else kv s x))"
  using assms
proof (induction ks arbitrary: s)
  case (Cons k ks)
  obtain r1 s1 where d: "d_remove (fs_kv F) MONITOR_NS '''' k False s = (r1, s1)" by fastforce
  note D = kv_remove[OF d]
  show ?case
  proof (cases r1)
    case (Inl err)
    with Cons.prems d D show ?thesis by auto
  next
    case (Inr u)
    with Cons.prems d have "remove_monitors (fs_kv F) ks s1 = (r, s')" by simp
    from Cons.IH[OF this] D Inr show ?thesis
      by (auto simp: fun_eq_iff map_le_def split: if_splits)
  qed
qed simp

lemma wipe_effect:
  assumes "wipe_local_ldk_state (fs_kv F) s = (r, s')"
  shows "files s' = files s \<and> kv s' \<subseteq>\<^sub>m kv s \<and> (\<forall>u. r = Inr u \<longrightarrow> ldk_part (kv s') = Map.empty)"
proof (cases "d_list (fs_kv F) MONITOR_NS '''' s")
  case (Inl err)
  with assms show ?thesis by (auto simp: wipe_local_ldk_state_def)
next
  case (Inr ks)
  obtain r1 s1 where m: "remove_monitors (fs_kv F) ks s = (r1, s1)" by fastforce
  note M = remove_monitors_effect[OF m]
  show ?thesis
  proof (cases r1)
    case (Inl err)
    with assms Inr m M show ?thesis by (auto simp: wipe_local_ldk_state_def)
  next
    case r1: (Inr u)
    obtain r2 where d: "d_remove (fs_kv F) '''' '''' MANAGER_KEY False s1 = (r2, s')" and r: "\<And>u. r = Inr u \<Longrightarrow> r2 = Inr ()"
      using assms Inr m r1 by (auto simp: wipe_local_ldk_state_def map_err_def split: prod.splits sum.splits)
    note D = kv_remove[OF d]
    have le: "kv s' \<subseteq>\<^sub>m kv s1" using D by (auto simp: map_le_def split: sum.splits)
    have "kv s' (MONITOR_NS, '''', n) = None" for n
    proof -
      have "kv s1 (MONITOR_NS, '''', n) = None"
        using M r1 kv_list[OF Inr, of n] by auto
      with le show ?thesis by (auto simp: map_le_def) (metis domI option.exhaust_sel option.simps(3))
    qed
    then have "ldk_part (kv s') = Map.empty" if "r = Inr u" for u
      using D r[OF that] by (auto simp: ldk_keys_def restrict_map_def fun_eq_iff)
    with D M le map_le_trans show ?thesis by auto
  qed
qed

end

lemma restrict_map_le_mono: "a \<subseteq>\<^sub>m b \<Longrightarrow> a |` S \<subseteq>\<^sub>m b |` S"
  unfolding map_le_def by (metis domIff restrict_in restrict_out)

fun log_key :: "local_write \<Rightarrow> string \<times> string \<times> string" where
  "log_key ManagerWrite = ('''', '''', MANAGER_KEY)"
| "log_key (MonitorWrite k) = (MONITOR_NS, '''', k)"
| "log_key PeersWrite = (KNOWN_PEERS_NS, '''', KNOWN_PEERS_LOCAL_KEY)"

definition removals_ok :: "'f fs \<Rightarrow> bool" where
  "removals_ok F \<longleftrightarrow> (\<forall>p q k s. fst (d_remove (fs_kv F) p q k False s) = Inr ())"

context data_dir
begin

lemma logged_extends:
  assumes "logged lw (d_write (fs_kv F) p q k b) s = (r, s')" and "log_key lw = (p, q, k)"
  shows "\<exists>added. fst s' = fst s @ added \<and> set added \<subseteq> {lw} \<and> (\<forall>x. x \<notin> log_key ` set added \<longrightarrow> kv (snd s') x = kv (snd s) x)
    \<and> (isl r \<longrightarrow> added = [])"
  using logged_cases[OF assms(1)] assms(2) by (cases r) (auto intro: exI[of _ "[lw]"])

lemma write_monitors_log:
  assumes "write_monitors (fs_kv F) ms s = (r, s')"
  shows "\<exists>added. fst s' = fst s @ added \<and> PeersWrite \<notin> set added
    \<and> (\<forall>x. x \<notin> log_key ` set added \<longrightarrow> kv (snd s') x = kv (snd s) x)"
  using assms
proof (induction ms arbitrary: s)
  case (Cons m ms)
  obtain r1 s1 where l: "logged (MonitorWrite (vm_local_key m)) (d_write (fs_kv F) MONITOR_NS '''' (vm_local_key m) (vm_bytes m)) s = (r1, s1)"
    by (meson surj_pair)
  from logged_extends[OF l] obtain a1 where a1: "fst s1 = fst s @ a1" "set a1 \<subseteq> {MonitorWrite (vm_local_key m)}"
    "\<forall>x. x \<notin> log_key ` set a1 \<longrightarrow> kv (snd s1) x = kv (snd s) x" by auto
  show ?case
  proof (cases r1)
    case (Inl err)
    with Cons.prems l a1 show ?thesis by (intro exI[of _ a1]) auto
  next
    case (Inr u)
    with Cons.prems l have "write_monitors (fs_kv F) ms s1 = (r, s')" by simp
    from Cons.IH[OF this] obtain a2 where "fst s' = fst s1 @ a2" "PeersWrite \<notin> set a2"
      "\<forall>x. x \<notin> log_key ` set a2 \<longrightarrow> kv (snd s') x = kv (snd s1) x" by blast
    with a1 show ?thesis by (intro exI[of _ "a1 @ a2"]) (auto simp: image_Un)
  qed
qed simp

lemma write_plan_log:
  assumes "write_plan_local (fs_kv F) c plan False ([], d) = (Inl err, (log, d'))"
  shows "PeersWrite \<notin> set log \<and> (\<forall>x. x \<notin> log_key ` set log \<longrightarrow> kv d' x = kv d x)"
proof -
  obtain r1 s1 where cm: "(case rp_cm plan of Some (bs, _) \<Rightarrow> logged ManagerWrite (d_write (fs_kv F) '''' '''' MANAGER_KEY bs) ([], d)
      | None \<Rightarrow> (Inr (), ([], d))) = (r1, s1)" by (meson surj_pair)
  have 1: "set (fst s1) \<subseteq> {ManagerWrite} \<and> (\<forall>x. x \<notin> log_key ` set (fst s1) \<longrightarrow> kv (snd s1) x = kv d x)"
    using cm by (auto split: option.splits dest!: logged_extends)
  show ?thesis
  proof (cases r1)
    case (Inl e)
    with assms cm 1 show ?thesis by (auto simp: write_plan_local_def)
  next
    case (Inr u)
    obtain r2 s2 where ms: "write_monitors (fs_kv F) (rp_monitors plan) s1 = (r2, s2)" by (meson surj_pair)
    from write_monitors_log[OF ms] obtain a where a: "fst s2 = fst s1 @ a" "PeersWrite \<notin> set a"
      "\<forall>x. x \<notin> log_key ` set a \<longrightarrow> kv (snd s2) x = kv (snd s1) x" by blast
    have s2: "PeersWrite \<notin> set (fst s2) \<and> (\<forall>x. x \<notin> log_key ` set (fst s2) \<longrightarrow> kv (snd s2) x = kv d x)"
      using 1 a by (auto simp: image_Un)
    show ?thesis
    proof (cases r2)
      case (Inl e)
      with assms cm ms Inr s2 show ?thesis by (auto simp: write_plan_local_def)
    next
      case r2: (Inr u')
      with assms cm ms Inr have "(case rp_peers plan of Some (peers, _) \<Rightarrow> logged PeersWrite (write_local_known_peers c (fs_kv F) peers) s2
          | None \<Rightarrow> (Inr (), s2)) = (Inl err, (log, d'))" by (simp add: write_plan_local_def)
      with s2 show ?thesis by (auto simp: write_peers_eq split: option.splits dest: logged_cases)
    qed
  qed
qed

lemma rollback_effect:
  assumes "removals_ok F"
  shows "files (rollback_local_writes (fs_kv F) log s) = files s
    \<and> kv (rollback_local_writes (fs_kv F) log s) = (\<lambda>x. if x \<in> log_key ` set log then None else kv s x)"
proof (induction log arbitrary: s)
  case (Cons lw log)
  have "files (rollback_one (fs_kv F) lw s) = files s \<and> kv (rollback_one (fs_kv F) lw s) = (kv s)(log_key lw := None)"
  proof -
    obtain p q k where pqk: "log_key lw = (p, q, k)" by (cases "log_key lw")
    obtain r s1 where d: "d_remove (fs_kv F) p q k False s = (r, s1)" by fastforce
    have "r = Inr ()" using assms d unfolding removals_ok_def by (metis fst_conv)
    with kv_remove[OF d] pqk d show ?thesis by (cases lw) auto
  qed
  with Cons.IH[of "rollback_one (fs_kv F) lw s"] show ?case
    unfolding rollback_local_writes_def by (intro conjI ext) simp_all
qed (simp add: rollback_local_writes_def)

text \<open>Silent recovery writes exactly a validated plan, or leaves nothing of it behind.\<close>

lemma write_recovered_ok:
  assumes "write_recovered_plan re (fs_kv F) plan n w = (Inr st, w')"
  shows "vs_recovered st \<and> \<not> vs_probe_empty st \<and> files (w_dir w') = files (w_dir w)
    \<and> kv (w_dir w') = plan_kv (re_codec re) plan (kv (w_dir w))"
proof -
  obtain r log dir where wp: "write_plan_local (fs_kv F) (re_codec re) plan False ([], w_dir w) = (r, (log, dir))"
    by (metis surj_pair)
  with assms obtain u where "r = Inr u" "w_dir w' = dir" "vs_recovered st" "\<not> vs_probe_empty st"
    by (cases r) (auto simp: write_recovered_plan_def Let_def split: if_splits)
  with write_plan_effect[OF wp] show ?thesis by simp
qed

lemma write_recovered_fail:
  assumes "write_recovered_plan re (fs_kv F) plan n w = (Inl err, w')" and "removals_ok F" and "ldk_part (kv (w_dir w)) = Map.empty"
  shows "err = VssRecoveryFailed \<and> ldk_part (kv (w_dir w')) = Map.empty \<and> files (w_dir w') = files (w_dir w)"
proof -
  obtain r log dir where wp: "write_plan_local (fs_kv F) (re_codec re) plan False ([], w_dir w) = (r, (log, dir))"
    by (metis surj_pair)
  with assms obtain e where r: "r = Inl e" and w': "w_dir w' = rollback_local_writes (fs_kv F) log dir" "err = VssRecoveryFailed"
    by (cases r) (auto simp: write_recovered_plan_def Let_def split: if_splits)
  note L = write_plan_log[OF wp[unfolded r]] and R = rollback_effect[OF assms(2), of log dir]
  have "ldk_part (kv (w_dir w')) x = None" for x
  proof (cases "x \<in> log_key ` set log \<or> x \<notin> ldk_keys")
    case True
    with R w'(1) show ?thesis by (elim disjE) (simp_all add: restrict_map_def)
  next
    case False
    with L have "kv dir x = kv (w_dir w) x" by blast
    with False fun_cong[OF assms(3), of x] R w'(1) show ?thesis by (simp add: restrict_map_def)
  qed
  with R write_plan_stop_files[OF wp] w' show ?thesis by auto
qed

lemma silent_recovery_ok:
  assumes "silent_recovery re (fs_kv F) listing w = (Inr st, w')"
  shows "vs_recovered st \<and> \<not> vs_probe_empty st \<and> files (w_dir w') = files (w_dir w)
    \<and> (\<exists>manifest plan n x x'. recover_plan re listing manifest x = (Inr (plan, n), x')
         \<and> kv (w_dir w') = plan_kv (re_codec re) plan (kv (w_dir w)))"
proof -
  from assms obtain plan n w1 where
    p: "on_rem (\<lambda>x. and_then (fetch_manifest re x) (\<lambda>manifest. recover_plan re listing manifest)) w = (Inr (plan, n), w1)"
    and wr: "write_recovered_plan re (fs_kv F) plan n w1 = (Inr st, w')"
    unfolding silent_recovery_def and_then_Inr map_err_Inr by auto
  from on_remD[OF p] obtain manifest x where r: "recover_plan re listing manifest x = (Inr (plan, n), w_rem w1)" and w1: "w_dir w1 = w_dir w"
    by (auto simp: step_iff)
  from write_recovered_ok[OF wr, unfolded w1] r show ?thesis by blast
qed

lemma silent_recovery_fail:
  assumes "silent_recovery re (fs_kv F) listing w = (Inl err, w')" and "removals_ok F" and "ldk_part (kv (w_dir w)) = Map.empty"
  shows "err = VssRecoveryFailed \<and> ldk_part (kv (w_dir w')) = Map.empty \<and> files (w_dir w') = files (w_dir w)"
proof -
  from assms(1) consider "err = VssRecoveryFailed" "w_dir w' = w_dir w"
    | plan n w1 where "w_dir w1 = w_dir w" "write_recovered_plan re (fs_kv F) plan n w1 = (Inl err, w')"
    unfolding silent_recovery_def and_then_Inl map_err_Inl map_err_Inr by (auto dest!: on_remD)
  then show ?thesis
  proof cases
    case 2
    from write_recovered_fail[OF 2(2) assms(2)] assms(3) 2(1) show ?thesis by simp
  qed (use assms(3) in simp)
qed

lemma remove_marker_quietly_frame:
  "kv (w_dir (remove_marker_quietly F w)) = kv (w_dir w)
   \<and> (\<forall>n. n \<noteq> RESTORE_IN_PROGRESS_FILE_NAME \<longrightarrow> files (w_dir (remove_marker_quietly F w)) n = files (w_dir w) n)"
proof -
  obtain r d where "fs_remove F RESTORE_IN_PROGRESS_FILE_NAME (w_dir w) = (r, d)" by fastforce
  with file_remove[OF this] show ?thesis by (cases r) (auto simp: remove_marker_quietly_def)
qed

lemma recover_void_ok:
  assumes "recover_void re F marker listing w = (Inr st, w')"
    and "marker \<or> ldk_part (kv (w_dir w)) = Map.empty"
  shows "(listing = [] \<and> vs_probe_empty st \<and> \<not> vs_recovered st \<and> ldk_part (kv (w_dir w')) = Map.empty
       \<or> listing \<noteq> [] \<and> \<not> vs_probe_empty st \<and> vs_recovered st
         \<and> (\<exists>manifest plan n x x'. recover_plan re listing manifest x = (Inr (plan, n), x')
              \<and> ldk_part (kv (w_dir w')) = ldk_part (plan_kv (re_codec re) plan Map.empty)))
    \<and> (\<forall>n. n \<noteq> RESTORE_IN_PROGRESS_FILE_NAME \<longrightarrow> files (w_dir w') n = files (w_dir w) n)"
proof -
  from assms obtain w1 where w1: "ldk_part (kv (w_dir w1)) = Map.empty" "files (w_dir w1) = files (w_dir w)"
    and rest: "(if listing = [] then
       (Inr \<lparr> vs_remote = Some (re_transport re), vs_versions = Map.empty, vs_monitor_keys = tracked_only [],
              vs_probe_empty = True, vs_recovered = False \<rparr>, if marker then remove_marker_quietly F w1 else w1)
     else and_then (silent_recovery re (fs_kv F) listing w1) (\<lambda>st w2.
       (Inr st, if marker then remove_marker_quietly F w2 else w2))) = (Inr st, w')"
    unfolding recover_void_def and_then_Inr[of "if marker then _ else _"]
    by (auto split: if_splits dest!: on_dirD dest: wipe_effect)
  show ?thesis
  proof (cases "listing = []")
    case True
    with rest w1 remove_marker_quietly_frame[of w1] show ?thesis by (auto split: if_splits)
  next
    case False
    with rest obtain w2 where sr: "silent_recovery re (fs_kv F) listing w1 = (Inr st, w2)"
      and w': "w' = (if marker then remove_marker_quietly F w2 else w2)" by (auto simp: step_iff)
    have same: "kv (w_dir w') = kv (w_dir w2)" "\<forall>n. n \<noteq> RESTORE_IN_PROGRESS_FILE_NAME \<longrightarrow> files (w_dir w') n = files (w_dir w2) n"
      using w' remove_marker_quietly_frame[of w2] by (auto split: if_splits)
    from silent_recovery_ok[OF sr] obtain manifest plan n x x' where
      p: "recover_plan re listing manifest x = (Inr (plan, n), x')" and k: "kv (w_dir w2) = plan_kv (re_codec re) plan (kv (w_dir w1))"
      and st: "vs_recovered st" "\<not> vs_probe_empty st" "files (w_dir w2) = files (w_dir w1)" by blast
    have "ldk_part (kv (w_dir w')) = ldk_part (plan_kv (re_codec re) plan Map.empty)"
      using same k w1 ldk_part_plan_kv[of "re_codec re" plan "kv (w_dir w1)"] by simp
    with p have "\<exists>manifest plan n x x'. recover_plan re listing manifest x = (Inr (plan, n), x')
        \<and> ldk_part (kv (w_dir w')) = ldk_part (plan_kv (re_codec re) plan Map.empty)" by blast
    with same w1 st False show ?thesis by simp
  qed
qed

lemma recover_void_fail:
  assumes "recover_void re F marker listing w = (Inl err, w')" and "removals_ok F"
    and "marker \<or> ldk_part (kv (w_dir w)) = Map.empty"
  shows "ldk_part (kv (w_dir w')) \<subseteq>\<^sub>m ldk_part (kv (w_dir w)) \<and> files (w_dir w') = files (w_dir w)"
proof -
  from assms(1) consider "marker" "wipe_local_ldk_state (fs_kv F) (w_dir w) = (Inl err, w_dir w')"
    | w1 where "silent_recovery re (fs_kv F) listing w1 = (Inl err, w')"
        "if marker then wipe_local_ldk_state (fs_kv F) (w_dir w) = (Inr (), w_dir w1) else w1 = w"
    unfolding recover_void_def and_then_Inl by (auto simp: step_iff split: if_splits dest!: on_dirD)
  then show ?thesis
  proof cases
    case 1
    from wipe_effect[OF 1(2)] show ?thesis by (simp add: restrict_map_le_mono)
  next
    case 2
    then have w1: "ldk_part (kv (w_dir w1)) = Map.empty" "files (w_dir w1) = files (w_dir w)"
      using assms(3) by (auto split: if_splits dest: wipe_effect)
    from silent_recovery_fail[OF 2(1) assms(2) w1(1)] w1(2) show ?thesis by simp
  qed
qed

text \<open>What the branch of a start finds in the local channel state.\<close>

lemma local_empty:
  assumes "local_channel_manager (fs_kv F) s = Inr None" and "d_list (fs_kv F) MONITOR_NS '''' s = Inr []"
  shows "ldk_part (kv s) = Map.empty"
proof -
  have "kv s ('''', '''', MANAGER_KEY) = None" "\<And>n. kv s (MONITOR_NS, '''', n) = None"
    using assms kv_read_absent[of "''''" "''''" MANAGER_KEY s] kv_list[OF assms(2)]
    by (auto simp: local_channel_manager_def split: sum.splits if_splits)
  then show ?thesis by (auto simp: ldk_keys_def restrict_map_def fun_eq_iff)
qed

end

context data_dir
begin

lemma migrate_frame: "migrate re d cm entries w = (r, w') \<Longrightarrow> w_dir w' = w_dir w \<and> (\<exists>st. r = Inr st \<and> vs_probe_empty st \<and> \<not> vs_recovered st)"
proof -
  assume m: "migrate re d cm entries w = (r, w')"
  obtain r1 w1 where p: "on_rem (t_put_many (re_transport re) (migration_items (re_codec re) d cm entries (w_dir w))) w = (r1, w1)"
    by fastforce
  have "w_dir w1 = w_dir w" using on_remD[OF p] by simp
  moreover have "(case r1 of
        Inr _ \<Rightarrow> r = Inr \<lparr> vs_remote = Some (re_transport re), vs_versions = map_of (map (\<lambda>(k, _, _). (k, 1))
            (migration_items (re_codec re) d cm entries (w_dir w))),
            vs_monitor_keys = all_publishable (bset (map fst entries)), vs_probe_empty = True, vs_recovered = False \<rparr> \<and> w' = w1
      | Inl e \<Rightarrow> r = Inr \<lparr> vs_remote = None, vs_versions = Map.empty, vs_monitor_keys = tracked_only (bset (map fst entries)),
            vs_probe_empty = True, vs_recovered = False \<rparr> \<and> w' = w1\<lparr> w_events := w_events w1 @ [EmitDegraded e] \<rparr>)"
    using m unfolding migrate_def Let_def p by (cases r1) simp_all
  ultimately show ?thesis by (cases r1) simp_all
qed

lemma establish_cases:
  assumes "establish_vss_state re F rm w = (r, w')"
  obtains (early) err where "r = Inl err" "w_dir w' = w_dir w"
  | (void) marker listing w1 where "t_list (re_transport re) (w_rem w) = (Inr listing, w_rem w1)" "w_dir w1 = w_dir w"
      "marker \<longleftrightarrow> files (w_dir w) RESTORE_IN_PROGRESS_FILE_NAME \<noteq> None" "marker \<or> ldk_part (kv (w_dir w)) = Map.empty"
      "recover_void re F marker listing w1 = (r, w')"
  | (present) listing x st where "t_list (re_transport re) (w_rem w) = (Inr listing, x)" "w_dir w' = w_dir w"
      "r = Inr st" "vs_probe_empty st \<longleftrightarrow> listing = []" "\<not> vs_recovered st"
      "files (w_dir w) RESTORE_IN_PROGRESS_FILE_NAME = None" "ldk_part (kv (w_dir w)) \<noteq> Map.empty"
proof -
  define marker where "marker \<longleftrightarrow> fs_exists F RESTORE_IN_PROGRESS_FILE_NAME (w_dir w)"
  have mk: "marker \<longleftrightarrow> files (w_dir w) RESTORE_IN_PROGRESS_FILE_NAME \<noteq> None" by (simp add: marker_def file_exists)
  show thesis
  proof (cases "local_channel_manager (fs_kv F) (w_dir w)")
    case (Inl err)
    with assms have "r = Inl err" "w' = w" by (simp_all add: establish_vss_state_def)
    with early show thesis by simp
  next
    case cm: (Inr cm)
    show thesis
    proof (cases "d_list (fs_kv F) MONITOR_NS '''' (w_dir w)")
      case (Inl err)
      with assms cm have "r = Inl ReadFailed" "w' = w" by (simp_all add: establish_vss_state_def)
      with early show thesis by simp
    next
      case ks: (Inr ks)
      obtain lr w1 where l: "on_rem (t_list (re_transport re)) w = (lr, w1)" by fastforce
      note L = on_remD[OF l]
      show thesis
      proof (cases lr)
        case (Inl e)
        with assms cm ks l L early show thesis by (auto simp: establish_vss_state_def Let_def)
      next
        case (Inr listing)
        show thesis
        proof (cases "marker \<or> (cm = None \<and> ks = [])")
          case True
          then have "marker \<or> ldk_part (kv (w_dir w)) = Map.empty" using local_empty[of "w_dir w"] cm ks by auto
          moreover have "recover_void re F marker listing w1 = (r, w')"
            using assms cm ks l Inr True by (auto simp: establish_vss_state_def Let_def marker_def)
          ultimately show thesis using void L Inr mk by simp
        next
          case False
          have ne: "ldk_part (kv (w_dir w)) \<noteq> Map.empty"
          proof
            assume "ldk_part (kv (w_dir w)) = Map.empty"
            then have none: "kv (w_dir w) x = None" if "x \<in> ldk_keys" for x using that by (metis restrict_in)
            have "ks = []" using kv_list[OF ks] none[of "(MONITOR_NS, '''', _)"] by (cases ks) auto
            moreover have "cm = None"
              using cm none[of "('''', '''', MANAGER_KEY)"] kv_read[of "''''" "''''" MANAGER_KEY "w_dir w"]
              by (auto simp: local_channel_manager_def split: sum.splits if_splits)
            ultimately show False using False by simp
          qed
          have rest: "(case rm (w_dir w1) of None \<Rightarrow> (Inl InvalidMonitorData, w1)
             | Some monitors \<Rightarrow> (case read_raw (fs_kv F) monitors (w_dir w1) of
                Inl e \<Rightarrow> (Inl e, w1)
              | Inr entries \<Rightarrow> if listing = [] then migrate re (fs_kv F) cm entries w1 else (Inr (seed re listing entries), w1))) = (r, w')"
            using assms cm ks l Inr False by (auto simp: establish_vss_state_def Let_def marker_def)
          show thesis
          proof (cases r)
            case r: (Inl err)
            with rest migrate_frame[of re "fs_kv F" cm _ w1] L early show thesis
              by (fastforce split: option.splits sum.splits if_splits)
          next
            case r: (Inr st)
            with rest have "w_dir w' = w_dir w1" "vs_probe_empty st \<longleftrightarrow> listing = []" "\<not> vs_recovered st"
              using migrate_frame[of re "fs_kv F" cm _ w1]
              by (fastforce simp: seed_def Let_def split: option.splits sum.splits if_splits)+
            with present L Inr r False mk ne show thesis by simp
          qed
        qed
      qed
    qed
  qed
qed

lemma establish_void_ok:
  assumes "establish_vss_state re F rm w = (Inr st, w')"
    and "files (w_dir w) RESTORE_IN_PROGRESS_FILE_NAME \<noteq> None \<or> ldk_part (kv (w_dir w)) = Map.empty"
  shows "(\<exists>listing x1. t_list (re_transport re) (w_rem w) = (Inr listing, x1)
      \<and> (listing = [] \<and> vs_probe_empty st \<and> ldk_part (kv (w_dir w')) = Map.empty
         \<or> listing \<noteq> [] \<and> \<not> vs_probe_empty st \<and> vs_recovered st
           \<and> (\<exists>manifest plan n x x'. recover_plan re listing manifest x = (Inr (plan, n), x')
                \<and> ldk_part (kv (w_dir w')) = ldk_part (plan_kv (re_codec re) plan Map.empty))))
    \<and> (\<forall>n. n \<noteq> RESTORE_IN_PROGRESS_FILE_NAME \<longrightarrow> files (w_dir w') n = files (w_dir w) n)"
  using assms(1)
proof (cases rule: establish_cases[OF assms(1)])
  case (2 marker listing w1)
  from recover_void_ok[OF 2(5), unfolded 2(2), OF 2(4)] 2(1) show ?thesis by blast
next
  case (3 listing x st')
  with assms(2) show ?thesis by simp
qed simp

end



section \<open>Resuming an interrupted restore\<close>

definition reads_ok :: "'f fs \<Rightarrow> ('f \<Rightarrow> string \<rightharpoonup> bytes) \<Rightarrow> bool" where
  "reads_ok F files \<longleftrightarrow> (\<forall>n s bs. files s n = Some bs \<longrightarrow> fs_read F n s = Inr bs)"

lemma guard_ok:
  "(case x of Inl e \<Rightarrow> (Inl e, w) | Inr y \<Rightarrow> f y) = (Inr r, w') \<longleftrightarrow> (\<exists>y. x = Inr y \<and> f y = (Inr r, w'))"
  "(case z of Some e \<Rightarrow> (Inl e, w) | None \<Rightarrow> p) = (Inr r, w') \<longleftrightarrow> z = None \<and> p = (Inr r, w')"
  by (auto split: sum.splits option.splits)

lemma build_vss_okE:
  assumes "build_vss b w = (Inr (m, st), w')"
  obtains w1 w2 w3 tr where "on_dir (fs_create_dir (rs_fs (bo_restore b))) w = (Inr (), w1)"
    and "on_dir (prepare_marker_resume (rs_fs (bo_restore b)) (rs_codec (bo_restore b)) (rs_bip39 (bo_restore b))) w1 = (Inr (), w2)"
    and "on_dir (read_or_generate_mnemonic (rs_fs (bo_restore b)) (rs_bip39 (bo_restore b)) (bo_fresh b)) w2 = (Inr m, w3)"
    and "vss_transport b m w3 = Inr tr" and "build_vss_phase b m tr w3 = (Inr st, w')"
  using assms
  by (auto simp: build_vss_def Let_def step_iff guard_ok split: if_split_asm)

lemma on_dir_stage:
  \<comment> \<open>a stage of the commit: what its directory action keeps, the stage keeps if the rest does\<close>
  assumes "and_then (map_err g (on_dir act w1)) k = (Inl err, w')" and "\<And>r d. act (w_dir w1) = (r, d) \<Longrightarrow> Q d"
    and "\<And>u w2. Q (w_dir w2) \<Longrightarrow> k u w2 = (Inl err, w') \<Longrightarrow> Q (w_dir w')"
  shows "Q (w_dir w')"
  using assms(1) unfolding and_then_Inl map_err_Inl map_err_Inr
  by (blast dest: on_dirD intro: assms(2,3))

context data_dir
begin

lemma remove_marker_fail: "remove_marker F s = (Inl e, s') \<Longrightarrow> files s' = files s"
  using file_remove[of RESTORE_IN_PROGRESS_FILE_NAME s]
  by (auto simp: remove_marker_def split: prod.splits sum.splits if_splits)

lemma commit_keeps_marker:
  assumes "restore_commit e m plan crash w = (Inl err, w')" and "rs_fs e = F" and "err \<noteq> LocalWriteFailed MarkerStage"
  shows "files (w_dir w') RESTORE_IN_PROGRESS_FILE_NAME
    = Some (to_vec (rs_codec e) (marker_to_json \<lparr> rm_mnemonic = m, rm_started_at_ms = rs_now_ms e \<rparr>))" (is "?Q (w_dir w')")
proof -
  have plan: "files d' = files d" if "(case write_plan_local (fs_kv F) (rs_codec e) plan stop ([], d) of (r, log, d') \<Rightarrow> (r, d')) = (r, d')"
    for stop d r d'
  proof -
    from that obtain log where "write_plan_local (fs_kv F) (rs_codec e) plan stop ([], d) = (r, (log, d'))"
      by (auto split: prod.splits)
    from write_plan_stop_files[OF this] show ?thesis by simp
  qed
  have data: "?Q (w_dir w')" if "?Q (w_dir w3)" "restore_write_data e plan crash w3 = (Inl err, w')" for w3
    using that(2) unfolding restore_write_data_def assms(2)
    by (rule on_dir_stage)
      (use that(1) plan in \<open>force simp: step_iff split: if_splits dest!: on_dirD remove_marker_fail\<close>)+
  have words: "?Q (w_dir w')" if "?Q (w_dir w2)" "restore_write_words e m plan crash w2 = (Inl err, w')" for w2
    using that(2) unfolding restore_write_words_def assms(2)
    by (rule on_dir_stage) (use that(1) data in \<open>auto split: if_splits dest!: write_mnemonic_frame\<close>)
  have clear: "?Q (w_dir w')" if "?Q (w_dir w1)" "restore_clear e m plan crash w1 = (Inl err, w')" for w1
    using that(2) unfolding restore_clear_def assms(2)
    by (rule on_dir_stage) (use that(1) words in \<open>auto split: if_splits dest!: clear_frame\<close>)
  from assms(1,3) show ?thesis
    unfolding restore_commit_def assms(2) and_then_Inl map_err_Inl map_err_Inr
    by (auto split: if_splits dest!: on_dirD write_marker_ok dest: clear[rotated])
qed

text \<open>With a marker in place, a successful start runs under the marker's words and recovers.\<close>

lemma resume_read:
  assumes "prepare_marker_resume F c bip39 s = (Inr u, s1)" and "reads_ok F files" and "bip39_ok bip39" and "codec_ok c"
    and "files s RESTORE_IN_PROGRESS_FILE_NAME = Some (to_vec c (marker_to_json \<lparr> rm_mnemonic = m, rm_started_at_ms = ts \<rparr>))"
    and "parse_mnemonic bip39 raw = Inr m" and "read_or_generate_mnemonic F bip39 fresh s1 = (Inr m', s2)"
  shows "m' = m \<and> files s2 RESTORE_IN_PROGRESS_FILE_NAME \<noteq> None"
proof -
  have rd: "read_marker F c s = Some \<lparr> rm_mnemonic = m, rm_started_at_ms = ts \<rparr>"
    using assms(2,4,5) unfolding reads_ok_def by (simp add: read_marker_def)
  note idem = parse_mnemonic_idem[OF assms(3,6)]
  from resume_adopts_target[OF assms(1) rd] idem
  have s1: "files s1 RESTORE_IN_PROGRESS_FILE_NAME = files s RESTORE_IN_PROGRESS_FILE_NAME"
    and cases: "s1 = s \<and> mnemonic_on_disk F bip39 s = Some m \<or> files s1 MNEMONIC_FILE_NAME = Some (as_bytes m)" by auto
  have "mnemonic_on_disk F bip39 s1 = Some m"
    using cases assms(2) idem unfolding reads_ok_def by (auto simp: mnemonic_on_disk_def)
  then obtain bs where bs: "fs_read F MNEMONIC_FILE_NAME s1 = Inr bs"
    and "Option.bind (from_utf8 bs) (\<lambda>raw. case parse_mnemonic bip39 raw of Inl e \<Rightarrow> None | Inr m \<Rightarrow> Some m) = Some m"
    by (cases "fs_read F MNEMONIC_FILE_NAME s1") (simp_all add: mnemonic_on_disk_def)
  then obtain raw2 where "from_utf8 bs = Some raw2" "(case parse_mnemonic bip39 raw2 of Inl e \<Rightarrow> None | Inr m \<Rightarrow> Some m) = Some m"
    unfolding bind_eq_Some_conv by blast
  then have "from_utf8 bs = Some raw2" "parse_mnemonic bip39 raw2 = Inr m" by (auto split: sum.split_asm)
  with bs file_read[OF bs] assms(7) s1 assms(5) show ?thesis
    by (auto simp: read_or_generate_mnemonic_def file_exists)
qed

lemma build_with_marker:
  assumes "build_vss b w = (Inr (m', st), w')" and "rs_fs (bo_restore b) = F" and "reads_ok F files"
    and "bip39_ok (rs_bip39 (bo_restore b))" and "codec_ok (rs_codec (bo_restore b))"
    and "files (w_dir w) RESTORE_IN_PROGRESS_FILE_NAME
      = Some (to_vec (rs_codec (bo_restore b)) (marker_to_json \<lparr> rm_mnemonic = m, rm_started_at_ms = ts \<rparr>))"
    and "parse_mnemonic (rs_bip39 (bo_restore b)) raw = Inr m"
  shows "m' = m \<and> (\<exists>t w3. rs_make_transport (bo_restore b) m = Inr (Some t)
    \<and> files (w_dir w3) RESTORE_IN_PROGRESS_FILE_NAME \<noteq> None
    \<and> establish_vss_state (remote_env_of (bo_restore b) m t) F (bo_read_monitors b m) w3 = (Inr st, w'))"
proof -
  let ?e = "bo_restore b"
  from build_vss_okE[OF assms(1), unfolded assms(2)] obtain w1 w2 w3 tr where
    o1: "on_dir (fs_create_dir F) w = (Inr (), w1)"
    and o2: "on_dir (prepare_marker_resume F (rs_codec ?e) (rs_bip39 ?e)) w1 = (Inr (), w2)"
    and o3: "on_dir (read_or_generate_mnemonic F (rs_bip39 ?e) (bo_fresh b)) w2 = (Inr m', w3)"
    and rest: "vss_transport b m' w3 = Inr tr" "build_vss_phase b m' tr w3 = (Inr st, w')" by metis
  note w1 = conjunct1[OF on_dirD[OF o1]] and w2 = conjunct1[OF on_dirD[OF o2]]
  note w3 = conjunct1[OF on_dirD[OF o3]]
  have mk: "files (w_dir w1) RESTORE_IN_PROGRESS_FILE_NAME = files (w_dir w) RESTORE_IN_PROGRESS_FILE_NAME"
    using create_dir[OF w1] by simp
  from resume_read[OF w2 assms(3,4,5) mk[unfolded assms(6)] assms(7) w3]
  have "m' = m" "files (w_dir w3) RESTORE_IN_PROGRESS_FILE_NAME \<noteq> None" by auto
  with rest assms(2) show ?thesis by (auto simp: vss_transport_def build_vss_phase_def file_exists split: sum.splits option.splits if_splits)
qed

end


text \<open>The fence outlives an interrupted take-over. When a fenced wallet is restored and the process
  dies right after the marker was written, the next start is refused because the fenced flag is still
  there: the check runs before the marker is looked at, so the restore is not resumed.\<close>

theorem fence_blocks_resume:
  assumes "data_dir (rs_fs e) files kv" and "rs_fs (bo_restore b) = rs_fs e"
    and "files (w_dir w) FENCED_FLAG_FILE_NAME \<noteq> None"
    and "restore_commit e m plan (Some AfterMarker) w = (Inl Interrupted, w1)"
  shows "node_start b w1 = (Inl WalletFenced, w1)"
proof -
  from assms(4) have "on_dir (write_marker (rs_fs e) (rs_codec e) \<lparr> rm_mnemonic = m, rm_started_at_ms = rs_now_ms e \<rparr>)
      (progress STEP_STOPPING_WALLET w) = (Inr (), w1)"
    by (auto simp: restore_commit_def step_iff)
  from data_dir.write_marker_ok[OF assms(1) conjunct1[OF on_dirD[OF this]]] assms(2,3) data_dir.file_exists[OF assms(1)]
  show ?thesis by (simp add: node_start_def Let_def)
qed

text \<open>A torn marker voids the wallet on disk. When a marker file is there that holds no restore
  context, as a crash between creating and writing it leaves, a successful start keeps the words but
  drops the local channel manager and every monitor; if the server lists nothing, for instance because
  the wallet's migration never succeeded, they are gone and the wallet starts as a fresh one.\<close>

theorem torn_marker_voids_channel_state:
  assumes "data_dir (rs_fs (bo_restore b)) files kv" and "files (w_dir w) RESTORE_IN_PROGRESS_FILE_NAME = Some bs"
    and "from_slice (rs_codec (bo_restore b)) bs = None" and "node_start b w = (Inr (m, st), w')"
    and "\<And>t l x'. rs_make_transport (bo_restore b) m = Inr (Some t) \<Longrightarrow> t_list t (w_rem w) = (Inr l, x') \<Longrightarrow> l = []"
  shows "ldk_part (kv (w_dir w')) = Map.empty \<and> vs_probe_empty st
    \<and> files (w_dir w') MNEMONIC_FILE_NAME = files (w_dir w) MNEMONIC_FILE_NAME"
proof -
  let ?e = "bo_restore b"
  from assms(4) obtain v where o: "on_dir (fs_create_dir (rs_fs ?e)) w = (Inr (), v)" and bv: "build_vss b v = (Inr (m, st), w')"
    by (auto simp: node_start_def Let_def step_iff split: if_splits option.splits)
  from build_vss_okE[OF bv] obtain w1 w2 w3 tr where
    o1: "on_dir (fs_create_dir (rs_fs ?e)) v = (Inr (), w1)"
    and o2: "on_dir (prepare_marker_resume (rs_fs ?e) (rs_codec ?e) (rs_bip39 ?e)) w1 = (Inr (), w2)"
    and o3: "on_dir (read_or_generate_mnemonic (rs_fs ?e) (rs_bip39 ?e) (bo_fresh b)) w2 = (Inr m, w3)"
    and ph: "vss_transport b m w3 = Inr tr" "build_vss_phase b m tr w3 = (Inr st, w')" by metis
  have fw1: "files (w_dir w1) = files (w_dir w)"
    using data_dir.create_dir[OF assms(1)] on_dirD[OF o] on_dirD[OF o1] by metis
  have "read_marker (rs_fs ?e) (rs_codec ?e) (w_dir w1) = None"
  proof (cases "fs_read (rs_fs ?e) RESTORE_IN_PROGRESS_FILE_NAME (w_dir w1)")
    case (Inr x)
    from data_dir.file_read[OF assms(1) Inr] assms(2) fw1 have "x = bs" by simp
    with Inr assms(3) show ?thesis by (simp add: read_marker_def)
  qed (simp add: read_marker_def)
  with on_dirD[OF o2] have w2: "w_dir w2 = w_dir w1" by (simp add: prepare_marker_resume_def)
  have w3: "w_dir w3 = w_dir w2"
    using on_dirD[OF o3] assms(2) fw1 w2 data_dir.file_exists[OF assms(1)]
    by (auto simp: read_or_generate_mnemonic_def split: if_splits sum.splits option.splits)
  have f: "files (w_dir w3) RESTORE_IN_PROGRESS_FILE_NAME \<noteq> None" using assms(2) fw1 w2 w3 by simp
  from ph f data_dir.file_exists[OF assms(1)] obtain t where t: "rs_make_transport ?e m = Inr (Some t)"
    and es: "establish_vss_state (remote_env_of ?e m t) (rs_fs ?e) (bo_read_monitors b m) w3 = (Inr st, w')"
    by (auto simp: vss_transport_def build_vss_phase_def split: sum.splits option.splits if_splits)
  have "w_rem w3 = w_rem w" using on_dirD[OF o] on_dirD[OF o1] on_dirD[OF o2] on_dirD[OF o3] by simp
  with data_dir.establish_void_ok[OF assms(1) es disjI1[OF f]] assms(5)[OF t] fw1 w2 w3
  show ?thesis by (auto simp: remote_env_of_def)
qed

section \<open>Example starts\<close>

definition full_fs :: "crash_dir fs" where
  \<comment> \<open>a disk that fills up: writes fail from some call on, removals do not\<close>
  "full_fs = crash_fs\<lparr> fs_kv := crash_kv\<lparr> d_remove := (\<lambda>p q k lazy s. (Inr (), s\<lparr> cd_kv := AList.delete (p, q, k) (cd_kv s) \<rparr>)) \<rparr> \<rparr>"

interpretation full: data_dir full_fs "\<lambda>s. map_of (cd_files s)" "\<lambda>s. map_of (cd_kv s)"
proof
  fix p q k s ks
  assume "d_list (fs_kv full_fs) p q s = Inr ks"
  then have "d_list (fs_kv crash_fs) p q s = Inr ks" by (simp add: full_fs_def crash_fs_def)
  from crash.kv_list[OF this] show "k \<in> set ks \<longleftrightarrow> map_of (cd_kv s) (p, q, k) \<noteq> None" .
qed (auto simp: full_fs_def crash_fs_def crash_kv_def tick_def set_file_def update_conv' delete_conv' mem_read_def fun_upd_idem
    split: nat.splits if_splits option.splits intro!: exI[of _ 0])

lemma removals_ok_full: "removals_ok full_fs"
  by (simp add: removals_ok_def full_fs_def)

lemma reads_ok_crash: "reads_ok crash_fs (\<lambda>s. map_of (cd_files s))"
  by (simp add: reads_ok_def crash_fs_def)

definition example_boot :: "json_codec \<Rightarrow> (mock, crash_dir) boot_env" where
  "example_boot c = \<lparr> bo_restore = example_restore_env\<lparr> rs_codec := c \<rparr>, bo_fresh = ''fresh'', bo_components = (\<lambda>_. None),
     bo_read_monitors = (\<lambda>_ _. Some []) \<rparr>"

definition example_disk :: "(string \<times> bytes) list \<Rightarrow> mem \<Rightarrow> nat \<Rightarrow> crash_dir" where
  "example_disk fls k n = \<lparr> cd_files = fls, cd_kv = k, cd_left = n \<rparr>"

lemmas example_download_simps =
  example_server_def mock_store_def mock_new_def mock_list_key_versions_def fetch_manifest_def mock_get_def
  recover_plan_def adopt_unexplained_monitors_def unexplained_remote_keys_def FIXED_REMOTE_KEYS_def fixed_key_defs
  verify_unexplained_keys_def deserialize_monitor_def download_and_validate_def plan_with_peers_def
  merge_adopted_monitors_def RESTORE_CHUNK_SIZE_def example_restore_env_def remote_env_of_def on_dir_def on_rem_def Let_def

lemmas example_disk_simps =
  crash_fs_def crash_kv_def tick_def set_file_def mem_read_def mem_list_def example_disk_def

lemmas example_startup_simps =
  establish_vss_state_def local_channel_manager_def recover_void_def silent_recovery_def write_recovered_plan_def
  write_plan_local_def logged_def wipe_local_ldk_state_def remove_marker_quietly_def

lemma example_recovers:
  "fst (establish_vss_state (remote_env_of example_restore_env example_words mock_transport) crash_fs (\<lambda>_. None)
     \<lparr> w_rem = example_server [''xy''], w_dir = example_disk [] [] 100, w_events = [] \<rparr>) \<in> {Inr st | st. vs_recovered st \<and> \<not> vs_probe_empty st}"
  by (simp add: example_startup_simps example_download_simps example_disk_simps numeral_eq_Suc)

lemma example_fails:
  "fst (establish_vss_state (remote_env_of example_restore_env example_words mock_transport) full_fs (\<lambda>_. None)
     \<lparr> w_rem = example_server [''xy''], w_dir = example_disk [] [] 1, w_events = [] \<rparr>) = Inl VssRecoveryFailed"
  by (simp add: full_fs_def rollback_local_writes_def example_startup_simps example_download_simps example_disk_simps numeral_eq_Suc)

lemma example_words_ok:
  "from_utf8 (as_bytes example_words) = Some example_words"
  "parse_mnemonic (\<lambda>s. if s = example_words then Some s else None) example_words = Inr example_words"
  "bip39_ok (\<lambda>s. if s = example_words then Some s else None)"
proof -
  show "from_utf8 (as_bytes example_words) = Some example_words"
    by (rule from_utf8_ascii) (simp add: example_words_def byte_def)
  have n: "normalized example_words = example_words" "length (split_whitespace example_words) = 12"
    by (simp_all add: normalized_def split_whitespace_def ws_len_ascii byte_def example_words_def)
  then show "parse_mnemonic (\<lambda>s. if s = example_words then Some s else None) example_words = Inr example_words"
    by (simp add: parse_mnemonic_def)
  show "bip39_ok (\<lambda>s. if s = example_words then Some s else None)"
    using n by (simp add: bip39_ok_def) (simp add: example_words_def byte_def)
qed

lemmas example_boot_simps =
  node_start_def build_vss_def vss_transport_def build_vss_phase_def prepare_marker_resume_def read_marker_def read_or_generate_mnemonic_def
  mnemonic_on_disk_def example_boot_def example_words_ok MNEMONIC_FILE_NAME_def RESTORE_IN_PROGRESS_FILE_NAME_def FENCED_FLAG_FILE_NAME_def
  remove_file_if_exists_def write_mnemonic_def

definition torn_world :: "(mock, crash_dir) world" where
  "torn_world = \<lparr> w_rem = mock_new, w_dir = example_disk [(''restore_in_progress'', []), (''mnemonic'', as_bytes example_words)]
     [((''monitors'', [], ''old''), [7])] 100, w_events = [] \<rparr>"

lemma example_torn:
  "map_sum id fst (fst (node_start (example_boot (rs_codec example_restore_env)) torn_world)) = Inr example_words"
  by (simp add: torn_world_def example_boot_simps example_startup_simps example_download_simps example_disk_simps MONITOR_NS_def numeral_eq_Suc)

definition interrupted_world :: "(mock, crash_dir) world" where
  \<comment> \<open>a fresh directory in which a restore dies while it writes the monitors\<close>
  "interrupted_world = \<lparr> w_rem = example_server [''xy''], w_dir = example_disk [] [] 9, w_events = [] \<rparr>"

definition example_plan :: restore_plan where
  "example_plan = \<lparr> rp_manifest_version = None, rp_cm = Some ([2], 1), rp_monitors = [], rp_peers = None \<rparr>"

definition reboot :: "('r, crash_dir) world \<Rightarrow> ('r, crash_dir) world" where
  "reboot w = w\<lparr> w_dir := (w_dir w)\<lparr> cd_left := 100 \<rparr> \<rparr>"

definition example_commit :: "(mock, crash_dir) world" where
  "example_commit = snd (restore_commit (bo_restore (example_boot unary_codec)) example_words example_plan None interrupted_world)"

lemma fst_Inr_snd: "map_sum id fst (fst p) = Inr m \<Longrightarrow> \<exists>st. p = (Inr (m, st), snd p)"
  by (cases p; cases "fst p") auto

lemma fst_eq_pair: "fst p = r \<Longrightarrow> p = (r, snd p)"
  by (cases p) simp

lemma example_data_dir: "data_dir (rs_fs (bo_restore (example_boot c))) (\<lambda>s. map_of (cd_files s)) (\<lambda>s. map_of (cd_kv s))"
  using crash.data_dir_axioms by (simp add: example_boot_def example_restore_env_def)

lemmas example_commit_simps =
  interrupted_world_def commit_defs write_marker_def clear_local_wallet_state_def write_plan_local_def logged_def remove_marker_def
  example_plan_def example_boot_simps example_download_simps example_disk_simps progress_def

lemma example_interrupted:
  "fst (restore_commit (bo_restore (example_boot unary_codec)) example_words example_plan None interrupted_world)
     = Inl (LocalWriteFailed DataStage)"
  by (simp add: example_commit_simps numeral_eq_Suc)

lemma example_resumed:
  "map_sum id fst (fst (node_start (example_boot unary_codec) (reboot example_commit))) = Inr example_words"
  by (simp add: example_commit_def reboot_def example_startup_simps example_commit_simps MONITOR_NS_def numeral_eq_Suc)




theorem fence_blocks_resume_witness:
  "\<exists>w1. restore_commit example_restore_env example_words example_plan (Some AfterMarker) (example_world (example_server [''xy''])) = (Inl Interrupted, w1)
     \<and> node_start (example_boot unary_codec) w1 = (Inl WalletFenced, w1)"
proof -
  have "fst (restore_commit example_restore_env example_words example_plan (Some AfterMarker) (example_world (example_server [''xy'']))) = Inl Interrupted"
    by (simp add: example_world_def example_commit_simps numeral_eq_Suc)
  note r = fst_eq_pair[OF this]
  have d: "data_dir (rs_fs example_restore_env) (\<lambda>s. map_of (cd_files s)) (\<lambda>s. map_of (cd_kv s))"
    and s: "rs_fs (bo_restore (example_boot unary_codec)) = rs_fs example_restore_env"
    using crash.data_dir_axioms by (simp_all add: example_boot_def example_restore_env_def)
  have "map_of (cd_files (w_dir (example_world (example_server [''xy''])))) FENCED_FLAG_FILE_NAME \<noteq> None"
    by (simp add: example_world_def FENCED_FLAG_FILE_NAME_def)
  from fence_blocks_resume[OF d s this r] r show ?thesis by blast
qed

theorem torn_marker_voids_channel_state_witness:
  "\<exists>st w'. node_start (example_boot (rs_codec example_restore_env)) torn_world = (Inr (example_words, st), w')
     \<and> ldk_part (map_of (cd_kv (w_dir w'))) = Map.empty"
proof -
  let ?b = "example_boot (rs_codec example_restore_env)"
  from fst_Inr_snd[OF example_torn] obtain st where n: "node_start ?b torn_world = (Inr (example_words, st), snd (node_start ?b torn_world))"
    by blast
  have m: "map_of (cd_files (w_dir torn_world)) RESTORE_IN_PROGRESS_FILE_NAME = Some []"
    by (simp add: torn_world_def example_disk_def RESTORE_IN_PROGRESS_FILE_NAME_def)
  have c: "from_slice (rs_codec (bo_restore ?b)) [] = None" by (simp add: example_boot_def example_restore_env_def)
  have l: "l = []" if "rs_make_transport (bo_restore ?b) example_words = Inr (Some t)" "t_list t (w_rem torn_world) = (Inr l, x')" for t l x'
    using that by (auto simp: example_boot_def example_restore_env_def torn_world_def mock_list_key_versions_def mock_new_def)
  have "ldk_part (map_of (cd_kv (w_dir (snd (node_start ?b torn_world))))) = Map.empty"
    using torn_marker_voids_channel_state[OF example_data_dir m c n] l by simp
  with n show ?thesis by blast
qed

end
