(* ===== verification/Liquidity.thy ===== *)
theory Liquidity
  imports Json
begin

text \<open>
  The LSPS2 just-in-time receive flow: \<open>src/rust/src/liquidity/selection.rs\<close> (choice of the fee menu
  entry), \<open>claim.rs\<close> (the guard on the fee the provider skims), \<open>mod.rs\<close> (the driver: quotes, accepts,
  routing of responses, the floor cache, channel requests) and the arithmetic of
  \<open>src/rust/src/receive.rs\<close> it uses. Library code is a parameter: the fee formula
  \<open>compute_opening_fee\<close>, LDK's channel manager and invoice builder, the clock. A quote is bound to its
  amount and single use; the lemmas follow the agreed fee from the menu to the claim.
\<close>

section \<open>Errors and fee menus\<close>

datatype lsps2_error =
    NotRunning
  | Shutdown
  | ConnectFailed
  | RequestTimeout string
  | GetInfoFailed string
  | BuyFailed string
  | EmptyMenu
  | AllParamsExpired
  | AmountBelowMinimum u64 u64
  | AmountAboveMaximum u64 u64
  | OpeningFeeExceedsAmount u64 u64
  | InvoiceCreationFailed
  | QuoteNotFound
  | QuoteAmountMismatch u64 u64
  | QuoteExpired

record opening_fee_params =
  min_fee_msat :: u64
  proportional :: u32
  valid_until :: u64 \<comment> \<open>whole seconds since the epoch (\<open>datetime_unix_secs\<close>)\<close>
  min_lifetime :: u32
  max_client_to_self_delay :: u32
  min_payment_size_msat :: u64
  max_payment_size_msat :: u64
  promise :: string

definition int_to_string :: "int \<Rightarrow> string" where
  "int_to_string n = (if n < 0 then ''-'' else []) @ nat_to_string (nat \<bar>n\<bar>)"

definition describe_lsps_error :: "int \<Rightarrow> string \<Rightarrow> string" where
  "describe_lsps_error code message =
     ''LSP error '' @ int_to_string code @ '': '' @
       (if code = 200 then ''unrecognized or stale token''
        else if code = 201 then ''invalid opening_fee_params (promise rejected or expired)''
        else if code = 202 then ''payment size too small for the LSP''
        else if code = 203 then ''payment size too large for the LSP''
        else ''unexpected LSP error'') @ '' ('' @ message @ '')''"

type_synonym fee_formula = "u64 \<Rightarrow> u64 \<Rightarrow> u64 \<Rightarrow> u64 option"

section \<open>Choosing an entry of the menu\<close>

fun first_min :: "('a \<Rightarrow> 'k::linorder) \<Rightarrow> 'a list \<Rightarrow> 'a option" where
  \<comment> \<open>\<open>Iterator::min_by_key\<close>: the first of the least elements\<close>
  "first_min key [] = None"
| "first_min key (x # xs) =
     (case first_min key xs of
        None \<Rightarrow> Some x
      | Some y \<Rightarrow> if key x \<le> key y then Some x else Some y)"

definition live_entries :: "opening_fee_params list \<Rightarrow> u64 \<Rightarrow> opening_fee_params list" where
  "live_entries menu now = filter (\<lambda>p. \<not> valid_until p \<le> now) menu"

definition fits :: "u64 \<Rightarrow> opening_fee_params \<Rightarrow> bool" where
  "fits amount p \<longleftrightarrow> \<not> (amount < min_payment_size_msat p \<or> amount > max_payment_size_msat p)"

definition fee_candidates :: "fee_formula \<Rightarrow> opening_fee_params list \<Rightarrow> u64 \<Rightarrow> u64 \<Rightarrow> (u64 \<times> opening_fee_params) list" where
  "fee_candidates fee_of menu amount now =
     List.map_filter (\<lambda>p. if fits amount p
       then map_option (\<lambda>fee. (fee, p)) (fee_of amount (min_fee_msat p) (ucast (proportional p))) else None)
       (live_entries menu now)"

definition select_cheapest_valid_params ::
  "fee_formula \<Rightarrow> opening_fee_params list \<Rightarrow> u64 \<Rightarrow> u64 \<Rightarrow> lsps2_error + (u64 \<times> opening_fee_params)"
where
  "select_cheapest_valid_params fee_of menu amount now =
     (if menu = [] then Inl EmptyMenu
      else
        let live = live_entries menu now;
            tightest_min = (if live = [] then None else Some (Min (set (map min_payment_size_msat live))));
            widest_max = (if live = [] then None else Some (Max (set (map max_payment_size_msat live))))
        in case first_min fst (fee_candidates fee_of menu amount now) of
             None \<Rightarrow>
               if live = [] then Inl AllParamsExpired
               else (case tightest_min of
                  Some m \<Rightarrow>
                    if amount < m then Inl (AmountBelowMinimum amount m)
                    else (case widest_max of
                       Some M \<Rightarrow> if amount > M then Inl (AmountAboveMaximum amount M) else Inl EmptyMenu
                     | None \<Rightarrow> Inl EmptyMenu)
                | None \<Rightarrow> Inl EmptyMenu)
           | Some (fee, p) \<Rightarrow>
               if fee \<ge> amount then Inl (OpeningFeeExceedsAmount fee amount) else Inr (fee, p))"

section \<open>Receive arithmetic\<close>

definition MIN_JIT_RECEIVE_SATS :: u64 where "MIN_JIT_RECEIVE_SATS = 3000"
definition INVOICE_MAX_EXPIRY_SECS :: u32 where "INVOICE_MAX_EXPIRY_SECS = 3600"
definition JIT_INVOICE_FLIGHT_MARGIN_SECS :: u64 where "JIT_INVOICE_FLIGHT_MARGIN_SECS = 30"
definition JIT_INVOICE_MIN_EXPIRY_SECS :: u64 where "JIT_INVOICE_MIN_EXPIRY_SECS = 60"
definition QUOTE_FRESHNESS_MARGIN_SECS :: u64 where "QUOTE_FRESHNESS_MARGIN_SECS = 30"

definition sat_sub :: "'a::len word \<Rightarrow> 'a word \<Rightarrow> 'a word" where
  \<comment> \<open>\<open>saturating_sub\<close>\<close>
  "sat_sub a b = (if b \<le> a then a - b else 0)"

definition compute_min_receive_sats :: "opening_fee_params list \<Rightarrow> u64 \<Rightarrow> u64" where
  "compute_min_receive_sats menu now =
     (let floors = map (\<lambda>p. max (min_payment_size_msat p) (min_fee_msat p + 1)) (live_entries menu now)
      in if floors = [] then 0
         else (let m = Min (set floors) in m div 1000 + (if m mod 1000 = 0 then 0 else 1)))"

definition quote_fresh_enough :: "u64 \<Rightarrow> u64 \<Rightarrow> bool" where
  "quote_fresh_enough until now \<longleftrightarrow> until \<ge> now + QUOTE_FRESHNESS_MARGIN_SECS"

definition compute_jit_invoice_expiry_secs :: "u64 \<Rightarrow> u64 \<Rightarrow> lsps2_error + u32" where
  "compute_jit_invoice_expiry_secs until now =
     (let headroom = sat_sub (sat_sub until now) JIT_INVOICE_FLIGHT_MARGIN_SECS
      in if headroom < JIT_INVOICE_MIN_EXPIRY_SECS then Inl QuoteExpired
         else Inr (ucast (min headroom (ucast INVOICE_MAX_EXPIRY_SECS))))"

section \<open>The claim guard\<close>

type_synonym payment_hash = bytes
type_synonym preimage = bytes

record claim_state =
  expected_fee_msat :: "u64 option"
  observed_skim_msat :: "u64 option"

type_synonym claims = "payment_hash \<rightharpoonup> claim_state"

datatype claim_decision = Claim preimage | FailBack string

definition claim_entry :: "claims \<Rightarrow> payment_hash \<Rightarrow> claim_state" where
  "claim_entry cs h = (case cs h of None \<Rightarrow> \<lparr> expected_fee_msat = None, observed_skim_msat = None \<rparr> | Some c \<Rightarrow> c)"

definition register_expected_fee :: "payment_hash \<Rightarrow> u64 \<Rightarrow> claims \<Rightarrow> claims" where
  "register_expected_fee h fee cs = cs(h \<mapsto> (claim_entry cs h)\<lparr> expected_fee_msat := Some fee \<rparr>)"

definition decide :: "payment_hash \<Rightarrow> u64 \<Rightarrow> preimage option \<Rightarrow> claims \<Rightarrow> claim_decision \<times> claims" where
  "decide h skim pre cs =
     (let st = (claim_entry cs h)\<lparr> observed_skim_msat := Some skim \<rparr>; cs' = cs(h \<mapsto> st) in
      case pre of
        None \<Rightarrow> (FailBack ''claimable payment carries no preimage (not created via create_inbound_payment)'', cs')
      | Some p \<Rightarrow>
          let max_skim = (case expected_fee_msat st of None \<Rightarrow> 0 | Some f \<Rightarrow> f) in
          if skim > max_skim then (FailBack (''counterparty skimmed '' @ u64_to_string skim @ ''msat, more than the agreed ''
                            @ u64_to_string max_skim @ ''msat opening fee''), cs')
          else (Claim p, cs'))"

definition take_skim :: "payment_hash \<Rightarrow> claims \<Rightarrow> u64 option \<times> claims" where
  "take_skim h cs = (Option.bind (cs h) observed_skim_msat, cs(h := None))"

section \<open>The driver\<close>

record stored_jit_quote =
  q_amount_msat :: u64
  q_opening_fee_msat :: u64
  q_params :: opening_fee_params

record jit_quote =
  quote_token :: u64
  jq_amount_msat :: u64
  jq_opening_fee_msat :: u64
  receive_msat :: u64
  valid_until_unix :: u64
  fresh_enough :: bool

record prepared_accept =
  pa_amount_msat :: u64
  pa_opening_fee_msat :: u64
  pa_params :: opening_fee_params
  pa_expiry_secs :: u32
  expires_at_unix :: u64

record buy_response =
  intercept_scid :: u64
  cltv_expiry_delta :: u32

type_synonym request_id = string
type_synonym fee_result = "lsps2_error + opening_fee_params list"
type_synonym buy_result = "lsps2_error + buy_response"
type_synonym node_id = bytes

record liquidity_source =
  lsp_node_id :: node_id
  trusted_lsps :: "node_id list"
  pending_fee_requests :: "request_id set"
  pending_buy_requests :: "request_id set"
  fee_responses :: "request_id \<rightharpoonup> fee_result" \<comment> \<open>sent through a oneshot, not yet received\<close>
  buy_responses :: "request_id \<rightharpoonup> buy_result"
  pending_quotes :: "u64 \<rightharpoonup> stored_jit_quote"
  next_quote_token :: u64
  jit_floor_cache :: "u64 option"
  claims :: claims
  bought :: "(u64 \<times> opening_fee_params) list" \<comment> \<open>the \<open>lsps2.buy\<close> requests that left the device\<close>

datatype channel_action =
    ForceClose bytes node_id string
  | Accept0conf bytes node_id nat "8 word" bool \<comment> \<open>user channel id, in-flight percentage, accept underpaying HTLCs\<close>

datatype htlc_action = ClaimFunds preimage | FailHtlcBackwards payment_hash

definition JIT_ACCEPT_UNDERPAYING_HTLCS :: bool where "JIT_ACCEPT_UNDERPAYING_HTLCS = True"
definition JIT_MAX_INBOUND_INFLIGHT_PCT :: "8 word" where "JIT_MAX_INBOUND_INFLIGHT_PCT = 100"

record jit_invoice_params =
  jp_lsp_node_id :: node_id
  jp_intercept_scid :: u64
  jp_lsp_cltv_expiry_delta :: u32
  jp_amount_msat :: u64
  jp_payment_hash :: payment_hash
  jp_payment_secret :: bytes
  jp_expiry_secs :: u32

definition from_components :: "node_id \<Rightarrow> node_id list \<Rightarrow> liquidity_source" where
  "from_components lsp trusted =
     \<lparr> lsp_node_id = lsp, trusted_lsps = trusted, pending_fee_requests = {}, pending_buy_requests = {},
       fee_responses = Map.empty, buy_responses = Map.empty, pending_quotes = Map.empty,
       next_quote_token = 1, jit_floor_cache = None, claims = Map.empty, bought = [] \<rparr>"

definition begin_fee_request :: "request_id \<Rightarrow> liquidity_source \<Rightarrow> liquidity_source" where
  \<comment> \<open>\<open>rid\<close> is the id the client handler gives the request\<close>
  "begin_fee_request rid s = s\<lparr> pending_fee_requests := insert rid (pending_fee_requests s) \<rparr>"

definition begin_buy_request ::
  "u64 \<Rightarrow> opening_fee_params \<Rightarrow> (string + request_id) \<Rightarrow> liquidity_source
     \<Rightarrow> (lsps2_error + request_id) \<times> liquidity_source"
where
  \<comment> \<open>the third argument is what \<open>select_opening_params\<close> returned\<close>
  "begin_buy_request amount p sent s =
     (case sent of
        Inl e \<Rightarrow> (Inl (BuyFailed (''failed to send buy request: '' @ e)), s)
      | Inr rid \<Rightarrow> (Inr rid, s\<lparr> pending_buy_requests := insert rid (pending_buy_requests s),
                                bought := bought s @ [(amount, p)] \<rparr>))"

definition await_fee_response :: "request_id \<Rightarrow> bool \<Rightarrow> liquidity_source \<Rightarrow> fee_result option \<times> liquidity_source" where
  \<comment> \<open>\<open>await_response\<close> on a fee request: an answer, else the timeout, else a dropped sender;
     \<open>None\<close> while it is still waiting\<close>
  "await_fee_response rid timed_out s =
     (case fee_responses s rid of
        Some r \<Rightarrow> (Some r, s\<lparr> fee_responses := (fee_responses s)(rid := None) \<rparr>)
      | None \<Rightarrow>
          if timed_out then (Some (Inl (RequestTimeout ''get_info'')),
                             s\<lparr> pending_fee_requests := pending_fee_requests s - {rid} \<rparr>)
          else if rid \<notin> pending_fee_requests s then (Some (Inl Shutdown), s)
          else (None, s))"

definition await_buy_response :: "request_id \<Rightarrow> bool \<Rightarrow> liquidity_source \<Rightarrow> buy_result option \<times> liquidity_source" where
  "await_buy_response rid timed_out s =
     (case buy_responses s rid of
        Some r \<Rightarrow> (Some r, s\<lparr> buy_responses := (buy_responses s)(rid := None) \<rparr>)
      | None \<Rightarrow>
          if timed_out then (Some (Inl (RequestTimeout ''buy'')),
                             s\<lparr> pending_buy_requests := pending_buy_requests s - {rid} \<rparr>)
          else if rid \<notin> pending_buy_requests s then (Some (Inl Shutdown), s)
          else (None, s))"

datatype liquidity_event =
    OpeningParametersReady request_id node_id "opening_fee_params list"
  | GetInfoFailedEvent request_id int string
  | InvoiceParametersReady request_id node_id u64 u32
  | BuyRequestFailed request_id int string
  | OtherLiquidityEvent

definition send_fee :: "request_id \<Rightarrow> fee_result \<Rightarrow> liquidity_source \<Rightarrow> liquidity_source" where
  "send_fee rid r s =
     (if rid \<in> pending_fee_requests s
      then s\<lparr> pending_fee_requests := pending_fee_requests s - {rid}, fee_responses := (fee_responses s)(rid \<mapsto> r) \<rparr>
      else s)"

definition send_buy :: "request_id \<Rightarrow> buy_result \<Rightarrow> liquidity_source \<Rightarrow> liquidity_source" where
  "send_buy rid r s =
     (if rid \<in> pending_buy_requests s
      then s\<lparr> pending_buy_requests := pending_buy_requests s - {rid}, buy_responses := (buy_responses s)(rid \<mapsto> r) \<rparr>
      else s)"

fun handle_liquidity_event :: "liquidity_event \<Rightarrow> liquidity_source \<Rightarrow> liquidity_source" where
  "handle_liquidity_event (OpeningParametersReady rid peer menu) s =
     (if peer \<noteq> lsp_node_id s then s else send_fee rid (Inr menu) s)"
| "handle_liquidity_event (GetInfoFailedEvent rid code msg) s =
     send_fee rid (Inl (GetInfoFailed (describe_lsps_error code msg))) s"
| "handle_liquidity_event (InvoiceParametersReady rid peer scid delta) s =
     (if peer \<noteq> lsp_node_id s then s
      else send_buy rid (Inr \<lparr> intercept_scid = scid, cltv_expiry_delta = delta \<rparr>) s)"
| "handle_liquidity_event (BuyRequestFailed rid code msg) s =
     send_buy rid (Inl (BuyFailed (describe_lsps_error code msg))) s"
| "handle_liquidity_event OtherLiquidityEvent s = s"

definition jit_quote_preconnected ::
  "fee_formula \<Rightarrow> u64 \<Rightarrow> fee_result \<Rightarrow> u64 \<Rightarrow> liquidity_source \<Rightarrow> (lsps2_error + jit_quote) \<times> liquidity_source"
where
  \<comment> \<open>from the answer to \<open>request_opening_params\<close> on\<close>
  "jit_quote_preconnected fee_of amount menu_result now s =
     (case menu_result of
        Inl e \<Rightarrow> (Inl e, s)
      | Inr menu \<Rightarrow>
          (case select_cheapest_valid_params fee_of menu amount now of
             Inl e \<Rightarrow> (Inl e, s)
           | Inr (fee, p) \<Rightarrow>
               let token = next_quote_token s in
               (Inr \<lparr> quote_token = token, jq_amount_msat = amount, jq_opening_fee_msat = fee,
                      receive_msat = sat_sub amount fee, valid_until_unix = valid_until p,
                      fresh_enough = quote_fresh_enough (valid_until p) now \<rparr>,
                s\<lparr> next_quote_token := token + 1,
                   pending_quotes := (pending_quotes s)(token \<mapsto>
                     \<lparr> q_amount_msat = amount, q_opening_fee_msat = fee, q_params = p \<rparr>) \<rparr>)))"

definition prepare_accept ::
  "u64 \<Rightarrow> u64 \<Rightarrow> u64 \<Rightarrow> liquidity_source \<Rightarrow> (lsps2_error + prepared_accept) \<times> liquidity_source"
where
  "prepare_accept token amount now s =
     (case pending_quotes s token of
        None \<Rightarrow> (Inl QuoteNotFound, s)
      | Some q \<Rightarrow>
          let s' = s\<lparr> pending_quotes := (pending_quotes s)(token := None) \<rparr> in
          if q_amount_msat q \<noteq> amount then (Inl (QuoteAmountMismatch (q_amount_msat q) amount), s')
          else (case compute_jit_invoice_expiry_secs (valid_until (q_params q)) now of
             Inl e \<Rightarrow> (Inl e, s')
           | Inr expiry \<Rightarrow>
               (Inr \<lparr> pa_amount_msat = amount, pa_opening_fee_msat = q_opening_fee_msat q, pa_params = q_params q,
                      pa_expiry_secs = expiry, expires_at_unix = now + ucast expiry \<rparr>, s')))"

definition finish_accept ::
  "(jit_invoice_params \<Rightarrow> 'inv option) \<Rightarrow> prepared_accept \<Rightarrow> buy_response \<Rightarrow> (payment_hash \<times> bytes) option
     \<Rightarrow> liquidity_source \<Rightarrow> (lsps2_error + 'inv \<times> u64 \<times> u64) \<times> liquidity_source"
where
  \<comment> \<open>from a successful buy answer on; the last argument but one is what \<open>create_inbound_payment\<close>
     returned\<close>
  "finish_accept build pa buy inbound s =
     (case inbound of
        None \<Rightarrow> (Inl InvoiceCreationFailed, s)
      | Some (h, secret) \<Rightarrow>
          (case build \<lparr> jp_lsp_node_id = lsp_node_id s, jp_intercept_scid = intercept_scid buy,
                        jp_lsp_cltv_expiry_delta = cltv_expiry_delta buy, jp_amount_msat = pa_amount_msat pa,
                        jp_payment_hash = h, jp_payment_secret = secret, jp_expiry_secs = pa_expiry_secs pa \<rparr> of
             None \<Rightarrow> (Inl InvoiceCreationFailed, s)
           | Some invoice \<Rightarrow>
               (Inr (invoice, expires_at_unix pa, pa_opening_fee_msat pa),
                s\<lparr> claims := register_expected_fee h (pa_opening_fee_msat pa) (claims s) \<rparr>)))"

record 'inv accept_answers =
  ans_connected :: "lsps2_error + unit" \<comment> \<open>\<open>ensure_lsp_connected\<close>\<close>
  ans_sent :: "string + request_id" \<comment> \<open>\<open>select_opening_params\<close>\<close>
  ans_buy :: buy_result \<comment> \<open>the awaited answer\<close>
  ans_inbound :: "(payment_hash \<times> bytes) option" \<comment> \<open>\<open>create_inbound_payment\<close>\<close>
  ans_invoice :: "jit_invoice_params \<Rightarrow> 'inv option" \<comment> \<open>\<open>build_jit_invoice\<close>\<close>

definition jit_accept ::
  "u64 \<Rightarrow> u64 \<Rightarrow> u64 \<Rightarrow> 'inv accept_answers \<Rightarrow> liquidity_source
     \<Rightarrow> (lsps2_error + 'inv \<times> u64 \<times> u64) \<times> liquidity_source"
where
  "jit_accept token amount now ans s =
     (case prepare_accept token amount now s of
        (Inl e, s1) \<Rightarrow> (Inl e, s1)
      | (Inr pa, s1) \<Rightarrow>
          (case ans_connected ans of
             Inl e \<Rightarrow> (Inl e, s1)
           | Inr u \<Rightarrow>
               (case begin_buy_request (pa_amount_msat pa) (pa_params pa) (ans_sent ans) s1 of
                  (Inl e, s2) \<Rightarrow> (Inl e, s2)
                | (Inr rid, s2) \<Rightarrow>
                    let s3 = s2\<lparr> pending_buy_requests := pending_buy_requests s2 - {rid} \<rparr> in
                    (case ans_buy ans of
                       Inl e \<Rightarrow> (Inl e, s3)
                     | Inr buy \<Rightarrow> finish_accept (ans_invoice ans) pa buy (ans_inbound ans) s3))))"

definition min_receive_sats ::
  "bool \<Rightarrow> fee_result \<Rightarrow> u64 \<Rightarrow> liquidity_source \<Rightarrow> u64 \<times> liquidity_source"
where
  \<comment> \<open>\<open>min_receive_sats_inner\<close>; the second argument is what connecting and \<open>get_info\<close> returned, used
     only when the code asks\<close>
  "min_receive_sats refresh fetched now s =
     (case (if refresh then None else jit_floor_cache s) of
        Some cached \<Rightarrow> (cached, s)
      | None \<Rightarrow>
          let floor = (case fetched of
                Inl _ \<Rightarrow> MIN_JIT_RECEIVE_SATS
              | Inr menu \<Rightarrow> (let live = compute_min_receive_sats menu now in
                             if live > 0 then live else MIN_JIT_RECEIVE_SATS))
          in (floor, s\<lparr> jit_floor_cache := Some floor \<rparr>))"

definition is_trusted_lsp :: "node_id \<Rightarrow> liquidity_source \<Rightarrow> bool" where
  "is_trusted_lsp n s \<longleftrightarrow> n = lsp_node_id s \<or> n \<in> set (trusted_lsps s)"

definition on_open_channel_request :: "bytes \<Rightarrow> node_id \<Rightarrow> liquidity_source \<Rightarrow> channel_action" where
  "on_open_channel_request chan peer s =
     (if \<not> is_trusted_lsp peer s then ForceClose chan peer ''Channel request rejected''
      else Accept0conf chan peer 0 JIT_MAX_INBOUND_INFLIGHT_PCT JIT_ACCEPT_UNDERPAYING_HTLCS)"

definition on_payment_claimable ::
  "payment_hash \<Rightarrow> u64 \<Rightarrow> preimage option \<Rightarrow> liquidity_source \<Rightarrow> htlc_action \<times> liquidity_source"
where
  "on_payment_claimable h skim pre s =
     (case decide h skim pre (claims s) of
        (Claim p, cs) \<Rightarrow> (ClaimFunds p, s\<lparr> claims := cs \<rparr>)
      | (FailBack _, cs) \<Rightarrow> (FailHtlcBackwards h, s\<lparr> claims := cs \<rparr>))"

definition source_take_skim :: "payment_hash \<Rightarrow> liquidity_source \<Rightarrow> u64 option \<times> liquidity_source" where
  "source_take_skim h s = (case take_skim h (claims s) of (r, cs) \<Rightarrow> (r, s\<lparr> claims := cs \<rparr>))"

section \<open>Lemmas on the selection\<close>

lemma first_min_Some: "xs \<noteq> [] \<Longrightarrow> \<exists>y. first_min key xs = Some y"
  by (induction xs) (auto split: option.splits)

lemma first_min_None [simp]: "first_min key xs = None \<longleftrightarrow> xs = []"
  using first_min_Some[of xs key] by (cases xs) auto

lemma first_min_least:
  assumes "first_min key xs = Some y"
  shows "y \<in> set xs \<and> (\<forall>x \<in> set xs. key y \<le> key x)"
  using assms
proof (induction xs arbitrary: y)
  case (Cons x xs)
  show ?case
  proof (cases "first_min key xs")
    case None
    with Cons.prems show ?thesis by auto
  next
    case (Some z)
    with Cons.IH[OF Some] Cons.prems show ?thesis by (auto split: if_splits)
  qed
qed simp

definition eligible :: "fee_formula \<Rightarrow> opening_fee_params list \<Rightarrow> u64 \<Rightarrow> u64 \<Rightarrow> u64 \<Rightarrow> opening_fee_params \<Rightarrow> bool" where
  \<comment> \<open>\<open>p\<close> is an unexpired entry of the menu that takes the amount, at the given fee\<close>
  "eligible fee_of menu amount now fee p \<longleftrightarrow>
     p \<in> set menu \<and> now < valid_until p \<and> min_payment_size_msat p \<le> amount \<and> amount \<le> max_payment_size_msat p
     \<and> fee_of amount (min_fee_msat p) (ucast (proportional p)) = Some fee"

lemma fee_candidates_mem: "(fee, p) \<in> set (fee_candidates fee_of menu amount now) \<longleftrightarrow> eligible fee_of menu amount now fee p"
proof -
  have mf: "set (List.map_filter f xs) = {y. \<exists>x \<in> set xs. f x = Some y}" for f :: "'a \<Rightarrow> 'b option" and xs
    by (induction xs) (auto simp: List.map_filter_simps split: option.splits)
  show ?thesis
    by (auto simp: fee_candidates_def mf live_entries_def fits_def eligible_def not_le not_less split: if_splits)
qed

section \<open>Properties of the selection and of the expiry clamp\<close>

text \<open>The menu entry that is bought is the best one: when the selection succeeds, the entry is an
  unexpired entry of the menu that admits the amount, its fee is strictly below the amount, and no
  other admissible entry is cheaper; and it succeeds whenever some admissible entry has a fee below
  the amount.\<close>
theorem selection_is_cheapest:
  "(\<forall>fee p. select_cheapest_valid_params fee_of menu amount now = Inr (fee, p) \<longrightarrow>
       eligible fee_of menu amount now fee p \<and> fee < amount
       \<and> (\<forall>fee' p'. eligible fee_of menu amount now fee' p' \<longrightarrow> fee \<le> fee'))
   \<and> ((\<exists>fee p. eligible fee_of menu amount now fee p \<and> fee < amount) \<longrightarrow>
       (\<exists>r. select_cheapest_valid_params fee_of menu amount now = Inr r))"
proof (intro conjI allI impI)
  fix fee p
  assume sel: "select_cheapest_valid_params fee_of menu amount now = Inr (fee, p)"
  then have f: "first_min fst (fee_candidates fee_of menu amount now) = Some (fee, p)" and lt: "fee < amount"
    by (auto simp: select_cheapest_valid_params_def Let_def not_le split: if_splits option.splits prod.splits)
  note m = first_min_least[OF f]
  show "eligible fee_of menu amount now fee p" using m fee_candidates_mem by blast
  show "fee < amount" by (fact lt)
  show "fee \<le> fee'" if "eligible fee_of menu amount now fee' p'" for fee' p'
    using m that fee_candidates_mem[of fee' p'] by fastforce
next
  assume "\<exists>fee p. eligible fee_of menu amount now fee p \<and> fee < amount"
  then obtain fee p where e: "(fee, p) \<in> set (fee_candidates fee_of menu amount now)" "fee < amount"
    unfolding fee_candidates_mem by blast
  then have menu: "menu \<noteq> []" unfolding fee_candidates_mem eligible_def by (metis empty_iff list.set(1))
  obtain fee' p' where f: "first_min fst (fee_candidates fee_of menu amount now) = Some (fee', p')"
    using first_min_Some[of "fee_candidates fee_of menu amount now" fst] e(1) by fastforce
  with first_min_least[OF f] e have "fee' < amount" by fastforce
  with f menu show "\<exists>r. select_cheapest_valid_params fee_of menu amount now = Inr r"
    by (auto simp: select_cheapest_valid_params_def Let_def not_le)
qed

text \<open>An amount between two offers is reported as an empty menu. A menu whose unexpired entries
  all refuse the amount, some because it is too small and some because it is too large, makes the
  selection answer \<open>EmptyMenu\<close>, although the provider offered entries.\<close>
theorem gap_amount_reported_as_empty_menu:
  assumes "p \<in> set menu" "q \<in> set menu" "now < valid_until p" "now < valid_until q"
    and "max_payment_size_msat p < amount" "min_payment_size_msat p \<le> amount" "amount < min_payment_size_msat q"
    and "amount \<le> max_payment_size_msat q"
    and "\<And>r. r \<in> set menu \<Longrightarrow> now < valid_until r \<Longrightarrow> \<not> fits amount r"
  shows "select_cheapest_valid_params fee_of menu amount now = Inl EmptyMenu"
proof -
  have live: "p \<in> set (live_entries menu now)" "q \<in> set (live_entries menu now)"
    using assms(1-4) by (auto simp: live_entries_def)
  have "fee_candidates fee_of menu amount now = []"
    using assms(9) fee_candidates_mem[of _ _ fee_of menu amount now]
    by (metis (no_types, lifting) eligible_def fits_def leD list.set_intros(1) neq_Nil_conv old.prod.exhaust)
  moreover have "\<not> amount < Min (set (map min_payment_size_msat (live_entries menu now)))"
    using live(1) assms(6) by (metis (no_types, lifting) List.finite_set Min_le imageI leD le_less_trans list.set_map order.strict_trans1)
  moreover have "\<not> Max (set (map max_payment_size_msat (live_entries menu now))) < amount"
    using live(2) assms(8) by (metis (no_types, lifting) List.finite_set Max_ge imageI leD le_less_trans list.set_map)
  ultimately show ?thesis
    using live assms(1) by (auto simp: select_cheapest_valid_params_def Let_def)
qed

lemma expiry_clamp:
  "(compute_jit_invoice_expiry_secs until now = Inl QuoteExpired \<longleftrightarrow> unat until < unat now + 90)
   \<and> (\<forall>expiry. compute_jit_invoice_expiry_secs until now = Inr expiry \<longrightarrow>
        60 \<le> unat expiry \<and> unat expiry \<le> 3600 \<and> unat now + unat expiry + 30 \<le> unat until)"
proof -
  define h where "h = sat_sub (sat_sub until now) JIT_INVOICE_FLIGHT_MARGIN_SECS"
  have uh: "unat h = unat until - unat now - 30"
    by (auto simp: h_def sat_sub_def JIT_INVOICE_FLIGHT_MARGIN_SECS_def unat_sub word_le_nat_alt)
  have lt: "h < JIT_INVOICE_MIN_EXPIRY_SECS \<longleftrightarrow> unat until < unat now + 90"
    using uh by (auto simp: JIT_INVOICE_MIN_EXPIRY_SECS_def word_less_nat_alt)
  have m: "unat (min h (ucast INVOICE_MAX_EXPIRY_SECS)) = min (unat h) 3600"
    by (auto simp: min_def word_le_nat_alt INVOICE_MAX_EXPIRY_SECS_def)
  have e: "unat (ucast (min h (ucast INVOICE_MAX_EXPIRY_SECS)) :: u32) = min (unat h) 3600"
    using m by (simp add: unsigned_ucast_eq take_bit_nat_eq_self)
  show ?thesis using lt uh e by (auto simp: compute_jit_invoice_expiry_secs_def Let_def h_def[symmetric])
qed

text \<open>an accepted quote never yields an invoice that outlives it. The clamp refuses exactly the
  quotes with less than 90 seconds left; otherwise the expiry lies between one minute and one hour
  and the invoice expires at least 30 seconds before the quote does.\<close>
theorem invoice_expiry_within_quote:
  "(compute_jit_invoice_expiry_secs until now = Inl QuoteExpired \<longleftrightarrow> unat until < unat now + 90)
   \<and> (\<forall>expiry. compute_jit_invoice_expiry_secs until now = Inr expiry \<longrightarrow>
        60 \<le> unat expiry \<and> unat expiry \<le> 3600 \<and> unat now + unat expiry + 30 \<le> unat until)"
  by (rule expiry_clamp)

lemma nat_ceil_div: "(n + 999) div 1000 = n div 1000 + (if n mod 1000 = 0 then 0 else (1 :: nat))"
proof -
  define q r where "q = n div 1000" and "r = n mod 1000"
  have n: "n = 1000 * q + r" and r: "r < 1000" by (simp_all add: q_def r_def)
  have "(n + 999) div 1000 = (if r = 0 then q else q + 1)"
    by (rule div_nat_eqI) (use n r in auto)
  then show ?thesis by (simp add: q_def r_def)
qed

lemma ceil_div_1000: "unat (m div 1000 + (if m mod 1000 = 0 then 0 else 1) :: u64) = (unat m + 999) div 1000"
proof -
  have b: "unat m div 1000 < 18446744073709551615"
    using unsigned_less[of m, where 'a = nat] by simp
  have z: "m mod 1000 = 0 \<longleftrightarrow> unat m mod 1000 = 0"
    by (simp add: word_unat_eq_iff unat_mod)
  have d: "unat (m div 1000) = unat m div 1000" by (simp add: unat_div)
  have "unat (m div 1000 + 1 :: u64) = unat m div 1000 + 1"
    using b by (simp add: unat_word_ariths d)
  with d z show ?thesis by (simp add: nat_ceil_div)
qed

text \<open>The numpad floor never hides a receivable amount: if the fee formula charges at least the
  minimum fee, every amount for which a quote exists is at least the advertised floor, rounded to
  whole sats.\<close>
theorem receive_floor_admits_every_quote:
  assumes "\<And>a m p fee. fee_of a m p = Some fee \<Longrightarrow> m \<le> fee"
    and "select_cheapest_valid_params fee_of menu amount now = Inr (fee, p)"
  shows "unat (compute_min_receive_sats menu now) \<le> (unat amount + 999) div 1000"
proof -
  have f: "first_min fst (fee_candidates fee_of menu amount now) = Some (fee, p)" and lt: "fee < amount"
    using assms(2) by (auto simp: select_cheapest_valid_params_def Let_def not_le split: if_splits option.splits prod.splits)
  have e: "eligible fee_of menu amount now fee p" using first_min_least[OF f] fee_candidates_mem by blast
  have "min_fee_msat p < amount" using e assms(1) lt by (fastforce simp: eligible_def)
  then have "max (min_payment_size_msat p) (min_fee_msat p + 1) \<le> amount"
    using e by (simp add: eligible_def inc_le)
  moreover define floors where "floors = map (\<lambda>p. max (min_payment_size_msat p) (min_fee_msat p + 1)) (live_entries menu now)"
  have "p \<in> set (live_entries menu now)" using e by (auto simp: eligible_def live_entries_def)
  then have mem: "max (min_payment_size_msat p) (min_fee_msat p + 1) \<in> set floors" by (auto simp: floors_def)
  then have "Min (set floors) \<le> max (min_payment_size_msat p) (min_fee_msat p + 1)" by simp
  ultimately have "Min (set floors) \<le> amount" by (rule order_trans[rotated])
  then have "(unat (Min (set floors)) + 999) div 1000 \<le> (unat amount + 999) div 1000"
    by (simp add: word_le_nat_alt div_le_mono)
  moreover have "unat (compute_min_receive_sats menu now) = (unat (Min (set floors)) + 999) div 1000"
    using mem ceil_div_1000[of "Min (set floors)"]
    by (auto simp: compute_min_receive_sats_def floors_def[symmetric] Let_def)
  ultimately show ?thesis by simp
qed

section \<open>The fee from the quote to the claim\<close>

datatype 'inv liquidity_op =
    OpQuote u64 fee_result u64
  | OpAccept u64 u64 u64 "'inv accept_answers"
  | OpBeginFee request_id
  | OpAwaitFee request_id bool
  | OpEvent liquidity_event
  | OpFloor bool fee_result u64
  | OpClaimable payment_hash u64 "preimage option"
  | OpTakeSkim payment_hash

record liquidity_log =
  agreed :: "(payment_hash \<times> u64 \<times> u64) list" \<comment> \<open>hash, opening fee and amount of every accepted quote\<close>
  claimed :: "(payment_hash \<times> u64) list" \<comment> \<open>hash and skimmed fee of every claimed payment\<close>

fun liquidity_step ::
  "fee_formula \<Rightarrow> 'inv liquidity_op \<Rightarrow> liquidity_log \<times> liquidity_source \<Rightarrow> liquidity_log \<times> liquidity_source"
where
  "liquidity_step f (OpQuote amount menu now) (l, s) = (l, snd (jit_quote_preconnected f amount menu now s))"
| "liquidity_step f (OpAccept token amount now ans) (l, s) =
     (case jit_accept token amount now ans s of
        (Inl e, s') \<Rightarrow> (l, s')
      | (Inr (inv', t, fee), s') \<Rightarrow>
          (case ans_inbound ans of
             None \<Rightarrow> (l, s')
           | Some (h, _) \<Rightarrow> (l\<lparr> agreed := (h, fee, amount) # agreed l \<rparr>, s')))"
| "liquidity_step f (OpBeginFee rid) (l, s) = (l, begin_fee_request rid s)"
| "liquidity_step f (OpAwaitFee rid t) (l, s) = (l, snd (await_fee_response rid t s))"
| "liquidity_step f (OpEvent ev) (l, s) = (l, handle_liquidity_event ev s)"
| "liquidity_step f (OpFloor refresh menu now) (l, s) = (l, snd (min_receive_sats refresh menu now s))"
| "liquidity_step f (OpClaimable h skim pre) (l, s) =
     (case on_payment_claimable h skim pre s of
        (ClaimFunds p, s') \<Rightarrow> (l\<lparr> claimed := (h, skim) # claimed l \<rparr>, s')
      | (FailHtlcBackwards _, s') \<Rightarrow> (l, s'))"
| "liquidity_step f (OpTakeSkim h) (l, s) = (l, snd (source_take_skim h s))"

definition liquidity_run ::
  "fee_formula \<Rightarrow> node_id \<Rightarrow> node_id list \<Rightarrow> 'inv liquidity_op list \<Rightarrow> liquidity_log \<times> liquidity_source"
where
  "liquidity_run f lsp trusted ops =
     fold (liquidity_step f) ops (\<lparr> agreed = [], claimed = [] \<rparr>, from_components lsp trusted)"

definition quotes_ok :: "liquidity_source \<Rightarrow> bool" where
  "quotes_ok s \<longleftrightarrow> (\<forall>t q. pending_quotes s t = Some q \<longrightarrow> q_opening_fee_msat q < q_amount_msat q)"

definition claims_ok :: "liquidity_log \<Rightarrow> liquidity_source \<Rightarrow> bool" where
  "claims_ok l s \<longleftrightarrow>
     (\<forall>h c fee. claims s h = Some c \<longrightarrow> expected_fee_msat c = Some fee \<longrightarrow>
        (\<exists>amount. (h, fee, amount) \<in> set (agreed l)))"

definition log_ok :: "liquidity_log \<Rightarrow> bool" where
  "log_ok l \<longleftrightarrow>
     (\<forall>(h, fee, amount) \<in> set (agreed l). fee < amount)
     \<and> (\<forall>(h, skim) \<in> set (claimed l). skim = 0 \<or> (\<exists>fee amount. (h, fee, amount) \<in> set (agreed l) \<and> skim \<le> fee))"

definition liquidity_inv :: "liquidity_log \<times> liquidity_source \<Rightarrow> bool" where
  "liquidity_inv ls \<longleftrightarrow> quotes_ok (snd ls) \<and> claims_ok (fst ls) (snd ls) \<and> log_ok (fst ls)"

lemma handle_event_frame [simp]:
  "pending_quotes (handle_liquidity_event ev s) = pending_quotes s"
  "claims (handle_liquidity_event ev s) = claims s"
  by (cases ev; simp add: send_fee_def send_buy_def)+

lemma await_fee_frame [simp]:
  "pending_quotes (snd (await_fee_response rid t s)) = pending_quotes s"
  "claims (snd (await_fee_response rid t s)) = claims s"
  by (simp_all add: await_fee_response_def split: option.splits)

lemma begin_fee_frame [simp]:
  "pending_quotes (begin_fee_request rid s) = pending_quotes s"
  "claims (begin_fee_request rid s) = claims s"
  by (simp_all add: begin_fee_request_def)

lemma min_receive_frame [simp]:
  "pending_quotes (snd (min_receive_sats r m n s)) = pending_quotes s"
  "claims (snd (min_receive_sats r m n s)) = claims s"
  by (simp_all add: min_receive_sats_def Let_def split: option.splits)

lemma claim_entry_fee:
  "expected_fee_msat (claim_entry cs h) = Some fee \<longleftrightarrow> (\<exists>c. cs h = Some c \<and> expected_fee_msat c = Some fee)"
  by (simp add: claim_entry_def split: option.splits)

lemma quote_step:
  assumes "quotes_ok s"
  shows "quotes_ok (snd (jit_quote_preconnected f amount menu now s))
    \<and> claims (snd (jit_quote_preconnected f amount menu now s)) = claims s"
proof (cases menu)
  case (Inr m)
  show ?thesis
  proof (cases "select_cheapest_valid_params f m amount now")
    case sel: (Inr r)
    then have "fst r < amount"
      by (auto simp: select_cheapest_valid_params_def Let_def not_le split: if_splits option.splits prod.splits)
    with assms Inr sel show ?thesis
      by (auto simp: jit_quote_preconnected_def quotes_ok_def Let_def split: prod.splits)
  qed (use assms Inr in \<open>simp add: jit_quote_preconnected_def\<close>)
qed (use assms in \<open>simp add: jit_quote_preconnected_def\<close>)

lemma finish_accept_cases:
  assumes run: "(case ans_connected ans of
             Inl e \<Rightarrow> (Inl e, s1)
           | Inr u \<Rightarrow>
               (case begin_buy_request (pa_amount_msat pa) (pa_params pa) (ans_sent ans) s1 of
                  (Inl e, s2) \<Rightarrow> (Inl e, s2)
                | (Inr rid, s2) \<Rightarrow>
                    let s3 = s2\<lparr> pending_buy_requests := pending_buy_requests s2 - {rid} \<rparr> in
                    (case ans_buy ans of
                       Inl e \<Rightarrow> (Inl e, s3)
                     | Inr buy \<Rightarrow> finish_accept (ans_invoice ans) pa buy (ans_inbound ans) s3))) = (res, s')"
  obtains (refused) e where "res = Inl e" "claims s' = claims s1" "pending_quotes s' = pending_quotes s1"
      "bought s' = bought s1 \<or> bought s' = bought s1 @ [(pa_amount_msat pa, pa_params pa)]"
  | (accepted) i h sec where "res = Inr (i, expires_at_unix pa, pa_opening_fee_msat pa)"
      "ans_inbound ans = Some (h, sec)" "claims s' = register_expected_fee h (pa_opening_fee_msat pa) (claims s1)"
      "pending_quotes s' = pending_quotes s1" "bought s' = bought s1 @ [(pa_amount_msat pa, pa_params pa)]"
  using run
  by (auto simp: begin_buy_request_def finish_accept_def Let_def split: sum.splits option.splits prod.splits)

lemma accept_cases:
  assumes "jit_accept token amount now ans s = (res, s')"
  obtains (refused) e where "res = Inl e" "claims s' = claims s"
      "pending_quotes s' = (pending_quotes s)(token := None)"
      "bought s' = bought s \<or> (\<exists>q. pending_quotes s token = Some q \<and> q_amount_msat q = amount
          \<and> unat now + 90 \<le> unat (valid_until (q_params q)) \<and> bought s' = bought s @ [(amount, q_params q)])"
  | (accepted) q i t h sec where "res = Inr (i, t, q_opening_fee_msat q)"
      "pending_quotes s token = Some q" "q_amount_msat q = amount" "ans_inbound ans = Some (h, sec)"
      "claims s' = register_expected_fee h (q_opening_fee_msat q) (claims s)"
      "pending_quotes s' = (pending_quotes s)(token := None)"
      "unat now + 90 \<le> unat (valid_until (q_params q))" "bought s' = bought s @ [(amount, q_params q)]"
      "unat t + 30 \<le> unat (valid_until (q_params q))"
proof (cases "pending_quotes s token")
  case None
  with assms show ?thesis by (auto simp: jit_accept_def prepare_accept_def fun_upd_idem intro: refused)
next
  case (Some q)
  define s1 where "s1 = s\<lparr> pending_quotes := (pending_quotes s)(token := None) \<rparr>"
  have s1: "claims s1 = claims s" "bought s1 = bought s" "pending_quotes s1 = (pending_quotes s)(token := None)"
    by (simp_all add: s1_def)
  show ?thesis
  proof (cases "q_amount_msat q = amount")
    case False
    with assms Some s1 show ?thesis
      by (intro refused[of "QuoteAmountMismatch (q_amount_msat q) amount"]) (auto simp: jit_accept_def prepare_accept_def)
  next
    case amt: True
    show ?thesis
    proof (cases "compute_jit_invoice_expiry_secs (valid_until (q_params q)) now")
      case (Inl e)
      with assms Some amt show ?thesis
        by (intro refused[of e]) (auto simp: jit_accept_def prepare_accept_def)
    next
      case exp: (Inr x)
      define pa where "pa = \<lparr> pa_amount_msat = amount, pa_opening_fee_msat = q_opening_fee_msat q, pa_params = q_params q,
                      pa_expiry_secs = x, expires_at_unix = now + ucast x \<rparr>"
      have prep: "prepare_accept token amount now s = (Inr pa, s1)"
        using Some amt exp by (simp add: prepare_accept_def s1_def pa_def)
      have fresh: "60 \<le> unat x" "unat x \<le> 3600" "unat now + unat x + 30 \<le> unat (valid_until (q_params q))"
        using expiry_clamp[of "valid_until (q_params q)" now] exp by auto
      have late: "unat (now + ucast x) + 30 \<le> unat (valid_until (q_params q))"
      proof -
        have "unat (ucast x :: u64) = unat x"
          using fresh(2) by (simp add: unsigned_ucast_eq take_bit_nat_eq_self)
        then have "unat (now + ucast x) \<le> unat now + unat x"
          by (metis unat_word_ariths(1) mod_less_eq_dividend)
        with fresh(3) show ?thesis by linarith
      qed
      from assms[unfolded jit_accept_def prep prod.case sum.case] show ?thesis
      proof (cases rule: finish_accept_cases)
        case (refused e)
        with s1 Some amt fresh show ?thesis
          by (intro that(1)[of e]) (auto simp: pa_def)
      next
        case (accepted i h sec)
        with s1 Some amt fresh late show ?thesis
          by (intro that(2)[of i "now + ucast x" q h sec]) (auto simp: pa_def)
      qed
    qed
  qed
qed

lemma liquidity_step_inv:
  assumes "liquidity_inv ls"
  shows "liquidity_inv (liquidity_step f op ls)"
proof -
  obtain l s where ls: "ls = (l, s)" by fastforce
  have inv: "quotes_ok s" "claims_ok l s" "log_ok l" using assms by (simp_all add: liquidity_inv_def ls)
  show ?thesis
  proof (cases op)
    case (OpQuote amount menu now)
    with inv quote_step[OF inv(1), of f amount menu now] show ?thesis
      by (simp add: ls liquidity_inv_def claims_ok_def)
  next
    case (OpAccept token amount now ans)
    obtain res s' where r: "jit_accept token amount now ans s = (res, s')" by fastforce
    from r show ?thesis
    proof (cases rule: accept_cases)
      case (refused e)
      with inv r OpAccept show ?thesis by (auto simp: ls liquidity_inv_def quotes_ok_def claims_ok_def)
    next
      case (accepted q i t h sec)
      have "q_opening_fee_msat q < amount" using inv(1) accepted(2,3) by (auto simp: quotes_ok_def)
      with inv r OpAccept accepted show ?thesis
        by (auto simp: ls liquidity_inv_def quotes_ok_def claims_ok_def log_ok_def register_expected_fee_def
            split: if_splits) blast+
    qed
  next
    case (OpClaimable h skim pre)
    show ?thesis
    proof (cases "on_payment_claimable h skim pre s")
      case (Pair act s')
      have s': "pending_quotes s' = pending_quotes s" "claims_ok l s'"
        using Pair inv(2)
        by (auto simp: on_payment_claimable_def decide_def Let_def claims_ok_def claim_entry_fee
            split: option.splits prod.splits if_splits)
      have "skim = 0 \<or> (\<exists>fee amount. (h, fee, amount) \<in> set (agreed l) \<and> skim \<le> fee)" if "act = ClaimFunds p" for p
      proof (cases "expected_fee_msat (claim_entry (claims s) h)")
        case None
        with Pair that have "skim \<le> 0"
          by (auto simp: on_payment_claimable_def decide_def Let_def not_less split: option.splits if_splits)
        then show ?thesis by simp
      next
        case (Some fee)
        with Pair that have "skim \<le> fee"
          by (auto simp: on_payment_claimable_def decide_def Let_def not_less split: option.splits if_splits)
        moreover obtain amount where "(h, fee, amount) \<in> set (agreed l)"
          using inv(2) Some unfolding claims_ok_def claim_entry_fee by blast
        ultimately show ?thesis by blast
      qed
      with s' inv Pair OpClaimable show ?thesis
        by (cases act) (auto simp: ls liquidity_inv_def quotes_ok_def claims_ok_def log_ok_def)
    qed
  next
    case (OpTakeSkim h)
    with inv show ?thesis
      by (auto simp: ls liquidity_inv_def quotes_ok_def claims_ok_def source_take_skim_def take_skim_def)
  qed (use inv in \<open>auto simp: ls liquidity_inv_def quotes_ok_def claims_ok_def\<close>)
qed

lemma liquidity_run_inv: "liquidity_inv ls \<Longrightarrow> liquidity_inv (fold (liquidity_step f) ops ls)"
  by (induction ops arbitrary: ls) (simp_all add: liquidity_step_inv)

text \<open>C36: the provider never gets away with skimming more than the quoted fee. Over every sequence of
  quotes, accepts, responses, claimable payments and claims, each payment the wallet claims had no
  fee skimmed, or the skim is at most the opening fee of a quote the user accepted for that payment
  hash, and that fee is strictly below the quoted amount.\<close>
theorem claims_stay_within_agreed_fee:
  "\<forall>(h, skim) \<in> set (claimed (fst (liquidity_run f lsp trusted ops))). skim = 0
     \<or> (\<exists>fee amount. (h, fee, amount) \<in> set (agreed (fst (liquidity_run f lsp trusted ops))) \<and> skim \<le> fee \<and> fee < amount)"
proof -
  have "liquidity_inv (\<lparr> agreed = [], claimed = [] \<rparr>, from_components lsp trusted)"
    by (simp add: liquidity_inv_def quotes_ok_def claims_ok_def log_ok_def from_components_def)
  then have "log_ok (fst (liquidity_run f lsp trusted ops))"
    unfolding liquidity_run_def using liquidity_run_inv liquidity_inv_def by blast
  then show ?thesis unfolding log_ok_def by fast
qed

text \<open>C37: a quote is single use and bound to what was quoted. Accepting a token consumes it, so a second
  accept answers \<open>QuoteNotFound\<close> and buys nothing; an accept sends at most one buy request, for the
  quoted amount and the quoted entry, and only with at least 90 seconds of the quote left; the
  invoice it returns carries the quoted fee and expires at least 30 seconds before the quote.\<close>
theorem quote_single_use_and_bound:
  assumes "jit_accept token amount now ans s = (res, s')"
  shows "fst (jit_accept token amount2 now2 ans2 s') = Inl QuoteNotFound
    \<and> bought (snd (jit_accept token amount2 now2 ans2 s')) = bought s'
    \<and> (bought s' = bought s \<or> (\<exists>q. pending_quotes s token = Some q \<and> q_amount_msat q = amount
          \<and> unat now + 90 \<le> unat (valid_until (q_params q)) \<and> bought s' = bought s @ [(amount, q_params q)]))
    \<and> (\<forall>i t fee. res = Inr (i, t, fee) \<longrightarrow> (\<exists>q. pending_quotes s token = Some q \<and> fee = q_opening_fee_msat q
          \<and> unat t + 30 \<le> unat (valid_until (q_params q))))"
proof -
  have again: "fst (jit_accept token amount2 now2 ans2 s') = Inl QuoteNotFound
    \<and> bought (snd (jit_accept token amount2 now2 ans2 s')) = bought s'" if "pending_quotes s' token = None"
    using that by (simp add: jit_accept_def prepare_accept_def)
  from assms show ?thesis
  proof (cases rule: accept_cases)
    case (refused e)
    with again show ?thesis by auto
  next
    case (accepted q i t h sec)
    with again show ?thesis by auto
  qed
qed

section \<open>A concrete menu\<close>

definition example_entry :: "u64 \<Rightarrow> u64 \<Rightarrow> opening_fee_params" where
  "example_entry lo hi = \<lparr> min_fee_msat = 2000, proportional = 0, valid_until = 10000, min_lifetime = 4032,
     max_client_to_self_delay = 2016, min_payment_size_msat = lo, max_payment_size_msat = hi, promise = ''p'' \<rparr>"

definition flat_fee :: fee_formula where
  "flat_fee amount min_fee prop = Some min_fee"

definition example_answers :: "unit accept_answers" where
  "example_answers = \<lparr> ans_connected = Inr (), ans_sent = Inr ''r1'',
     ans_buy = Inr \<lparr> intercept_scid = 7, cltv_expiry_delta = 40 \<rparr>, ans_inbound = Some ([1], [2]),
     ans_invoice = (\<lambda>_. Some ()) \<rparr>"

definition example_ops :: "unit liquidity_op list" where
  "example_ops = [OpQuote 5000 (Inr [example_entry 1000 9000]) 100, OpAccept 1 5000 200 example_answers,
     OpClaimable [1] 2000 (Some [9])]"

lemmas liquidity_eval = example_ops_def example_entry_def flat_fee_def example_answers_def from_components_def
  jit_quote_preconnected_def select_cheapest_valid_params_def live_entries_def fee_candidates_def fits_def
  jit_accept_def prepare_accept_def compute_jit_invoice_expiry_secs_def sat_sub_def INVOICE_MAX_EXPIRY_SECS_def
  JIT_INVOICE_FLIGHT_MARGIN_SECS_def JIT_INVOICE_MIN_EXPIRY_SECS_def begin_buy_request_def finish_accept_def
  register_expected_fee_def claim_entry_def on_payment_claimable_def decide_def

theorem selection_is_cheapest_witness:
  "eligible flat_fee [example_entry 1000 9000] 5000 100 2000 (example_entry 1000 9000) \<and> (2000 :: u64) < 5000
   \<and> (\<exists>r. select_cheapest_valid_params flat_fee [example_entry 1000 9000] 5000 100 = Inr r)"
proof -
  have "eligible flat_fee [example_entry 1000 9000] 5000 100 2000 (example_entry 1000 9000) \<and> (2000 :: u64) < 5000"
    by (simp add: eligible_def example_entry_def flat_fee_def)
  with selection_is_cheapest[of flat_fee "[example_entry 1000 9000]" 5000 100] show ?thesis by blast
qed

theorem gap_amount_reported_as_empty_menu_witness:
  "select_cheapest_valid_params flat_fee [example_entry 1000 2000, example_entry 8000 9000] 5000 100 = Inl EmptyMenu"
  by (rule gap_amount_reported_as_empty_menu[of "example_entry 1000 2000" _ "example_entry 8000 9000"])
    (auto simp: example_entry_def fits_def)

theorem invoice_expiry_within_quote_witness:
  "compute_jit_invoice_expiry_secs 10000 200 = Inr 3600 \<and> unat (200 :: u64) + unat (3600 :: u32) + 30 \<le> unat (10000 :: u64)"
proof -
  have "compute_jit_invoice_expiry_secs 10000 200 = Inr 3600" by (simp add: liquidity_eval)
  with invoice_expiry_within_quote[of 10000 200] show ?thesis by blast
qed

theorem claims_stay_within_agreed_fee_witness:
  "([1], 2000) \<in> set (claimed (fst (liquidity_run flat_fee [3] [] example_ops)))
   \<and> (\<exists>fee amount. ([1], fee, amount) \<in> set (agreed (fst (liquidity_run flat_fee [3] [] example_ops)))
          \<and> 2000 \<le> fee \<and> fee < amount)"
proof -
  have "([1], 2000) \<in> set (claimed (fst (liquidity_run flat_fee [3] [] example_ops)))"
    by (simp add: liquidity_run_def liquidity_eval Let_def)
  with claims_stay_within_agreed_fee[of flat_fee "[3]" "[]" example_ops] show ?thesis by fastforce
qed

theorem quote_single_use_and_bound_witness:
  "\<exists>s s'. jit_accept 1 5000 200 example_answers s = (Inr ((), 3800, 2000), s')
     \<and> fst (jit_accept 1 5000 200 example_answers s') = Inl QuoteNotFound"
proof -
  define s where "s = snd (jit_quote_preconnected flat_fee 5000 (Inr [example_entry 1000 9000]) 100 (from_components [3] []))"
  obtain s' where a: "jit_accept 1 5000 200 example_answers s = (Inr ((), 3800, 2000), s')"
    by (simp add: s_def liquidity_eval Let_def)
  with quote_single_use_and_bound[OF a, of 5000 200 example_answers] show ?thesis by blast
qed

theorem receive_floor_admits_every_quote_witness:
  "\<exists>fee p. select_cheapest_valid_params flat_fee [example_entry 1000 9000] 5000 100 = Inr (fee, p)
     \<and> unat (compute_min_receive_sats [example_entry 1000 9000] 100) \<le> 5"
proof -
  have s: "select_cheapest_valid_params flat_fee [example_entry 1000 9000] 5000 100 = Inr (2000, example_entry 1000 9000)"
    by (simp add: liquidity_eval Let_def)
  have "unat (compute_min_receive_sats [example_entry 1000 9000] 100) \<le> (unat (5000 :: u64) + 999) div 1000"
    by (rule receive_floor_admits_every_quote[OF _ s]) (simp add: flat_fee_def)
  with s show ?thesis by simp
qed

end
