(* ===== verification/Payment_Input.thy ===== *)
theory Payment_Input
  imports Text Liquidity Monitor_Keys
begin

text \<open>
  Payment requests as text. \<open>src/rust/src/send.rs\<close>: classification of a scanned or typed input (BIP321
  URIs, \<open>lightning:\<close> links, BOLT11 invoices, BOLT12 offers, BIP353 names, addresses), resolution of
  names over BIP353 and LNURL-pay, validation of the fetched invoice; and the URI writer of
  \<open>src/rust/src/receive.rs\<close>. The parsers of invoices, offers and names, the JSON reader, SHA-256 and the
  network are library code and are parameters.
\<close>

section \<open>Writing a URI\<close>

definition pad8 :: "nat \<Rightarrow> string" where
  "pad8 n = replicate (8 - length (nat_to_string n)) CHR ''0'' @ nat_to_string n"

definition sats_to_btc_string :: "u64 \<Rightarrow> string" where
  "sats_to_btc_string sats =
     nat_to_string (unat sats div 100000000) @ ''.'' @ pad8 (unat sats mod 100000000)"

fun join_amp :: "string list \<Rightarrow> string" where
  "join_amp [] = []"
| "join_amp [p] = p"
| "join_amp (p # ps) = p @ ''&'' @ join_amp ps"

definition build_bip321_uri_parts ::
  "string option \<Rightarrow> u64 option \<Rightarrow> string option \<Rightarrow> string option \<Rightarrow> string"
where
  "build_bip321_uri_parts address amount_sats invoice lno =
     (let base = (case address of
            Some a \<Rightarrow> if a \<noteq> [] then ''bitcoin:'' @ to_ascii_uppercase a else ''bitcoin:''
          | None \<Rightarrow> ''bitcoin:'');
          params =
            (case amount_sats of Some n \<Rightarrow> if n > 0 then [''amount='' @ sats_to_btc_string n] else [] | None \<Rightarrow> [])
            @ (case invoice of Some i \<Rightarrow> if i \<noteq> [] then [''lightning='' @ i] else [] | None \<Rightarrow> [])
            @ (case lno of Some l \<Rightarrow> if l \<noteq> [] then [''lno='' @ l] else [] | None \<Rightarrow> [])
      in if params = [] then base else base @ ''?'' @ join_amp params)"

definition build_bip321_uri :: "string \<Rightarrow> u64 option \<Rightarrow> string option \<Rightarrow> string" where
  "build_bip321_uri address amount_sats invoice = build_bip321_uri_parts (Some address) amount_sats invoice None"

definition build_bolt12_page_uri :: "string \<Rightarrow> string" where
  "build_bolt12_page_uri offer = build_bip321_uri_parts None None None (Some offer)"

section \<open>Parsed requests\<close>

record invoice =
  inv_mainnet :: bool
  inv_would_expire :: "nat \<Rightarrow> bool"
  inv_amount_msat :: "u64 option"
  inv_description :: "string + bytes" \<comment> \<open>a text, or the hash of one\<close>
  inv_payment_hash :: bytes

record offer =
  off_mainnet :: bool
  off_expired :: "nat \<Rightarrow> bool"
  off_amount_msat :: "u64 option" \<comment> \<open>only bitcoin-denominated amounts\<close>
  off_description :: "string option"

record parsers =
  p_bolt11 :: "string \<Rightarrow> invoice option"
  p_bolt12 :: "string \<Rightarrow> offer option"
  p_hrn :: "string \<Rightarrow> (string \<times> string) option" \<comment> \<open>user and domain\<close>

record lnurl_pay_metadata =
  lm_domain :: string
  lm_user :: string
  lm_callback :: string
  min_sendable_msat :: u64
  max_sendable_msat :: u64
  lm_description :: string
  expected_description_hash :: "bytes option"

datatype classified =
    Bolt11 string "u64 option" "string option" string
  | Bolt12 string "u64 option" "string option"
  | Bip321 classified "string option" "u64 option"
  | Bip353 string string string
  | Lnurl lnurl_pay_metadata string
  | OnchainAddress string "u64 option"
  | Invalid string

fun effective :: "classified \<Rightarrow> classified" where
  "effective (Bip321 preferred _ _) = effective preferred"
| "effective c = c"

definition min_sats :: "lnurl_pay_metadata \<Rightarrow> u64" where
  "min_sats m = min_sendable_msat m div 1000 + (if min_sendable_msat m mod 1000 = 0 then 0 else 1)"

definition max_sats :: "lnurl_pay_metadata \<Rightarrow> u64" where
  "max_sats m = max_sendable_msat m div 1000"

definition skip_amount_entry :: "lnurl_pay_metadata \<Rightarrow> bool" where
  "skip_amount_entry m \<longleftrightarrow> min_sats m = max_sats m"

section \<open>Classification\<close>

definition MAX_INPUT_CHARS :: nat where "MAX_INPUT_CHARS = 2000"

definition has_prefix_ci :: "string \<Rightarrow> string \<Rightarrow> bool" where
  \<comment> \<open>the prefixes are ASCII, so a match ends on a character boundary\<close>
  "has_prefix_ci s p \<longleftrightarrow> length s \<ge> length p \<and> eq_ignore_ascii_case (take (length p) s) p"

definition is_bech32_mainnet :: "string \<Rightarrow> bool" where
  "is_bech32_mainnet lower =
     (case strip_prefix ''bc1'' lower of
        None \<Rightarrow> False
      | Some rest \<Rightarrow> 25 \<le> length rest \<and> length rest \<le> 87 \<and> list_all (\<lambda>b. is_lower b \<or> is_ascii_digit b) rest)"

definition is_legacy_mainnet :: "string \<Rightarrow> bool" where
  "is_legacy_mainnet s =
     (case s of
        [] \<Rightarrow> False
      | c # rest \<Rightarrow>
          (c = CHR ''1'' \<or> c = CHR ''3'') \<and> 25 \<le> length rest \<and> length rest \<le> 34
          \<and> list_all (\<lambda>b. is_lower b \<and> b \<noteq> CHR ''l'' \<or> is_upper b \<and> b \<noteq> CHR ''I'' \<and> b \<noteq> CHR ''O''
               \<or> is_ascii_digit b \<and> b \<noteq> CHR ''0'') rest)"

definition BITCOIN_SIGN :: string where "BITCOIN_SIGN = bytes_str [0xE2, 0x82, 0xBF]"

definition strip_bitcoin_sign :: "string \<Rightarrow> string" where
  "strip_bitcoin_sign s = (case strip_prefix BITCOIN_SIGN s of None \<Rightarrow> s | Some r \<Rightarrow> r)"

definition is_bip353_candidate :: "string \<Rightarrow> bool" where
  "is_bip353_candidate input =
     (case split_once CHR ''@'' (strip_bitcoin_sign input) of
        None \<Rightarrow> False
      | Some (user, domain) \<Rightarrow>
          CHR ''@'' \<notin> set domain \<and> user \<noteq> []
          \<and> list_all (\<lambda>b. is_alnum b \<or> b = CHR ''.'' \<or> b = CHR ''_'' \<or> b = CHR ''-'') user
          \<and> (case rsplit_once CHR ''.'' domain of
               None \<Rightarrow> False
             | Some (labels, tld) \<Rightarrow>
                 labels \<noteq> [] \<and> list_all (\<lambda>b. is_alnum b \<or> b = CHR ''.'' \<or> b = CHR ''-'') labels
                 \<and> length tld \<ge> 2 \<and> list_all is_alpha tld))"

definition parse_bolt11 :: "parsers \<Rightarrow> string \<Rightarrow> nat \<Rightarrow> classified" where
  "parse_bolt11 ps raw now =
     (case p_bolt11 ps raw of
        None \<Rightarrow> Invalid ''Invalid Lightning invoice''
      | Some i \<Rightarrow>
          if \<not> inv_mainnet i then Invalid ''Invoice is for a different Bitcoin network''
          else if inv_would_expire i now then Invalid ''Invoice has expired''
          else Bolt11 raw (inv_amount_msat i)
                 (case inv_description i of Inl d \<Rightarrow> Some d | Inr _ \<Rightarrow> None) (hex_str (inv_payment_hash i)))"

definition parse_bolt12 :: "parsers \<Rightarrow> string \<Rightarrow> nat \<Rightarrow> classified" where
  "parse_bolt12 ps raw now =
     (case p_bolt12 ps raw of
        None \<Rightarrow> Invalid ''Invalid BOLT 12 offer''
      | Some offer \<Rightarrow>
          if \<not> off_mainnet offer then Invalid ''Offer is for a different Bitcoin network''
          else if off_expired offer now then Invalid ''Offer has expired''
          else Bolt12 raw (off_amount_msat offer) (off_description offer))"

fun trim_end_dots :: "string \<Rightarrow> string" where
  "trim_end_dots s = rev (dropWhile (\<lambda>c. c = CHR ''.'') (rev s))"

definition parse_bip353 :: "parsers \<Rightarrow> string \<Rightarrow> classified" where
  "parse_bip353 ps input =
     (let cleaned = strip_bitcoin_sign input in
      case p_hrn ps cleaned of
        None \<Rightarrow> Invalid ''Invalid address format''
      | Some (user, domain) \<Rightarrow> Bip353 user (trim_end_dots domain) cleaned)"

definition hex_val :: "char \<Rightarrow> nat option" where
  "hex_val c =
     (if is_ascii_digit c then Some (byte c - 48)
      else if 97 \<le> byte c \<and> byte c \<le> 102 then Some (byte c - 87)
      else if 65 \<le> byte c \<and> byte c \<le> 70 then Some (byte c - 55)
      else None)"

fun percent_bytes :: "string \<Rightarrow> string option" where
  "percent_bytes [] = Some []"
| "percent_bytes (c # s) =
     (if c = CHR ''%'' then
        (case s of
           h # l # rest \<Rightarrow>
             (case (hex_val h, hex_val l) of
                (Some a, Some b) \<Rightarrow> map_option (Cons (char_of (a * 16 + b))) (percent_bytes rest)
              | _ \<Rightarrow> None)
         | _ \<Rightarrow> None)
      else map_option (Cons c) (percent_bytes s))"

definition percent_decode :: "string \<Rightarrow> string option" where
  "percent_decode s =
     (case percent_bytes s of
        None \<Rightarrow> None
      | Some out \<Rightarrow> if utf8_valid (map byte out) then Some out else None)"

definition parse_u128 :: "string \<Rightarrow> nat option" where
  "parse_u128 s = (if s = [] then None else parse_digits (2 ^ 128) 0 s)"

definition btc_string_to_sats :: "string \<Rightarrow> u64 option" where
  "btc_string_to_sats btc =
     (let trimmed = trim btc;
          (whole, frac) = (case split_once CHR ''.'' trimmed of Some parts \<Rightarrow> parts | None \<Rightarrow> (trimmed, []))
      in if whole = [] \<or> \<not> list_all is_ascii_digit whole then None
         else if CHR ''.'' \<in> set trimmed \<and> (frac = [] \<or> \<not> list_all is_ascii_digit frac) then None
         else
           (case parse_u128 whole of
              None \<Rightarrow> None
            | Some w \<Rightarrow>
                let kept = take (min (length frac) 8) frac;
                    padded = kept @ replicate (8 - length kept) CHR ''0''
                in (case parse_u128 padded of
                      None \<Rightarrow> None
                    | Some f \<Rightarrow>
                        if w * 100000000 < 2 ^ 128 \<and> w * 100000000 + f < 2 ^ 128 \<and> w * 100000000 + f < 2 ^ 64
                        then Some (of_nat (w * 100000000 + f)) else None)))"

record uri_params =
  up_lno :: "string option"
  up_lightning :: "string option"
  up_amount :: "string option"

definition uri_pair :: "string \<Rightarrow> uri_params \<Rightarrow> uri_params option" where
  \<comment> \<open>one \<open>key=value\<close> pair of the query; \<open>None\<close> is a malformed escape\<close>
  "uri_pair pair acc =
     (if pair = [] then Some acc
      else
        let (raw_key, raw_value) = (case split_once CHR ''='' pair of Some kv \<Rightarrow> kv | None \<Rightarrow> (pair, []))
        in (case (percent_decode raw_key, percent_decode raw_value) of
              (Some key, Some v) \<Rightarrow>
                let k = to_lowercase key in
                Some (if k = ''lno'' then acc\<lparr> up_lno := Some v \<rparr>
                      else if k = ''lightning'' then acc\<lparr> up_lightning := Some v \<rparr>
                      else if k = ''amount'' then acc\<lparr> up_amount := Some v \<rparr>
                      else acc)
            | _ \<Rightarrow> None))"

fun uri_pairs :: "string list \<Rightarrow> uri_params \<Rightarrow> uri_params option" where
  "uri_pairs [] acc = Some acc"
| "uri_pairs (p # ps) acc = Option.bind (uri_pair p acc) (uri_pairs ps)"

definition no_params :: uri_params where
  "no_params = \<lparr> up_lno = None, up_lightning = None, up_amount = None \<rparr>"

definition parse_bip321 :: "parsers \<Rightarrow> string \<Rightarrow> nat \<Rightarrow> classified" where
  "parse_bip321 ps input now =
     (let without_scheme = drop 8 input;
          segments = split_on CHR ''?'' without_scheme;
          address = trim (hd segments);
          query = (case segments of _ # q # _ \<Rightarrow> Some q | _ \<Rightarrow> None)
      in if \<not> (case query of Some q \<Rightarrow> q \<noteq> [] | None \<Rightarrow> False) \<and> address = [] then Invalid ''Empty Bitcoin URI''
         else
           (case (case query of None \<Rightarrow> Some no_params | Some q \<Rightarrow> uri_pairs (split_on CHR ''&'' q) no_params) of
              None \<Rightarrow> Invalid ''Malformed Bitcoin URI''
            | Some params \<Rightarrow>
                let amount_sats = Option.bind (up_amount params) btc_string_to_sats;
                    fallback = (if address \<noteq> [] \<and> (is_bech32_mainnet (to_lowercase address) \<or> is_legacy_mainnet address)
                                then Some address else None)
                in (case (up_lno params, up_lightning params) of
                      (Some lno, _) \<Rightarrow> Bip321 (parse_bolt12 ps lno now) fallback amount_sats
                    | (None, Some ln) \<Rightarrow> Bip321 (parse_bolt11 ps ln now) fallback amount_sats
                    | (None, None) \<Rightarrow>
                        if address = [] then Invalid ''Bitcoin URI has no payment method''
                        else (case fallback of
                           Some a \<Rightarrow> Bip321 (OnchainAddress a amount_sats) fallback amount_sats
                         | None \<Rightarrow> Invalid ''Address is for a different Bitcoin network''))))"

lemma strip_seqs_length: "length (strip_seqs seqs s) \<le> length s"
proof (induction seqs s rule: strip_seqs.induct)
  case (1 seqs s)
  show ?case
    by (subst strip_seqs.simps)
      (use 1 in \<open>auto split: option.splits intro: le_trans\<close>)
qed

lemma trim_length: "length (trim s) \<le> length s"
proof -
  have "length (trim_end (trim_start s)) \<le> length (trim_start s)"
    using strip_seqs_length[of "map rev ws_seqs" "rev (trim_start s)"] by (simp add: trim_end_def)
  also have "\<dots> \<le> length s" by (simp add: trim_start_def strip_seqs_length)
  finally show ?thesis by (simp add: trim_def)
qed

function classify_at :: "parsers \<Rightarrow> string \<Rightarrow> nat \<Rightarrow> classified" where
  "classify_at ps raw now =
     (if chars_count raw > MAX_INPUT_CHARS then Invalid ''Scanned input is too long''
      else
        let input = trim raw in
        if has_prefix_ci input ''bitcoin:'' then parse_bip321 ps input now
        else if has_prefix_ci input ''lightning:'' then classify_at ps (drop 10 input) now
        else if has_prefix_ci input ''lnbc'' \<or> has_prefix_ci input ''lntb'' then parse_bolt11 ps input now
        else if has_prefix_ci input ''lno1'' then parse_bolt12 ps input now
        else if is_bip353_candidate input then parse_bip353 ps input
        else if is_bech32_mainnet (to_lowercase input) \<or> is_legacy_mainnet input then OnchainAddress input None
        else Invalid ''Unrecognized payment format'')"
  by pat_completeness auto
termination
proof (relation "measure (\<lambda>(ps, raw, now). length raw)")
  fix ps :: parsers and raw input :: string and now :: nat
  assume "input = trim raw" "has_prefix_ci input ''lightning:''"
  then show "((ps, drop 10 input, now), (ps, raw, now)) \<in> measure (\<lambda>(ps, raw, now). length raw)"
    using trim_length[of raw] by (auto simp: has_prefix_ci_def)
qed simp

declare classify_at.simps [simp del]

section \<open>Resolution\<close>

datatype resolve_error =
    NotFound string
  | ServerError string
  | CallbackNotHttps
  | InvalidCallback
  | CallbackDomainMismatch
  | InvoiceFetchFailed
  | NoInvoice
  | InvalidProviderInvoice
  | InvoiceAmountMismatch
  | DescriptionHashMismatch
  | AmountOutOfBounds u64 u64

record lnurl_init =
  li_callback :: string
  li_min_sendable_msat :: u64
  li_max_sendable_msat :: u64
  li_description :: "string option"
  li_expected_description_hash :: "bytes option"

datatype bip353_outcome = FoundBip353 string | FoundLnurl lnurl_init | Miss

record resolver = \<comment> \<open>\<open>None\<close> is a step that ran out of its time budget\<close>
  rs_resolve_bip353 :: "string \<Rightarrow> string \<Rightarrow> bip353_outcome option"
  rs_lnurl_init :: "string \<Rightarrow> string \<Rightarrow> (resolve_error + lnurl_init option) option"
  rs_lnurl_callback :: "string \<Rightarrow> (resolve_error + string) option"

fun after_sub :: "string \<Rightarrow> string \<Rightarrow> string option" where
  \<comment> \<open>what follows the first occurrence of a pattern\<close>
  "after_sub p [] = (if p = [] then Some [] else None)"
| "after_sub p (c # s) = (if take (length p) (c # s) = p then Some (drop (length p) (c # s)) else after_sub p s)"

definition url_hostname :: "string \<Rightarrow> string option" where
  "url_hostname url =
     (case after_sub ''://'' url of
        None \<Rightarrow> None
      | Some after_scheme \<Rightarrow>
          let authority = takeWhile (\<lambda>c. c \<noteq> CHR ''/'' \<and> c \<noteq> CHR ''?'' \<and> c \<noteq> CHR ''#'') after_scheme;
              host_port = (case rsplit_once CHR ''@'' authority of Some (_, h) \<Rightarrow> h | None \<Rightarrow> authority);
              host = (if host_port \<noteq> [] \<and> hd host_port = CHR ''['' then host_port
                      else takeWhile (\<lambda>c. c \<noteq> CHR '':'') host_port)
          in if host = [] then None else Some (to_lowercase host))"

definition starts_with :: "string \<Rightarrow> string \<Rightarrow> bool" where
  "starts_with s p \<longleftrightarrow> take (length p) s = p"

definition ends_with :: "string \<Rightarrow> string \<Rightarrow> bool" where
  "ends_with s p \<longleftrightarrow> length p \<le> length s \<and> drop (length s - length p) s = p"

definition finish_lnurl :: "lnurl_init \<Rightarrow> string \<Rightarrow> string \<Rightarrow> string \<Rightarrow> resolve_error + classified" where
  "finish_lnurl init user domain raw =
     (if \<not> starts_with (li_callback init) ''https://'' then Inl CallbackNotHttps
      else case url_hostname (li_callback init) of
        None \<Rightarrow> Inl InvalidCallback
      | Some host \<Rightarrow>
          if host \<noteq> domain \<and> \<not> ends_with host (''.'' @ domain) then Inl CallbackDomainMismatch
          else Inr (Lnurl
            \<lparr> lm_domain = domain, lm_user = user, lm_callback = li_callback init,
              min_sendable_msat = li_min_sendable_msat init, max_sendable_msat = li_max_sendable_msat init,
              lm_description = (case li_description init of Some d \<Rightarrow> d | None \<Rightarrow> user @ ''@'' @ domain),
              expected_description_hash = li_expected_description_hash init \<rparr> raw))"

fun is_invalid :: "classified \<Rightarrow> bool" where
  "is_invalid (Invalid _) = True"
| "is_invalid _ = False"

definition lnurl_step :: "resolver \<Rightarrow> string \<Rightarrow> string \<Rightarrow> string \<Rightarrow> resolve_error + classified" where
  "lnurl_step rs user domain raw =
     (case (case rs_lnurl_init rs user domain of None \<Rightarrow> Inr None | Some r \<Rightarrow> r) of
        Inl e \<Rightarrow> Inl e
      | Inr (Some init) \<Rightarrow> finish_lnurl init user domain raw
      | Inr None \<Rightarrow> Inl (NotFound raw))"

fun resolve :: "parsers \<Rightarrow> resolver \<Rightarrow> classified \<Rightarrow> nat \<Rightarrow> resolve_error + classified" where
  "resolve ps rs (Bip353 user domain raw) now =
     (case (case rs_resolve_bip353 rs user domain of None \<Rightarrow> Miss | Some oc \<Rightarrow> oc) of
        FoundBip353 txt \<Rightarrow>
          (let parsed = classify_at ps txt now in
           if \<not> is_invalid (effective parsed) then Inr parsed else lnurl_step rs user domain raw)
      | FoundLnurl init \<Rightarrow> finish_lnurl init user domain raw
      | Miss \<Rightarrow> lnurl_step rs user domain raw)"
| "resolve ps rs c now = Inr c"

definition jget :: "json \<Rightarrow> string \<Rightarrow> json option" where
  \<comment> \<open>\<open>Value::get\<close>\<close>
  "jget v k = Option.bind (as_object v) (\<lambda>ob. map_of ob k)"

definition jstr :: "json \<Rightarrow> string \<Rightarrow> string option" where
  "jstr v k = Option.bind (jget v k) as_str"

fun text_plain :: "json list list \<Rightarrow> string option" where
  \<comment> \<open>the first \<open>text/plain\<close> entry with a string value\<close>
  "text_plain [] = None"
| "text_plain (entry # es) =
     (case entry of
        mime # v # _ \<Rightarrow>
          if as_str mime = Some ''text/plain'' \<and> as_str v \<noteq> None then as_str v else text_plain es
      | _ \<Rightarrow> text_plain es)"

definition metadata_entries :: "json \<Rightarrow> json list list option" where
  "metadata_entries v = Option.bind (as_array v) (\<lambda>es. those (map as_array es))"

definition validate_lnurl_init ::
  "(string \<Rightarrow> json option) \<Rightarrow> (string \<Rightarrow> bytes) \<Rightarrow> string \<Rightarrow> resolve_error + lnurl_init option"
where
  "validate_lnurl_init from_str sha body =
     (case from_str body of
        None \<Rightarrow> Inr None
      | Some data \<Rightarrow>
          if jstr data ''status'' = Some ''ERROR'' then
            Inl (ServerError (case jstr data ''reason'' of Some r \<Rightarrow> r | None \<Rightarrow> ''Lightning Address returned an error''))
          else if jstr data ''tag'' \<noteq> Some ''payRequest'' then Inr None
          else (case jstr data ''callback'' of
             None \<Rightarrow> Inr None
           | Some cb \<Rightarrow>
               if cb = [] then Inr None
               else
                 let lo = (case Option.bind (jget data ''minSendable'') as_u64 of Some n \<Rightarrow> n | None \<Rightarrow> 0);
                     hi = (case Option.bind (jget data ''maxSendable'') as_u64 of Some n \<Rightarrow> n | None \<Rightarrow> 0);
                     meta = jstr data ''metadata''
                 in if lo = 0 \<or> hi = 0 then Inr None
                    else Inr (Some
                      \<lparr> li_callback = cb, li_min_sendable_msat = lo, li_max_sendable_msat = hi,
                        li_description = Option.bind (Option.bind (Option.bind meta from_str) metadata_entries) text_plain,
                        li_expected_description_hash = map_option sha meta \<rparr>)))"

definition validate_lnurl_invoice ::
  "parsers \<Rightarrow> (string \<Rightarrow> json option) \<Rightarrow> string \<Rightarrow> u64 \<Rightarrow> bytes option \<Rightarrow> nat \<Rightarrow> resolve_error + classified"
where
  "validate_lnurl_invoice ps from_str body requested expected now =
     (case from_str body of
        None \<Rightarrow> Inl InvoiceFetchFailed
      | Some data \<Rightarrow>
          if jstr data ''status'' = Some ''ERROR'' then
            Inl (ServerError (case jstr data ''reason'' of Some r \<Rightarrow> r | None \<Rightarrow> ''LNURL error''))
          else (case jstr data ''pr'' of
             None \<Rightarrow> Inl NoInvoice
           | Some pr \<Rightarrow>
               if pr = [] then Inl NoInvoice
               else (case classify_at ps pr now of
                  Bolt11 raw amount d h \<Rightarrow>
                    if amount \<noteq> Some requested then Inl InvoiceAmountMismatch
                    else (case expected of
                       None \<Rightarrow> Inr (Bolt11 raw amount d h)
                     | Some hash \<Rightarrow>
                         (case p_bolt11 ps pr of
                            None \<Rightarrow> Inl InvalidProviderInvoice
                          | Some i \<Rightarrow>
                              if inv_description i = Inr hash then Inr (Bolt11 raw amount d h)
                              else Inl DescriptionHashMismatch))
                | _ \<Rightarrow> Inl InvalidProviderInvoice)))"

definition fetch_lnurl_invoice ::
  "parsers \<Rightarrow> (string \<Rightarrow> json option) \<Rightarrow> resolver \<Rightarrow> lnurl_pay_metadata \<Rightarrow> u64 \<Rightarrow> nat \<Rightarrow> resolve_error + classified"
where
  "fetch_lnurl_invoice ps from_str rs m amount now =
     (if amount < min_sendable_msat m \<or> amount > max_sendable_msat m
      then Inl (AmountOutOfBounds (min_sendable_msat m) (max_sendable_msat m))
      else
        let sep = (if CHR ''?'' \<in> set (lm_callback m) then ''&'' else ''?'');
            url = lm_callback m @ sep @ ''amount='' @ u64_to_string amount
        in case rs_lnurl_callback rs url of
             None \<Rightarrow> Inl InvoiceFetchFailed
           | Some (Inl e) \<Rightarrow> Inl e
           | Some (Inr body) \<Rightarrow>
               validate_lnurl_invoice ps from_str body amount (expected_description_hash m) now)"

section \<open>Lemmas on classification\<close>

lemma parse_bolt11_Bolt11:
  "parse_bolt11 ps s now = Bolt11 raw a d h \<Longrightarrow>
     raw = s \<and> (\<exists>i. p_bolt11 ps raw = Some i \<and> inv_mainnet i \<and> \<not> inv_would_expire i now \<and> a = inv_amount_msat i
       \<and> h = hex_str (inv_payment_hash i))"
  by (auto simp: parse_bolt11_def split: option.splits if_splits)

lemma parse_simple:
  "parse_bolt11 ps s now = c \<Longrightarrow> (\<exists>r a d h. c = Bolt11 r a d h) \<or> is_invalid c"
  "parse_bolt12 ps s now = c' \<Longrightarrow> (\<exists>r a d. c' = Bolt12 r a d) \<or> is_invalid c'"
  by (auto simp: parse_bolt11_def parse_bolt12_def split: option.splits if_splits)

lemma parse_bip321_shape:
  "is_invalid (parse_bip321 ps s now) \<or> (\<exists>p f a. parse_bip321 ps s now = Bip321 p f a)"
  unfolding parse_bip321_def Let_def by (simp split: option.split prod.split)

lemma if_chain:
  assumes "z = (if a then x1 else if b then x2 else if r then x3 else if c then x4 else if d then x5 else if f then x6 else if g then x7 else x8)"
    and "\<not> (\<not> a \<and> \<not> b \<and> r)"
  shows "z = x1 \<or> z = x2 \<or> z = x4 \<or> z = x5 \<or> z = x6 \<or> z = x7 \<or> z = x8"
  using assms by auto

lemma classify_cases:
  obtains (bolt11) s' where "classify_at ps s now = parse_bolt11 ps s' now"
  | (bolt12) s' where "classify_at ps s now = parse_bolt12 ps s' now"
  | (bip321) s' where "classify_at ps s now = parse_bip321 ps s' now"
  | (bip353) s' where "classify_at ps s now = parse_bip353 ps s'"
  | (address) a where "classify_at ps s now = OnchainAddress a None"
  | (invalid) why where "classify_at ps s now = Invalid why"
proof (induction ps s now arbitrary: thesis rule: classify_at.induct)
  case (1 ps s now)
  define input where "input = trim s"
  define recurse where "recurse \<longleftrightarrow> \<not> chars_count s > MAX_INPUT_CHARS \<and> \<not> has_prefix_ci input ''bitcoin:''
     \<and> has_prefix_ci input ''lightning:''"
  note unf = classify_at.simps[of ps s now, folded input_def, unfolded Let_def]
  show ?case
  proof (cases recurse)
    case True
    then have eq: "classify_at ps s now = classify_at ps (drop 10 input) now"
      by (subst unf) (simp add: recurse_def)
    show ?thesis
      by (rule "1.IH"[OF _ input_def]) (use True eq "1.prems" in \<open>auto simp: recurse_def\<close>)
  next
    case False
    consider "classify_at ps s now = Invalid ''Scanned input is too long''"
      | "classify_at ps s now = parse_bip321 ps input now" | "classify_at ps s now = parse_bolt11 ps input now"
      | "classify_at ps s now = parse_bolt12 ps input now" | "classify_at ps s now = parse_bip353 ps input"
      | "classify_at ps s now = OnchainAddress input None" | "classify_at ps s now = Invalid ''Unrecognized payment format''"
      using if_chain[OF unf False[unfolded recurse_def]] by blast
    then show ?thesis by cases (use "1.prems" in blast)+
  qed
qed

lemma classify_Bolt11:
  assumes "classify_at ps s now = Bolt11 raw a d h"
  shows "\<exists>i. p_bolt11 ps raw = Some i \<and> inv_mainnet i \<and> \<not> inv_would_expire i now \<and> a = inv_amount_msat i
       \<and> h = hex_str (inv_payment_hash i)"
proof (cases rule: classify_cases[of ps s now])
  case (bolt11 s')
  with assms parse_bolt11_Bolt11 show ?thesis by metis
next
  case (bolt12 s')
  with assms show ?thesis by (auto simp: parse_bolt12_def split: option.splits if_splits)
next
  case (bip321 s')
  with assms parse_bip321_shape[of ps s' now] show ?thesis by auto
next
  case (bip353 s')
  with assms show ?thesis by (auto simp: parse_bip353_def Let_def split: option.splits)
qed (use assms in auto)

lemma classify_not_Lnurl: "classify_at ps s now \<noteq> Lnurl m r"
proof (cases rule: classify_cases[of ps s now])
  case (bolt11 s')
  then show ?thesis by (auto simp: parse_bolt11_def split: option.splits)
next
  case (bolt12 s')
  then show ?thesis by (auto simp: parse_bolt12_def split: option.splits)
next
  case (bip321 s')
  with parse_bip321_shape[of ps s' now] show ?thesis by auto
next
  case (bip353 s')
  then show ?thesis by (auto simp: parse_bip353_def Let_def split: option.splits)
qed auto

section \<open>Round trip of amounts and URIs\<close>

lemma digit_printable: "is_ascii_digit c \<Longrightarrow> printable c"
  by (simp add: printable_def is_ascii_digit_iff byte_def)

lemma length_nat_to_string: "0 < k \<Longrightarrow> n < 10 ^ k \<Longrightarrow> length (nat_to_string n) \<le> k"
proof (induction k arbitrary: n)
  case (Suc k)
  show ?case
  proof (cases "n < 10")
    case True
    then show ?thesis by (simp add: nat_to_string.simps[of n])
  next
    case False
    then have "k \<noteq> 0" using Suc.prems by (cases k) auto
    moreover have "n div 10 < 10 ^ k" using Suc.prems by (simp add: less_mult_imp_div_less mult.commute)
    ultimately have "length (nat_to_string (n div 10)) \<le> k" using Suc.IH by simp
    with False show ?thesis by (simp add: nat_to_string.simps[of n])
  qed
qed simp

lemma parse_digits_zeros: "0 < lim \<Longrightarrow> parse_digits lim 0 (replicate k CHR ''0'' @ s) = parse_digits lim 0 s"
  by (induction k) (simp_all add: is_ascii_digit_iff digit_val_def)

lemma pad8_props:
  assumes "n < 100000000"
  shows "length (pad8 n) = 8" "list_all is_ascii_digit (pad8 n)" "parse_u128 (pad8 n) = Some n"
proof -
  show "length (pad8 n) = 8" using length_nat_to_string[of 8 n] assms by (simp add: pad8_def)
  show "list_all is_ascii_digit (pad8 n)"
    using nat_to_string_digits by (auto simp: pad8_def list_all_iff is_ascii_digit_iff)
  show "parse_u128 (pad8 n) = Some n"
    using assms by (simp add: parse_u128_def pad8_def parse_digits_zeros parse_digits_nat_to_string)
qed

lemma btc_round: "btc_string_to_sats (sats_to_btc_string n) = Some n"
proof -
  define w f where "w = unat n div 100000000" and "f = unat n mod 100000000"
  define s where "s = sats_to_btc_string n"
  have s: "s = nat_to_string w @ CHR ''.'' # pad8 f" by (simp add: s_def sats_to_btc_string_def w_def f_def)
  have f: "f < 100000000" and n: "w * 100000000 + f = unat n" by (simp_all add: w_def f_def)
  note p = pad8_props[OF f]
  have ln: "unat n < 2 ^ 64" using unsigned_less[of n, where 'a = nat] by simp
  have dw: "list_all is_ascii_digit (nat_to_string w)" using nat_to_string_digits by (auto simp: list_all_iff)
  have nd: "CHR ''.'' \<notin> set (nat_to_string w)" using nat_to_string_digits[of "CHR ''.''" w] by (auto simp: is_ascii_digit_iff)
  have "last (pad8 f) \<in> set (pad8 f)" using p(1) by (cases "pad8 f") auto
  then have "trim s = s"
    by (intro trim_id) (use p dw in \<open>auto simp: s list_all_iff last_append hd_append digit_printable\<close>)
  moreover have "split_once CHR ''.'' s = Some (nat_to_string w, pad8 f)" using nd by (simp add: split_once_Some s)
  moreover have "parse_u128 (nat_to_string w) = Some w"
    using n ln by (simp add: parse_u128_def parse_digits_nat_to_string)
  moreover have "pad8 f \<noteq> []" using p(1) by auto
  ultimately show ?thesis
    using p dw n ln by (simp add: btc_string_to_sats_def s_def[symmetric] Let_def)
qed

lemma split_on_none: "c \<notin> set s \<Longrightarrow> split_on c s = [s]"
  by (induction s) auto

lemma split_on_append: "c \<notin> set a \<Longrightarrow> split_on c (a @ c # b) = a # split_on c b"
  by (induction a) auto

lemma utf8_valid_ascii: "\<forall>b \<in> set bs. b < 128 \<Longrightarrow> utf8_valid bs"
  by (induction bs) simp_all

lemma percent_bytes_id: "CHR ''%'' \<notin> set s \<Longrightarrow> percent_bytes s = Some s"
  by (induction s) auto

lemma percent_decode_id: "CHR ''%'' \<notin> set s \<Longrightarrow> \<forall>c \<in> set s. byte c < 128 \<Longrightarrow> percent_decode s = Some s"
  by (simp add: percent_decode_def percent_bytes_id utf8_valid_ascii)

lemma to_lowercase_ascii: "\<forall>c \<in> set s. byte c < 128 \<Longrightarrow> to_lowercase s = map lower_char s"
proof (induction s rule: to_lowercase.induct)
  case (2 a b c s)
  then have "[a, b, c] \<noteq> KELVIN" by (auto simp: KELVIN_def bytes_str_def byte_def)
  with 2 show ?case by simp
qed simp_all

definition bech32_char :: "char \<Rightarrow> bool" where
  "bech32_char c \<longleftrightarrow> is_lower c \<or> is_ascii_digit c"

lemma lower_upper: "bech32_char c \<Longrightarrow> lower_char (upper_char c) = c"
  by (auto simp: bech32_char_def lower_char_def upper_char_def is_lower_def is_upper_def byte_def is_ascii_digit_iff)

lemma upper_char_props:
  assumes "bech32_char c"
  shows "byte (upper_char c) < 128" "printable (upper_char c)" "upper_char c \<noteq> CHR ''?''"
proof -
  have "is_upper (upper_char c) \<or> is_ascii_digit (upper_char c)"
    using assms by (auto simp: bech32_char_def upper_char_def is_lower_def is_upper_def byte_def is_ascii_digit_iff)
  then show "byte (upper_char c) < 128" "printable (upper_char c)" "upper_char c \<noteq> CHR ''?''"
    by (auto simp: is_upper_def is_ascii_digit_iff byte_def printable_def)
qed

lemma alnum_props:
  assumes "is_alnum c"
  shows "byte c < 128" "printable c" "c \<noteq> CHR ''?''" "c \<noteq> CHR ''&''" "c \<noteq> CHR ''%''"
  using assms by (auto simp: is_alnum_def is_alpha_def is_lower_def is_upper_def byte_def is_ascii_digit_iff printable_def)

section \<open>Properties\<close>

lemma uri_pair_value:
  assumes "list_all (\<lambda>c. byte c < 128 \<and> c \<noteq> CHR ''%'') v" and "k \<noteq> []" and "CHR ''='' \<notin> set k"
    and "list_all (\<lambda>c. byte c < 128 \<and> c \<noteq> CHR ''%'') k"
  shows "uri_pair (k @ CHR ''='' # v) acc =
    (let k' = map lower_char k in
     Some (if k' = ''lno'' then acc\<lparr> up_lno := Some v \<rparr>
           else if k' = ''lightning'' then acc\<lparr> up_lightning := Some v \<rparr>
           else if k' = ''amount'' then acc\<lparr> up_amount := Some v \<rparr>
           else acc))"
proof -
  have "split_once CHR ''='' (k @ CHR ''='' # v) = Some (k, v)" using assms(3) by (simp add: split_once_Some)
  moreover have "percent_decode k = Some k" "percent_decode v = Some v"
    by (rule percent_decode_id; use assms in \<open>auto simp: list_all_iff\<close>)+
  moreover have "to_lowercase k = map lower_char k"
    by (rule to_lowercase_ascii) (use assms(4) in \<open>auto simp: list_all_iff\<close>)
  ultimately show ?thesis using assms(2) by (simp add: uri_pair_def Let_def)
qed

lemma btc_string_chars:
  "list_all (\<lambda>c. is_ascii_digit c \<or> c = CHR ''.'') (sats_to_btc_string n)"
proof -
  have "unat n mod 100000000 < 100000000" by simp
  from pad8_props(2)[OF this] show ?thesis
    using nat_to_string_digits by (auto simp: sats_to_btc_string_def list_all_iff)
qed

lemma btc_string_safe:
  "list_all (\<lambda>c. byte c < 128 \<and> c \<noteq> CHR ''%'') (sats_to_btc_string n)"
  "CHR ''&'' \<notin> set (sats_to_btc_string n)" "CHR ''?'' \<notin> set (sats_to_btc_string n)"
  using btc_string_chars[of n] by (auto simp: list_all_iff is_ascii_digit_iff byte_def)

lemma bech32_addr:
  assumes "is_bech32_mainnet addr"
  shows "addr \<noteq> []" "list_all bech32_char addr"
proof -
  obtain rest where a: "addr = ''bc1'' @ rest" and r: "list_all (\<lambda>b. is_lower b \<or> is_ascii_digit b) rest"
  proof (cases "strip_prefix ''bc1'' addr")
    case None
    with assms show ?thesis by (simp add: is_bech32_mainnet_def)
  next
    case (Some rest)
    then have "addr = ''bc1'' @ rest"
      unfolding strip_prefix_def by (metis append_take_drop_id option.distinct(1) option.inject)
    with Some assms that show ?thesis by (simp add: is_bech32_mainnet_def)
  qed
  show "addr \<noteq> []" by (simp add: a)
  have "list_all bech32_char ''bc1''" by (simp add: bech32_char_def is_lower_def byte_def is_ascii_digit_iff)
  with r show "list_all bech32_char addr" by (simp add: a bech32_char_def list_all_iff)
qed

lemma upper_addr:
  assumes "list_all bech32_char addr" "addr \<noteq> []"
  shows "trim (to_ascii_uppercase addr) = to_ascii_uppercase addr" "CHR ''?'' \<notin> set (to_ascii_uppercase addr)"
    "to_lowercase (to_ascii_uppercase addr) = addr"
proof -
  have all: "c \<in> set (to_ascii_uppercase addr) \<Longrightarrow> byte c < 128 \<and> printable c \<and> c \<noteq> CHR ''?''" for c
    using assms(1) upper_char_props by (auto simp: to_ascii_uppercase_def list_all_iff)
  have ne: "to_ascii_uppercase addr \<noteq> []" using assms(2) by (simp add: to_ascii_uppercase_def)
  show "trim (to_ascii_uppercase addr) = to_ascii_uppercase addr"
    by (rule trim_id) (use ne all in auto)
  show "CHR ''?'' \<notin> set (to_ascii_uppercase addr)" using all by blast
  have "to_lowercase (to_ascii_uppercase addr) = map lower_char (to_ascii_uppercase addr)"
    by (rule to_lowercase_ascii) (use all in blast)
  also have "\<dots> = addr"
    using assms(1) lower_upper by (simp add: to_ascii_uppercase_def list_all_iff map_idI)
  finally show "to_lowercase (to_ascii_uppercase addr) = addr" .
qed

lemma uri_query:
  assumes "list_all is_alnum bolt11"
  shows "uri_pairs (split_on CHR ''&'' (''amount='' @ sats_to_btc_string n @ ''&lightning='' @ bolt11)) no_params
    = Some \<lparr> up_lno = None, up_lightning = Some bolt11, up_amount = Some (sats_to_btc_string n) \<rparr>"
proof -
  have b: "list_all (\<lambda>c. byte c < 128 \<and> c \<noteq> CHR ''%'') bolt11" "CHR ''&'' \<notin> set bolt11"
    using assms alnum_props(1,4,5) unfolding list_all_iff by blast+
  have "split_on CHR ''&'' ((''amount='' @ sats_to_btc_string n) @ CHR ''&'' # (''lightning='' @ bolt11))
      = [''amount='' @ sats_to_btc_string n, ''lightning='' @ bolt11]"
    using b(2) btc_string_safe(2)[of n] by (subst split_on_append) (simp_all add: split_on_none)
  then have sp: "split_on CHR ''&'' (''amount='' @ sats_to_btc_string n @ ''&lightning='' @ bolt11)
      = [''amount='' @ sats_to_btc_string n, ''lightning='' @ bolt11]" by simp
  have a: "uri_pair (''amount='' @ sats_to_btc_string n) acc = Some (acc\<lparr> up_amount := Some (sats_to_btc_string n) \<rparr>)" for acc
    using uri_pair_value[of "sats_to_btc_string n" "''amount''" acc] btc_string_safe(1)[of n]
    by (simp add: lower_char_def is_upper_def byte_def)
  have l: "uri_pair (''lightning='' @ bolt11) acc = Some (acc\<lparr> up_lightning := Some bolt11 \<rparr>)" for acc
    using uri_pair_value[of bolt11 "''lightning''" acc] b(1) by (simp add: lower_char_def is_upper_def byte_def)
  show ?thesis unfolding sp uri_pairs.simps a Option.bind_lunit l by (simp add: no_params_def)
qed

text \<open>A payment request written by the receive screen is read back by the send screen. For a
  bech32 address, a positive amount and an alphanumeric invoice, classifying the BIP321 URI prefers
  the invoice, keeps the (uppercased) address as the on-chain fallback and recovers the exact amount
  in sats; and the amount text itself round-trips for every amount.\<close>
theorem bip321_uri_roundtrip:
  assumes "is_bech32_mainnet addr" and "list_all is_alnum bolt11" and "bolt11 \<noteq> []" and "n > 0"
    and "length (build_bip321_uri addr (Some n) (Some bolt11)) \<le> 2000"
  shows "classify_at ps (build_bip321_uri addr (Some n) (Some bolt11)) now
           = Bip321 (parse_bolt11 ps bolt11 now) (Some (to_ascii_uppercase addr)) (Some n)
    \<and> btc_string_to_sats (sats_to_btc_string m) = Some m"
proof -
  define up where "up = to_ascii_uppercase addr"
  define q where "q = ''amount='' @ sats_to_btc_string n @ ''&lightning='' @ bolt11"
  define uri where "uri = build_bip321_uri addr (Some n) (Some bolt11)"
  note addr = bech32_addr[OF assms(1)] and u = upper_addr[OF bech32_addr(2,1)[OF assms(1)], folded up_def]
  have uri: "uri = ''bitcoin:'' @ up @ CHR ''?'' # q"
    using assms(3,4) addr by (simp add: uri_def build_bip321_uri_def build_bip321_uri_parts_def q_def up_def)
  have qq: "CHR ''?'' \<notin> set q" using assms(2) alnum_props(3) btc_string_safe(3)[of n] by (auto simp: q_def list_all_iff)
  have "last uri = last bolt11" using assms(3) by (simp add: uri q_def)
  then have "printable (last uri)" using assms(2,3) alnum_props(2) by (simp add: list_all_iff)
  then have t: "trim uri = uri" by (intro trim_id) (auto simp: uri printable_def byte_def)
  have c: "chars_count uri \<le> 2000"
    using assms(5) length_filter_le[of _ uri] unfolding chars_count_def uri_def by (meson le_trans)
  have pre: "has_prefix_ci uri ''bitcoin:''" by (simp add: uri has_prefix_ci_def eq_ignore_ascii_case_def)
  have seg: "split_on CHR ''?'' (drop 8 uri) = [up, q]"
    using u(2) qq by (simp add: uri split_on_append split_on_none)
  have ne: "up \<noteq> []" using addr by (simp add: up_def to_ascii_uppercase_def)
  have "parse_bip321 ps uri now = Bip321 (parse_bolt11 ps bolt11 now) (Some up) (Some n)"
    using u ne assms(1)
    by (simp add: parse_bip321_def seg Let_def uri_query[OF assms(2), of n, folded q_def] btc_round)
  then have "classify_at ps uri now = Bip321 (parse_bolt11 ps bolt11 now) (Some up) (Some n)"
    using c t pre by (subst classify_at.simps) (simp add: MAX_INPUT_CHARS_def)
  then show ?thesis by (simp add: uri_def up_def btc_round)
qed

text \<open>The amounts a name server allows survive the conversion to whole sats: every amount of sats
  between the rounded-up minimum and the rounded-down maximum lies within the server's millisat
  window, so the fetch never rejects it as out of bounds.\<close>
theorem lnurl_window_in_sats:
  assumes "unat (min_sats m) \<le> sats" and "sats \<le> unat (max_sats m)"
  shows "unat (min_sendable_msat m) \<le> 1000 * sats \<and> 1000 * sats \<le> unat (max_sendable_msat m)"
proof
  have "unat (min_sats m) = (unat (min_sendable_msat m) + 999) div 1000"
    by (simp add: min_sats_def ceil_div_1000)
  with assms(1) show "unat (min_sendable_msat m) \<le> 1000 * sats" by linarith
  have "unat (max_sats m) = unat (max_sendable_msat m) div 1000" by (simp add: max_sats_def unat_div)
  with assms(2) show "1000 * sats \<le> unat (max_sendable_msat m)"
    by (metis le_trans mult.commute mult_le_mono1 times_div_less_eq_dividend)
qed


text \<open>C39: the invoice fetched for a name pays what was asked. When the fetch succeeds the amount was
  within the server's window, the result is a BOLT11 invoice that parses, is for mainnet, has not
  expired and carries exactly the requested amount, and, when the server published metadata, the
  invoice it sent commits to the hash of that metadata.\<close>
theorem lnurl_invoice_is_what_was_asked:
  assumes "fetch_lnurl_invoice ps from_str rs m amount now = Inr c"
  shows "min_sendable_msat m \<le> amount \<and> amount \<le> max_sendable_msat m
    \<and> (\<exists>raw d h i. c = Bolt11 raw (Some amount) d h \<and> p_bolt11 ps raw = Some i \<and> inv_mainnet i
          \<and> \<not> inv_would_expire i now \<and> inv_amount_msat i = Some amount)
    \<and> (\<forall>hash. expected_description_hash m = Some hash \<longrightarrow>
          (\<exists>pr i. p_bolt11 ps pr = Some i \<and> inv_description i = Inr hash \<and> classify_at ps pr now = c))"
proof -
  obtain body where w: "min_sendable_msat m \<le> amount" "amount \<le> max_sendable_msat m"
    and v: "validate_lnurl_invoice ps from_str body amount (expected_description_hash m) now = Inr c"
    using assms by (auto simp: fetch_lnurl_invoice_def Let_def not_less split: if_splits option.splits sum.splits)
  obtain pr raw d h where cl: "classify_at ps pr now = Bolt11 raw (Some amount) d h" and c: "c = Bolt11 raw (Some amount) d h"
    and hash: "\<forall>hash. expected_description_hash m = Some hash \<longrightarrow> (\<exists>i. p_bolt11 ps pr = Some i \<and> inv_description i = Inr hash)"
    using v by (auto simp: validate_lnurl_invoice_def split: option.splits if_splits classified.splits; metis)
  from classify_Bolt11[OF cl] c cl w hash show ?thesis by (metis (no_types, lifting))
qed

text \<open>The host the binding check reads is what follows the last at-sign of the authority, whatever
  precedes it: a backslash in front of the at-sign, which URL parsers for the web treat as the end of
  the authority, does not end it here.\<close>
theorem hostname_follows_last_at_sign:
  assumes "list_all (\<lambda>c. c \<noteq> CHR ''/'' \<and> c \<noteq> CHR ''?'' \<and> c \<noteq> CHR ''#'') user"
    and "list_all (\<lambda>c. is_lower c \<or> is_ascii_digit c \<or> c = CHR ''.'') host" and "host \<noteq> []"
  shows "url_hostname (''https://'' @ user @ ''@'' @ host @ ''/'' @ path) = Some host"
proof -
  have h: "byte c < 128 \<and> \<not> is_upper c \<and> c \<noteq> CHR ''/'' \<and> c \<noteq> CHR ''?'' \<and> c \<noteq> CHR ''#'' \<and> c \<noteq> CHR ''@''
      \<and> c \<noteq> CHR '':'' \<and> c \<noteq> CHR ''[''" if "c \<in> set host" for c
  proof -
    have "is_lower c \<or> is_ascii_digit c \<or> c = CHR ''.''" using assms(2) that by (simp add: list_all_iff)
    then show ?thesis by (auto simp: is_lower_def is_upper_def is_ascii_digit_iff byte_def)
  qed
  let ?stop = "\<lambda>c. c \<noteq> CHR ''/'' \<and> c \<noteq> CHR ''?'' \<and> c \<noteq> CHR ''#''"
  have a: "takeWhile ?stop (user @ CHR ''@'' # host @ CHR ''/'' # path) = user @ CHR ''@'' # host"
    using assms(1) h by (simp add: takeWhile_append list_all_iff)
  have "split_once CHR ''@'' (rev host @ CHR ''@'' # rev user) = Some (rev host, rev user)"
    using h by (auto simp: split_once_Some)
  then have r: "rsplit_once CHR ''@'' (user @ CHR ''@'' # host) = Some (user, host)"
    by (simp add: rsplit_once_def)
  have p: "takeWhile (\<lambda>c. c \<noteq> CHR '':'') host = host" using h by (auto simp: takeWhile_eq_all_conv)
  have l: "to_lowercase host = host"
    using h by (subst to_lowercase_ascii) (auto simp: lower_char_def intro: map_idI)
  have "hd host \<noteq> CHR ''[''" using h assms(3) by simp
  then show ?thesis using a r l assms(3) by (simp add: url_hostname_def Let_def p del: takeWhile_eq_all_conv)
qed

section \<open>Concrete requests\<close>

definition example_invoice :: invoice where
  "example_invoice = \<lparr> inv_mainnet = True, inv_would_expire = (\<lambda>now. now > 1000), inv_amount_msat = Some 5000,
     inv_description = Inr [7], inv_payment_hash = [1] \<rparr>"

definition example_parsers :: parsers where
  "example_parsers = \<lparr> p_bolt11 = (\<lambda>s. if s = ''lnbc1'' then Some example_invoice else None),
     p_bolt12 = (\<lambda>_. None), p_hrn = (\<lambda>_. None) \<rparr>"

definition example_callback :: string where
  "example_callback = ''https://pay.example.com/cb''"

definition example_resolver :: resolver where
  "example_resolver = \<lparr> rs_resolve_bip353 = (\<lambda>_ _. None),
     rs_lnurl_init = (\<lambda>_ _. Some (Inr (Some \<lparr> li_callback = example_callback, li_min_sendable_msat = 1000,
       li_max_sendable_msat = 9000, li_description = None, li_expected_description_hash = Some [7] \<rparr>))),
     rs_lnurl_callback = (\<lambda>_. Some (Inr ''body'')) \<rparr>"

definition example_metadata :: lnurl_pay_metadata where
  "example_metadata = \<lparr> lm_domain = ''example.com'', lm_user = ''a'', lm_callback = example_callback,
     min_sendable_msat = 1000, max_sendable_msat = 9000, lm_description = ''a@example.com'',
     expected_description_hash = Some [7] \<rparr>"

definition example_from_str :: "string \<Rightarrow> json option" where
  "example_from_str s = (if s = ''body'' then Some (JObject [(''pr'', JString ''lnbc1'')]) else None)"

theorem bip321_uri_roundtrip_witness:
  "classify_at example_parsers (build_bip321_uri ''bc1qqqqqqqqqqqqqqqqqqqqqqqqqqqq'' (Some 150) (Some ''lnbc1'')) 0
     = Bip321 (parse_bolt11 example_parsers ''lnbc1'' 0) (Some (to_ascii_uppercase ''bc1qqqqqqqqqqqqqqqqqqqqqqqqqqqq'')) (Some 150)
   \<and> btc_string_to_sats (sats_to_btc_string 150) = Some 150"
proof (rule bip321_uri_roundtrip)
  show "is_bech32_mainnet ''bc1qqqqqqqqqqqqqqqqqqqqqqqqqqqq''"
    by (simp add: is_bech32_mainnet_def strip_prefix_def is_lower_def byte_def)
  show "list_all is_alnum ''lnbc1''"
    by (simp add: is_alnum_def is_alpha_def is_lower_def byte_def is_ascii_digit_iff)
  have "length (sats_to_btc_string 150) = 10"
    using pad8_props(1)[of 150] by (simp add: sats_to_btc_string_def nat_to_string.simps[of 0])
  then show "length (build_bip321_uri ''bc1qqqqqqqqqqqqqqqqqqqqqqqqqqqq'' (Some 150) (Some ''lnbc1'')) \<le> 2000"
    by (simp add: build_bip321_uri_def build_bip321_uri_parts_def to_ascii_uppercase_def)
qed simp_all

theorem lnurl_window_in_sats_witness:
  "unat (min_sats example_metadata) \<le> 5 \<and> 5 \<le> unat (max_sats example_metadata)
   \<and> unat (min_sendable_msat example_metadata) \<le> 1000 * 5"
proof -
  have "unat (min_sats example_metadata) \<le> 5" "5 \<le> unat (max_sats example_metadata)"
    by (simp_all add: min_sats_def max_sats_def example_metadata_def)
  with lnurl_window_in_sats[of example_metadata 5] show ?thesis by blast
qed


theorem lnurl_invoice_is_what_was_asked_witness:
  "\<exists>c. fetch_lnurl_invoice example_parsers example_from_str example_resolver example_metadata 5000 0 = Inr c
     \<and> (\<exists>raw d h. c = Bolt11 raw (Some 5000) d h)"
proof -
  have t: "trim ''lnbc1'' = ''lnbc1''" by (rule trim_id) (simp_all add: printable_def byte_def)
  have cl: "classify_at example_parsers ''lnbc1'' 0 = Bolt11 ''lnbc1'' (Some 5000) None (hex_str [1])"
    by (subst classify_at.simps)
      (simp add: t chars_count_def MAX_INPUT_CHARS_def has_prefix_ci_def eq_ignore_ascii_case_def lower_char_def is_upper_def
        byte_def parse_bolt11_def example_parsers_def example_invoice_def)
  have f: "fetch_lnurl_invoice example_parsers example_from_str example_resolver example_metadata 5000 0
      = Inr (Bolt11 ''lnbc1'' (Some 5000) None (hex_str [1]))"
    using cl by (simp add: fetch_lnurl_invoice_def example_metadata_def example_callback_def example_resolver_def
        validate_lnurl_invoice_def example_from_str_def jstr_def jget_def)
      (simp add: example_parsers_def example_invoice_def)
  from lnurl_invoice_is_what_was_asked[OF f] f show ?thesis by blast
qed

theorem hostname_follows_last_at_sign_witness:
  "url_hostname (''https://'' @ (''evil.net'' @ [CHR 0x5C]) @ ''@'' @ ''example.com'' @ ''/'' @ ''cb'') = Some ''example.com''"
  by (rule hostname_follows_last_at_sign)
    (simp_all add: is_lower_def is_ascii_digit_iff byte_def)

end
