(* ===== verification/Onchain_Send.thy ===== *)
theory Onchain_Send
  imports Payment_Input
begin

text \<open>
  \<open>src/rust/src/onchain_send.rs\<close> with the wallet's \<open>create_onchain_tx\<close> (\<open>wallet.rs\<close>) and the node's send
  entry points (\<open>node/onchain.rs\<close>): fee and maximum estimates, the anchor reserve, the guards at the
  broadcast boundary (drift between review and broadcast, fee ceiling) and the two send paths. The
  bdk wallet (building, signing, persisting, balance) and address parsing are library code and are
  parameters; a wallet operation returns its result and the next wallet state.
\<close>

section \<open>Errors and shapes\<close>


datatype onchain_send_error =
    SendNotRunning
  | InvalidAddress string
  | WrongNetwork
  | FeeTooHigh
  | BalanceTooLow
  | DriftDetected
  | InsufficientFunds u64
  | AmountBelowDust u64
  | BuildFailed string
  | SigningFailed string

datatype tx_spec =
    Recipient script u64
  | FundingOutput script u64
  | DrainAll script
  | DrainWithReserve script u64

datatype tx_build_failure = OutputBelowDust | SelectionFailed string | OtherFailure string

record built_tx_facts =
  bf_fee_sats :: u64
  bf_outputs :: "(script \<times> u64) list"

record drift_guard =
  dg_script_hex :: string
  dg_expected_amount_sats :: u64
  dg_expected_fee_sats :: u64

record fee_estimate =
  fe_fee_sats :: u64
  fe_fee_rate_sat_per_vb :: u64

record max_send_estimate =
  ms_amount_sats :: u64
  ms_fee_sats :: u64
  ms_fee_rate_sat_per_vb :: u64
  ms_reserve_sats :: u64

record ('w, 'psbt, 'tx) bdk =
  b_build :: "tx_spec \<Rightarrow> u64 \<Rightarrow> 'w \<Rightarrow> (tx_build_failure + 'psbt) \<times> 'w" \<comment> \<open>\<open>build_tx_locked\<close>\<close>
  b_facts :: "'psbt \<Rightarrow> tx_build_failure + built_tx_facts"
  b_take_staged :: "'w \<Rightarrow> 'w"
  b_sign :: "'psbt \<Rightarrow> 'w \<Rightarrow> (string + bool \<times> 'psbt) \<times> 'w"
  b_extract :: "'psbt \<Rightarrow> string + 'tx"
  b_persist :: "'w \<Rightarrow> (string + unit) \<times> 'w"
  b_trusted_spendable :: "'w \<Rightarrow> u64"
  b_fee_rate_ok :: "u64 \<Rightarrow> bool" \<comment> \<open>\<open>FeeRate::from_sat_per_vb\<close> does not overflow\<close>
  b_address :: "string \<Rightarrow> string + (bool \<times> script)" \<comment> \<open>parsed: on the configured network, script\<close>
  b_minimal_non_dust :: "script \<Rightarrow> u64"

definition ANCHOR_RESERVE_SATS :: u64 where "ANCHOR_RESERVE_SATS = 10000"
definition MAX_FEE_SATS :: u64 where "MAX_FEE_SATS = 50000"

definition output_value_for_script_hex :: "built_tx_facts \<Rightarrow> string \<Rightarrow> u64 option" where
  "output_value_for_script_hex facts wanted =
     map_option snd (find (\<lambda>(script, _). hex_str script = wanted) (bf_outputs facts))"

definition anchor_reserve_sats :: "nat \<Rightarrow> u64" where
  "anchor_reserve_sats channel_count = (if channel_count > 0 then ANCHOR_RESERVE_SATS else 0)"

section \<open>Guards\<close>

definition check_max_send_guards :: "int \<Rightarrow> u64 \<Rightarrow> u64 \<Rightarrow> onchain_send_error + unit" where
  "check_max_send_guards amount fee dust =
     (if fee > MAX_FEE_SATS then Inl FeeTooHigh
      else if amount < uint dust then Inl BalanceTooLow
      else Inr ())"

definition check_amount_drift :: "u64 \<Rightarrow> u64 option \<Rightarrow> onchain_send_error + unit" where
  "check_amount_drift expected built =
     (case built of Some b \<Rightarrow> if b = expected then Inr () else Inl DriftDetected | None \<Rightarrow> Inl DriftDetected)"

definition verify_drift :: "drift_guard \<Rightarrow> built_tx_facts \<Rightarrow> onchain_send_error + unit" where
  "verify_drift g facts =
     (case check_amount_drift (dg_expected_amount_sats g) (output_value_for_script_hex facts (dg_script_hex g)) of
        Inl e \<Rightarrow> Inl e
      | Inr u \<Rightarrow> if bf_fee_sats facts \<noteq> dg_expected_fee_sats g then Inl DriftDetected else Inr ())"

definition check_reserve :: "u64 \<Rightarrow> u64 \<Rightarrow> u64 \<Rightarrow> u64 \<Rightarrow> onchain_send_error + unit" where
  "check_reserve amount fee reserve spendable =
     (if reserve = 0 then Inr ()
      else if uint amount + uint fee + uint reserve > uint spendable then Inl (InsufficientFunds reserve)
      else Inr ())"

definition check_fee_ceiling :: "u64 \<Rightarrow> onchain_send_error + unit" where
  "check_fee_ceiling fee = (if fee > MAX_FEE_SATS then Inl FeeTooHigh else Inr ())"

definition parse_address :: "('w, 'psbt, 'tx) bdk \<Rightarrow> string \<Rightarrow> onchain_send_error + script" where
  "parse_address b address =
     (case b_address b (trim address) of
        Inl e \<Rightarrow> Inl (InvalidAddress e)
      | Inr (on_network, script) \<Rightarrow> if on_network then Inr script else Inl WrongNetwork)"

definition fee_rate_from :: "('w, 'psbt, 'tx) bdk \<Rightarrow> u64 \<Rightarrow> onchain_send_error + u64" where
  "fee_rate_from b rate =
     (if b_fee_rate_ok b rate then Inr rate
      else Inl (BuildFailed (''fee rate '' @ u64_to_string rate @ '' sat/vB overflows'')))"

definition guard_for_address ::
  "('w, 'psbt, 'tx) bdk \<Rightarrow> string \<Rightarrow> u64 \<Rightarrow> u64 \<Rightarrow> onchain_send_error + drift_guard"
where
  "guard_for_address b address amount fee =
     (case parse_address b address of
        Inl e \<Rightarrow> Inl e
      | Inr script \<Rightarrow> Inr \<lparr> dg_script_hex = hex_str script, dg_expected_amount_sats = amount, dg_expected_fee_sats = fee \<rparr>)"

definition max_send_spec :: "script \<Rightarrow> u64 \<Rightarrow> tx_spec" where
  "max_send_spec recipient reserve = (if reserve = 0 then DrainAll recipient else DrainWithReserve recipient reserve)"

definition fixed_send_build_error :: "('w, 'psbt, 'tx) bdk \<Rightarrow> script \<Rightarrow> tx_build_failure \<Rightarrow> onchain_send_error" where
  "fixed_send_build_error b script f =
     (case f of
        OutputBelowDust \<Rightarrow> AmountBelowDust (b_minimal_non_dust b script)
      | SelectionFailed d \<Rightarrow> BuildFailed d
      | OtherFailure d \<Rightarrow> BuildFailed d)"

fun max_send_build_error :: "tx_build_failure \<Rightarrow> onchain_send_error" where
  "max_send_build_error OutputBelowDust = BalanceTooLow"
| "max_send_build_error (SelectionFailed _) = BalanceTooLow"
| "max_send_build_error (OtherFailure d) = BuildFailed d"

section \<open>The wallet's build, verify, sign, persist\<close>

definition build_and_facts ::
  "('w, 'psbt, 'tx) bdk \<Rightarrow> tx_spec \<Rightarrow> u64 \<Rightarrow> 'w \<Rightarrow> (tx_build_failure + 'psbt \<times> built_tx_facts) \<times> 'w"
where
  "build_and_facts b spec rate w =
     (case b_build b spec rate w of
        (Inl f, w1) \<Rightarrow> (Inl f, w1)
      | (Inr psbt, w1) \<Rightarrow>
          (case b_facts b psbt of Inl f \<Rightarrow> (Inl f, w1) | Inr facts \<Rightarrow> (Inr (psbt, facts), w1)))"

definition estimate_onchain_tx ::
  "('w, 'psbt, 'tx) bdk \<Rightarrow> tx_spec \<Rightarrow> u64 \<Rightarrow> 'w \<Rightarrow> (tx_build_failure + built_tx_facts) \<times> 'w"
where
  "estimate_onchain_tx b spec rate w =
     (case build_and_facts b spec rate w of (r, w1) \<Rightarrow> (map_sum id snd r, b_take_staged b w1))"

definition create_onchain_tx ::
  "('w, 'psbt, 'tx) bdk \<Rightarrow> tx_spec \<Rightarrow> u64 \<Rightarrow> (built_tx_facts \<Rightarrow> onchain_send_error + unit)
     \<Rightarrow> (tx_build_failure \<Rightarrow> onchain_send_error) \<Rightarrow> 'w \<Rightarrow> (onchain_send_error + 'tx) \<times> 'w"
where
  "create_onchain_tx b spec rate verify map_failure w =
     (case build_and_facts b spec rate w of
        (Inl f, w1) \<Rightarrow> (Inl (map_failure f), b_take_staged b w1)
      | (Inr (psbt, facts), w1) \<Rightarrow>
          (case verify facts of
             Inl e \<Rightarrow> (Inl e, b_take_staged b w1)
           | Inr u \<Rightarrow>
               (case b_sign b psbt w1 of
                  (Inl e, w2) \<Rightarrow> (Inl (SigningFailed e), b_take_staged b w2)
                | (Inr (finalized, psbt2), w2) \<Rightarrow>
                    if \<not> finalized
                    then (Inl (SigningFailed ''the signed transaction did not finalize''), b_take_staged b w2)
                    else (case b_extract b psbt2 of
                       Inl e \<Rightarrow> (Inl (SigningFailed e), b_take_staged b w2)
                     | Inr tx \<Rightarrow>
                         (case b_persist b w2 of
                            (Inl e, w3) \<Rightarrow> (Inl (BuildFailed (''failed to persist the wallet changeset: '' @ e)), w3)
                          | (Inr u', w3) \<Rightarrow> (Inr tx, w3))))))"

section \<open>Estimates and sends\<close>

definition estimate_fee ::
  "('w, 'psbt, 'tx) bdk \<Rightarrow> string \<Rightarrow> u64 \<Rightarrow> u64 \<Rightarrow> 'w \<Rightarrow> (onchain_send_error + fee_estimate) \<times> 'w"
where
  "estimate_fee b address amount rate w =
     (case parse_address b address of
        Inl e \<Rightarrow> (Inl e, w)
      | Inr script \<Rightarrow>
          (case fee_rate_from b rate of
             Inl e \<Rightarrow> (Inl e, w)
           | Inr fr \<Rightarrow>
               (case estimate_onchain_tx b (Recipient script amount) fr w of
                  (Inl f, w1) \<Rightarrow> (Inl (fixed_send_build_error b script f), w1)
                | (Inr facts, w1) \<Rightarrow>
                    (case check_fee_ceiling (bf_fee_sats facts) of
                       Inl e \<Rightarrow> (Inl e, w1)
                     | Inr u \<Rightarrow> (Inr \<lparr> fe_fee_sats = bf_fee_sats facts, fe_fee_rate_sat_per_vb = rate \<rparr>, w1)))))"

definition estimate_max_sendable ::
  "('w, 'psbt, 'tx) bdk \<Rightarrow> string \<Rightarrow> u64 \<Rightarrow> u64 \<Rightarrow> 'w \<Rightarrow> (onchain_send_error + max_send_estimate) \<times> 'w"
where
  "estimate_max_sendable b address reserve rate w =
     (case parse_address b address of
        Inl e \<Rightarrow> (Inl e, w)
      | Inr script \<Rightarrow>
          (case fee_rate_from b rate of
             Inl e \<Rightarrow> (Inl e, w)
           | Inr fr \<Rightarrow>
               (case estimate_onchain_tx b (max_send_spec script reserve) fr w of
                  (Inl f, w1) \<Rightarrow> (Inl (max_send_build_error f), w1)
                | (Inr facts, w1) \<Rightarrow>
                    let amount = uint (b_trusted_spendable b w1) - uint (bf_fee_sats facts) - uint reserve in
                    (case check_max_send_guards amount (bf_fee_sats facts) (b_minimal_non_dust b script) of
                       Inl e \<Rightarrow> (Inl e, w1)
                     | Inr u \<Rightarrow>
                         (Inr \<lparr> ms_amount_sats = word_of_int amount, ms_fee_sats = bf_fee_sats facts,
                                ms_fee_rate_sat_per_vb = rate, ms_reserve_sats = reserve \<rparr>, w1)))))"

definition boundary_check :: "drift_guard \<Rightarrow> built_tx_facts \<Rightarrow> onchain_send_error + unit" where
  "boundary_check expected facts =
     (case verify_drift expected facts of Inl e \<Rightarrow> Inl e | Inr u \<Rightarrow> check_fee_ceiling (bf_fee_sats facts))"

definition send_to_address ::
  "('w, 'psbt, 'tx) bdk \<Rightarrow> string \<Rightarrow> u64 \<Rightarrow> drift_guard \<Rightarrow> u64 \<Rightarrow> u64 \<Rightarrow> 'w \<Rightarrow> (onchain_send_error + 'tx) \<times> 'w"
where
  "send_to_address b address amount expected reserve rate w =
     (case parse_address b address of
        Inl e \<Rightarrow> (Inl e, w)
      | Inr script \<Rightarrow>
          (case fee_rate_from b rate of
             Inl e \<Rightarrow> (Inl e, w)
           | Inr fr \<Rightarrow>
               let spec = Recipient script amount;
                   (reserved, w1) =
                     (if reserve > 0 then
                        (case estimate_onchain_tx b spec fr w of
                           (Inl f, w1) \<Rightarrow> (Inl (fixed_send_build_error b script f), w1)
                         | (Inr facts, w1) \<Rightarrow>
                             (check_reserve amount (bf_fee_sats facts) reserve (b_trusted_spendable b w1), w1))
                      else (Inr (), w))
               in (case reserved of
                     Inl e \<Rightarrow> (Inl e, w1)
                   | Inr u \<Rightarrow>
                       create_onchain_tx b spec fr (boundary_check expected) (fixed_send_build_error b script) w1)))"

definition send_max ::
  "('w, 'psbt, 'tx) bdk \<Rightarrow> string \<Rightarrow> drift_guard \<Rightarrow> u64 \<Rightarrow> u64 \<Rightarrow> 'w \<Rightarrow> (onchain_send_error + 'tx) \<times> 'w"
where
  "send_max b address expected reserve rate w =
     (case parse_address b address of
        Inl e \<Rightarrow> (Inl e, w)
      | Inr script \<Rightarrow>
          (case fee_rate_from b rate of
             Inl e \<Rightarrow> (Inl e, w)
           | Inr fr \<Rightarrow>
               let (gate, w1) =
                     (if reserve > 0 then
                        (case estimate_max_sendable b address reserve rate w of
                           (Inl e, w1) \<Rightarrow> (Inl e, w1)
                         | (Inr _, w1) \<Rightarrow> (Inr (), w1))
                      else (Inr (), w))
               in (case gate of
                     Inl e \<Rightarrow> (Inl e, w1)
                   | Inr u \<Rightarrow>
                       create_onchain_tx b (max_send_spec script reserve) fr (boundary_check expected)
                         max_send_build_error w1)))"

record node_handles =
  nh_running :: bool
  nh_channels :: nat
  nh_fee_rate :: u64

definition send_onchain ::
  "('w, 'psbt, 'tx) bdk \<Rightarrow> node_handles \<Rightarrow> string \<Rightarrow> u64 \<Rightarrow> u64 \<Rightarrow> u64 \<Rightarrow> 'w
     \<Rightarrow> (onchain_send_error + 'tx) \<times> 'w"
where
  \<comment> \<open>the transaction in the result is the one handed to the broadcaster\<close>
  "send_onchain b h address amount expected_amount expected_fee w =
     (if \<not> nh_running h then (Inl SendNotRunning, w)
      else case guard_for_address b address expected_amount expected_fee of
        Inl e \<Rightarrow> (Inl e, w)
      | Inr expected \<Rightarrow>
          send_to_address b address amount expected (anchor_reserve_sats (nh_channels h)) (nh_fee_rate h) w)"

definition send_onchain_max ::
  "('w, 'psbt, 'tx) bdk \<Rightarrow> node_handles \<Rightarrow> string \<Rightarrow> u64 \<Rightarrow> u64 \<Rightarrow> 'w \<Rightarrow> (onchain_send_error + 'tx) \<times> 'w"
where
  "send_onchain_max b h address expected_amount expected_fee w =
     (if \<not> nh_running h then (Inl SendNotRunning, w)
      else case guard_for_address b address expected_amount expected_fee of
        Inl e \<Rightarrow> (Inl e, w)
      | Inr expected \<Rightarrow>
          send_max b address expected (anchor_reserve_sats (nh_channels h)) (nh_fee_rate h) w)"

section \<open>Lemmas\<close>

definition signed_from :: "('w, 'psbt, 'tx) bdk \<Rightarrow> tx_spec \<Rightarrow> 'tx \<Rightarrow> built_tx_facts \<Rightarrow> bool" where
  \<comment> \<open>the transaction was extracted from a finalized signature of a build of the shape with these facts\<close>
  "signed_from b spec tx facts \<longleftrightarrow>
     (\<exists>rate w psbt w1 psbt2 w2. b_build b spec rate w = (Inr psbt, w1) \<and> b_facts b psbt = Inr facts
        \<and> b_sign b psbt w1 = (Inr (True, psbt2), w2) \<and> b_extract b psbt2 = Inr tx)"

lemma create_onchain_tx_Inr:
  assumes "create_onchain_tx b spec rate verify mf w = (Inr tx, w')"
  obtains facts where "signed_from b spec tx facts" "verify facts = Inr ()"
    "\<exists>w2. b_persist b w2 = (Inr (), w')"
proof (cases "b_build b spec rate w")
  case (Pair r w1)
  then obtain psbt facts where r: "r = Inr psbt" "b_facts b psbt = Inr facts" "verify facts = Inr ()"
    using assms by (auto simp: create_onchain_tx_def build_and_facts_def split: sum.splits prod.splits)
  then obtain psbt2 w2 where s: "b_sign b psbt w1 = (Inr (True, psbt2), w2)" "b_extract b psbt2 = Inr tx"
    "b_persist b w2 = (Inr (), w')"
    using assms Pair
    by (auto simp: create_onchain_tx_def build_and_facts_def split: sum.splits prod.splits if_splits)
  with r Pair show ?thesis using that unfolding signed_from_def by blast
qed

lemma boundary_check_Inr:
  assumes "boundary_check g facts = Inr ()"
  shows "output_value_for_script_hex facts (dg_script_hex g) = Some (dg_expected_amount_sats g)"
    and "bf_fee_sats facts = dg_expected_fee_sats g" and "bf_fee_sats facts \<le> MAX_FEE_SATS"
  using assms
  by (auto simp: boundary_check_def verify_drift_def check_amount_drift_def check_fee_ceiling_def not_less
      split: sum.splits option.splits if_splits)

section \<open>Properties\<close>

text \<open>C40: what is broadcast is what was reviewed. A transaction that the exact-amount send returns was
  built from the recipient's script, pays that script exactly the reviewed amount at exactly the
  reviewed fee, and its fee is at most 50,000 sats; with channels open, amount, estimated fee and
  the 10,000-sat reserve together were within the trusted balance.\<close>
theorem send_pays_what_was_reviewed:
  assumes "send_onchain b h address amount expected_amount expected_fee w = (Inr tx, w')"
  shows "\<exists>script facts. parse_address b address = Inr script \<and> signed_from b (Recipient script amount) tx facts
    \<and> output_value_for_script_hex facts (hex_str script) = Some expected_amount
    \<and> bf_fee_sats facts = expected_fee \<and> expected_fee \<le> 50000
    \<and> (nh_channels h > 0 \<longrightarrow> (\<exists>est w1. estimate_onchain_tx b (Recipient script amount) (nh_fee_rate h) w = (Inr est, w1)
          \<and> uint amount + uint (bf_fee_sats est) + 10000 \<le> uint (b_trusted_spendable b w1)))"
proof -
  obtain script where s: "parse_address b address = Inr script"
    using assms by (auto simp: send_onchain_def guard_for_address_def split: if_splits sum.splits)
  define g where "g = \<lparr> dg_script_hex = hex_str script, dg_expected_amount_sats = expected_amount, dg_expected_fee_sats = expected_fee \<rparr>"
  have run: "send_to_address b address amount g (anchor_reserve_sats (nh_channels h)) (nh_fee_rate h) w = (Inr tx, w')"
    using assms s by (auto simp: send_onchain_def guard_for_address_def g_def split: if_splits)
  have rate: "fee_rate_from b (nh_fee_rate h) = Inr (nh_fee_rate h)"
    using run s by (auto simp: send_to_address_def fee_rate_from_def split: if_splits)
  obtain w1 where c: "create_onchain_tx b (Recipient script amount) (nh_fee_rate h) (boundary_check g) (fixed_send_build_error b script) w1 = (Inr tx, w')"
    using run s rate by (auto simp: send_to_address_def Let_def split: prod.splits sum.splits if_splits)
  obtain facts where f: "signed_from b (Recipient script amount) tx facts" "boundary_check g facts = Inr ()"
    using create_onchain_tx_Inr[OF c] by metis
  have res: "\<exists>est w1. estimate_onchain_tx b (Recipient script amount) (nh_fee_rate h) w = (Inr est, w1)
          \<and> uint amount + uint (bf_fee_sats est) + 10000 \<le> uint (b_trusted_spendable b w1)" if ch: "nh_channels h > 0"
  proof -
    have "anchor_reserve_sats (nh_channels h) = 10000" using ch by (simp add: anchor_reserve_sats_def ANCHOR_RESERVE_SATS_def)
    with run s rate show ?thesis
      by (auto simp: send_to_address_def Let_def check_reserve_def split: prod.splits sum.splits if_splits)
  qed
  show ?thesis
    using s f(1) boundary_check_Inr[OF f(2)] res by (auto simp: g_def MAX_FEE_SATS_def)
qed

text \<open>the maximum offered is exactly what is left. A successful maximum estimate adds up: amount,
  fee and reserve are together the trusted balance, without wrap-around; the fee is at most 50,000
  sats and the amount at least the recipient's dust floor.\<close>
theorem max_estimate_adds_up:
  assumes "estimate_max_sendable b address reserve rate w = (Inr est, w')"
  shows "uint (ms_amount_sats est) + uint (ms_fee_sats est) + uint (ms_reserve_sats est) = uint (b_trusted_spendable b w')
    \<and> ms_reserve_sats est = reserve \<and> ms_fee_sats est \<le> 50000
    \<and> (\<exists>script. parse_address b address = Inr script \<and> b_minimal_non_dust b script \<le> ms_amount_sats est)"
proof -
  obtain script where s: "parse_address b address = Inr script"
    using assms by (auto simp: estimate_max_sendable_def split: sum.splits)
  obtain fr where r: "fee_rate_from b rate = Inr fr"
    using assms s by (auto simp: estimate_max_sendable_def split: sum.splits)
  obtain facts w1 where e: "estimate_onchain_tx b (max_send_spec script reserve) fr w = (Inr facts, w1)"
    using assms s r by (auto simp: estimate_max_sendable_def split: sum.splits prod.splits)
  have w1: "w1 = w'" and g: "check_max_send_guards (uint (b_trusted_spendable b w1) - uint (bf_fee_sats facts) - uint reserve)
              (bf_fee_sats facts) (b_minimal_non_dust b script) = Inr ()"
    using assms s r e by (auto simp: estimate_max_sendable_def Let_def split: sum.splits)
  define a where "a = uint (b_trusted_spendable b w') - uint (bf_fee_sats facts) - uint reserve"
  have fee: "bf_fee_sats facts \<le> 50000" and dust: "uint (b_minimal_non_dust b script) \<le> a"
    using g w1 by (auto simp: check_max_send_guards_def a_def[symmetric] MAX_FEE_SATS_def not_less split: if_splits)
  have "0 \<le> a" using dust uint_ge_0 order_trans by blast
  moreover have "a < 2 ^ 64"
  proof -
    have "uint (b_trusted_spendable b w') < 2 ^ 64" using uint_bounded[of "b_trusted_spendable b w'"] by simp
    moreover have "a \<le> uint (b_trusted_spendable b w')"
      unfolding a_def using uint_nonnegative[of "bf_fee_sats facts"] uint_nonnegative[of reserve] by linarith
    ultimately show ?thesis by linarith
  qed
  ultimately have ua: "uint (word_of_int a :: u64) = a" by (simp add: uint_word_of_int_eq take_bit_int_eq_self)
  have "b_minimal_non_dust b script \<le> word_of_int a" using dust ua by (simp add: word_le_def)
  moreover have "ms_amount_sats est = word_of_int a" "ms_fee_sats est = bf_fee_sats facts" "ms_reserve_sats est = reserve"
    using assms s r e w1 by (auto simp: estimate_max_sendable_def Let_def a_def split: sum.splits)
  ultimately show ?thesis using ua fee s by (simp add: a_def)
qed

text \<open>nothing is signed unless the built transaction passed the boundary check. When the check
  rejects the facts of the build, the result is that rejection and the wallet is left as the
  build left it with the staged changes dropped: no signature, no persist.\<close>
theorem rejected_build_is_not_signed:
  assumes "build_and_facts b spec rate w = (Inr (psbt, facts), w1)" and "boundary_check g facts = Inl e"
  shows "create_onchain_tx b spec rate (boundary_check g) mf w = (Inl e, b_take_staged b w1)
    \<and> (e = DriftDetected \<or> e = FeeTooHigh)"
  using assms
  by (auto simp: create_onchain_tx_def boundary_check_def verify_drift_def check_amount_drift_def check_fee_ceiling_def
      split: sum.splits option.splits if_splits)

section \<open>A concrete wallet\<close>

definition example_bdk :: "(nat, tx_spec, tx_spec) bdk" where
  \<comment> \<open>100,000 sats, every transaction costs 300 sats; the state counts signatures\<close>
  "example_bdk =
     \<lparr> b_build = (\<lambda>spec rate w. (Inr spec, w)),
       b_facts = (\<lambda>spec. Inr \<lparr> bf_fee_sats = 300, bf_outputs =
         (case spec of Recipient s a \<Rightarrow> [(s, a)] | FundingOutput s a \<Rightarrow> [(s, a)] | DrainAll s \<Rightarrow> [(s, 99700)]
          | DrainWithReserve s r \<Rightarrow> [(s, 99700 - r), ([9], r)]) \<rparr>),
       b_take_staged = (\<lambda>w. w), b_sign = (\<lambda>p w. (Inr (True, p), Suc w)), b_extract = (\<lambda>p. Inr p),
       b_persist = (\<lambda>w. (Inr (), w)), b_trusted_spendable = (\<lambda>w. 100000), b_fee_rate_ok = (\<lambda>r. True),
       b_address = (\<lambda>a. Inr (True, [1])), b_minimal_non_dust = (\<lambda>s. 294) \<rparr>"

definition example_handles :: node_handles where
  "example_handles = \<lparr> nh_running = True, nh_channels = 1, nh_fee_rate = 2 \<rparr>"

lemmas onchain_eval = example_bdk_def example_handles_def send_onchain_def guard_for_address_def parse_address_def
  send_to_address_def fee_rate_from_def estimate_onchain_tx_def build_and_facts_def check_reserve_def anchor_reserve_sats_def
  ANCHOR_RESERVE_SATS_def create_onchain_tx_def boundary_check_def verify_drift_def check_amount_drift_def
  output_value_for_script_hex_def check_fee_ceiling_def MAX_FEE_SATS_def estimate_max_sendable_def max_send_spec_def
  check_max_send_guards_def

theorem send_pays_what_was_reviewed_witness:
  "send_onchain example_bdk example_handles ''bc1'' 5000 5000 300 0 = (Inr (Recipient [1] 5000), 1)
   \<and> (\<exists>facts. signed_from example_bdk (Recipient [1] 5000) (Recipient [1] 5000) facts \<and> bf_fee_sats facts = 300)"
proof -
  have r: "send_onchain example_bdk example_handles ''bc1'' 5000 5000 300 0 = (Inr (Recipient [1] 5000), 1)"
    by (simp add: onchain_eval)
  have "parse_address example_bdk ''bc1'' = Inr [1]" by (simp add: onchain_eval)
  with send_pays_what_was_reviewed[OF r] r show ?thesis by auto
qed

theorem max_estimate_adds_up_witness:
  "\<exists>est w'. estimate_max_sendable example_bdk ''bc1'' 10000 2 0 = (Inr est, w')
     \<and> uint (ms_amount_sats est) + uint (ms_fee_sats est) + 10000 = 100000"
proof -
  obtain est w' where r: "estimate_max_sendable example_bdk ''bc1'' 10000 2 0 = (Inr est, w')"
    by (simp add: onchain_eval)
  from max_estimate_adds_up[OF r] r show ?thesis by (auto simp: example_bdk_def)
qed

theorem rejected_build_is_not_signed_witness:
  "create_onchain_tx example_bdk (Recipient [1] 5000) 2
     (boundary_check \<lparr> dg_script_hex = hex_str [1], dg_expected_amount_sats = 4000, dg_expected_fee_sats = 300 \<rparr>)
     max_send_build_error 0 = (Inl DriftDetected, 0)"
proof -
  let ?facts = "\<lparr> bf_fee_sats = 300, bf_outputs = [([1], 5000)] \<rparr>"
  have "build_and_facts example_bdk (Recipient [1] 5000) 2 0 = (Inr (Recipient [1] 5000, ?facts), 0)"
    by (simp add: onchain_eval)
  moreover have "boundary_check \<lparr> dg_script_hex = hex_str [1], dg_expected_amount_sats = 4000, dg_expected_fee_sats = 300 \<rparr> ?facts
      = Inl DriftDetected"
    by (simp add: onchain_eval)
  moreover have "b_take_staged example_bdk 0 = 0" by (simp add: example_bdk_def)
  ultimately show ?thesis using rejected_build_is_not_signed by metis
qed

end
