(* ===== verification/Float64.thy ===== *)
theory Float64
  imports Complex_Main Prelude "HOL-Library.Log_Nat"
begin

text \<open>
  The part of Rust's \<open>f64\<close> the fee code uses: IEEE 754 doubles as not-a-number, the infinities and finite
  rationals (signed zeros are not distinguished, nothing in the code observes them), multiplication
  with rounding to nearest, ties to even, over a 53-bit significand, \<open>round\<close> (half away from zero),
  \<open>ceil\<close>, \<open>max\<close> (which ignores a not-a-number operand), comparison with a constant and the saturating cast
  to \<open>u64\<close>.
\<close>

datatype f64 = FNaN | FInf bool \<comment> \<open>positive?\<close> | Fin rat

definition pow2 :: "int \<Rightarrow> rat" where
  "pow2 e = (if 0 \<le> e then 2 ^ nat e else 1 / 2 ^ nat (- e))"

definition floor_log2 :: "rat \<Rightarrow> int" where
  "floor_log2 q =
     (case quotient_of q of (a, b) \<Rightarrow>
        let l = int (floorlog 2 (nat a)) - int (floorlog 2 (nat b)) in if q < pow2 l then l - 1 else l)"

definition round_even :: "rat \<Rightarrow> int" where
  "round_even q =
     (let f = \<lfloor>q\<rfloor>; d = q - of_int f in
      if d < 1 / 2 then f else if d > 1 / 2 then f + 1 else if even f then f else f + 1)"

definition f64_of_rat :: "rat \<Rightarrow> f64" where
  "f64_of_rat q =
     (if q = 0 then Fin 0
      else let e = max (- 1074) (floor_log2 \<bar>q\<bar> - 52); r = of_int (round_even (q / pow2 e)) * pow2 e
           in if \<bar>r\<bar> \<ge> pow2 1024 then FInf (q > 0) else Fin r)"

fun fmul :: "f64 \<Rightarrow> f64 \<Rightarrow> f64" where
  "fmul (Fin a) (Fin b) = f64_of_rat (a * b)"
| "fmul (FInf s) (Fin b) = (if b = 0 then FNaN else FInf (s = (b > 0)))"
| "fmul (Fin a) (FInf s) = (if a = 0 then FNaN else FInf (s = (a > 0)))"
| "fmul (FInf s) (FInf t) = FInf (s = t)"
| "fmul _ _ = FNaN"

fun fround :: "f64 \<Rightarrow> f64" where
  "fround (Fin q) = Fin (if q < 0 then - of_int \<lfloor>- q + 1 / 2\<rfloor> else of_int \<lfloor>q + 1 / 2\<rfloor>)"
| "fround x = x"

fun fceil :: "f64 \<Rightarrow> f64" where
  "fceil (Fin q) = Fin (of_int \<lceil>q\<rceil>)"
| "fceil x = x"

fun f64_gt :: "f64 \<Rightarrow> rat \<Rightarrow> bool" where
  "f64_gt (Fin q) c \<longleftrightarrow> q > c"
| "f64_gt (FInf s) c \<longleftrightarrow> s"
| "f64_gt FNaN c \<longleftrightarrow> False"

definition is_finite :: "f64 \<Rightarrow> bool" where
  "is_finite x \<longleftrightarrow> (case x of Fin _ \<Rightarrow> True | _ \<Rightarrow> False)"

definition fmax_const :: "f64 \<Rightarrow> rat \<Rightarrow> f64" where
  "fmax_const x c = (if f64_gt x c then x else Fin c)"

fun f64_as_u64 :: "f64 \<Rightarrow> u64" where
  "f64_as_u64 FNaN = 0"
| "f64_as_u64 (FInf s) = (if s then - 1 else 0)"
| "f64_as_u64 (Fin q) = (if q \<le> 0 then 0 else if q \<ge> 2 ^ 64 then - 1 else of_int \<lfloor>q\<rfloor>)"

lemma f64_as_u64_floor:
  assumes "0 \<le> q" "q < 2 ^ 64"
  shows "unat (f64_as_u64 (Fin q)) = nat \<lfloor>q\<rfloor>"
proof -
  have "0 \<le> \<lfloor>q\<rfloor>" "\<lfloor>q\<rfloor> < 2 ^ 64" using assms by (simp_all add: floor_less_iff)
  then have "unat (of_int \<lfloor>q\<rfloor> :: u64) = nat \<lfloor>q\<rfloor>" by (simp add: unat_eq_nat_uint uint_word_of_int)
  moreover have "\<lfloor>q\<rfloor> = 0" if "q \<le> 0" using that assms(1) by simp
  ultimately show ?thesis using assms by auto
qed

end
