(* ===== verification/Fees.thy ===== *)
theory Fees
  imports Float64
begin

text \<open>
  \<open>src/rust/src/fees.rs\<close>: the translation of an Esplora fee-estimates response into LDK's confirmation
  targets, the fallback table, the send rate, and the cache with its refresh policy. Instants are
  nanoseconds of the monotonic clock; \<open>duration_since\<close> is truncated subtraction.
\<close>


datatype confirmation_target =
    MaximumFeeEstimate | UrgentOnChainSweep | MinAllowedAnchorChannelRemoteFee | MinAllowedNonAnchorChannelRemoteFee
  | AnchorChannelFee | NonAnchorChannelFee | ChannelCloseMinimum | OutputSpendingFee

definition FEE_CACHE_TTL :: nat where "FEE_CACHE_TTL = 60 * 10 ^ 9"
definition FEE_REFRESH_BACKOFF :: nat where "FEE_REFRESH_BACKOFF = 15 * 10 ^ 9"
definition MAX_FEE_RATE_SAT_PER_KW :: u32 where "MAX_FEE_RATE_SAT_PER_KW = 500000"
definition FEERATE_FLOOR_SATS_PER_KW :: u32 where "FEERATE_FLOOR_SATS_PER_KW = 253"
definition ONCHAIN_SEND_TARGET_BLOCKS :: u16 where "ONCHAIN_SEND_TARGET_BLOCKS = 6"
definition MIN_ONCHAIN_SEND_RATE_SAT_PER_VB :: u64 where "MIN_ONCHAIN_SEND_RATE_SAT_PER_VB = 2"

type_synonym estimates = "(u16 \<times> f64) list" \<comment> \<open>the entries of the \<open>HashMap\<close>, in any order\<close>

definition onchain_send_sat_per_vb_from_estimates :: "estimates \<Rightarrow> f64 option" where
  "onchain_send_sat_per_vb_from_estimates es =
     (case map_of es ONCHAIN_SEND_TARGET_BLOCKS of
        Some rate \<Rightarrow> if is_finite rate \<and> f64_gt rate 0 then Some rate else None
      | None \<Rightarrow> None)"

definition TARGET_TABLE :: "(confirmation_target \<times> nat \<times> u32) list" where
  "TARGET_TABLE =
     [(MaximumFeeEstimate, 1, 50000), (UrgentOnChainSweep, 3, 2500),
      (MinAllowedAnchorChannelRemoteFee, 144, FEERATE_FLOOR_SATS_PER_KW),
      (MinAllowedNonAnchorChannelRemoteFee, 144, FEERATE_FLOOR_SATS_PER_KW),
      (AnchorChannelFee, 6, 2500), (NonAnchorChannelFee, 6, 5000),
      (ChannelCloseMinimum, 12, 1000), (OutputSpendingFee, 12, 5000)]"

definition DEFAULT_SAT_PER_VB :: "(nat \<times> f64) list" where
  "DEFAULT_SAT_PER_VB = [(1, Fin 10), (6, Fin 5), (12, Fin 3), (144, Fin 2)]"

fun target_index :: "confirmation_target \<Rightarrow> nat" where
  "target_index MaximumFeeEstimate = 0"
| "target_index UrgentOnChainSweep = 1"
| "target_index MinAllowedAnchorChannelRemoteFee = 2"
| "target_index MinAllowedNonAnchorChannelRemoteFee = 3"
| "target_index AnchorChannelFee = 4"
| "target_index NonAnchorChannelFee = 5"
| "target_index ChannelCloseMinimum = 6"
| "target_index OutputSpendingFee = 7"

definition clamp_and_floor :: "f64 \<Rightarrow> u32 \<Rightarrow> u32" where
  "clamp_and_floor sat_per_vb floor_rate =
     (let sat_per_kw = min (f64_as_u64 (fround (fmul sat_per_vb (Fin 250)))) (ucast MAX_FEE_RATE_SAT_PER_KW)
      in max (max (ucast sat_per_kw) floor_rate) FEERATE_FLOOR_SATS_PER_KW)"

definition default_sat_per_vb :: "nat \<Rightarrow> f64" where
  "default_sat_per_vb num_blocks =
     (case map_of DEFAULT_SAT_PER_VB num_blocks of
        Some rate \<Rightarrow> rate
      | None \<Rightarrow> (case map_of DEFAULT_SAT_PER_VB 6 of Some rate \<Rightarrow> rate | None \<Rightarrow> Fin 1))"

definition fallback_sat_per_kw :: "confirmation_target \<Rightarrow> u32" where
  "fallback_sat_per_kw t =
     (case TARGET_TABLE ! target_index t of (_, num_blocks, floor_rate) \<Rightarrow> clamp_and_floor (default_sat_per_vb num_blocks) floor_rate)"

definition cache_from_esplora_estimates :: "estimates \<Rightarrow> u32 list" where
  "cache_from_esplora_estimates es =
     (let by_blocks = sort_key fst es in
      map (\<lambda>(_, num_blocks, floor_rate).
        let split = length (takeWhile (\<lambda>(blocks, _). unat blocks \<le> num_blocks) by_blocks);
            sat_per_vb = (if split = 0 then Fin 1 else fmax_const (snd (by_blocks ! (split - 1))) 1)
        in clamp_and_floor sat_per_vb floor_rate) TARGET_TABLE)"

record fee_estimator =
  fe_cache :: "u32 option list"
  fe_onchain_send :: "f64 option"
  fe_fetched_at :: "nat option"
  fe_failed_at :: "nat option"

definition fee_estimator_new :: fee_estimator where
  "fee_estimator_new = \<lparr> fe_cache = replicate 8 None, fe_onchain_send = None, fe_fetched_at = None, fe_failed_at = None \<rparr>"

definition set_onchain_send_rate :: "f64 option \<Rightarrow> fee_estimator \<Rightarrow> fee_estimator" where
  "set_onchain_send_rate r s = s\<lparr> fe_onchain_send := r \<rparr>"

definition onchain_send_rate_sat_per_vb :: "fee_estimator \<Rightarrow> u64" where
  "onchain_send_rate_sat_per_vb s =
     (let raw = (case fe_onchain_send s of Some r \<Rightarrow> r | None \<Rightarrow> default_sat_per_vb (unat ONCHAIN_SEND_TARGET_BLOCKS))
      in max (f64_as_u64 (fceil raw)) MIN_ONCHAIN_SEND_RATE_SAT_PER_VB)"

definition set_cache_at :: "u32 list \<Rightarrow> nat \<Rightarrow> fee_estimator \<Rightarrow> fee_estimator" where
  "set_cache_at rates now s =
     s\<lparr> fe_cache := map (\<lambda>(slot, rate). Some rate) (zip (fe_cache s) rates) @ drop (length rates) (fe_cache s),
        fe_fetched_at := Some now, fe_failed_at := None \<rparr>"

definition record_failure_at :: "nat \<Rightarrow> fee_estimator \<Rightarrow> fee_estimator" where
  "record_failure_at now s = s\<lparr> fe_failed_at := Some now \<rparr>"

definition needs_refresh_at :: "nat \<Rightarrow> fee_estimator \<Rightarrow> bool" where
  "needs_refresh_at now s \<longleftrightarrow>
     (case fe_fetched_at s of None \<Rightarrow> True | Some t \<Rightarrow> now - t > FEE_CACHE_TTL)
     \<and> (case fe_failed_at s of None \<Rightarrow> True | Some t \<Rightarrow> now - t \<ge> FEE_REFRESH_BACKOFF)"

definition get_est_sat_per_1000_weight :: "confirmation_target \<Rightarrow> fee_estimator \<Rightarrow> u32" where
  "get_est_sat_per_1000_weight t s =
     max (case fe_cache s ! target_index t of Some r \<Rightarrow> r | None \<Rightarrow> fallback_sat_per_kw t) FEERATE_FLOOR_SATS_PER_KW"

definition update_fee_rate_estimates :: "bool \<Rightarrow> 'e + estimates \<Rightarrow> nat \<Rightarrow> fee_estimator \<Rightarrow> ('e option + unit) \<times> fee_estimator" where
  \<comment> \<open>\<open>chain.rs\<close>: the endpoint's answer is an argument; an empty one is an error on mainnet\<close>
  "update_fee_rate_estimates mainnet answer now s =
     (case answer of
        Inl err \<Rightarrow> (Inl (Some err), record_failure_at now s)
      | Inr es \<Rightarrow>
          if es = [] \<and> mainnet then (Inl None, record_failure_at now s)
          else (Inr (), set_onchain_send_rate (onchain_send_sat_per_vb_from_estimates es)
                          (set_cache_at (cache_from_esplora_estimates es) now s)))"

section \<open>Every answer is within its bounds\<close>

definition floor_of :: "confirmation_target \<Rightarrow> u32" where
  "floor_of t = max (snd (snd (TARGET_TABLE ! target_index t))) FEERATE_FLOOR_SATS_PER_KW"

definition estimator_ok :: "fee_estimator \<Rightarrow> bool" where
  "estimator_ok s \<longleftrightarrow> length (fe_cache s) = 8
     \<and> (\<forall>t r. fe_cache s ! target_index t = Some r \<longrightarrow> floor_of t \<le> r \<and> r \<le> MAX_FEE_RATE_SAT_PER_KW)
     \<and> (\<forall>r. fe_onchain_send s = Some r \<longrightarrow> is_finite r \<and> f64_gt r 0)"

inductive estimator_reachable :: "bool \<Rightarrow> fee_estimator \<Rightarrow> bool" for mainnet where
  start: "estimator_reachable mainnet fee_estimator_new"
| refresh: "estimator_reachable mainnet s \<Longrightarrow>
    estimator_reachable mainnet (snd (update_fee_rate_estimates mainnet (answer :: string + estimates) now s))"

lemma unat_u32_u64 [simp]: "unat (ucast (n :: u32) :: u64) = unat n"
  using unsigned_less[of n, where 'a = nat] by (simp add: unsigned_ucast_eq take_bit_nat_eq_self)

lemma ucast_min_u32: "(ucast (min x (ucast (c :: u32))) :: u32) \<le> c" for x :: u64
proof -
  have m: "unat (min x (ucast c)) \<le> unat c" by (simp add: min_def word_le_nat_alt)
  with unsigned_less[of c, where 'a = nat] have "unat (min x (ucast c)) < 2 ^ 32" by simp
  with m show ?thesis by (simp add: word_le_nat_alt unsigned_ucast_eq take_bit_nat_eq_self)
qed

lemma clamp_bounds:
  assumes "f \<le> MAX_FEE_RATE_SAT_PER_KW"
  shows "max f FEERATE_FLOOR_SATS_PER_KW \<le> clamp_and_floor x f \<and> clamp_and_floor x f \<le> MAX_FEE_RATE_SAT_PER_KW"
proof -
  have "FEERATE_FLOOR_SATS_PER_KW \<le> MAX_FEE_RATE_SAT_PER_KW"
    by (simp add: FEERATE_FLOOR_SATS_PER_KW_def MAX_FEE_RATE_SAT_PER_KW_def word_le_nat_alt)
  with assms ucast_min_u32 show ?thesis
    by (auto simp: clamp_and_floor_def Let_def le_max_iff_disj)
qed

lemma length_cache [simp]: "length (cache_from_esplora_estimates es) = 8"
  by (simp add: cache_from_esplora_estimates_def TARGET_TABLE_def Let_def)

lemma target_index_less [simp]: "target_index t < 8"
  by (cases t) simp_all

lemma table_floor: "(b, f) = snd (TARGET_TABLE ! target_index t) \<Longrightarrow> f \<le> MAX_FEE_RATE_SAT_PER_KW"
  by (cases t) (simp_all add: TARGET_TABLE_def MAX_FEE_RATE_SAT_PER_KW_def FEERATE_FLOOR_SATS_PER_KW_def word_le_nat_alt)

lemma cache_bounds:
  "floor_of t \<le> cache_from_esplora_estimates es ! target_index t
   \<and> cache_from_esplora_estimates es ! target_index t \<le> MAX_FEE_RATE_SAT_PER_KW"
proof -
  obtain x b f where t: "TARGET_TABLE ! target_index t = (x, b, f)" by (metis prod_cases3)
  have "target_index t < length TARGET_TABLE" by (cases t) (simp_all add: TARGET_TABLE_def)
  with t obtain v where "cache_from_esplora_estimates es ! target_index t = clamp_and_floor v f"
    by (auto simp: cache_from_esplora_estimates_def Let_def)
  with clamp_bounds[of f v] table_floor[of b f t] t show ?thesis by (simp add: floor_of_def)
qed

lemma fallback_bounds: "floor_of t \<le> fallback_sat_per_kw t \<and> fallback_sat_per_kw t \<le> MAX_FEE_RATE_SAT_PER_KW"
proof -
  obtain x b f where t: "TARGET_TABLE ! target_index t = (x, b, f)" by (metis prod_cases3)
  with clamp_bounds[of f] table_floor[of b f t] show ?thesis by (simp add: floor_of_def fallback_sat_per_kw_def)
qed

lemma estimator_ok_refresh:
  assumes "estimator_ok s"
  shows "estimator_ok (snd (update_fee_rate_estimates mainnet answer now s))"
proof -
  have "estimator_ok (set_onchain_send_rate (onchain_send_sat_per_vb_from_estimates es)
          (set_cache_at (cache_from_esplora_estimates es) now s))" for es
    using assms cache_bounds[of _ es]
    by (auto simp: estimator_ok_def set_onchain_send_rate_def set_cache_at_def onchain_send_sat_per_vb_from_estimates_def
        split: option.splits if_splits)
  moreover have "estimator_ok (record_failure_at now s)"
    using assms by (simp add: estimator_ok_def record_failure_at_def)
  ultimately show ?thesis
    by (auto simp: update_fee_rate_estimates_def split: sum.splits)
qed

lemma reachable_ok: "estimator_reachable mainnet s \<Longrightarrow> estimator_ok s"
proof (induction rule: estimator_reachable.induct)
  case start
  then show ?case by (simp add: estimator_ok_def fee_estimator_new_def)
qed (rule estimator_ok_refresh)

lemma est_bounds:
  assumes "estimator_ok s"
  shows "floor_of t \<le> get_est_sat_per_1000_weight t s \<and> get_est_sat_per_1000_weight t s \<le> MAX_FEE_RATE_SAT_PER_KW"
proof -
  have "FEERATE_FLOOR_SATS_PER_KW \<le> MAX_FEE_RATE_SAT_PER_KW"
    by (simp add: FEERATE_FLOOR_SATS_PER_KW_def MAX_FEE_RATE_SAT_PER_KW_def word_le_nat_alt)
  with assms fallback_bounds[of t] show ?thesis
    by (auto simp: estimator_ok_def get_est_sat_per_1000_weight_def le_max_iff_disj split: option.splits)
qed

lemma fresh_urgent_rate: "get_est_sat_per_1000_weight UrgentOnChainSweep fee_estimator_new = 2500"
proof -
  have "f64_of_rat 1250 = Fin 1250"
    by (simp add: f64_of_rat_def floor_log2_def Let_def compute_floorlog pow2_def round_even_def)
  moreover have "\<lfloor>(2501 / 2 :: rat)\<rfloor> = 1250" by (simp add: floor_eq_iff)
  ultimately show ?thesis
    by (simp add: get_est_sat_per_1000_weight_def fee_estimator_new_def fallback_sat_per_kw_def TARGET_TABLE_def default_sat_per_vb_def
        DEFAULT_SAT_PER_VB_def clamp_and_floor_def Let_def MAX_FEE_RATE_SAT_PER_KW_def FEERATE_FLOOR_SATS_PER_KW_def min_def max_def)
qed

text \<open>C19: every fee answer is sane whatever the endpoint sends. After any sequence of refreshes with any
  responses, infinities and negative rates included, every cache slot is empty or lies between the
  target's floor and 500,000 sat/kW, so does every answer to LDK, and the rate of on-chain sends is
  at least two sat/vB.\<close>

theorem fee_answers_within_bounds:
  assumes "estimator_reachable mainnet s"
  shows "estimator_ok s \<and> floor_of t \<le> get_est_sat_per_1000_weight t s
    \<and> get_est_sat_per_1000_weight t s \<le> MAX_FEE_RATE_SAT_PER_KW \<and> 2 \<le> onchain_send_rate_sat_per_vb s"
  using reachable_ok[OF assms] est_bounds[OF reachable_ok[OF assms], of t]
  by (simp add: onchain_send_rate_sat_per_vb_def MIN_ONCHAIN_SEND_RATE_SAT_PER_VB_def Let_def)

theorem fee_answers_within_bounds_witness:
  "get_est_sat_per_1000_weight UrgentOnChainSweep
     (snd (update_fee_rate_estimates True (Inr [(1, FInf True), (3, Fin (- 7))] :: string + estimates) 5 fee_estimator_new)) \<le> 500000"
  using fee_answers_within_bounds[OF estimator_reachable.refresh[OF estimator_reachable.start], of True
      "Inr [(1, FInf True), (3, Fin (- 7))]" 5 UrgentOnChainSweep]
  by (simp add: MAX_FEE_RATE_SAT_PER_KW_def)

end
