(* ===== verification/Broadcast.thy ===== *)
theory Broadcast
  imports Fees Text Local_Store
begin

text \<open>
  The broadcast side of \<open>src/rust/src/chain.rs\<close>: the pending-broadcast store with its entry format and
  its 48 hour expiry, the bounded queue in front of it, the classification of the backend's errors,
  the broadcast of a transaction, the startup drain, and the fee-sanity check. Serialization and ids
  of transactions are the \<open>bitcoin\<close> crate's (record \<open>tx_codec\<close>); the Esplora endpoint is the parameter
  \<open>be_post\<close>.
\<close>

section \<open>The entry format\<close>

record 'tx tx_codec =
  tc_serialize :: "'tx \<Rightarrow> bytes"
  tc_deserialize :: "bytes \<Rightarrow> 'tx option"
  tc_txid :: "'tx \<Rightarrow> string"

definition tx_codec_ok :: "'tx tx_codec \<Rightarrow> bool" where
  "tx_codec_ok c \<longleftrightarrow> (\<forall>t. tc_deserialize c (tc_serialize c t) = Some t)"

fun le_bytes :: "nat \<Rightarrow> nat \<Rightarrow> bytes" where
  "le_bytes 0 n = []"
| "le_bytes (Suc k) n = of_nat (n mod 256) # le_bytes k (n div 256)"

definition to_le_bytes :: "u64 \<Rightarrow> bytes" where
  "to_le_bytes w = le_bytes 8 (unat w)"

fun le_value :: "bytes \<Rightarrow> nat" where
  "le_value [] = 0"
| "le_value (b # bs) = unat b + 256 * le_value bs"

definition from_le_bytes :: "bytes \<Rightarrow> u64" where
  "from_le_bytes bs = of_nat (le_value bs)"

definition encode_pending_broadcast :: "'tx tx_codec \<Rightarrow> u64 \<Rightarrow> 'tx \<Rightarrow> bytes" where
  "encode_pending_broadcast c created_at tx = to_le_bytes created_at @ tc_serialize c tx"

definition decode_pending_broadcast :: "'tx tx_codec \<Rightarrow> bytes \<Rightarrow> (u64 \<times> 'tx) option" where
  "decode_pending_broadcast c bs =
     (if length bs < 8 then None
      else map_option (\<lambda>tx. (from_le_bytes (take 8 bs), tx)) (tc_deserialize c (drop 8 bs)))"

lemma length_le_bytes [simp]: "length (le_bytes k n) = k"
  by (induction k arbitrary: n) simp_all

lemma le_value_bytes: "le_value (le_bytes k n) = n mod 256 ^ k"
proof (induction k arbitrary: n)
  case (Suc k)
  have b: "unat (of_nat (n mod 256) :: u8) = n mod 256" by (simp add: unsigned_of_nat take_bit_nat_def)
  have "n mod 256 ^ Suc k = 256 * (n div 256 mod 256 ^ k) + n mod 256"
    by (simp only: power_Suc mod_mult2_eq)
  with Suc b show ?case by simp
qed simp

lemma le_roundtrip: "from_le_bytes (to_le_bytes w) = w"
  using unsigned_less[of w, where 'a = nat] by (simp add: from_le_bytes_def to_le_bytes_def le_value_bytes)

lemma pending_broadcast_roundtrip:
  "tx_codec_ok c \<Longrightarrow> decode_pending_broadcast c (encode_pending_broadcast c t tx) = Some (t, tx)"
  by (simp add: decode_pending_broadcast_def encode_pending_broadcast_def tx_codec_ok_def le_roundtrip)
    (simp add: to_le_bytes_def le_roundtrip[unfolded to_le_bytes_def])

section \<open>The pending-broadcast store\<close>

definition PENDING_BROADCASTS_NS :: string where "PENDING_BROADCASTS_NS = ''pending_broadcasts''"
definition PENDING_BROADCAST_TTL :: u64 where "PENDING_BROADCAST_TTL = 48 * 60 * 60"

definition saturating_sub :: "'a::len word \<Rightarrow> 'a word \<Rightarrow> 'a word" where
  "saturating_sub a b = (if a < b then 0 else a - b)"

definition pending_persist :: "'tx tx_codec \<Rightarrow> 'l disk \<Rightarrow> 'tx \<Rightarrow> u64 \<Rightarrow> 'l \<Rightarrow> 'l" where
  "pending_persist c d tx created_at l =
     snd (d_write d PENDING_BROADCASTS_NS [] (tc_txid c tx) (encode_pending_broadcast c created_at tx) l)"

definition pending_remove :: "'l disk \<Rightarrow> string \<Rightarrow> 'l \<Rightarrow> 'l" where
  "pending_remove d txid l = snd (d_remove d PENDING_BROADCASTS_NS [] txid False l)"

definition fresh_entry :: "u64 \<Rightarrow> u64 \<times> 'tx \<Rightarrow> bool" where
  "fresh_entry now e \<longleftrightarrow> saturating_sub now (fst e) \<le> PENDING_BROADCAST_TTL"

fun load_entries :: "'tx tx_codec \<Rightarrow> 'l disk \<Rightarrow> u64 \<Rightarrow> string list \<Rightarrow> 'l \<Rightarrow> 'tx list \<times> 'l" where
  "load_entries c d now [] l = ([], l)"
| "load_entries c d now (k # ks) l =
     (case d_read d PENDING_BROADCASTS_NS [] k l of
        Inl _ \<Rightarrow> load_entries c d now ks l
      | Inr bs \<Rightarrow>
          (case decode_pending_broadcast c bs of
             Some e \<Rightarrow>
               if fresh_entry now e then (case load_entries c d now ks l of (txs, l') \<Rightarrow> (snd e # txs, l'))
               else load_entries c d now ks (pending_remove d k l)
           | None \<Rightarrow> load_entries c d now ks (pending_remove d k l)))"

definition load_fresh :: "'tx tx_codec \<Rightarrow> 'l disk \<Rightarrow> u64 \<Rightarrow> 'l \<Rightarrow> 'tx list \<times> 'l" where
  "load_fresh c d now l =
     (case d_list d PENDING_BROADCASTS_NS [] l of Inl _ \<Rightarrow> ([], l) | Inr ks \<Rightarrow> load_entries c d now ks l)"

section \<open>Broadcasting\<close>

datatype broadcast_outcome = Accepted | AlreadyKnown | BroadcastFailed string

definition is_success :: "broadcast_outcome \<Rightarrow> bool" where
  "is_success out \<longleftrightarrow> out = Accepted \<or> out = AlreadyKnown"

definition BENIGN :: "string list" where
  "BENIGN = [''already in mempool'', ''already in the mempool'', ''already in block chain'', ''already known'',
     ''already confirmed'', ''insufficient fee, rejecting replacement'', ''outputs already in utxo set'',
     ''bad txns inputs missingorspent'']"

definition broadcast_error_is_benign :: "string \<Rightarrow> bool" where
  "broadcast_error_is_benign message =
     (let raw = to_lowercase message; words = map (\<lambda>c. if c = CHR ''-'' then CHR '' '' else c) raw
      in list_ex (\<lambda>benign. str_contains benign words) BENIGN \<or> str_contains ''-25'' raw \<or> str_contains ''-27'' raw)"

datatype post_answer =
    Posted
  | HttpResponse nat string string \<comment> \<open>status, message, and the error as displayed\<close>
  | PostError string
  | PostTimedOut string

record ('l, 'n, 'tx) broadcast_env =
  be_codec :: "'tx tx_codec"
  be_disk :: "'l disk"
  be_post :: "'tx \<Rightarrow> 'n \<Rightarrow> post_answer \<times> 'n"

record ('l, 'n, 'tx) broadcaster =
  bc_disk :: 'l
  bc_net :: 'n
  bc_queue :: "'tx list list"

definition BCAST_PACKAGE_QUEUE_SIZE :: nat where "BCAST_PACKAGE_QUEUE_SIZE = 50"

definition broadcast_transactions ::
  "('l, 'n, 'tx) broadcast_env \<Rightarrow> u64 \<Rightarrow> 'tx list \<Rightarrow> ('l, 'n, 'tx) broadcaster \<Rightarrow> ('l, 'n, 'tx) broadcaster"
where
  "broadcast_transactions e now txs s =
     (let s1 = s\<lparr> bc_disk := fold (\<lambda>tx. pending_persist (be_codec e) (be_disk e) tx now) txs (bc_disk s) \<rparr>
      in if length (bc_queue s1) < BCAST_PACKAGE_QUEUE_SIZE then s1\<lparr> bc_queue := bc_queue s1 @ [txs] \<rparr> else s1)"

fun outcome_of :: "post_answer \<Rightarrow> broadcast_outcome" where
  "outcome_of Posted = Accepted"
| "outcome_of (HttpResponse status message display) =
     (if broadcast_error_is_benign message then AlreadyKnown else BroadcastFailed display)"
| "outcome_of (PostError message) = BroadcastFailed message"
| "outcome_of (PostTimedOut message) = BroadcastFailed (''timed out: '' @ message)"

definition broadcast_transaction ::
  "('l, 'n, 'tx) broadcast_env \<Rightarrow> 'tx \<Rightarrow> ('l, 'n, 'tx) broadcaster \<Rightarrow> broadcast_outcome \<times> ('l, 'n, 'tx) broadcaster"
where
  "broadcast_transaction e tx s =
     (case be_post e tx (bc_net s) of
        (answer, n) \<Rightarrow>
          let out = outcome_of answer; s1 = s\<lparr> bc_net := n \<rparr>
          in (out, if is_success out then s1\<lparr> bc_disk := pending_remove (be_disk e) (tc_txid (be_codec e) tx) (bc_disk s1) \<rparr> else s1))"

definition persist_pending_broadcast ::
  "('l, 'n, 'tx) broadcast_env \<Rightarrow> u64 \<Rightarrow> 'tx \<Rightarrow> ('l, 'n, 'tx) broadcaster \<Rightarrow> ('l, 'n, 'tx) broadcaster"
where
  "persist_pending_broadcast e now tx s = s\<lparr> bc_disk := pending_persist (be_codec e) (be_disk e) tx now (bc_disk s) \<rparr>"

fun broadcast_each ::
  "('l, 'n, 'tx) broadcast_env \<Rightarrow> 'tx list \<Rightarrow> ('l, 'n, 'tx) broadcaster
     \<Rightarrow> ('tx \<times> broadcast_outcome) list \<times> ('l, 'n, 'tx) broadcaster"
where
  "broadcast_each e [] s = ([], s)"
| "broadcast_each e (tx # txs) s =
     (case broadcast_transaction e tx s of (out, s1) \<Rightarrow>
      case broadcast_each e txs s1 of (outs, s2) \<Rightarrow> ((tx, out) # outs, s2))"

definition process_broadcast_package ::
  "('l, 'n, 'tx) broadcast_env \<Rightarrow> 'tx list \<Rightarrow> ('l, 'n, 'tx) broadcaster \<Rightarrow> ('l, 'n, 'tx) broadcaster"
where
  "process_broadcast_package e package s = snd (broadcast_each e package s)"

definition drain_pending_broadcasts ::
  "('l, 'n, 'tx) broadcast_env \<Rightarrow> u64 \<Rightarrow> ('l, 'n, 'tx) broadcaster \<Rightarrow> ('l, 'n, 'tx) broadcaster"
where
  "drain_pending_broadcasts e now s =
     (case load_fresh (be_codec e) (be_disk e) now (bc_disk s) of
        (pending, l) \<Rightarrow> snd (broadcast_each e pending (s\<lparr> bc_disk := l \<rparr>)))"

section \<open>Fee sanity\<close>

definition FEE_SANITY_MULTIPLIER :: u32 where "FEE_SANITY_MULTIPLIER = 5"

datatype fee_sanity_error = Overpay u64 u64

fun fee_sanity_display :: "(u64 \<Rightarrow> string) \<Rightarrow> fee_sanity_error \<Rightarrow> string" where
  \<comment> \<open>\<open>Display\<close>; the first argument prints an integer\<close>
  "fee_sanity_display pr (Overpay effective maximum) =
     ''fee-sanity refusal: effective rate '' @ pr effective @ '' sat/kW exceeds the 5x-of-3-block ceiling '' @ pr maximum @ '' sat/kW''"

definition fee_sanity_max_sat_per_kw :: "fee_estimator \<Rightarrow> u64" where
  "fee_sanity_max_sat_per_kw f = ucast (get_est_sat_per_1000_weight UrgentOnChainSweep f) * ucast FEE_SANITY_MULTIPLIER"

definition saturating_mul :: "'a::len word \<Rightarrow> 'a word \<Rightarrow> 'a word" where
  "saturating_mul a b = (if unat a * unat b < 2 ^ LENGTH('a) then a * b else - 1)"

definition check_fee_sanity :: "u64 \<Rightarrow> u64 \<Rightarrow> u64 \<Rightarrow> fee_sanity_error + unit" where
  "check_fee_sanity fee_sats tx_weight_wu max_sat_per_kw =
     (if tx_weight_wu = 0 then Inr ()
      else let effective = saturating_mul fee_sats 1000 div tx_weight_wu
           in if effective > max_sat_per_kw then Inl (Overpay effective max_sat_per_kw) else Inr ())"

section \<open>A pending broadcast is not lost\<close>

datatype 'tx broadcast_op =
    HandOver u64 "'tx list" \<comment> \<open>LDK's \<open>broadcast_transactions\<close>\<close>
  | ProcessNext \<comment> \<open>the background task takes a package\<close>
  | Direct u64 'tx \<comment> \<open>persist and broadcast, the sweep engine's path\<close>
  | Drain u64 \<comment> \<open>the startup drain\<close>
  | Restart \<comment> \<open>the process dies: the queue is lost\<close>

fun broadcast_step ::
  "('l, 'n, 'tx) broadcast_env \<Rightarrow> 'tx broadcast_op \<Rightarrow> ('l, 'n, 'tx) broadcaster
     \<Rightarrow> ('tx \<times> broadcast_outcome) list \<times> ('l, 'n, 'tx) broadcaster"
where
  "broadcast_step e (HandOver now txs) s = ([], broadcast_transactions e now txs s)"
| "broadcast_step e ProcessNext s =
     (case bc_queue s of [] \<Rightarrow> ([], s) | package # rest \<Rightarrow> broadcast_each e package (s\<lparr> bc_queue := rest \<rparr>))"
| "broadcast_step e (Direct now tx) s =
     (case broadcast_transaction e tx (persist_pending_broadcast e now tx s) of (out, s') \<Rightarrow> ([(tx, out)], s'))"
| "broadcast_step e (Drain now) s =
     (case load_fresh (be_codec e) (be_disk e) now (bc_disk s) of
        (pending, l) \<Rightarrow> broadcast_each e pending (s\<lparr> bc_disk := l \<rparr>))"
| "broadcast_step e Restart s = ([], s\<lparr> bc_queue := [] \<rparr>)"

fun broadcast_run ::
  "('l, 'n, 'tx) broadcast_env \<Rightarrow> 'tx broadcast_op list \<Rightarrow> ('l, 'n, 'tx) broadcaster
     \<Rightarrow> ('tx \<times> broadcast_outcome) list \<times> ('l, 'n, 'tx) broadcaster"
where
  "broadcast_run e [] s = ([], s)"
| "broadcast_run e (op # ops) s =
     (case broadcast_step e op s of (outs, s1) \<Rightarrow>
      case broadcast_run e ops s1 of (outs', s2) \<Rightarrow> (outs @ outs', s2))"

lemma broadcast_run_snoc:
  "broadcast_run e (ops @ [op]) s =
     (case broadcast_run e ops s of (outs, s1) \<Rightarrow> case broadcast_step e op s1 of (outs', s2) \<Rightarrow> (outs @ outs', s2))"
  by (induction ops arbitrary: s) (auto split: prod.splits)

fun op_time_ok :: "u64 \<Rightarrow> 'tx broadcast_op \<Rightarrow> bool" where
  \<comment> \<open>the clock does not run backwards, and drains happen before the entry expires\<close>
  "op_time_ok t (HandOver now _) \<longleftrightarrow> t \<le> now"
| "op_time_ok t (Direct now _) \<longleftrightarrow> t \<le> now"
| "op_time_ok t (Drain now) \<longleftrightarrow> saturating_sub now t \<le> PENDING_BROADCAST_TTL"
| "op_time_ok t _ \<longleftrightarrow> True"

lemma saturating_sub_mono: "t \<le> t' \<Longrightarrow> saturating_sub now t' \<le> saturating_sub now t" for t :: "'a::len word"
  by (auto simp: saturating_sub_def word_le_nat_alt word_less_nat_alt unat_sub_if')

definition pending_since :: "('l, 'n, 'tx) broadcast_env \<Rightarrow> 'l \<Rightarrow> string \<Rightarrow> u64 \<Rightarrow> bool" where
  "pending_since e l i t \<longleftrightarrow> (\<exists>t' tx. t \<le> t' \<and> tc_txid (be_codec e) tx = i
     \<and> d_read (be_disk e) PENDING_BROADCASTS_NS [] i l = Inr (encode_pending_broadcast (be_codec e) t' tx))"

definition acknowledged :: "('l, 'n, 'tx) broadcast_env \<Rightarrow> string \<Rightarrow> ('tx \<times> broadcast_outcome) list \<Rightarrow> bool" where
  "acknowledged e i outs \<longleftrightarrow> (\<exists>(tx, out) \<in> set outs. tc_txid (be_codec e) tx = i \<and> is_success out)"

definition attempted :: "('l, 'n, 'tx) broadcast_env \<Rightarrow> string \<Rightarrow> ('tx \<times> broadcast_outcome) list \<Rightarrow> bool" where
  "attempted e i outs \<longleftrightarrow> (\<exists>(tx, out) \<in> set outs. tc_txid (be_codec e) tx = i)"

lemma acknowledged_append [simp]: "acknowledged e i (a @ b) \<longleftrightarrow> acknowledged e i a \<or> acknowledged e i b"
  by (auto simp: acknowledged_def)

lemma acknowledged_attempted: "acknowledged e i outs \<Longrightarrow> attempted e i outs"
  by (auto simp: acknowledged_def attempted_def)

locale pending_disk =
  fixes e :: "('l, 'n, 'tx) broadcast_env"
  assumes store: "removable_store (d_read (be_disk e)) (d_write (be_disk e)) (d_list (be_disk e)) (d_remove (be_disk e))"
    and codec: "tx_codec_ok (be_codec e)"
    and list_ok: "\<exists>ks. d_list (be_disk e) PENDING_BROADCASTS_NS [] l = Inr ks"
begin

lemmas read_written = atomic_store.read_after_write[OF removable_store.axioms(1)[OF store]]
lemmas read_removed = removable_store.read_after_remove[OF store]
lemmas listed = listed_store.lists[OF atomic_store.axioms(1)[OF removable_store.axioms(1)[OF store]]]

lemma persist_keeps:
  assumes "pending_since e l i t" and "t \<le> now"
  shows "pending_since e (pending_persist (be_codec e) (be_disk e) tx now l) i t"
proof -
  obtain r l' where w: "d_write (be_disk e) PENDING_BROADCASTS_NS [] (tc_txid (be_codec e) tx)
      (encode_pending_broadcast (be_codec e) now tx) l = (r, l')" by fastforce
  from assms read_written[OF w, of PENDING_BROADCASTS_NS "[]" i] show ?thesis
    unfolding pending_since_def pending_persist_def w snd_conv by (cases "i = tc_txid (be_codec e) tx \<and> r = Inr ()") auto
qed

lemma remove_other:
  assumes "pending_since e l i t" and "i \<noteq> k"
  shows "pending_since e (pending_remove (be_disk e) k l) i t"
  using assms read_removed[of PENDING_BROADCASTS_NS "[]" k False l _ _ PENDING_BROADCASTS_NS "[]" i]
  unfolding pending_since_def pending_remove_def by (metis prod.collapse prod.inject)

lemma broadcast_keeps:
  assumes "broadcast_transaction e tx s = (out, s')" and "pending_since e (bc_disk s) i t"
  shows "pending_since e (bc_disk s') i t \<or> acknowledged e i [(tx, out)]"
  using assms remove_other[OF assms(2), of "tc_txid (be_codec e) tx"]
  by (auto simp: broadcast_transaction_def acknowledged_def Let_def split: prod.splits if_splits)

lemma each_keeps:
  assumes "broadcast_each e txs s = (outs, s')" and "pending_since e (bc_disk s) i t"
  shows "(pending_since e (bc_disk s') i t \<or> acknowledged e i outs) \<and> map fst outs = txs"
  using assms
proof (induction txs arbitrary: s outs)
  case (Cons tx txs)
  from Cons.prems obtain out s1 outs2 where b: "broadcast_transaction e tx s = (out, s1)"
    and r: "broadcast_each e txs s1 = (outs2, s')" and outs: "outs = (tx, out) # outs2"
    by (auto split: prod.splits)
  have fsts: "map fst outs2 = txs" using r by (induction txs arbitrary: s1 outs2) (auto split: prod.splits)
  from broadcast_keeps[OF b Cons.prems(2)] show ?case
  proof
    assume "pending_since e (bc_disk s1) i t"
    from Cons.IH[OF r this] outs fsts show ?thesis by (auto simp: acknowledged_def)
  qed (use outs fsts in \<open>auto simp: acknowledged_def\<close>)
qed simp

lemma load_keeps:
  assumes "load_entries (be_codec e) (be_disk e) now ks l = (txs, l')" and "pending_since e l i t"
    and "saturating_sub now t \<le> PENDING_BROADCAST_TTL"
  shows "pending_since e l' i t \<and> (i \<in> set ks \<longrightarrow> (\<exists>tx \<in> set txs. tc_txid (be_codec e) tx = i))"
  using assms(1,2)
proof (induction ks arbitrary: l txs)
  case (Cons k ks)
  show ?case
  proof (cases "k = i")
    case True
    from Cons.prems(2) obtain t' tx where t': "t \<le> t'" and tx: "tc_txid (be_codec e) tx = i"
      and rd: "d_read (be_disk e) PENDING_BROADCASTS_NS [] i l = Inr (encode_pending_broadcast (be_codec e) t' tx)"
      unfolding pending_since_def by blast
    have "fresh_entry now (t', tx)"
      using saturating_sub_mono[OF t', of now] assms(3) by (simp add: fresh_entry_def)
    with Cons.prems(1) rd True pending_broadcast_roundtrip[OF codec]
    obtain txs2 where "load_entries (be_codec e) (be_disk e) now ks l = (txs2, l')" "txs = tx # txs2"
      by (auto split: prod.splits)
    with Cons.IH[OF this(1) Cons.prems(2)] tx show ?thesis by auto
  next
    case False
    note rm = remove_other[OF Cons.prems(2), of k]
    from Cons.prems(1) False show ?thesis
      by (auto split: sum.splits option.splits if_splits prod.splits
          dest!: Cons.IH intro: Cons.prems(2) rm)
  qed
qed simp

lemma handover_keeps:
  assumes "pending_since e (bc_disk s) i t" and "t \<le> now"
  shows "pending_since e (bc_disk (broadcast_transactions e now txs s)) i t"
proof -
  have "pending_since e (fold (\<lambda>tx. pending_persist (be_codec e) (be_disk e) tx now) txs l) i t" if "pending_since e l i t" for l
    using that by (induction txs arbitrary: l) (auto intro: persist_keeps[OF _ assms(2)])
  with assms show ?thesis by (simp add: broadcast_transactions_def Let_def)
qed

lemma drain_keeps:
  assumes "broadcast_step e (Drain now) s = (outs, s')" and "pending_since e (bc_disk s) i t" and "op_time_ok t (Drain now)"
  shows "(pending_since e (bc_disk s') i t \<or> acknowledged e i outs) \<and> attempted e i outs"
proof -
  obtain ks where ks: "d_list (be_disk e) PENDING_BROADCASTS_NS [] (bc_disk s) = Inr ks" using list_ok by blast
  obtain txs l where l: "load_entries (be_codec e) (be_disk e) now ks (bc_disk s) = (txs, l)" by fastforce
  from assms(1) ks l have b: "broadcast_each e txs (s\<lparr> bc_disk := l \<rparr>) = (outs, s')" by (simp add: load_fresh_def)
  have "i \<in> set ks" using listed[OF ks] assms(2) unfolding pending_since_def by blast
  with load_keeps[OF l assms(2)] assms(3) have p: "pending_since e l i t" and tx: "\<exists>tx \<in> set txs. tc_txid (be_codec e) tx = i" by auto
  from each_keeps[OF b, of i t] p have k: "pending_since e (bc_disk s') i t \<or> acknowledged e i outs" and m: "map fst outs = txs" by auto
  from tx m have "attempted e i outs" by (force simp: attempted_def)
  with k show ?thesis by blast
qed

lemma step_keeps:
  assumes "broadcast_step e op s = (outs, s')" and "pending_since e (bc_disk s) i t" and "op_time_ok t op"
  shows "pending_since e (bc_disk s') i t \<or> acknowledged e i outs"
proof (cases op)
  case (Direct now tx)
  with assms have "pending_since e (bc_disk (persist_pending_broadcast e now tx s)) i t"
    by (simp add: persist_pending_broadcast_def persist_keeps)
  with Direct assms(1) broadcast_keeps show ?thesis by (fastforce split: prod.splits)
next
  case (Drain now)
  with drain_keeps assms show ?thesis by blast
qed (use assms handover_keeps in \<open>auto split: list.splits dest!: each_keeps\<close>)

lemma run_keeps:
  assumes "broadcast_run e ops s = (outs, s')" and "pending_since e (bc_disk s) i t" and "\<forall>op \<in> set ops. op_time_ok t op"
  shows "pending_since e (bc_disk s') i t \<or> acknowledged e i outs"
  using assms
proof (induction ops arbitrary: s outs)
  case (Cons op ops)
  from Cons.prems(1) obtain o1 s1 o2 where s: "broadcast_step e op s = (o1, s1)" and r: "broadcast_run e ops s1 = (o2, s')" and outs: "outs = o1 @ o2"
    by (auto split: prod.splits)
  from step_keeps[OF s Cons.prems(2)] Cons.prems(3) Cons.IH[OF r] outs show ?case by auto
qed simp

end


section \<open>An error page read as an acknowledgement\<close>

text \<open>
  The numeric codes are looked for anywhere in the message: the body of a gateway error that carries
  the date of the 25th or 27th of a month is taken for the backend knowing the transaction.
\<close>

lemma dated_error_page_is_benign:
  "outcome_of (HttpResponse 502 ''bad gateway (2026-07-27 10:00:00)'' display) = AlreadyKnown"
proof -
  have l: "to_lowercase ''bad gateway (2026-07-27 10:00:00)'' = ''bad gateway (2026-07-27 10:00:00)''"
    by (rule to_lowercase_id) (simp add: is_upper_def byte_def)
  have c: "str_contains ''-27'' ''bad gateway (2026-07-27 10:00:00)''"
    using str_contains_infix[of "''-27''" "''bad gateway (2026-07''" "'' 10:00:00)''"] by (simp only: append.simps)
  show ?thesis by (simp only: outcome_of.simps broadcast_error_is_benign_def Let_def l c simp_thms if_True)
qed

definition example_post_env :: "(mem, nat, nat) broadcast_env" where
  \<comment> \<open>transactions are numbers; the backend is down for as many calls as its state says\<close>
  "example_post_env = \<lparr> be_codec = \<lparr> tc_serialize = (\<lambda>n. replicate n 0), tc_deserialize = (\<lambda>b. Some (length b)), tc_txid = (\<lambda>n. replicate n CHR ''a'') \<rparr>,
     be_disk = mem_disk, be_post = (\<lambda>tx n. if n = 0 then (Posted, 0) else (PostError ''down'', n - 1)) \<rparr>"

interpretation example_pending: pending_disk example_post_env
  by (rule pending_disk.intro)
    (simp_all add: example_post_env_def mem_kv.removable_store_axioms tx_codec_ok_def, simp add: mem_disk_def mem_list_def)


end
