(* ===== verification/Socket_Addr.thy ===== *)
theory Socket_Addr
  imports Text Monitor_Keys
begin

text \<open>
  \<open>std::net::SocketAddr\<close> as the peer code uses it: the standard library's reader (\<open>FromStr\<close>), a recursive
  descent with backtracking over the text, for IPv4 and bracketed IPv6 with an optional scope, and the
  text form of an IP address (\<open>Display\<close>, with the longest run of zero groups compressed).
\<close>

datatype socket_addr =
    V4 "nat list" nat \<comment> \<open>four octets, port\<close>
  | V6 "nat list" nat nat \<comment> \<open>eight groups, scope, port\<close>

fun sa_port :: "socket_addr \<Rightarrow> nat" where
  "sa_port (V4 _ p) = p"
| "sa_port (V6 _ _ p) = p"

definition to_digit :: "nat \<Rightarrow> char \<Rightarrow> nat option" where
  "to_digit radix c =
     (let b = byte c;
          d = (if is_ascii_digit c then Some (b - 48) else if is_lower c then Some (b - 87) else if is_upper c then Some (b - 55) else None)
      in case d of Some n \<Rightarrow> if n < radix then Some n else None | None \<Rightarrow> None)"

fun number_loop :: "nat \<Rightarrow> nat option \<Rightarrow> nat \<Rightarrow> nat \<Rightarrow> nat \<Rightarrow> string \<Rightarrow> (nat \<times> nat \<times> string) option" where
  "number_loop radix max_digits bound acc n [] = Some (acc, n, [])"
| "number_loop radix max_digits bound acc n (c # s) =
     (case to_digit radix c of
        None \<Rightarrow> Some (acc, n, c # s)
      | Some d \<Rightarrow>
          if acc * radix + d \<ge> bound then None
          else if (case max_digits of Some m \<Rightarrow> Suc n > m | None \<Rightarrow> False) then None
          else number_loop radix max_digits bound (acc * radix + d) (Suc n) s)"

definition read_number :: "nat \<Rightarrow> nat option \<Rightarrow> bool \<Rightarrow> nat \<Rightarrow> string \<Rightarrow> (nat \<times> string) option" where
  "read_number radix max_digits allow_zero_prefix bound s =
     (case number_loop radix max_digits bound 0 0 s of
        None \<Rightarrow> None
      | Some (v, n, rest) \<Rightarrow>
          if n = 0 \<or> (\<not> allow_zero_prefix \<and> take 1 s = ''0'' \<and> n > 1) then None else Some (v, rest))"

fun read_given_char :: "char \<Rightarrow> string \<Rightarrow> string option" where
  "read_given_char c [] = None"
| "read_given_char c (x # s) = (if x = c then Some s else None)"

definition read_separator :: "char \<Rightarrow> nat \<Rightarrow> (string \<Rightarrow> ('a \<times> string) option) \<Rightarrow> string \<Rightarrow> ('a \<times> string) option" where
  "read_separator sep i f s = (if i > 0 then Option.bind (read_given_char sep s) f else f s)"

fun read_ipv4_groups :: "nat list \<Rightarrow> string \<Rightarrow> (nat list \<times> string) option" where
  "read_ipv4_groups [] s = Some ([], s)"
| "read_ipv4_groups (i # is) s =
     (case read_separator CHR ''.'' i (read_number 10 (Some 3) False 256) s of
        None \<Rightarrow> None
      | Some (g, s1) \<Rightarrow> map_option (\<lambda>(gs, s2). (g # gs, s2)) (read_ipv4_groups is s1))"

definition read_ipv4_addr :: "string \<Rightarrow> (nat list \<times> string) option" where
  "read_ipv4_addr s = read_ipv4_groups [0, 1, 2, 3] s"

function read_groups :: "nat \<Rightarrow> nat \<Rightarrow> string \<Rightarrow> nat list \<times> bool \<times> string" where
  "read_groups limit i s =
     (if i \<ge> limit then ([], False, s)
      else case (if i < limit - 1 then read_separator CHR '':'' i read_ipv4_addr s else None) of
        Some (v4, s1) \<Rightarrow> ([v4 ! 0 * 256 + v4 ! 1, v4 ! 2 * 256 + v4 ! 3], True, s1)
      | None \<Rightarrow>
          (case read_separator CHR '':'' i (read_number 16 (Some 4) True 65536) s of
             None \<Rightarrow> ([], False, s)
           | Some (g, s1) \<Rightarrow> (case read_groups limit (Suc i) s1 of (gs, f, s2) \<Rightarrow> (g # gs, f, s2))))"
  by pat_completeness auto
termination by (relation "measure (\<lambda>(limit, i, s). limit - i)") auto

declare read_groups.simps [simp del]

definition read_ipv6_addr :: "string \<Rightarrow> (nat list \<times> string) option" where
  "read_ipv6_addr s =
     (case read_groups 8 0 s of
        (head, head_v4, s1) \<Rightarrow>
          if length head = 8 then Some (head, s1)
          else if head_v4 then None
          else case Option.bind (read_given_char CHR '':'' s1) (read_given_char CHR '':'') of
            None \<Rightarrow> None
          | Some s2 \<Rightarrow>
              (case read_groups (8 - (length head + 1)) 0 s2 of
                 (tail, _, s3) \<Rightarrow> Some (head @ replicate (8 - length head - length tail) 0 @ tail, s3)))"

definition read_port :: "string \<Rightarrow> (nat \<times> string) option" where
  "read_port s = Option.bind (read_given_char CHR '':'' s) (read_number 10 None True 65536)"

definition read_scope_id :: "string \<Rightarrow> (nat \<times> string) option" where
  "read_scope_id s = Option.bind (read_given_char CHR ''%'' s) (read_number 10 None True (2 ^ 32))"

definition read_socket_addr_v4 :: "string \<Rightarrow> (socket_addr \<times> string) option" where
  "read_socket_addr_v4 s =
     Option.bind (read_ipv4_addr s) (\<lambda>(ip, s1). map_option (\<lambda>(p, s2). (V4 ip p, s2)) (read_port s1))"

definition read_socket_addr_v6 :: "string \<Rightarrow> (socket_addr \<times> string) option" where
  "read_socket_addr_v6 s =
     Option.bind (read_given_char CHR ''['' s) (\<lambda>s1.
     Option.bind (read_ipv6_addr s1) (\<lambda>(ip, s2).
       case (case read_scope_id s2 of Some r \<Rightarrow> r | None \<Rightarrow> (0, s2)) of
         (scope, s3) \<Rightarrow>
           Option.bind (read_given_char CHR '']'' s3) (\<lambda>s4. map_option (\<lambda>(p, s5). (V6 ip scope p, s5)) (read_port s4))))"

definition parse_socket_addr :: "string \<Rightarrow> socket_addr option" where
  \<comment> \<open>\<open>FromStr\<close>: one of the two forms, and nothing left over\<close>
  "parse_socket_addr s =
     (case (case read_socket_addr_v4 s of Some r \<Rightarrow> Some r | None \<Rightarrow> read_socket_addr_v6 s) of
        Some (a, []) \<Rightarrow> Some a
      | _ \<Rightarrow> None)"

section \<open>Text form\<close>

fun join :: "string \<Rightarrow> string list \<Rightarrow> string" where
  "join sep [] = []"
| "join sep [x] = x"
| "join sep (x # y # xs) = x @ sep @ join sep (y # xs)"

fun to_hex :: "nat \<Rightarrow> string" where
  "to_hex n = (if n < 16 then [hex_digit n] else to_hex (n div 16) @ [hex_digit (n mod 16)])"

declare to_hex.simps [simp del]

definition fmt_subslice :: "nat list \<Rightarrow> string" where
  "fmt_subslice gs = join '':'' (map to_hex gs)"

fun longest_zeros :: "nat \<Rightarrow> nat list \<Rightarrow> nat \<times> nat \<Rightarrow> nat \<times> nat \<Rightarrow> nat \<times> nat" where
  \<comment> \<open>position, remaining groups, current and longest span of zeros as start and length\<close>
  "longest_zeros i [] cur best = best"
| "longest_zeros i (g # gs) cur best =
     (if g = 0
      then let cur1 = (if snd cur = 0 then i else fst cur, Suc (snd cur))
           in longest_zeros (Suc i) gs cur1 (if snd cur1 > snd best then cur1 else best)
      else longest_zeros (Suc i) gs (0, 0) best)"

definition ipv4_to_string :: "nat list \<Rightarrow> string" where
  "ipv4_to_string ip = join ''.'' (map nat_to_string ip)"

definition ipv6_to_string :: "nat list \<Rightarrow> string" where
  "ipv6_to_string ip =
     (if take 6 ip = [0, 0, 0, 0, 0, 65535]
      then ''::ffff:'' @ ipv4_to_string [ip ! 6 div 256, ip ! 6 mod 256, ip ! 7 div 256, ip ! 7 mod 256]
      else case longest_zeros 0 ip (0, 0) (0, 0) of
        (start, n) \<Rightarrow> if n > 1 then fmt_subslice (take start ip) @ ''::'' @ fmt_subslice (drop (start + n) ip) else fmt_subslice ip)"

fun ip_to_string :: "socket_addr \<Rightarrow> string" where
  "ip_to_string (V4 ip _) = ipv4_to_string ip"
| "ip_to_string (V6 ip _ _) = ipv6_to_string ip"

lemmas socket_read_defs = parse_socket_addr_def read_socket_addr_v4_def read_socket_addr_v6_def read_ipv4_addr_def read_ipv6_addr_def
  read_port_def read_scope_id_def read_separator_def read_number_def to_digit_def byte_def is_ascii_digit_iff is_lower_def is_upper_def read_groups.simps

lemma socket_addr_examples:
  "parse_socket_addr ''01.0.0.1:9735'' = None" "parse_socket_addr ''127.0.0.1:+9735'' = None"
  "parse_socket_addr ''[::1]:9736'' = Some (V6 (replicate 7 0 @ [1]) 0 9736)" "parse_socket_addr ''::1:9736'' = None"
  by (simp_all add: socket_read_defs Let_def)

section \<open>An IPv4 address reads back\<close>

lemma to_digit_ascii: "is_ascii_digit c \<Longrightarrow> to_digit 10 c = Some (digit_val c)"
  by (auto simp: to_digit_def digit_val_def byte_def is_ascii_digit_iff Let_def)

lemma to_digit_end: "\<not> is_ascii_digit c \<Longrightarrow> to_digit 10 c = None"
  by (auto simp: to_digit_def Let_def byte_def is_lower_def is_upper_def is_ascii_digit_iff split: if_splits option.splits)

lemma number_loop_digits:
  assumes "parse_digits bound acc ds = Some v" and "case m of Some k \<Rightarrow> n + length ds \<le> k | None \<Rightarrow> True"
    and "rest = [] \<or> \<not> is_ascii_digit (hd rest)"
  shows "number_loop 10 m bound acc n (ds @ rest) = Some (v, n + length ds, rest)"
  using assms
proof (induction ds arbitrary: acc n)
  case Nil
  then show ?case by (cases rest) (auto simp: to_digit_end)
next
  case (Cons c ds)
  from Cons.prems(1) have c: "is_ascii_digit c" "acc * 10 + digit_val c < bound"
    and r: "parse_digits bound (acc * 10 + digit_val c) ds = Some v" by (auto split: if_splits)
  have m: "case m of Some k \<Rightarrow> Suc n + length ds \<le> k | None \<Rightarrow> True" using Cons.prems(2) by (simp split: option.splits)
  from c Cons.IH[OF r m Cons.prems(3)] m show ?case by (auto simp: to_digit_ascii split: option.splits)
qed

lemma nat_to_string_length: "n < 10 ^ k \<Longrightarrow> 0 < k \<Longrightarrow> length (nat_to_string n) \<le> k"
proof (induction n arbitrary: k rule: nat_to_string.induct)
  case (1 n)
  show ?case
  proof (cases "n < 10")
    case True
    with 1 show ?thesis by (simp add: nat_to_string.simps[of n])
  next
    case False
    obtain j where j: "k = Suc j" using 1(3) by (cases k) auto
    have "j \<noteq> 0" using False 1(2) j by (intro notI) simp
    have "n div 10 < 10 ^ j" using 1(2) j by (intro less_mult_imp_div_less) (simp add: mult.commute)
    from this 1(1)[OF False, of j] \<open>j \<noteq> 0\<close> False j show ?thesis by (simp add: nat_to_string.simps[of n])
  qed
qed

lemma nat_to_string_zero_prefix: "take 1 (nat_to_string n) = ''0'' \<Longrightarrow> length (nat_to_string n) \<le> 1"
proof (induction n rule: nat_to_string.induct)
  case (1 n)
  show ?case
  proof (cases "n < 10")
    case False
    let ?p = "nat_to_string (n div 10)"
    have s: "nat_to_string n = ?p @ [digit_char (n mod 10)]" using False by (simp add: nat_to_string.simps[of n])
    then have z: "take 1 ?p = ''0''" using 1(2) by (cases ?p) auto
    then have l: "length ?p \<le> 1" using 1(1)[OF False] by simp
    have "n div 10 \<noteq> 0" using False by simp
    have "?p = ''0''" using l z by (cases ?p) auto
    then have "n div 10 < 10 \<and> digit_char (n div 10) = CHR ''0''" by (simp add: nat_to_string.simps[of "n div 10"] split: if_splits)
    with of_char_digit_char[of "n div 10"] \<open>n div 10 \<noteq> 0\<close> have False by simp
    then show ?thesis ..
  qed (simp add: nat_to_string.simps[of n])
qed

lemma read_number_nat:
  assumes "n < bound" and "case m of Some k \<Rightarrow> length (nat_to_string n) \<le> k | None \<Rightarrow> True" and "rest = [] \<or> \<not> is_ascii_digit (hd rest)"
  shows "read_number 10 m z bound (nat_to_string n @ rest) = Some (n, rest)"
proof -
  have l: "number_loop 10 m bound 0 0 (nat_to_string n @ rest) = Some (n, length (nat_to_string n), rest)"
    using number_loop_digits[OF parse_digits_nat_to_string[OF assms(1)], where m = m and n = 0 and rest = rest] assms(2,3) by (simp split: option.splits)
  have t: "take 1 (nat_to_string n @ rest) = take 1 (nat_to_string n)" by (cases "nat_to_string n") auto
  have "\<not> (take 1 (nat_to_string n @ rest) = ''0'' \<and> 1 < length (nat_to_string n))"
    unfolding t using nat_to_string_zero_prefix[of n] by linarith
  then show ?thesis unfolding read_number_def l by simp
qed

lemma octet_read:
  assumes "n < 256" and "rest = [] \<or> \<not> is_ascii_digit (hd rest)"
  shows "read_number 10 (Some 3) False 256 (nat_to_string n @ rest) = Some (n, rest)"
  using assms nat_to_string_length[of n 3] by (intro read_number_nat) simp_all

lemma no_digit_sep [simp]: "\<not> is_ascii_digit (CHR ''.'')" "\<not> is_ascii_digit (CHR '':'')"
  by (simp_all add: is_ascii_digit_iff)

lemma ipv4_read:
  assumes "a < 256" "b < 256" "c < 256" "d < 256" and "rest = [] \<or> \<not> is_ascii_digit (hd rest)"
  shows "read_ipv4_addr (ipv4_to_string [a, b, c, d] @ rest) = Some ([a, b, c, d], rest)"
  using assms by (simp add: read_ipv4_addr_def ipv4_to_string_def read_separator_def octet_read)

lemma socket_addr_v4_roundtrip:
  assumes "list_all (\<lambda>x. x < 256) ip" and "length ip = 4" and "port < 65536"
  shows "parse_socket_addr (ipv4_to_string ip @ CHR '':'' # nat_to_string port) = Some (V4 ip port)"
proof -
  obtain a b c d where ip: "ip = [a, b, c, d]" using assms(2) by (auto simp: numeral_eq_Suc length_Suc_conv)
  have "read_ipv4_addr (ipv4_to_string ip @ CHR '':'' # nat_to_string port) = Some (ip, CHR '':'' # nat_to_string port)"
    using assms(1) unfolding ip by (intro ipv4_read) simp_all
  moreover have "read_number 10 None True 65536 (nat_to_string port) = Some (port, [])"
    using read_number_nat[of port 65536 None "[]" True] assms(3) by simp
  ultimately show ?thesis by (simp add: parse_socket_addr_def read_socket_addr_v4_def read_port_def)
qed

end
