(* ===== verification/Channels.thy ===== *)
theory Channels
  imports Onchain_Send Broadcast Known_Peers Socket_Addr "HOL-Library.Product_Lexorder"
begin

text \<open>
  Peers and channels, \<open>src/rust/src/channels.rs\<close> with the node's entry points in \<open>node/channels_api.rs\<close>:
  the peer address parser, the open-amount and balance gates, the funding store and the persist-then-notify
  funding flow, the peer rows, the close estimate. LDK's channel and peer managers are the record \<open>ldk\<close>
  over a state of any type, public keys are of any type with LDK's reader and printer; the funding
  transaction comes from the wallet of \<open>Onchain_Send\<close> and goes to the broadcaster of \<open>Broadcast\<close>, on the same disk
  as the funding store. Log lines are left out, and an error carries the failure it renders.
\<close>

section \<open>Addresses\<close>

datatype peer_address_error =
    MissingAt | MissingPort | InvalidPort | InvalidPubkey | HostnameUnsupported string | InvalidHost string

datatype channels_error =
    ChannelsNotRunning | BadAddress peer_address_error | BadPubkey | ConnectFailed string | PersistFailed io_error
  | PeerHasOpenChannels | AmountBelowMinimum | AmountAboveMaximum | AmountExceedsBalance | OpenFailed string
  | ChannelNotFound | CloseFailed string

fun peer_address_display :: "peer_address_error \<Rightarrow> string" where
  "peer_address_display MissingAt = ''Invalid peer address: expected pubkey@host:port''"
| "peer_address_display MissingPort = ''Invalid peer address: expected host:port after @''"
| "peer_address_display InvalidPort = ''Invalid peer address: port must be a number between 1 and 65535''"
| "peer_address_display InvalidPubkey = ''Invalid peer address: pubkey must be 66 lowercase hex characters''"
| "peer_address_display (HostnameUnsupported host) =
     ''Invalid peer address: hostname '' @ host @ '' is not supported; use an ip:port address''"
| "peer_address_display (InvalidHost host) = ''Invalid peer address: '' @ host @ '' is not a valid host''"

fun channels_error_display :: "(u64 \<Rightarrow> string) \<Rightarrow> channels_error \<Rightarrow> string" where
  \<comment> \<open>\<open>Display\<close>; the first argument is \<open>format_btc\<close>\<close>
  "channels_error_display btc ChannelsNotRunning = ''the node is not running''"
| "channels_error_display btc (BadAddress e) = peer_address_display e"
| "channels_error_display btc BadPubkey = ''Invalid pubkey: must be 66 lowercase hex characters''"
| "channels_error_display btc (ConnectFailed detail) = ''Failed to connect to peer: '' @ detail"
| "channels_error_display btc (PersistFailed detail) = ''Failed to persist known peer: '' @ detail"
| "channels_error_display btc PeerHasOpenChannels = ''Cannot forget peer with open channels''"
| "channels_error_display btc AmountBelowMinimum = ''Minimum channel size is '' @ btc 20000"
| "channels_error_display btc AmountAboveMaximum = ''Maximum channel size is '' @ btc 16777215"
| "channels_error_display btc AmountExceedsBalance = ''Amount plus fees exceeds available balance''"
| "channels_error_display btc (OpenFailed detail) = ''Failed to initiate channel opening: '' @ detail"
| "channels_error_display btc ChannelNotFound = ''Channel not found''"
| "channels_error_display btc (CloseFailed detail) = ''Close failed: '' @ detail"

definition parse_u16 :: "string \<Rightarrow> nat option" where
  \<comment> \<open>\<open>str::parse::<u16>\<close>, which allows a plus sign\<close>
  "parse_u16 s =
     (let ds = (case s of [] \<Rightarrow> [] | c # cs \<Rightarrow> if c = CHR ''+'' then cs else s)
      in if ds = [] then None else parse_digits 65536 0 ds)"

definition parse_peer_address :: "(string \<Rightarrow> 'id option) \<Rightarrow> string \<Rightarrow> peer_address_error + 'id \<times> socket_addr" where
  "parse_peer_address pubkey_of_str raw =
     (case split_once CHR ''@'' (trim raw) of
        None \<Rightarrow> Inl MissingAt
      | Some (pubkey_str, host_port) \<Rightarrow>
          (case rsplit_once CHR '':'' host_port of
             None \<Rightarrow> Inl MissingPort
           | Some (host, port_str) \<Rightarrow>
               (case parse_u16 port_str of
                  None \<Rightarrow> Inl InvalidPort
                | Some port \<Rightarrow>
                    if port < 1 then Inl InvalidPort
                    else if length pubkey_str \<noteq> 66 \<or> \<not> list_all (\<lambda>c. is_ascii_digit c \<or> CHR ''a'' \<le> c \<and> c \<le> CHR ''f'') pubkey_str
                    then Inl InvalidPubkey
                    else case pubkey_of_str pubkey_str of
                      None \<Rightarrow> Inl InvalidPubkey
                    | Some pubkey \<Rightarrow>
                        (case parse_socket_addr host_port of
                           Some addr \<Rightarrow> Inr (pubkey, addr)
                         | None \<Rightarrow>
                             if host \<noteq> [] \<and> list_all (\<lambda>c. is_alnum c \<or> c = CHR ''.'' \<or> c = CHR ''-'' \<or> c = CHR ''_'') host
                             then Inl (HostnameUnsupported host)
                             else Inl (InvalidHost host)))))"

section \<open>Amounts\<close>

definition MIN_CHANNEL_SATS :: u64 where "MIN_CHANNEL_SATS = 20000"
definition MAX_CHANNEL_SATS :: u64 where "MAX_CHANNEL_SATS = 16777215"
definition APPROX_FUNDING_TX_VBYTES :: u64 where "APPROX_FUNDING_TX_VBYTES = 140"
definition COOP_CLOSE_WEIGHT_WU :: u64 where "COOP_CLOSE_WEIGHT_WU = 700"
definition SWEEP_VBYTES :: u64 where "SWEEP_VBYTES = 140"
definition CPFP_VBYTES :: u64 where "CPFP_VBYTES = 200"

definition check_open_amount :: "u64 \<Rightarrow> channels_error + unit" where
  "check_open_amount sats =
     (if sats < MIN_CHANNEL_SATS then Inl AmountBelowMinimum else if sats > MAX_CHANNEL_SATS then Inl AmountAboveMaximum else Inr ())"

record open_fee_estimate =
  of_fee_rate_sat_per_vb :: u64
  of_estimated_fee_sats :: u64

definition open_fee_estimate_at :: "u64 \<Rightarrow> open_fee_estimate" where
  "open_fee_estimate_at rate = \<lparr> of_fee_rate_sat_per_vb = rate, of_estimated_fee_sats = rate * APPROX_FUNDING_TX_VBYTES \<rparr>"

section \<open>The funding store\<close>

definition FUNDING_TX_NS :: string where "FUNDING_TX_NS = ''funding_txs''"
definition CHANNEL_ID_MAP_NS :: string where "CHANNEL_ID_MAP_NS = ''channel_id_map''"

definition persist_funding_tx :: "('l, 'n, 'tx) broadcast_env \<Rightarrow> string \<Rightarrow> 'tx \<Rightarrow> 'l \<Rightarrow> (io_error + unit) \<times> 'l" where
  "persist_funding_tx e temp tx = d_write (be_disk e) FUNDING_TX_NS [] temp (tc_serialize (be_codec e) tx)"

definition funding_tx :: "('l, 'n, 'tx) broadcast_env \<Rightarrow> string \<Rightarrow> 'l \<Rightarrow> 'tx option" where
  "funding_tx e temp l =
     (case d_read (be_disk e) FUNDING_TX_NS [] temp l of Inl _ \<Rightarrow> None | Inr b \<Rightarrow> tc_deserialize (be_codec e) b)"

definition remove_funding_tx :: "('l, 'n, 'tx) broadcast_env \<Rightarrow> string \<Rightarrow> 'l \<Rightarrow> 'l" where
  "remove_funding_tx e temp l = snd (d_remove (be_disk e) FUNDING_TX_NS [] temp False l)"

definition record_channel_id_map :: "('l, 'n, 'tx) broadcast_env \<Rightarrow> string \<Rightarrow> string \<Rightarrow> 'l \<Rightarrow> 'l" where
  "record_channel_id_map e cid temp l = snd (d_write (be_disk e) CHANNEL_ID_MAP_NS [] cid (as_bytes temp) l)"

definition temp_id_for :: "('l, 'n, 'tx) broadcast_env \<Rightarrow> string \<Rightarrow> 'l \<Rightarrow> string option" where
  "temp_id_for e cid l = (case d_read (be_disk e) CHANNEL_ID_MAP_NS [] cid l of Inl _ \<Rightarrow> None | Inr b \<Rightarrow> from_utf8 b)"

definition remove_channel_id_map :: "('l, 'n, 'tx) broadcast_env \<Rightarrow> string \<Rightarrow> 'l \<Rightarrow> 'l" where
  "remove_channel_id_map e cid l = snd (d_remove (be_disk e) CHANNEL_ID_MAP_NS [] cid False l)"

section \<open>The funding flow\<close>

datatype funding_flow_error =
    FundingRate u64 | FundingBuild onchain_send_error | FundingPersist io_error | FundingNotify string

record ('l, 'n, 'tx, 'w, 'k) funding_world =
  fw_bc :: "('l, 'n, 'tx) broadcaster"
  fw_wallet :: 'w
  fw_ldk :: 'k

definition handle_funding_generation_ready ::
  "('w, 'psbt, 'tx) bdk \<Rightarrow> (tx_build_failure \<Rightarrow> string) \<Rightarrow> ('l, 'n, 'tx) broadcast_env \<Rightarrow> (string \<Rightarrow> 'tx \<Rightarrow> 'k \<Rightarrow> (string + unit) \<times> 'k)
     \<Rightarrow> u64 \<Rightarrow> string \<Rightarrow> u64 \<Rightarrow> script \<Rightarrow> ('l, 'n, 'tx, 'w, 'k) funding_world
     \<Rightarrow> (funding_flow_error + unit) \<times> ('l, 'n, 'tx, 'w, 'k) funding_world"
where
  \<comment> \<open>the second argument renders a build failure (\<open>Debug\<close>); \<open>notify\<close> is LDK's \<open>funding_transaction_generated_manual_broadcast\<close>\<close>
  "handle_funding_generation_ready b render e notify rate temp value script s =
     (if \<not> b_fee_rate_ok b rate then (Inl (FundingRate rate), s)
      else (case create_onchain_tx b (FundingOutput script value) rate (\<lambda>_. Inr ()) (\<lambda>f. BuildFailed (render f)) (fw_wallet s) of
             (Inl err, w) \<Rightarrow> (Inl (FundingBuild err), s\<lparr> fw_wallet := w \<rparr>)
           | (Inr tx, w) \<Rightarrow>
               let s1 = s\<lparr> fw_wallet := w \<rparr> in
               (case persist_funding_tx e temp tx (bc_disk (fw_bc s1)) of
                  (Inl err, l) \<Rightarrow> (Inl (FundingPersist err), s1\<lparr> fw_bc := (fw_bc s1)\<lparr> bc_disk := l \<rparr> \<rparr>)
                | (Inr _, l) \<Rightarrow>
                    let s2 = s1\<lparr> fw_bc := (fw_bc s1)\<lparr> bc_disk := l \<rparr> \<rparr> in
                    (case notify temp tx (fw_ldk s2) of
                       (Inl detail, k) \<Rightarrow> (Inl (FundingNotify detail), s2\<lparr> fw_ldk := k \<rparr>)
                     | (Inr _, k) \<Rightarrow> (Inr (), s2\<lparr> fw_ldk := k \<rparr>)))))"

definition on_funding_generation_ready ::
  "('w, 'psbt, 'tx) bdk \<Rightarrow> (tx_build_failure \<Rightarrow> string) \<Rightarrow> ('l, 'n, 'tx) broadcast_env \<Rightarrow> (bytes \<Rightarrow> 'id \<Rightarrow> 'tx \<Rightarrow> 'k \<Rightarrow> (string + unit) \<times> 'k)
     \<Rightarrow> u64 \<Rightarrow> bytes \<Rightarrow> 'id \<Rightarrow> u64 \<Rightarrow> script \<Rightarrow> ('l, 'n, 'tx, 'w, 'k) funding_world \<Rightarrow> ('l, 'n, 'tx, 'w, 'k) funding_world"
where
  "on_funding_generation_ready b render e generated rate temp counterparty value script s =
     snd (handle_funding_generation_ready b render e (\<lambda>_. generated temp counterparty) rate (hex_str temp) value script s)"

datatype broadcast_safe_outcome = FundingBroadcast string | MissingTx

definition handle_funding_tx_broadcast_safe ::
  "('l, 'n, 'tx) broadcast_env \<Rightarrow> u64 \<Rightarrow> string \<Rightarrow> ('l, 'n, 'tx) broadcaster \<Rightarrow> broadcast_safe_outcome \<times> ('l, 'n, 'tx) broadcaster"
where
  "handle_funding_tx_broadcast_safe e now temp s =
     (case funding_tx e temp (bc_disk s) of
        Some tx \<Rightarrow>
          let s1 = broadcast_transactions e now [tx] s
          in (FundingBroadcast (tc_txid (be_codec e) tx), s1\<lparr> bc_disk := remove_funding_tx e temp (bc_disk s1) \<rparr>)
      | None \<Rightarrow> (MissingTx, s))"

definition handle_discard_funding :: "('l, 'n, 'tx) broadcast_env \<Rightarrow> string \<Rightarrow> 'l \<Rightarrow> bool \<times> 'l" where
  "handle_discard_funding e cid l =
     (case temp_id_for e cid l of
        Some temp \<Rightarrow> (True, remove_channel_id_map e cid (remove_funding_tx e temp l))
      | None \<Rightarrow> (False, l))"

section \<open>Peers\<close>

definition ensure_no_open_channels_with :: "string list \<Rightarrow> string \<Rightarrow> channels_error + unit" where
  "ensure_no_open_channels_with counterparties pubkey =
     (if list_ex (\<lambda>c. c = pubkey) counterparties then Inl PeerHasOpenChannels else Inr ())"

definition auto_forget_on_channel_closed ::
  "('r, 'l, 'c) env \<Rightarrow> string \<Rightarrow> bool \<Rightarrow> ('r, 'l, 'c) peers_store \<Rightarrow> ('r, 'l, 'c) peers_store"
where
  "auto_forget_on_channel_closed e pubkey still_has_channels ks = (if still_has_channels then ks else snd (kp_remove e pubkey ks))"

record peer_view =
  pv_pubkey :: string
  pv_address :: "string option"
  pv_connected :: bool
  pv_known :: bool
  pv_channel_count :: u32

definition peer_view_of :: "peer_map \<Rightarrow> string set \<Rightarrow> (string \<Rightarrow> u32 option) \<Rightarrow> string \<Rightarrow> peer_view" where
  "peer_view_of known conn counts pubkey =
     \<lparr> pv_pubkey = pubkey,
       pv_address = map_option (\<lambda>p. kp_host p @ CHR '':'' # nat_to_string (unat (kp_port p))) (bt_get known pubkey),
       pv_connected = (pubkey \<in> conn), pv_known = (bt_get known pubkey \<noteq> None),
       pv_channel_count = (case counts pubkey of Some n \<Rightarrow> n | None \<Rightarrow> 0) \<rparr>"

definition build_peer_views :: "peer_map \<Rightarrow> string list \<Rightarrow> (string \<Rightarrow> u32 option) \<Rightarrow> peer_view list" where
  \<comment> \<open>the connected peers are a \<open>HashSet\<close>: a list in its iteration order\<close>
  "build_peer_views known conn counts =
     sort_key (\<lambda>v. (\<not> pv_connected v, pv_pubkey v))
       (map (peer_view_of known (set conn) counts) (map fst known @ filter (\<lambda>p. bt_get known p = None) conn))"

section \<open>LDK's managers\<close>

datatype shutdown_state = NotShuttingDown | ShutdownInitiated | ResolvingHTLCs | NegotiatingClosingFee | ShutdownComplete

record 'id channel_details =
  cd_channel_id :: bytes
  cd_counterparty :: 'id
  cd_shutdown :: "shutdown_state option"
  cd_usable :: bool
  cd_ready :: bool
  cd_value_sats :: u64
  cd_outbound_msat :: u64
  cd_inbound_msat :: u64
  cd_reserve_sats :: "u64 option"
  cd_inbound_htlcs :: nat
  cd_outbound_htlcs :: nat
  cd_is_outbound :: bool
  cd_spend_delay :: "u16 option"
  cd_anchors :: "bool option" \<comment> \<open>\<open>channel_type\<close>, when known: whether it supports anchors\<close>

datatype balance =
    ClaimableOnChannelClose "(u64 \<times> u64) list" nat \<comment> \<open>candidates as fee and amount, index of the confirmed one\<close>
  | OtherBalance

record ('id, 'k) ldk =
  lk_pubkey_of_str :: "string \<Rightarrow> 'id option"
  lk_pubkey_str :: "'id \<Rightarrow> string"
  lk_peers :: "'k \<Rightarrow> 'id list"
  lk_connect :: "'id \<Rightarrow> socket_addr \<Rightarrow> 'k \<Rightarrow> bool \<times> 'k"
  lk_sleep :: "'k \<Rightarrow> 'k" \<comment> \<open>50 ms of the rest of the system\<close>
  lk_disconnect :: "'id \<Rightarrow> 'k \<Rightarrow> 'k"
  lk_channels :: "'k \<Rightarrow> 'id channel_details list"
  lk_create_channel :: "'id \<Rightarrow> u64 \<Rightarrow> nat \<Rightarrow> 'k \<Rightarrow> (string + bytes) \<times> 'k"
  lk_close :: "bytes \<Rightarrow> 'id \<Rightarrow> 'k \<Rightarrow> (string + unit) \<times> 'k"
  lk_force_close :: "bytes \<Rightarrow> 'id \<Rightarrow> string \<Rightarrow> 'k \<Rightarrow> (string + unit) \<times> 'k"
  lk_balances :: "'id channel_details list \<Rightarrow> 'k \<Rightarrow> balance list"

definition FORCE_CLOSE_REASON :: string where "FORCE_CLOSE_REASON = ''User-initiated force close''"

datatype channel_state_label = LabelActive | LabelReady | LabelPending | LabelClosing

record channel_view =
  cv_channel_id :: string
  cv_counterparty_pubkey :: string
  cv_state :: channel_state_label
  cv_capacity_sats :: u64
  cv_outbound_msat :: u64
  cv_inbound_msat :: u64
  cv_reserve_sats :: "u64 option"
  cv_usable :: bool
  cv_pending_htlc_count :: u32

definition channel_view_of :: "('id, 'k) ldk \<Rightarrow> 'id channel_details \<Rightarrow> channel_view" where
  "channel_view_of lk d =
     \<lparr> cv_channel_id = hex_str (cd_channel_id d), cv_counterparty_pubkey = lk_pubkey_str lk (cd_counterparty d),
       cv_state = (if (case cd_shutdown d of Some st \<Rightarrow> st \<noteq> NotShuttingDown | None \<Rightarrow> False) then LabelClosing
                   else if cd_usable d then LabelActive else if cd_ready d then LabelReady else LabelPending),
       cv_capacity_sats = cd_value_sats d, cv_outbound_msat = cd_outbound_msat d, cv_inbound_msat = cd_inbound_msat d,
       cv_reserve_sats = cd_reserve_sats d, cv_usable = cd_usable d,
       cv_pending_htlc_count = of_nat (cd_inbound_htlcs d + cd_outbound_htlcs d) \<rparr>"

record ('r, 'l, 'c, 'k) channels_world =
  cw_ldk :: 'k
  cw_peers :: "('r, 'l, 'c) peers_store"

record ('id, 'k, 'r, 'l, 'c) channels_env =
  cn_ldk :: "('id, 'k) ldk"
  cn_env :: "('r, 'l, 'c) env"
  cn_running :: bool
  cn_lsp :: 'id
  cn_lsp_connect :: "'k \<Rightarrow> (string + unit) \<times> 'k" \<comment> \<open>\<open>ensure_lsp_connected\<close>\<close>
  cn_alive :: "'k \<Rightarrow> bool" \<comment> \<open>the runtime outlived the dialing task (\<open>spawn_and_wait\<close>)\<close>
  cn_fee_rate :: u64
  cn_spendable :: u64

definition DIAL_POLLS :: nat where "DIAL_POLLS = 300" \<comment> \<open>15 s in steps of 50 ms\<close>

fun await_peer :: "('id, 'k) ldk \<Rightarrow> nat \<Rightarrow> 'id \<Rightarrow> 'k \<Rightarrow> (channels_error + unit) \<times> 'k" where
  "await_peer lk 0 i k = (Inl (ConnectFailed ''Connection timed out''), k)"
| "await_peer lk (Suc n) i k = (if i \<in> set (lk_peers lk k) then (Inr (), k) else await_peer lk n i (lk_sleep lk k))"

definition dial_peer :: "('id, 'k) ldk \<Rightarrow> (socket_addr \<Rightarrow> string) \<Rightarrow> 'id \<Rightarrow> socket_addr \<Rightarrow> 'k \<Rightarrow> (channels_error + unit) \<times> 'k" where
  "dial_peer lk show_addr i addr k =
     (if i \<in> set (lk_peers lk k) then (Inr (), k)
      else case lk_connect lk i addr k of
        (False, k1) \<Rightarrow> (Inl (ConnectFailed (''could not open a TCP connection to '' @ show_addr addr)), k1)
      | (True, k1) \<Rightarrow> await_peer lk DIAL_POLLS i k1)"

definition dial_and_persist ::
  "('id, 'k, 'r, 'l, 'c) channels_env \<Rightarrow> (socket_addr \<Rightarrow> string) \<Rightarrow> 'id \<Rightarrow> socket_addr \<Rightarrow> ('r, 'l, 'c, 'k) channels_world
     \<Rightarrow> (channels_error + unit) \<times> ('r, 'l, 'c, 'k) channels_world"
where
  "dial_and_persist n show_addr i addr s =
     (let (result, k) = (if i = cn_lsp n then map_prod (map_sum ConnectFailed id) id (cn_lsp_connect n (cw_ldk s))
                         else dial_peer (cn_ldk n) show_addr i addr (cw_ldk s))
      in case (if cn_alive n k then result else Inl (ConnectFailed ''the node is shutting down'')) of
        Inl err \<Rightarrow> (Inl err, s\<lparr> cw_ldk := k \<rparr>)
      | Inr _ \<Rightarrow>
          (case kp_upsert (cn_env n) (lk_pubkey_str (cn_ldk n) i) (ip_to_string addr) (of_nat (sa_port addr)) (cw_peers s) of
             (Inl err, ks) \<Rightarrow> (Inl (PersistFailed err), s\<lparr> cw_ldk := k, cw_peers := ks \<rparr>)
           | (Inr _, ks) \<Rightarrow> (Inr (), s\<lparr> cw_ldk := k, cw_peers := ks \<rparr>)))"

definition connect_peer ::
  "('id, 'k, 'r, 'l, 'c) channels_env \<Rightarrow> (socket_addr \<Rightarrow> string) \<Rightarrow> string \<Rightarrow> ('r, 'l, 'c, 'k) channels_world
     \<Rightarrow> (channels_error + string) \<times> ('r, 'l, 'c, 'k) channels_world"
where
  "connect_peer n show_addr address s =
     (case parse_peer_address (lk_pubkey_of_str (cn_ldk n)) address of
        Inl err \<Rightarrow> (Inl (BadAddress err), s)
      | Inr (i, addr) \<Rightarrow>
          if \<not> cn_running n then (Inl ChannelsNotRunning, s)
          else case dial_and_persist n show_addr i addr s of
            (Inl err, s1) \<Rightarrow> (Inl err, s1)
          | (Inr _, s1) \<Rightarrow> (Inr (lk_pubkey_str (cn_ldk n) i), s1))"

definition disconnect_peer ::
  "('id, 'k, 'r, 'l, 'c) channels_env \<Rightarrow> string \<Rightarrow> ('r, 'l, 'c, 'k) channels_world \<Rightarrow> (channels_error + unit) \<times> ('r, 'l, 'c, 'k) channels_world"
where
  "disconnect_peer n pubkey s =
     (case lk_pubkey_of_str (cn_ldk n) pubkey of
        None \<Rightarrow> (Inl BadPubkey, s)
      | Some i \<Rightarrow> if \<not> cn_running n then (Inl ChannelsNotRunning, s) else (Inr (), s\<lparr> cw_ldk := lk_disconnect (cn_ldk n) i (cw_ldk s) \<rparr>))"

definition forget_peer ::
  "('id, 'k, 'r, 'l, 'c) channels_env \<Rightarrow> string \<Rightarrow> ('r, 'l, 'c, 'k) channels_world \<Rightarrow> (channels_error + unit) \<times> ('r, 'l, 'c, 'k) channels_world"
where
  "forget_peer n pubkey s =
     (if \<not> cn_running n then (Inl ChannelsNotRunning, s)
      else case ensure_no_open_channels_with (map (\<lambda>d. lk_pubkey_str (cn_ldk n) (cd_counterparty d)) (lk_channels (cn_ldk n) (cw_ldk s))) pubkey of
        Inl err \<Rightarrow> (Inl err, s)
      | Inr _ \<Rightarrow>
          (case kp_remove (cn_env n) pubkey (cw_peers s) of
             (Inl err, ks) \<Rightarrow> (Inl (PersistFailed err), s\<lparr> cw_peers := ks \<rparr>)
           | (Inr _, ks) \<Rightarrow> (Inr (), s\<lparr> cw_peers := ks \<rparr>)))"

definition channel_counts :: "string list \<Rightarrow> string \<Rightarrow> u32 option" where
  "channel_counts counterparties p = (let n = length (filter (\<lambda>c. c = p) counterparties) in if n = 0 then None else Some (of_nat n))"

definition list_peers :: "('id, 'k, 'r, 'l, 'c) channels_env \<Rightarrow> ('r, 'l, 'c, 'k) channels_world \<Rightarrow> channels_error + peer_view list" where
  "list_peers n s =
     (if \<not> cn_running n then Inl ChannelsNotRunning
      else Inr (build_peer_views (fst (cw_peers s)) (remdups (map (lk_pubkey_str (cn_ldk n)) (lk_peers (cn_ldk n) (cw_ldk s))))
             (channel_counts (map (\<lambda>d. lk_pubkey_str (cn_ldk n) (cd_counterparty d)) (lk_channels (cn_ldk n) (cw_ldk s))))))"

definition estimate_open_fee :: "('id, 'k, 'r, 'l, 'c) channels_env \<Rightarrow> channels_error + open_fee_estimate" where
  "estimate_open_fee n = (if \<not> cn_running n then Inl ChannelsNotRunning else Inr (open_fee_estimate_at (cn_fee_rate n)))"

definition list_channels :: "('id, 'k, 'r, 'l, 'c) channels_env \<Rightarrow> ('r, 'l, 'c, 'k) channels_world \<Rightarrow> channels_error + channel_view list" where
  "list_channels n s =
     (if \<not> cn_running n then Inl ChannelsNotRunning else Inr (map (channel_view_of (cn_ldk n)) (lk_channels (cn_ldk n) (cw_ldk s))))"

definition open_channel ::
  "('id, 'k, 'r, 'l, 'c) channels_env \<Rightarrow> (socket_addr \<Rightarrow> string) \<Rightarrow> nat \<Rightarrow> string \<Rightarrow> u64 \<Rightarrow> ('r, 'l, 'c, 'k) channels_world
     \<Rightarrow> (channels_error + string) \<times> ('r, 'l, 'c, 'k) channels_world"
where
  \<comment> \<open>the third argument is the random \<open>user_channel_id\<close>\<close>
  "open_channel n show_addr user_channel_id address amount s =
     (case check_open_amount amount of
        Inl err \<Rightarrow> (Inl err, s)
      | Inr _ \<Rightarrow>
          (case parse_peer_address (lk_pubkey_of_str (cn_ldk n)) address of
             Inl err \<Rightarrow> (Inl (BadAddress err), s)
           | Inr (i, addr) \<Rightarrow>
               if \<not> cn_running n then (Inl ChannelsNotRunning, s)
               else if amount + of_estimated_fee_sats (open_fee_estimate_at (cn_fee_rate n)) > cn_spendable n then (Inl AmountExceedsBalance, s)
               else case dial_and_persist n show_addr i addr s of
                 (Inl err, s1) \<Rightarrow> (Inl err, s1)
               | (Inr _, s1) \<Rightarrow>
                   (case lk_create_channel (cn_ldk n) i amount user_channel_id (cw_ldk s1) of
                      (Inl detail, k) \<Rightarrow> (Inl (OpenFailed detail), s1\<lparr> cw_ldk := k \<rparr>)
                    | (Inr temp, k) \<Rightarrow> (Inr (hex_str temp), s1\<lparr> cw_ldk := k \<rparr>))))"

definition close_channel ::
  "('id, 'k, 'r, 'l, 'c) channels_env \<Rightarrow> string \<Rightarrow> bool \<Rightarrow> ('r, 'l, 'c, 'k) channels_world \<Rightarrow> (channels_error + unit) \<times> ('r, 'l, 'c, 'k) channels_world"
where
  "close_channel n cid force s =
     (if \<not> cn_running n then (Inl ChannelsNotRunning, s)
      else case find (\<lambda>d. hex_str (cd_channel_id d) = cid) (lk_channels (cn_ldk n) (cw_ldk s)) of
        None \<Rightarrow> (Inl ChannelNotFound, s)
      | Some d \<Rightarrow>
          (case (if force then lk_force_close (cn_ldk n) (cd_channel_id d) (cd_counterparty d) FORCE_CLOSE_REASON (cw_ldk s)
                 else lk_close (cn_ldk n) (cd_channel_id d) (cd_counterparty d) (cw_ldk s)) of
             (Inl detail, k) \<Rightarrow> (Inl (CloseFailed detail), s\<lparr> cw_ldk := k \<rparr>)
           | (Inr _, k) \<Rightarrow> (Inr (), s\<lparr> cw_ldk := k \<rparr>)))"

section \<open>The close estimate\<close>

datatype close_fee_payer = PayerYou | PayerCounterparty | PayerUnknown

record close_estimate =
  ct_fee_payer :: close_fee_payer
  ct_coop_close_fee_sats :: "u64 option"
  ct_commitment_fee_sats :: "u64 option"
  ct_cpfp_fee_sats :: "u64 option"
  ct_sweep_fee_sats :: "u64 option"
  ct_coop_total_you_pay_sats :: "u64 option"
  ct_force_total_you_pay_sats :: "u64 option"
  ct_expected_back_sats :: "u64 option"
  ct_timelock_blocks :: "u16 option"
  ct_pending_htlc_count :: "u32 option"
  ct_is_anchor :: "bool option"

definition estimate_unavailable :: close_estimate where
  "estimate_unavailable = \<lparr> ct_fee_payer = PayerUnknown, ct_coop_close_fee_sats = None, ct_commitment_fee_sats = None,
     ct_cpfp_fee_sats = None, ct_sweep_fee_sats = None, ct_coop_total_you_pay_sats = None, ct_force_total_you_pay_sats = None,
     ct_expected_back_sats = None, ct_timelock_blocks = None, ct_pending_htlc_count = None, ct_is_anchor = None \<rparr>"

record close_estimate_inputs =
  ci_is_outbound :: "bool option"
  ci_timelock_blocks :: "u16 option"
  ci_pending_htlc_count :: "u32 option"
  ci_is_anchor :: "bool option"
  ci_on_close :: "(u64 \<times> u64) option" \<comment> \<open>commitment fee, amount\<close>
  ci_outbound_capacity_msat :: "u64 option"
  ci_coop_close_sat_per_kw :: "u32 option"
  ci_sweep_rate :: "u64 option"
  ci_urgent_rate :: "u64 option"

definition coop_close_fee :: "u32 \<Rightarrow> u64" where
  "coop_close_fee kw = (ucast kw * COOP_CLOSE_WEIGHT_WU + 500) div 1000"

definition compute_close_estimate :: "close_estimate_inputs \<Rightarrow> close_estimate" where
  "compute_close_estimate x =
     (let coop = map_option coop_close_fee (ci_coop_close_sat_per_kw x);
          sweep = map_option (\<lambda>r. max (r * SWEEP_VBYTES) 1) (ci_sweep_rate x);
          cpfp = (case ci_is_anchor x of None \<Rightarrow> None | Some False \<Rightarrow> Some 0 | Some True \<Rightarrow> map_option (\<lambda>r. max (r * CPFP_VBYTES) 1) (ci_urgent_rate x));
          commitment = map_option fst (ci_on_close x)
      in estimate_unavailable\<lparr>
           ct_fee_payer := (case ci_is_outbound x of Some True \<Rightarrow> PayerYou | Some False \<Rightarrow> PayerCounterparty | None \<Rightarrow> PayerUnknown),
           ct_timelock_blocks := ci_timelock_blocks x, ct_pending_htlc_count := ci_pending_htlc_count x, ct_is_anchor := ci_is_anchor x,
           ct_commitment_fee_sats := commitment,
           ct_expected_back_sats := (case ci_on_close x of Some (_, a) \<Rightarrow> Some a | None \<Rightarrow> map_option (\<lambda>m. m div 1000) (ci_outbound_capacity_msat x)),
           ct_coop_close_fee_sats := coop, ct_sweep_fee_sats := sweep, ct_cpfp_fee_sats := cpfp,
           ct_coop_total_you_pay_sats := (case (ci_is_outbound x, coop) of (Some ob, Some fee) \<Rightarrow> Some (if ob then fee else 0) | _ \<Rightarrow> None),
           ct_force_total_you_pay_sats :=
             (case (ci_is_outbound x, sweep, cpfp) of
                (Some ob, Some sw, Some cp) \<Rightarrow>
                  if commitment \<noteq> None \<or> \<not> ob
                  then Some ((if ob then (case commitment of Some c \<Rightarrow> c | None \<Rightarrow> 0) else 0) + cp + sw) else None
              | _ \<Rightarrow> None) \<rparr>)"

definition on_close_balance :: "balance list \<Rightarrow> (u64 \<times> u64) option" where
  \<comment> \<open>exactly one claimable-on-close entry, and its confirmed candidate\<close>
  "on_close_balance bs =
     (case filter (\<lambda>b. case b of ClaimableOnChannelClose _ _ \<Rightarrow> True | OtherBalance \<Rightarrow> False) bs of
        [ClaimableOnChannelClose candidates i] \<Rightarrow> if i < length candidates then Some (candidates ! i) else None
      | _ \<Rightarrow> None)"

definition estimate_close :: "('id, 'k) ldk \<Rightarrow> fee_estimator \<Rightarrow> string \<Rightarrow> 'k \<Rightarrow> close_estimate" where
  "estimate_close lk f cid k =
     (let all = lk_channels lk k in
      case find (\<lambda>d. hex_str (cd_channel_id d) = cid) all of
        None \<Rightarrow> estimate_unavailable
      | Some c \<Rightarrow>
          compute_close_estimate
            \<lparr> ci_is_outbound = Some (cd_is_outbound c), ci_timelock_blocks = cd_spend_delay c,
              ci_pending_htlc_count = Some (of_nat (cd_inbound_htlcs c + cd_outbound_htlcs c)), ci_is_anchor = cd_anchors c,
              ci_on_close = on_close_balance (lk_balances lk (filter (\<lambda>d. cd_channel_id d \<noteq> cd_channel_id c) all) k),
              ci_outbound_capacity_msat = Some (cd_outbound_msat c),
              ci_coop_close_sat_per_kw = Some (get_est_sat_per_1000_weight ChannelCloseMinimum f),
              ci_sweep_rate = Some (onchain_send_rate_sat_per_vb f),
              ci_urgent_rate = Some (of_nat ((unat (get_est_sat_per_1000_weight UrgentOnChainSweep f) + 249) div 250)) \<rparr>)"

definition node_estimate_close :: "('id, 'k, 'r, 'l, 'c) channels_env \<Rightarrow> fee_estimator \<Rightarrow> string \<Rightarrow> ('r, 'l, 'c, 'k) channels_world \<Rightarrow> close_estimate" where
  "node_estimate_close n f cid s = (if \<not> cn_running n then estimate_unavailable else estimate_close (cn_ldk n) f cid (cw_ldk s))"

end
