(* ===== verification/Channels_Safety.thy ===== *)
theory Channels_Safety
  imports Channels "HOL-Library.Multiset"
begin

text \<open>
  What \<open>channels.rs\<close> and \<open>node/channels_api.rs\<close> promise: the funding transaction LDK was told of stays on
  the disk until it is handed to the broadcaster, the rows of the peers screen are the union of the
  saved and the connected peers in a fixed order, a channel is opened only within its gates, and a
  saved IPv4 peer is dialed again after a restart.
\<close>

section \<open>Peer rows\<close>

lemma peer_view_pubkey [simp]: "pv_pubkey (peer_view_of known conn counts p) = p"
  by (simp add: peer_view_of_def)

definition row_key :: "peer_view \<Rightarrow> bool \<times> string" where
  "row_key v = (\<not> pv_connected v, pv_pubkey v)"

definition row_keys :: "peer_map \<Rightarrow> string list \<Rightarrow> string list" where
  "row_keys known conn = map fst known @ filter (\<lambda>p. bt_get known p = None) conn"

lemma build_peer_views_alt:
  "build_peer_views known conn counts = sort_key row_key (map (peer_view_of known (set conn) counts) (row_keys known conn))"
  by (simp add: build_peer_views_def row_keys_def row_key_def[abs_def])

lemma distinct_row_keys: "bt_wf known \<Longrightarrow> distinct conn \<Longrightarrow> distinct (row_keys known conn)"
  by (auto simp: row_keys_def bt_wf_distinct map_of_eq_None_iff)

lemma set_row_keys: "set (row_keys known conn) = fst ` set known \<union> set conn"
  by (auto simp: row_keys_def map_of_eq_None_iff)

lemma inj_row_key: "inj_on row_key (peer_view_of known conn counts ` A)"
  by (rule inj_onI) (auto simp: row_key_def)

lemma pubkeys_perm: "mset (map pv_pubkey (build_peer_views known conn counts)) = mset (row_keys known conn)"
proof -
  have "mset (map pv_pubkey (build_peer_views known conn counts)) = mset (map pv_pubkey (map (peer_view_of known (set conn) counts) (row_keys known conn)))"
    unfolding build_peer_views_alt mset_map mset_sort ..
  then show ?thesis by (simp add: comp_def)
qed

text \<open>The peers screen lists every saved and every connected peer exactly once, connected peers first and
  each group by public key, whatever the iteration order of the hash set of connected peers, and
  each row says what the two sources say of its peer.\<close>

theorem peer_rows_are_the_union:
  assumes "bt_wf known" and "distinct conn" and "mset conn' = mset conn"
  shows "build_peer_views known conn' counts = build_peer_views known conn counts
    \<and> distinct (map pv_pubkey (build_peer_views known conn counts))
    \<and> set (build_peer_views known conn counts) = peer_view_of known (set conn) counts ` (fst ` set known \<union> set conn)
    \<and> sorted (map row_key (build_peer_views known conn counts))"
proof -
  have s: "set conn' = set conn" using assms(3) by (rule mset_eq_setD)
  have m: "mset (map (peer_view_of known (set conn) counts) (row_keys known conn')) = mset (map (peer_view_of known (set conn) counts) (row_keys known conn))"
    using assms(3) by (simp add: row_keys_def)
  have "build_peer_views known conn' counts = build_peer_views known conn counts"
    unfolding build_peer_views_alt s
    by (rule sort_key_inj_key_eq) (use m inj_row_key in \<open>simp_all\<close>)
  moreover have "distinct (map pv_pubkey (build_peer_views known conn counts))"
    using distinct_row_keys[OF assms(1,2)] mset_eq_imp_distinct_iff[OF pubkeys_perm] by blast
  moreover have "set (build_peer_views known conn counts) = peer_view_of known (set conn) counts ` (fst ` set known \<union> set conn)"
    by (simp add: build_peer_views_alt set_row_keys)
  ultimately show ?thesis by (simp add: build_peer_views_alt)
qed

section \<open>The funding transaction is kept\<close>

datatype 'tx funding_op =
    Ready u64 bytes u64 script \<comment> \<open>\<open>FundingGenerationReady\<close>: rate, temporary id, value, script\<close>
  | Safe u64 bytes \<comment> \<open>\<open>FundingTxBroadcastSafe\<close>: time, temporary id\<close>
  | MapId bytes bytes \<comment> \<open>\<open>ChannelPending\<close>: channel id, temporary id\<close>
  | Discard bytes \<comment> \<open>\<open>DiscardFunding\<close>\<close>
  | UnmapId bytes \<comment> \<open>\<open>ChannelClosed\<close>\<close>
  | Broadcasting "'tx broadcast_op"

type_synonym 'tx owed = "string \<rightharpoonup> 'tx"

text \<open>LDK's side is observed through the map of what it was told of and what was not yet released.\<close>

definition observing ::
  "(string \<Rightarrow> 'tx \<Rightarrow> 'k \<Rightarrow> (string + unit) \<times> 'k) \<Rightarrow> string \<Rightarrow> 'tx \<Rightarrow> 'k \<times> 'tx owed \<Rightarrow> (string + unit) \<times> 'k \<times> 'tx owed"
where
  "observing notify temp tx k = (case notify temp tx (fst k) of (r, k') \<Rightarrow> (r, k', (snd k)(temp \<mapsto> tx)))"

definition release :: "string \<Rightarrow> ('l, 'n, 'tx, 'w, 'k \<times> 'tx owed) funding_world \<Rightarrow> ('l, 'n, 'tx, 'w, 'k \<times> 'tx owed) funding_world" where
  "release temp s = s\<lparr> fw_ldk := (fst (fw_ldk s), (snd (fw_ldk s))(temp := None)) \<rparr>"

definition on_disk :: "('l \<Rightarrow> 'l) \<Rightarrow> ('l, 'n, 'tx, 'w, 'k) funding_world \<Rightarrow> ('l, 'n, 'tx, 'w, 'k) funding_world" where
  "on_disk f s = s\<lparr> fw_bc := (fw_bc s)\<lparr> bc_disk := f (bc_disk (fw_bc s)) \<rparr> \<rparr>"

fun funding_step ::
  "('w, 'psbt, 'tx) bdk \<Rightarrow> (tx_build_failure \<Rightarrow> string) \<Rightarrow> ('l, 'n, 'tx) broadcast_env \<Rightarrow> (string \<Rightarrow> 'tx \<Rightarrow> 'k \<Rightarrow> (string + unit) \<times> 'k)
     \<Rightarrow> 'tx funding_op \<Rightarrow> ('l, 'n, 'tx, 'w, 'k \<times> 'tx owed) funding_world \<Rightarrow> ('l, 'n, 'tx, 'w, 'k \<times> 'tx owed) funding_world"
where
  "funding_step b render e notify (Ready rate temp value script) s =
     snd (handle_funding_generation_ready b render e (observing notify) rate (hex_str temp) value script s)"
| "funding_step b render e notify (Safe now temp) s =
     release (hex_str temp) (s\<lparr> fw_bc := snd (handle_funding_tx_broadcast_safe e now (hex_str temp) (fw_bc s)) \<rparr>)"
| "funding_step b render e notify (MapId cid temp) s = on_disk (record_channel_id_map e (hex_str cid) (hex_str temp)) s"
| "funding_step b render e notify (Discard cid) s =
     (case temp_id_for e (hex_str cid) (bc_disk (fw_bc s)) of Some temp \<Rightarrow> release temp | None \<Rightarrow> id)
       (on_disk (\<lambda>l. snd (handle_discard_funding e (hex_str cid) l)) s)"
| "funding_step b render e notify (UnmapId cid) s = on_disk (remove_channel_id_map e (hex_str cid)) s"
| "funding_step b render e notify (Broadcasting bop) s = s\<lparr> fw_bc := snd (broadcast_step e bop (fw_bc s)) \<rparr>"

definition owed_on_disk :: "('l, 'n, 'tx) broadcast_env \<Rightarrow> ('l, 'n, 'tx, 'w, 'k \<times> 'tx owed) funding_world \<Rightarrow> bool" where
  "owed_on_disk e s \<longleftrightarrow> (\<forall>temp tx. snd (fw_ldk s) temp = Some tx \<longrightarrow> funding_tx e temp (bc_disk (fw_bc s)) = Some tx)"

lemma namespaces_differ [simp]:
  "PENDING_BROADCASTS_NS \<noteq> FUNDING_TX_NS" "FUNDING_TX_NS \<noteq> PENDING_BROADCASTS_NS"
  "FUNDING_TX_NS \<noteq> CHANNEL_ID_MAP_NS" "CHANNEL_ID_MAP_NS \<noteq> FUNDING_TX_NS"
  by (simp_all add: PENDING_BROADCASTS_NS_def FUNDING_TX_NS_def CHANNEL_ID_MAP_NS_def)

context pending_disk
begin

definition same_funding :: "'l \<Rightarrow> 'l \<Rightarrow> bool" where
  "same_funding l l' \<longleftrightarrow> (\<forall>temp. funding_tx e temp l' = funding_tx e temp l)"

lemma same_funding_refl [simp]: "same_funding l l"
  by (simp add: same_funding_def)

lemma same_funding_trans: "same_funding l l1 \<Longrightarrow> same_funding l1 l2 \<Longrightarrow> same_funding l l2"
  by (simp add: same_funding_def)

lemma funding_tx_Some: "funding_tx e temp l = Some tx \<longleftrightarrow>
    (\<exists>b. d_read (be_disk e) FUNDING_TX_NS [] temp l = Inr b \<and> tc_deserialize (be_codec e) b = Some tx)"
  by (auto simp: funding_tx_def split: sum.splits)

lemma same_fundingI:
  assumes "\<And>temp b. d_read (be_disk e) FUNDING_TX_NS [] temp l' = Inr b \<longleftrightarrow> d_read (be_disk e) FUNDING_TX_NS [] temp l = Inr b"
  shows "same_funding l l'"
proof -
  have "funding_tx e temp l' = Some tx \<longleftrightarrow> funding_tx e temp l = Some tx" for temp tx by (simp add: funding_tx_Some assms)
  then show ?thesis unfolding same_funding_def by (metis not_Some_eq)
qed

lemma write_elsewhere: "p \<noteq> FUNDING_TX_NS \<Longrightarrow> same_funding l (snd (d_write (be_disk e) p q k b l))"
  using read_written[of p q k b l "fst (d_write (be_disk e) p q k b l)" "snd (d_write (be_disk e) p q k b l)" FUNDING_TX_NS "[]"]
  by (intro same_fundingI) simp

lemma remove_elsewhere: "p \<noteq> FUNDING_TX_NS \<Longrightarrow> same_funding l (snd (d_remove (be_disk e) p q k lz l))"
  using read_removed[of p q k lz l "fst (d_remove (be_disk e) p q k lz l)" "snd (d_remove (be_disk e) p q k lz l)" FUNDING_TX_NS "[]"]
  by (intro same_fundingI) simp

lemma pending_ops_elsewhere:
  "same_funding l (pending_persist (be_codec e) (be_disk e) tx now l)" "same_funding l (pending_remove (be_disk e) k l)"
  by (simp_all add: pending_persist_def pending_remove_def write_elsewhere remove_elsewhere)

lemma broadcast_elsewhere: "same_funding (bc_disk s) (bc_disk (snd (broadcast_transaction e tx s)))"
  by (simp add: broadcast_transaction_def Let_def pending_ops_elsewhere split: prod.splits)

lemma each_elsewhere: "same_funding (bc_disk s) (bc_disk (snd (broadcast_each e txs s)))"
proof (induction txs arbitrary: s)
  case (Cons tx txs)
  have "same_funding (bc_disk s) (bc_disk (snd (broadcast_each e txs (snd (broadcast_transaction e tx s)))))"
    by (rule same_funding_trans[OF broadcast_elsewhere Cons.IH])
  then show ?case by (auto split: prod.splits)
qed simp

lemma load_elsewhere: "same_funding l (snd (load_entries (be_codec e) (be_disk e) now ks l))"
proof (induction ks arbitrary: l)
  case (Cons k ks)
  note rm = same_funding_trans[OF pending_ops_elsewhere(2) Cons.IH, of l k]
  from Cons rm show ?case by (simp split: sum.splits option.splits prod.splits) (metis snd_conv)
qed simp

lemma handover_elsewhere: "same_funding (bc_disk s) (bc_disk (broadcast_transactions e now txs s))"
proof -
  have "same_funding l (fold (\<lambda>tx. pending_persist (be_codec e) (be_disk e) tx now) txs l)" for l
    by (induction txs arbitrary: l) (auto intro: same_funding_trans pending_ops_elsewhere)
  then show ?thesis by (simp add: broadcast_transactions_def Let_def)
qed

lemma broadcast_step_elsewhere: "same_funding (bc_disk s) (bc_disk (snd (broadcast_step e bop s)))"
proof (cases bop)
  case (Direct now tx)
  have "same_funding (bc_disk s) (bc_disk (persist_pending_broadcast e now tx s))"
    by (simp add: persist_pending_broadcast_def pending_ops_elsewhere)
  from same_funding_trans[OF this broadcast_elsewhere[of _ tx]] Direct show ?thesis by (auto split: prod.splits)
next
  case (Drain now)
  obtain ks where ks: "d_list (be_disk e) PENDING_BROADCASTS_NS [] (bc_disk s) = Inr ks" using list_ok by blast
  obtain txs l where l: "load_entries (be_codec e) (be_disk e) now ks (bc_disk s) = (txs, l)" by fastforce
  have "same_funding (bc_disk s) l" using load_elsewhere[of "bc_disk s" now ks] l by simp
  from same_funding_trans[OF this] each_elsewhere[of "s\<lparr> bc_disk := l \<rparr>" txs] Drain ks l show ?thesis by (simp add: load_fresh_def)
qed (use each_elsewhere[of "s\<lparr> bc_queue := tl (bc_queue s) \<rparr>"] handover_elsewhere in \<open>auto split: list.splits\<close>)

lemma owed_keeps:
  assumes "owed_on_disk e s" and "same_funding (bc_disk (fw_bc s)) (bc_disk (fw_bc s'))" and "fw_ldk s' = fw_ldk s"
  shows "owed_on_disk e s'"
  using assms by (simp add: owed_on_disk_def same_funding_def)

lemma other_funding_kept:
  assumes "temp' \<noteq> temp" and "funding_tx e temp' l = Some tx"
  shows "funding_tx e temp' (remove_funding_tx e temp l) = Some tx"
  using assms read_removed[of FUNDING_TX_NS "[]" temp False l "fst (d_remove (be_disk e) FUNDING_TX_NS [] temp False l)"
      "snd (d_remove (be_disk e) FUNDING_TX_NS [] temp False l)" FUNDING_TX_NS "[]" temp']
  by (auto simp: remove_funding_tx_def funding_tx_Some)

lemma owed_release:
  assumes "owed_on_disk e s" and "\<And>temp' tx. temp' \<noteq> temp \<Longrightarrow> funding_tx e temp' (bc_disk (fw_bc s)) = Some tx \<Longrightarrow> funding_tx e temp' (bc_disk (fw_bc s')) = Some tx"
    and "fw_ldk s' = fw_ldk s"
  shows "owed_on_disk e (release temp s')"
  using assms by (simp add: owed_on_disk_def release_def)

lemma persisted_reads_back:
  assumes "persist_funding_tx e temp tx l = (r, l')"
  shows "funding_tx e temp' l' = (if temp' = temp \<and> r = Inr () then Some tx else funding_tx e temp' l)"
  using assms codec read_written[of FUNDING_TX_NS "[]" temp "tc_serialize (be_codec e) tx" l r l' FUNDING_TX_NS "[]" temp']
  by (auto simp: persist_funding_tx_def funding_tx_def tx_codec_ok_def)

lemma ready_owed:
  assumes "owed_on_disk e s"
  shows "owed_on_disk e (snd (handle_funding_generation_ready b render e (observing notify) rate temp value script s))"
  using assms persisted_reads_back
  by (auto simp: handle_funding_generation_ready_def Let_def observing_def owed_on_disk_def split: prod.splits sum.splits)

lemma safe_owed:
  assumes "owed_on_disk e s"
  shows "owed_on_disk e (release temp (s\<lparr> fw_bc := snd (handle_funding_tx_broadcast_safe e now temp (fw_bc s)) \<rparr>))"
proof (rule owed_release[OF assms])
  fix temp' tx assume "temp' \<noteq> temp" and "funding_tx e temp' (bc_disk (fw_bc s)) = Some tx"
  then show "funding_tx e temp' (bc_disk (fw_bc (s\<lparr> fw_bc := snd (handle_funding_tx_broadcast_safe e now temp (fw_bc s)) \<rparr>))) = Some tx"
    using handover_elsewhere[of "fw_bc s" now]
    by (auto simp: handle_funding_tx_broadcast_safe_def Let_def same_funding_def other_funding_kept split: option.splits)
qed simp

lemma discard_owed:
  assumes "owed_on_disk e s"
  shows "owed_on_disk e (funding_step b render e notify (Discard cid) s)"
proof (cases "temp_id_for e (hex_str cid) (bc_disk (fw_bc s))")
  case None
  with assms show ?thesis by (simp add: handle_discard_funding_def on_disk_def)
next
  case (Some temp)
  have "funding_tx e temp' (remove_channel_id_map e (hex_str cid) (remove_funding_tx e temp l)) = Some tx"
    if "temp' \<noteq> temp" "funding_tx e temp' l = Some tx" for temp' tx l
    using other_funding_kept[OF that] remove_elsewhere[of CHANNEL_ID_MAP_NS "remove_funding_tx e temp l" "[]" "hex_str cid" False]
    by (simp add: remove_channel_id_map_def same_funding_def)
  with Some show ?thesis by (simp add: on_disk_def handle_discard_funding_def) (rule owed_release[OF assms], simp_all)
qed

lemma funding_step_owed: "owed_on_disk e s \<Longrightarrow> owed_on_disk e (funding_step b render e notify fop s)"
proof (cases fop)
  case (Discard cid)
  then show "owed_on_disk e s \<Longrightarrow> ?thesis" by (simp only: discard_owed)
qed (auto simp: ready_owed safe_owed on_disk_def record_channel_id_map_def remove_channel_id_map_def
    write_elsewhere remove_elsewhere broadcast_step_elsewhere elim!: owed_keeps)

lemma funding_run_owed: "owed_on_disk e s \<Longrightarrow> owed_on_disk e (fold (funding_step b render e notify) ops s)"
  by (induction ops arbitrary: s) (simp_all add: funding_step_owed)

lemma handed_over_is_pending:
  assumes "funding_tx e temp (bc_disk s) = Some tx"
    and "fst (d_write (be_disk e) PENDING_BROADCASTS_NS [] (tc_txid (be_codec e) tx) (encode_pending_broadcast (be_codec e) now tx) (bc_disk s)) = Inr ()"
  shows "pending_since e (bc_disk (snd (handle_funding_tx_broadcast_safe e now temp s))) (tc_txid (be_codec e) tx) now"
proof -
  let ?i = "tc_txid (be_codec e) tx" and ?b = "encode_pending_broadcast (be_codec e) now tx"
  obtain l where w: "d_write (be_disk e) PENDING_BROADCASTS_NS [] ?i ?b (bc_disk s) = (Inr (), l)"
    using assms(2) by (metis prod.collapse)
  have "d_read (be_disk e) PENDING_BROADCASTS_NS [] ?i l = Inr ?b" using read_written[OF w] by simp
  then have "d_read (be_disk e) PENDING_BROADCASTS_NS [] ?i (remove_funding_tx e temp l) = Inr ?b"
    using read_removed[of FUNDING_TX_NS "[]" temp False l "fst (d_remove (be_disk e) FUNDING_TX_NS [] temp False l)"
        "snd (d_remove (be_disk e) FUNDING_TX_NS [] temp False l)" PENDING_BROADCASTS_NS "[]" ?i] by (simp add: remove_funding_tx_def)
  moreover have "bc_disk (snd (handle_funding_tx_broadcast_safe e now temp s)) = remove_funding_tx e temp l"
    using assms(1) w by (simp add: handle_funding_tx_broadcast_safe_def Let_def broadcast_transactions_def pending_persist_def)
  ultimately show ?thesis unfolding pending_since_def by (intro exI[of _ now] exI[of _ tx]) simp
qed

end


definition example_funding_bdk :: "(nat, nat, nat) bdk" where
  \<comment> \<open>transactions are numbers, the wallet counts them\<close>
  "example_funding_bdk =
     \<lparr> b_build = (\<lambda>spec rate w. (Inr (Suc w), Suc w)), b_facts = (\<lambda>p. Inr \<lparr> bf_fee_sats = 300, bf_outputs = [] \<rparr>),
       b_take_staged = (\<lambda>w. w), b_sign = (\<lambda>p w. (Inr (True, p), w)), b_extract = (\<lambda>p. Inr p), b_persist = (\<lambda>w. (Inr (), w)),
       b_trusted_spendable = (\<lambda>w. 100000), b_fee_rate_ok = (\<lambda>r. True), b_address = (\<lambda>a. Inr (True, [1])), b_minimal_non_dust = (\<lambda>s. 330) \<rparr>"

definition example_funding_world :: "(mem, nat, nat, nat, nat \<times> nat owed) funding_world" where
  "example_funding_world = \<lparr> fw_bc = \<lparr> bc_disk = [], bc_net = 5, bc_queue = [] \<rparr>, fw_wallet = 2, fw_ldk = (0, Map.empty) \<rparr>"

lemmas funding_eval = handle_funding_generation_ready_def create_onchain_tx_def build_and_facts_def example_funding_bdk_def
  observing_def persist_funding_tx_def example_post_env_def mem_disk_def mem_write_def mem_read_def example_funding_world_def


section \<open>A discarded funding transaction stays behind\<close>

text \<open>
  \<open>ChannelClosed\<close> drops the map entry that \<open>DiscardFunding\<close> needs: when the close is reported first, the
  funding transaction of the discarded channel is never cleaned up.
\<close>

lemma discard_after_close_cleans_nothing:
  assumes "pending_disk e" and "fst (d_remove (be_disk e) CHANNEL_ID_MAP_NS [] cid False l) = Inr ()"
  shows "handle_discard_funding e cid (remove_channel_id_map e cid l) = (False, remove_channel_id_map e cid l)"
proof -
  have "temp_id_for e cid (remove_channel_id_map e cid l) = None"
    using pending_disk.read_removed[OF assms(1), of CHANNEL_ID_MAP_NS "[]" cid False l "Inr ()"
        "snd (d_remove (be_disk e) CHANNEL_ID_MAP_NS [] cid False l)" CHANNEL_ID_MAP_NS "[]" cid] assms(2)
    by (auto simp: temp_id_for_def remove_channel_id_map_def prod_eq_iff split: sum.splits)
  then show ?thesis by (simp add: handle_discard_funding_def)
qed

section \<open>Connecting, saving, opening\<close>

lemma number_loop_bound: "number_loop radix m bound acc n s = Some (v, n', rest) \<Longrightarrow> acc < bound \<Longrightarrow> v < bound"
  by (induction radix m bound acc n s rule: number_loop.induct) (auto split: option.splits if_splits)

lemma read_number_bound: "read_number radix m z bound s = Some (v, rest) \<Longrightarrow> 0 < bound \<Longrightarrow> v < bound"
  by (auto simp: read_number_def split: option.splits if_splits dest: number_loop_bound)

lemma read_ipv4_groups_ok:
  "read_ipv4_groups is s = Some (gs, rest) \<Longrightarrow> length gs = length is \<and> list_all (\<lambda>x. x < 256) gs"
proof (induction "is" arbitrary: s gs)
  case (Cons i "is")
  from Cons.prems obtain g s1 gs2 where
    g: "read_separator CHR ''.'' i (read_number 10 (Some 3) False 256) s = Some (g, s1)"
    and r: "read_ipv4_groups is s1 = Some (gs2, rest)" and gs: "gs = g # gs2"
    by (auto split: option.splits)
  from g have "g < 256"
    by (auto simp: read_separator_def bind_eq_Some_conv split: if_splits dest: read_number_bound)
  with Cons.IH[OF r] gs show ?case by simp
qed simp

lemma parsed_v4_ok:
  assumes "parse_socket_addr s = Some (V4 ip port)"
  shows "length ip = 4 \<and> list_all (\<lambda>x. x < 256) ip \<and> port < 65536"
proof -
  from assms have "\<exists>rest. read_socket_addr_v4 s = Some (V4 ip port, rest)"
    by (auto simp: parse_socket_addr_def read_socket_addr_v6_def bind_eq_Some_conv split: option.splits list.splits prod.splits)
  then obtain s1 rest where ip: "read_ipv4_groups [0, 1, 2, 3] s = Some (ip, s1)" and p: "read_port s1 = Some (port, rest)"
    by (auto simp: read_socket_addr_v4_def read_ipv4_addr_def bind_eq_Some_conv)
  from p have "port < 65536" by (auto simp: read_port_def bind_eq_Some_conv dest: read_number_bound)
  with read_ipv4_groups_ok[OF ip] show ?thesis by simp
qed

lemma parse_peer_address_addr:
  "parse_peer_address f raw = Inr (i, addr) \<Longrightarrow> \<exists>host_port. parse_socket_addr host_port = Some addr"
  by (auto simp: parse_peer_address_def split: option.splits if_splits prod.splits)

lemma await_peer_at_once: "0 < n \<Longrightarrow> i \<in> set (lk_peers lk k) \<Longrightarrow> await_peer lk n i k = (Inr (), k)"
  by (cases n) simp_all

lemma await_peer_connected: "await_peer lk n i k = (Inr u, k') \<Longrightarrow> i \<in> set (lk_peers lk k')"
  by (induction lk n i k rule: await_peer.induct) (auto split: if_splits)

lemma dial_peer_connected: "dial_peer lk show_addr i addr k = (Inr u, k') \<Longrightarrow> i \<in> set (lk_peers lk k')"
  by (auto simp: dial_peer_def split: if_splits prod.splits bool.splits dest: await_peer_connected)

lemma dial_and_persist_ok:
  assumes "dial_and_persist n show_addr i addr s = (Inr u, s')"
  shows "(i \<noteq> cn_lsp n \<longrightarrow> i \<in> set (lk_peers (cn_ldk n) (cw_ldk s')))
    \<and> kp_upsert (cn_env n) (lk_pubkey_str (cn_ldk n) i) (ip_to_string addr) (of_nat (sa_port addr)) (cw_peers s) = (Inr (), cw_peers s')"
  using assms
  by (auto simp: dial_and_persist_def Let_def split: prod.splits if_splits sum.splits dest: dial_peer_connected)

lemma parse_peer_address_v4:
  assumes "length key = 66" and "list_all (\<lambda>c. is_ascii_digit c \<or> CHR ''a'' \<le> c \<and> c \<le> CHR ''f'') key" and "pubkey_of_str key = Some i"
    and "list_all (\<lambda>x. x < 256) ip" and "length ip = 4" and "0 < port" and "port < 65536"
  shows "parse_peer_address pubkey_of_str (key @ CHR ''@'' # ipv4_to_string ip @ CHR '':'' # nat_to_string port) = Inr (i, V4 ip port)"
proof -
  let ?p = "nat_to_string port" and ?hp = "ipv4_to_string ip @ CHR '':'' # nat_to_string port"
  have pr: "printable c" if "is_ascii_digit c \<or> CHR ''a'' \<le> c \<and> c \<le> CHR ''f''" for c
    using that by (auto simp: printable_def byte_def is_ascii_digit_iff less_eq_char_def)
  have "key \<noteq> []" using assms(1) by auto
  moreover have "hd key \<in> set key" using \<open>key \<noteq> []\<close> by simp
  moreover have "last ?p \<in> set ?p" by simp
  ultimately have t: "trim (key @ CHR ''@'' # ?hp) = key @ CHR ''@'' # ?hp"
    using assms(2) nat_to_string_digits[of "last ?p" port] by (intro trim_id) (auto simp: list_all_iff intro!: pr)
  have "CHR ''@'' \<notin> set key" using assms(2) by (auto simp: list_all_iff is_ascii_digit_iff less_eq_char_def)
  then have s: "split_once CHR ''@'' (key @ CHR ''@'' # ?hp) = Some (key, ?hp)" by (simp add: split_once_Some)
  have "CHR '':'' \<notin> set ?p" using nat_to_string_digits[of "CHR '':''" port] no_digit_sep(2) by blast
  then have "split_once CHR '':'' (rev ?hp) = Some (rev ?p, rev (ipv4_to_string ip))" by (simp add: split_once_Some)
  then have r: "rsplit_once CHR '':'' ?hp = Some (ipv4_to_string ip, ?p)" by (simp add: rsplit_once_def)
  have "hd ?p \<noteq> CHR ''+''" using nat_to_string_digits[of "hd ?p" port] by (auto simp: is_ascii_digit_iff)
  then have "parse_u16 ?p = parse_digits 65536 0 ?p" by (cases ?p) (simp_all add: parse_u16_def)
  then have u: "parse_u16 ?p = Some port" using parse_digits_nat_to_string[OF assms(7)] by simp
  from assms socket_addr_v4_roundtrip[OF assms(4,5,7)] show ?thesis by (simp add: parse_peer_address_def t s r u)
qed

lemma kp_targets:
  "(i, a) \<in> set (kp_reconnect_targets parse_id parse_addr ks) \<longleftrightarrow>
     (\<exists>k p. (k, p) \<in> set (fst ks) \<and> parse_id k = Some i \<and> parse_addr (kp_host p @ CHR '':'' # nat_to_string (unat (kp_port p))) = Some a)"
  by (force simp: kp_reconnect_targets_def map_filter_def image_iff bind_eq_Some_conv)

text \<open>C30: a peer the user connected to by IPv4 is dialed again after a restart. A successful connect means that
  the handshake is complete (the LSP aside, whose own connect reports it), and that the store
  loaded from the disk afterwards yields exactly the dialed key and address as a target.\<close>

theorem connected_v4_peer_is_redialed:
  fixes s :: "('r, 'l, 'c, 'k) channels_world"
  assumes "codec_ok (e_codec (cn_env n))" and "kv_store (d_read (e_local (cn_env n))) (d_write (e_local (cn_env n)))"
    and "bt_wf (fst (cw_peers s))" and "\<forall>i. lk_pubkey_of_str (cn_ldk n) (lk_pubkey_str (cn_ldk n) i) = Some i"
    and "parse_peer_address (lk_pubkey_of_str (cn_ldk n)) address = Inr (i, V4 ip port)"
    and "connect_peer n show_addr address s = (Inr key, s')"
  shows "key = lk_pubkey_str (cn_ldk n) i \<and> (i \<noteq> cn_lsp n \<longrightarrow> i \<in> set (lk_peers (cn_ldk n) (cw_ldk s')))
    \<and> (i, V4 ip port) \<in> set (kp_reconnect_targets (lk_pubkey_of_str (cn_ldk n)) parse_socket_addr (kp_load (cn_env n) (snd (cw_peers s'))))"
proof -
  let ?k = "lk_pubkey_str (cn_ldk n) i"
  from assms(5,6) have d: "dial_and_persist n show_addr i (V4 ip port) s = (Inr (), s')" and key: "key = ?k"
    by (auto simp: connect_peer_def split: if_splits prod.splits sum.splits)
  from dial_and_persist_ok[OF d] have c: "i \<noteq> cn_lsp n \<longrightarrow> i \<in> set (lk_peers (cn_ldk n) (cw_ldk s'))"
    and u: "kp_upsert (cn_env n) ?k (ipv4_to_string ip) (of_nat port) (cw_peers s) = (Inr (), cw_peers s')" by auto
  define m where "m = bt_insert ?k \<lparr> kp_host = ipv4_to_string ip, kp_port = of_nat port \<rparr> (fst (cw_peers s))"
  have m: "bt_wf m" using assms(3) by (simp add: m_def bt_wf_insert)
  from u have "kp_persist (cn_env n) (serialize_known_peers (e_codec (cn_env n)) m) (snd (cw_peers s)) = (Inr (), snd (cw_peers s'))"
    by (cases "cw_peers s'") (auto simp: kp_upsert_def Let_def m_def split: prod.splits)
  from kp_persist_reload[OF assms(1,2) m this] have l: "fst (kp_load (cn_env n) (snd (cw_peers s'))) = m" by simp
  have e: "(?k, \<lparr> kp_host = ipv4_to_string ip, kp_port = of_nat port \<rparr>) \<in> set m"
    using m by (simp add: bt_get_mem[symmetric] m_def bt_get_insert)
  obtain hp where "parse_socket_addr hp = Some (V4 ip port)" using parse_peer_address_addr[OF assms(5)] by blast
  from parsed_v4_ok[OF this] have ok: "length ip = 4" "list_all (\<lambda>x. x < 256) ip" "port < 65536" by simp_all
  have "unat (of_nat port :: 16 word) = port" using ok(3) by (simp add: unsigned_of_nat take_bit_nat_eq_self)
  with e l socket_addr_v4_roundtrip[OF ok(2,1,3)] assms(4)
  have "(i, V4 ip port) \<in> set (kp_reconnect_targets (lk_pubkey_of_str (cn_ldk n)) parse_socket_addr (kp_load (cn_env n) (snd (cw_peers s'))))"
    unfolding kp_targets by (intro exI conjI) auto
  with key c show ?thesis by blast
qed

definition example_ldk :: "(string, string list) ldk" where
  \<comment> \<open>every dial succeeds; the state lists the connected peers\<close>
  "example_ldk =
     \<lparr> lk_pubkey_of_str = Some, lk_pubkey_str = id, lk_peers = id, lk_connect = (\<lambda>i a k. (True, i # k)), lk_sleep = id,
       lk_disconnect = (\<lambda>i k. remove1 i k), lk_channels = (\<lambda>k. []), lk_create_channel = (\<lambda>i a u k. (Inr [7], k)),
       lk_close = (\<lambda>c i k. (Inr (), k)), lk_force_close = (\<lambda>c i r k. (Inr (), k)), lk_balances = (\<lambda>cs k. []) \<rparr>"

definition example_channels_env :: "(string, string list, mock, mem, unit) channels_env" where
  "example_channels_env = \<lparr> cn_ldk = example_ldk, cn_env = peers_env, cn_running = True, cn_lsp = ''lsp'', cn_lsp_connect = (\<lambda>k. (Inr (), k)),
     cn_alive = (\<lambda>k. True), cn_fee_rate = 3, cn_spendable = 100000 \<rparr>"

definition example_channels_world :: "(mock, mem, unit, string list) channels_world" where
  "example_channels_world = \<lparr> cw_ldk = [], cw_peers = ([], vss_new peers_env mock_new [] () Map.empty (tracked_only []) True) \<rparr>"

definition example_key :: string where "example_key = replicate 66 CHR ''2''"

lemma example_address: "parse_peer_address Some (example_key @ ''@10.0.0.7:9735'') = Inr (example_key, V4 [10, 0, 0, 7] 9735)"
proof -
  have "ipv4_to_string [10, 0, 0, 7] @ CHR '':'' # nat_to_string 9735 = ''10.0.0.7:9735''"
    by (simp add: ipv4_to_string_def nat_to_string.simps) code_simp
  with parse_peer_address_v4[of example_key Some example_key "[10, 0, 0, 7]" 9735] show ?thesis
    by (simp add: example_key_def list_all_iff is_ascii_digit_iff)
qed

lemmas connect_eval = connect_peer_def dial_and_persist_def dial_peer_def DIAL_POLLS_def await_peer_at_once example_channels_env_def example_ldk_def
  example_channels_world_def example_address kp_upsert_def kp_persist_def peers_env_def mem_disk_def mem_write_def

theorem connected_v4_peer_is_redialed_witness:
  "(example_key, V4 [10, 0, 0, 7] 9735) \<in> set (kp_reconnect_targets Some parse_socket_addr
     (kp_load peers_env (snd (cw_peers (snd (connect_peer example_channels_env (\<lambda>_. []) (example_key @ ''@10.0.0.7:9735'') example_channels_world))))))"
proof -
  let ?s = "snd (connect_peer example_channels_env (\<lambda>_. []) (example_key @ ''@10.0.0.7:9735'') example_channels_world)"
  have ok: "codec_ok (e_codec (cn_env example_channels_env))"
    "kv_store (d_read (e_local (cn_env example_channels_env))) (d_write (e_local (cn_env example_channels_env)))"
    "bt_wf (fst (cw_peers example_channels_world))" "\<forall>i. lk_pubkey_of_str (cn_ldk example_channels_env) (lk_pubkey_str (cn_ldk example_channels_env) i) = Some i"
    using mem_kv.kv_store_axioms by (simp_all add: example_channels_env_def peers_env_def example_channels_world_def example_ldk_def)
  have a: "parse_peer_address (lk_pubkey_of_str (cn_ldk example_channels_env)) (example_key @ ''@10.0.0.7:9735'') = Inr (example_key, V4 [10, 0, 0, 7] 9735)"
    by (simp add: example_channels_env_def example_ldk_def example_address)
  have k: "example_key \<noteq> ''lsp''" by (simp add: example_key_def numeral_eq_Suc)
  have "fst (connect_peer example_channels_env (\<lambda>_. []) (example_key @ ''@10.0.0.7:9735'') example_channels_world) = Inr example_key"
    by (simp add: connect_eval Let_def k)
  then have r: "connect_peer example_channels_env (\<lambda>_. []) (example_key @ ''@10.0.0.7:9735'') example_channels_world = (Inr example_key, ?s)"
    by (simp only: prod_eq_iff fst_conv snd_conv)
  from connected_v4_peer_is_redialed[OF ok a r] show ?thesis by (simp add: example_channels_env_def example_ldk_def)
qed

section \<open>A saved IPv6 peer is not dialed again\<close>

lemma number_loop_digits_end:
  "number_loop 10 m bound acc n s = Some (v, n', rest) \<Longrightarrow> \<exists>ds. s = ds @ rest \<and> list_all is_ascii_digit ds"
proof (induction "10 :: nat" m bound acc n s rule: number_loop.induct)
  case (2 m bound acc n c s)
  show ?case
  proof (cases "is_ascii_digit c")
    case True
    with 2 obtain ds where "s = ds @ rest" "list_all is_ascii_digit ds" by (auto simp: to_digit_ascii split: if_splits)
    with True show ?thesis by (intro exI[of _ "c # ds"]) simp
  qed (use 2 in \<open>auto simp: to_digit_end\<close>)
qed simp

lemma ipv4_starts_with_octet:
  assumes "read_ipv4_addr s = Some r"
  shows "\<exists>ds rest. s = ds @ CHR ''.'' # rest \<and> list_all is_ascii_digit ds"
proof -
  from assms obtain g s1 s2 where n: "read_number 10 (Some 3) False 256 s = Some (g, s1)" and d: "read_given_char CHR ''.'' s1 = Some s2"
    by (auto simp: read_ipv4_addr_def read_separator_def bind_eq_Some_conv split: option.splits)
  from n obtain ds where "s = ds @ s1" "list_all is_ascii_digit ds"
    by (auto simp: read_number_def split: option.splits if_splits dest!: number_loop_digits_end)
  with d show ?thesis by (cases s1) (auto split: if_splits)
qed

lemma colon_first_no_v4:
  assumes "CHR ''.'' \<notin> set a"
  shows "read_ipv4_addr (a @ CHR '':'' # b) = None"
proof (rule ccontr)
  assume "read_ipv4_addr (a @ CHR '':'' # b) \<noteq> None"
  then obtain ds rest where s: "a @ CHR '':'' # b = ds @ CHR ''.'' # rest" and ds: "list_all is_ascii_digit ds"
    using ipv4_starts_with_octet by blast
  have "CHR '':'' \<notin> set ds" using ds no_digit_sep(2) by (auto simp: list_all_iff)
  with s assms show False by (auto simp: append_eq_append_conv2 append_eq_Cons_conv Cons_eq_append_conv)
qed

definition non_hex :: "char set" where "non_hex = {CHR ''.'', CHR ''[''}"

lemma hex_digit_hex: "d < 16 \<Longrightarrow> hex_digit d \<notin> non_hex"
proof
  assume d: "d < 16" and "hex_digit d \<in> non_hex"
  then have "(of_char (hex_digit d) :: nat) \<in> {46, 91}" by (auto simp: non_hex_def)
  with d show False by (auto simp: hex_digit_def split: if_splits)
qed

lemma to_hex_hex: "set (to_hex n) \<inter> non_hex = {}"
proof (induction n rule: to_hex.induct)
  case (1 n)
  then show ?case using hex_digit_hex[of n] hex_digit_hex[of "n mod 16"] by (subst to_hex.simps) auto
qed

lemma join_hex: "\<forall>x \<in> set xs. set x \<inter> non_hex = {} \<Longrightarrow> set (join '':'' xs) \<inter> non_hex = {}"
  by (induction "'':''" xs rule: join.induct) (auto simp: non_hex_def)

lemma fmt_hex: "set (fmt_subslice gs) \<inter> non_hex = {}"
  unfolding fmt_subslice_def by (rule join_hex) (auto simp: to_hex_hex)

lemma ipv6_text_has_colon:
  assumes "length ip = 8"
  shows "\<exists>a b. ipv6_to_string ip = a @ CHR '':'' # b \<and> set a \<inter> non_hex = {}"
proof -
  obtain g h gs where ip: "ip = g # h # gs" using assms by (auto simp: numeral_eq_Suc length_Suc_conv)
  have j: "fmt_subslice ip = to_hex g @ CHR '':'' # fmt_subslice (h # gs)" by (simp add: fmt_subslice_def ip)
  show ?thesis
  proof (cases "take 6 ip = [0, 0, 0, 0, 0, 65535]")
    case True
    then show ?thesis by (intro exI[of _ "[]"] exI[of _ "tl (ipv6_to_string ip)"]) (simp add: ipv6_to_string_def)
  next
    case False
    obtain start n where z: "longest_zeros 0 ip (0, 0) (0, 0) = (start, n)" by fastforce
    show ?thesis
    proof (cases "n > 1")
      case True
      then show ?thesis using False z fmt_hex[of "take start ip"]
        by (intro exI[of _ "fmt_subslice (take start ip)"] exI[of _ "CHR '':'' # fmt_subslice (drop (start + n) ip)"]) (simp add: ipv6_to_string_def)
    next
      case False
      then show ?thesis using \<open>take 6 ip \<noteq> _\<close> z j to_hex_hex[of g] by (intro exI[of _ "to_hex g"] exI[of _ "fmt_subslice (h # gs)"]) (simp add: ipv6_to_string_def)
    qed
  qed
qed

text \<open>
  The saved host of an IPv6 peer has no brackets, so the reconnect loop cannot read its address back,
  whatever the address and the port.
\<close>

lemma saved_v6_peer_is_not_redialed:
  assumes "length ip = 8"
  shows "parse_socket_addr (ip_to_string (V6 ip scope port) @ CHR '':'' # nat_to_string port) = None"
proof -
  obtain a b where s: "ipv6_to_string ip = a @ CHR '':'' # b" and a: "set a \<inter> non_hex = {}" using ipv6_text_has_colon[OF assms] by blast
  have v4: "read_ipv4_addr (ipv6_to_string ip @ CHR '':'' # nat_to_string port) = None"
    using colon_first_no_v4[of a "b @ CHR '':'' # nat_to_string port"] a by (simp add: s non_hex_def)
  have "hd (ipv6_to_string ip @ CHR '':'' # nat_to_string port) \<noteq> CHR ''[''"
    using a by (cases a) (auto simp: s non_hex_def)
  then have "read_given_char CHR ''['' (ipv6_to_string ip @ CHR '':'' # nat_to_string port) = None"
    by (cases "ipv6_to_string ip @ CHR '':'' # nat_to_string port") auto
  with v4 show ?thesis by (simp add: parse_socket_addr_def read_socket_addr_v4_def read_socket_addr_v6_def)
qed

section \<open>Opening a channel\<close>

definition refused_by_gate :: "channels_error \<Rightarrow> bool" where
  "refused_by_gate err \<longleftrightarrow> err \<in> {AmountBelowMinimum, AmountAboveMaximum, AmountExceedsBalance, ChannelsNotRunning} \<union> range BadAddress"

lemma await_peer_error: "await_peer lk n i k = (Inl err, k') \<Longrightarrow> \<exists>d. err = ConnectFailed d"
  by (induction lk n i k rule: await_peer.induct) (auto split: if_splits)

lemma dial_and_persist_error:
  assumes "dial_and_persist n show_addr i addr s = (Inl err, s')"
  shows "\<not> refused_by_gate err"
proof -
  have "\<exists>d. err = ConnectFailed d \<or> err = PersistFailed d"
    using assms by (auto simp: dial_and_persist_def dial_peer_def Let_def map_prod_def map_sum_def
        split: prod.splits if_splits sum.splits bool.splits dest: await_peer_error)
  then show ?thesis by (auto simp: refused_by_gate_def)
qed

text \<open>C29: a channel is opened only within its gates. LDK is asked to create a channel only for an amount
  between 20,000 and 16,777,215 sats that together with the estimated funding fee fits the spendable
  balance, to a peer that was dialed and saved before; a request that a gate refuses changes nothing.\<close>

theorem opened_channel_within_gates:
  assumes "open_channel n show_addr user_channel_id address amount s = (r, s')"
    and "unat amount + unat (cn_fee_rate n) * 140 < 2 ^ 64"
  shows "case r of
      Inr temp \<Rightarrow> 20000 \<le> amount \<and> amount \<le> 16777215 \<and> unat amount + unat (cn_fee_rate n) * 140 \<le> unat (cn_spendable n)
        \<and> (\<exists>i addr s1 t. parse_peer_address (lk_pubkey_of_str (cn_ldk n)) address = Inr (i, addr)
             \<and> dial_and_persist n show_addr i addr s = (Inr (), s1)
             \<and> lk_create_channel (cn_ldk n) i amount user_channel_id (cw_ldk s1) = (Inr t, cw_ldk s') \<and> temp = hex_str t
             \<and> cw_peers s' = cw_peers s1)
    | Inl err \<Rightarrow> refused_by_gate err \<longrightarrow> s' = s"
proof -
  have "unat (cn_fee_rate n * 140) = unat (cn_fee_rate n) * 140"
    using assms(2) by (simp add: unat_mult_lem[THEN iffD1])
  moreover from this have "unat (amount + cn_fee_rate n * 140) = unat amount + unat (cn_fee_rate n) * 140"
    using assms(2) by (simp add: unat_add_lem[THEN iffD1])
  ultimately show ?thesis using assms(1)
    by (auto simp: open_channel_def check_open_amount_def MIN_CHANNEL_SATS_def MAX_CHANNEL_SATS_def open_fee_estimate_at_def
        APPROX_FUNDING_TX_VBYTES_def refused_by_gate_def word_le_nat_alt not_less
        split: if_splits sum.splits prod.splits dest: dial_and_persist_error[unfolded refused_by_gate_def])
qed

theorem opened_channel_within_gates_witness:
  "fst (open_channel example_channels_env (\<lambda>_. []) 1 (example_key @ ''@10.0.0.7:9735'') 50000 example_channels_world) = Inr ''07''
   \<and> snd (open_channel example_channels_env (\<lambda>_. []) 1 (example_key @ ''@10.0.0.7:9735'') 19999 example_channels_world) = example_channels_world"
proof -
  let ?a = "example_key @ ''@10.0.0.7:9735''"
  have h: "hex_str [7] = ''07''" by code_simp
  have k: "example_key \<noteq> ''lsp''" by (simp add: example_key_def numeral_eq_Suc)
  have a: "fst (open_channel example_channels_env (\<lambda>_. []) 1 ?a 50000 example_channels_world) = Inr ''07''"
    by (simp add: open_channel_def check_open_amount_def MIN_CHANNEL_SATS_def MAX_CHANNEL_SATS_def open_fee_estimate_at_def
        APPROX_FUNDING_TX_VBYTES_def connect_eval Let_def h k)
  have "fst (open_channel example_channels_env (\<lambda>_. []) 1 ?a 19999 example_channels_world) = Inl AmountBelowMinimum"
    by (simp add: open_channel_def check_open_amount_def MIN_CHANNEL_SATS_def)
  with opened_channel_within_gates[of example_channels_env "\<lambda>_. []" 1 ?a 19999 example_channels_world "Inl AmountBelowMinimum"] a
  show ?thesis by (simp add: prod_eq_iff refused_by_gate_def example_channels_env_def)
qed

theorem peer_rows_are_the_union_witness:
  "build_peer_views [(''02ab'', \<lparr> kp_host = ''10.0.0.7'', kp_port = 9735 \<rparr>)] [''03cd'', ''02ff''] (\<lambda>_. None)
     = build_peer_views [(''02ab'', \<lparr> kp_host = ''10.0.0.7'', kp_port = 9735 \<rparr>)] [''02ff'', ''03cd''] (\<lambda>_. None)"
  using peer_rows_are_the_union[of "[(''02ab'', \<lparr> kp_host = ''10.0.0.7'', kp_port = 9735 \<rparr>)]" "[''02ff'', ''03cd'']" "[''03cd'', ''02ff'']" "\<lambda>_. None"]
  by (simp add: bt_wf_def)

end
