(* ===== verification/Subsidy.thy ===== *)
theory Subsidy
  imports Broadcast
begin

text \<open>
  The subsidy arithmetic of \<open>src/rust/src/sweep.rs\<close>: which confirmed wallet coins pay the fee of a sweep
  whose own outputs cannot. \<open>select_subsidy_inputs\<close> is the loop of the source with its early exit;
  \<open>first_fit\<close> is the reference it is compared with, the shortest prefix of the candidates for which a
  transaction with or without change is affordable. All amounts are 64-bit words; the comparison is
  made where the arithmetic does not wrap.
\<close>

type_synonym outpoint = "string \<times> u32"

definition DUST_LIMIT_SATS :: u64 where "DUST_LIMIT_SATS = 546"
definition SUBSIDY_INPUT_WEIGHT_WU :: u64 where "SUBSIDY_INPUT_WEIGHT_WU = 272"
definition CHANGE_OUTPUT_WEIGHT_WU :: u64 where "CHANGE_OUTPUT_WEIGHT_WU = 124"
definition MAX_SUBSIDY_INPUTS :: nat where "MAX_SUBSIDY_INPUTS = 20"

record subsidy_input =
  si_outpoint :: outpoint
  si_value_sats :: u64
  si_script_pubkey :: script

record subsidy_selection =
  ss_selected :: "subsidy_input list"
  ss_change_sats :: "u64 option"
  ss_total_fee_sats :: u64
  ss_subsidy_sats :: u64

datatype selection_outcome = Selected subsidy_selection | SelectionShortfall u64 u64

definition fee_for_weight :: "u64 \<Rightarrow> u64 \<Rightarrow> u64" where
  "fee_for_weight weight_wu rate = of_nat ((unat weight_wu + 3) div 4) * rate"

definition needed_with_change :: "u64 \<Rightarrow> u64 \<Rightarrow> u64 \<Rightarrow> u64 \<Rightarrow> u64" where
  "needed_with_change ldk_weight ldk_fee rate n =
     saturating_sub (fee_for_weight (ldk_weight + n * SUBSIDY_INPUT_WEIGHT_WU + CHANGE_OUTPUT_WEIGHT_WU) rate) ldk_fee"

definition needed_changeless :: "u64 \<Rightarrow> u64 \<Rightarrow> u64 \<Rightarrow> u64 \<Rightarrow> u64" where
  "needed_changeless ldk_weight ldk_fee rate n =
     saturating_sub (fee_for_weight (ldk_weight + n * SUBSIDY_INPUT_WEIGHT_WU) rate) ldk_fee"

definition sum_values :: "subsidy_input list \<Rightarrow> u64" where
  "sum_values cs = sum_list (map si_value_sats cs)"

fun select_loop ::
  "u64 \<Rightarrow> u64 \<Rightarrow> u64 \<Rightarrow> u64 \<Rightarrow> subsidy_input list \<Rightarrow> subsidy_input list \<Rightarrow> u64 \<Rightarrow> subsidy_selection + nat"
where
  \<comment> \<open>left: return from inside the loop; right: the loop ended with that many inputs selected\<close>
  "select_loop lw lf rate spendable [] chosen chosen_sum = Inr (length chosen)"
| "select_loop lw lf rate spendable (utxo # rest) chosen chosen_sum =
     (if length chosen \<ge> MAX_SUBSIDY_INPUTS then Inr (length chosen)
      else
        let chosen' = chosen @ [utxo]; s = chosen_sum + si_value_sats utxo; n = of_nat (length chosen');
            needed = needed_with_change lw lf rate n; drained = needed_changeless lw lf rate n in
        if needed \<le> spendable \<and> s \<ge> needed \<and> s - needed \<ge> DUST_LIMIT_SATS
        then Inl \<lparr> ss_selected = chosen', ss_change_sats = Some (s - needed), ss_total_fee_sats = lf + needed, ss_subsidy_sats = needed \<rparr>
        else if s \<ge> drained \<and> s \<le> spendable
        then Inl \<lparr> ss_selected = chosen', ss_change_sats = None, ss_total_fee_sats = lf + s, ss_subsidy_sats = s \<rparr>
        else if needed > spendable \<and> s > spendable then Inr (length chosen')
        else select_loop lw lf rate spendable rest chosen' s)"

definition spendable_sats :: "subsidy_input list \<Rightarrow> u64 \<Rightarrow> u64" where
  "spendable_sats candidates reserve = saturating_sub (sum_values candidates) reserve"

definition select_subsidy_inputs ::
  "subsidy_input list \<Rightarrow> u64 \<Rightarrow> u64 \<Rightarrow> u64 \<Rightarrow> u64 \<Rightarrow> selection_outcome"
where
  "select_subsidy_inputs candidates lw lf rate reserve =
     (let spendable = spendable_sats candidates reserve in
      case select_loop lw lf rate spendable candidates [] 0 of
        Inl sel \<Rightarrow> Selected sel
      | Inr k \<Rightarrow> SelectionShortfall (needed_with_change lw lf rate (of_nat (max k 1))) spendable)"

section \<open>The reference\<close>

definition fit_at :: "u64 \<Rightarrow> u64 \<Rightarrow> u64 \<Rightarrow> u64 \<Rightarrow> subsidy_input list \<Rightarrow> subsidy_selection option" where
  "fit_at lw lf rate spendable sel =
     (let s = sum_values sel; n = of_nat (length sel); needed = needed_with_change lw lf rate n in
      if needed \<le> spendable \<and> needed \<le> s \<and> DUST_LIMIT_SATS \<le> s - needed
      then Some \<lparr> ss_selected = sel, ss_change_sats = Some (s - needed), ss_total_fee_sats = lf + needed, ss_subsidy_sats = needed \<rparr>
      else if needed_changeless lw lf rate n \<le> s \<and> s \<le> spendable
      then Some \<lparr> ss_selected = sel, ss_change_sats = None, ss_total_fee_sats = lf + s, ss_subsidy_sats = s \<rparr>
      else None)"

definition first_fit :: "subsidy_input list \<Rightarrow> u64 \<Rightarrow> u64 \<Rightarrow> u64 \<Rightarrow> u64 \<Rightarrow> subsidy_selection option" where
  "first_fit candidates lw lf rate spendable =
     (case find (\<lambda>k. fit_at lw lf rate spendable (take k candidates) \<noteq> None) [1..<Suc (min MAX_SUBSIDY_INPUTS (length candidates))] of
        None \<Rightarrow> None
      | Some k \<Rightarrow> fit_at lw lf rate spendable (take k candidates))"

section \<open>Where the arithmetic does not wrap\<close>

definition no_wrap :: "subsidy_input list \<Rightarrow> u64 \<Rightarrow> u64 \<Rightarrow> bool" where
  "no_wrap candidates lw rate \<longleftrightarrow> unat lw < 2 ^ 32 \<and> unat rate < 2 ^ 16
     \<and> sum_list (map (\<lambda>c. unat (si_value_sats c)) candidates) < 2 ^ 64"

lemma unat_fee_for_weight:
  assumes "unat w < 2 ^ 33" and "unat rate < 2 ^ 16"
  shows "unat (fee_for_weight w rate) = (unat w + 3) div 4 * unat rate"
proof -
  have "(unat w + 3) div 4 * unat rate < 2 ^ 33 * 2 ^ 16"
    by (rule mult_strict_mono) (use assms in auto)
  moreover have "(unat w + 3) div 4 < 2 ^ 64" using assms(1) by simp
  ultimately show ?thesis
    by (simp add: fee_for_weight_def unat_word_ariths unsigned_of_nat take_bit_nat_def)
qed

lemma unat_weight:
  assumes "unat lw < 2 ^ 32" and "n \<le> 20" and "unat c \<le> 124"
  shows "unat (lw + of_nat n * SUBSIDY_INPUT_WEIGHT_WU + c) = unat lw + n * 272 + unat c"
proof -
  have "unat (of_nat n * SUBSIDY_INPUT_WEIGHT_WU) = n * 272"
    using assms(2) by (simp add: SUBSIDY_INPUT_WEIGHT_WU_def unat_word_ariths unsigned_of_nat take_bit_nat_def)
  with assms show ?thesis by (simp add: unat_word_ariths)
qed

lemma saturating_sub_mono_left: "a \<le> b \<Longrightarrow> saturating_sub a c \<le> saturating_sub b c" for a :: "'a::len word"
  by (auto simp: saturating_sub_def word_le_nat_alt word_less_nat_alt unat_sub_if')

lemma fee_shape_mono:
  assumes "unat lw < 2 ^ 32" and "unat rate < 2 ^ 16" and "m \<le> n" and "n \<le> 20" and "unat c \<le> 124"
  shows "fee_for_weight (lw + of_nat m * SUBSIDY_INPUT_WEIGHT_WU + c) rate \<le> fee_for_weight (lw + of_nat n * SUBSIDY_INPUT_WEIGHT_WU + c) rate"
proof -
  note w = unat_weight[OF assms(1) order_trans[OF assms(3,4)] assms(5)] unat_weight[OF assms(1,4,5)]
  have "unat (lw + of_nat m * SUBSIDY_INPUT_WEIGHT_WU + c) < 2 ^ 33" "unat (lw + of_nat n * SUBSIDY_INPUT_WEIGHT_WU + c) < 2 ^ 33"
    unfolding w using assms by simp_all
  from unat_fee_for_weight[OF this(1) assms(2)] unat_fee_for_weight[OF this(2) assms(2)] w assms(3)
  show ?thesis by (simp add: word_le_nat_alt div_le_mono mult_le_mono1)
qed

lemma needed_mono:
  assumes "unat lw < 2 ^ 32" and "unat rate < 2 ^ 16" and "m \<le> n" and "n \<le> 20"
  shows "needed_with_change lw lf rate (of_nat m) \<le> needed_with_change lw lf rate (of_nat n)"
  unfolding needed_with_change_def
  by (rule saturating_sub_mono_left, rule fee_shape_mono) (use assms in \<open>simp_all add: CHANGE_OUTPUT_WEIGHT_WU_def\<close>)

lemma unat_sum_values:
  "sum_list (map (\<lambda>c. unat (si_value_sats c)) cs) < 2 ^ 64 \<Longrightarrow>
   unat (sum_values cs) = sum_list (map (\<lambda>c. unat (si_value_sats c)) cs)"
  by (induction cs) (simp_all add: sum_values_def unat_word_ariths)

lemma sum_values_take_mono:
  assumes "no_wrap cs lw rate" and "m \<le> n"
  shows "sum_values (take m cs) \<le> sum_values (take n cs)"
proof -
  have le: "sum_list (map (\<lambda>c. unat (si_value_sats c)) (take i cs)) \<le> sum_list (map (\<lambda>c. unat (si_value_sats c)) (take j cs))"
    if "i \<le> j" for i j cs
    using that by (induction cs arbitrary: i j) (auto simp: take_Cons split: nat.splits)
  have "sum_list (map (\<lambda>c. unat (si_value_sats c)) (take n cs)) < 2 ^ 64"
    using le[of n "max n (length cs)" cs] assms(1) by (simp add: no_wrap_def)
  with le[OF assms(2), of cs] show ?thesis by (simp add: word_le_nat_alt unat_sum_values)
qed

lemma no_later_fit:
  \<comment> \<open>the early exit: once the fee and the selection both exceed the budget, no longer prefix fits\<close>
  assumes "no_wrap cs lw rate" and "needed_with_change lw lf rate (of_nat k) > spendable" and "sum_values (take k cs) > spendable"
    and "k \<le> k'" and "k' \<le> 20" and "k' \<le> length cs"
  shows "fit_at lw lf rate spendable (take k' cs) = None"
proof -
  have "needed_with_change lw lf rate (of_nat k') > spendable"
    using needed_mono[of lw rate k k' lf] assms by (auto simp: no_wrap_def)
  moreover have "sum_values (take k' cs) > spendable"
    using sum_values_take_mono[OF assms(1,4)] assms(3) by simp
  ultimately show ?thesis using assms(6) by (auto simp: fit_at_def Let_def)
qed

definition fit_from :: "nat \<Rightarrow> subsidy_input list \<Rightarrow> u64 \<Rightarrow> u64 \<Rightarrow> u64 \<Rightarrow> u64 \<Rightarrow> subsidy_selection option" where
  "fit_from j cs lw lf rate spendable =
     (case find (\<lambda>k. fit_at lw lf rate spendable (take k cs) \<noteq> None) [Suc j..<Suc (min MAX_SUBSIDY_INPUTS (length cs))] of
        None \<Rightarrow> None
      | Some k \<Rightarrow> fit_at lw lf rate spendable (take k cs))"

lemma fit_from_step:
  "j < min MAX_SUBSIDY_INPUTS (length cs) \<Longrightarrow>
   fit_from j cs lw lf rate sp
     = (case fit_at lw lf rate sp (take (Suc j) cs) of Some sel \<Rightarrow> Some sel | None \<Rightarrow> fit_from (Suc j) cs lw lf rate sp)"
  unfolding fit_from_def by (subst upt_conv_Cons) (auto split: option.splits)

lemma fit_from_end: "min MAX_SUBSIDY_INPUTS (length cs) \<le> j \<Longrightarrow> fit_from j cs lw lf rate sp = None"
  unfolding fit_from_def by (subst upt_conv_Nil) auto

lemma fit_from_none: "(\<And>k. j < k \<Longrightarrow> k \<le> 20 \<Longrightarrow> k \<le> length cs \<Longrightarrow> fit_at lw lf rate sp (take k cs) = None) \<Longrightarrow> fit_from j cs lw lf rate sp = None"
proof -
  assume "\<And>k. j < k \<Longrightarrow> k \<le> 20 \<Longrightarrow> k \<le> length cs \<Longrightarrow> fit_at lw lf rate sp (take k cs) = None"
  then have "find (\<lambda>k. fit_at lw lf rate sp (take k cs) \<noteq> None) [Suc j..<Suc (min MAX_SUBSIDY_INPUTS (length cs))] = None"
    by (simp add: find_None_iff MAX_SUBSIDY_INPUTS_def Suc_le_eq less_Suc_eq_le del: upt_Suc not_None_eq)
  then show ?thesis by (simp add: fit_from_def)
qed

lemma select_loop_fit:
  assumes "no_wrap (chosen @ rest) lw rate"
  shows "select_loop lw lf rate sp rest chosen (sum_values chosen) = Inl sel
    \<longleftrightarrow> fit_from (length chosen) (chosen @ rest) lw lf rate sp = Some sel"
  using assms
proof (induction rest arbitrary: chosen)
  case Nil
  then show ?case by (simp add: fit_from_end)
next
  case (Cons utxo rest)
  let ?k = "Suc (length chosen)"
  let ?cs = "chosen @ utxo # rest"
  have t: "take ?k ?cs = chosen @ [utxo]" by simp
  have sum: "sum_values (chosen @ [utxo]) = sum_values chosen + si_value_sats utxo" by (simp add: sum_values_def)
  show ?case
  proof (cases "length chosen \<ge> MAX_SUBSIDY_INPUTS")
    case True
    then show ?thesis by (simp add: fit_from_end)
  next
    case False
    then have st: "fit_from (length chosen) ?cs lw lf rate sp
        = (case fit_at lw lf rate sp (chosen @ [utxo]) of Some sel \<Rightarrow> Some sel | None \<Rightarrow> fit_from ?k ?cs lw lf rate sp)"
      using fit_from_step[of "length chosen" ?cs] t by simp
    show ?thesis
    proof (cases "fit_at lw lf rate sp (chosen @ [utxo])")
      case (Some sel')
      with False st show ?thesis
        by (auto simp: fit_at_def Let_def sum split: if_splits)
    next
      case None
      note nofit = this
      show ?thesis
      proof (cases "needed_with_change lw lf rate (of_nat ?k) > sp \<and> sum_values (chosen @ [utxo]) > sp")
        case True
        have "fit_from ?k ?cs lw lf rate sp = None"
          by (rule fit_from_none) (rule no_later_fit[OF Cons.prems, where k = ?k]; use True t in simp)
        with True None False st show ?thesis by (auto simp: fit_at_def Let_def sum split: if_splits)
      next
        case go: False
        with None False have "select_loop lw lf rate sp (utxo # rest) chosen (sum_values chosen)
            = select_loop lw lf rate sp rest (chosen @ [utxo]) (sum_values (chosen @ [utxo]))"
          by (auto simp: fit_at_def Let_def sum split: if_splits)
        with Cons.IH[of "chosen @ [utxo]"] Cons.prems None st show ?thesis by simp
      qed
    qed
  qed
qed

lemma subsidy_fit:
  assumes "no_wrap candidates lw rate"
  shows "select_subsidy_inputs candidates lw lf rate reserve = Selected sel
    \<longleftrightarrow> first_fit candidates lw lf rate (spendable_sats candidates reserve) = Some sel"
proof -
  have "sum_values [] = 0" by (simp add: sum_values_def)
  with select_loop_fit[of "[]" candidates lw rate lf "spendable_sats candidates reserve" sel] assms
  show ?thesis by (auto simp: select_subsidy_inputs_def first_fit_def fit_from_def Let_def split: sum.splits)
qed

text \<open>C16: the selection with its early exit finds exactly what the exhaustive search finds. It selects
  inputs if and only if some prefix of at most twenty candidates pays for a transaction with or
  without change within the budget, and then the selection is that of the shortest such prefix; so
  a reported shortfall means there is none.\<close>

theorem subsidy_selection_is_first_fit:
  assumes "no_wrap candidates lw rate"
  shows "select_subsidy_inputs candidates lw lf rate reserve = Selected sel
    \<longleftrightarrow> first_fit candidates lw lf rate (spendable_sats candidates reserve) = Some sel"
  by (rule subsidy_fit[OF assms])

definition final_weight :: "u64 \<Rightarrow> subsidy_selection \<Rightarrow> u64" where
  "final_weight lw sel = lw + of_nat (length (ss_selected sel)) * SUBSIDY_INPUT_WEIGHT_WU
     + (if ss_change_sats sel \<noteq> None then CHANGE_OUTPUT_WEIGHT_WU else 0)"

lemma first_fit_cases:
  assumes "first_fit candidates lw lf rate spendable = Some sel"
  obtains k where "1 \<le> k" "k \<le> 20" "k \<le> length candidates" "fit_at lw lf rate spendable (take k candidates) = Some sel"
proof -
  from assms obtain k where f: "find (\<lambda>k. fit_at lw lf rate spendable (take k candidates) \<noteq> None)
      [1..<Suc (min MAX_SUBSIDY_INPUTS (length candidates))] = Some k"
    and sel: "fit_at lw lf rate spendable (take k candidates) = Some sel"
    by (auto simp: first_fit_def split: option.splits)
  from f have "k \<in> set [1..<Suc (min MAX_SUBSIDY_INPUTS (length candidates))]"
    unfolding find_Some_iff by (metis nth_mem)
  with sel that[of k] show thesis by (auto simp: MAX_SUBSIDY_INPUTS_def)
qed

lemma saturating_sub_le: "fee \<le> lf + saturating_sub fee lf" if "unat lf + unat (saturating_sub fee lf) < 2 ^ 64" for lf :: u64
  using that by (auto simp: saturating_sub_def word_le_nat_alt word_less_nat_alt unat_word_ariths unat_sub_if' split: if_splits)

text \<open>C17: a subsidy leaves the reserve alone and pays the target rate. A selection takes the largest
  one to twenty coins; what leaves the wallet, the selected value less the change, is the subsidy,
  and it is at most the confirmed balance above the reserve; a change output is at least 546 sats;
  and the total fee is LDK's plus the subsidy and covers the final transaction at the target rate.\<close>

theorem subsidy_within_budget:
  assumes "no_wrap candidates lw rate" and "unat lf + unat (sum_values candidates) < 2 ^ 64"
    and "select_subsidy_inputs candidates lw lf rate reserve = Selected sel"
  shows "(\<exists>k. 1 \<le> k \<and> k \<le> 20 \<and> ss_selected sel = take k candidates)
    \<and> unat (sum_values (ss_selected sel)) = unat (ss_subsidy_sats sel) + (case ss_change_sats sel of None \<Rightarrow> 0 | Some c \<Rightarrow> unat c)
    \<and> unat (ss_subsidy_sats sel) \<le> unat (sum_values candidates) - unat reserve
    \<and> (\<forall>c. ss_change_sats sel = Some c \<longrightarrow> 546 \<le> c)
    \<and> unat (ss_total_fee_sats sel) = unat lf + unat (ss_subsidy_sats sel)
    \<and> fee_for_weight (final_weight lw sel) rate \<le> ss_total_fee_sats sel"
proof -
  let ?sp = "spendable_sats candidates reserve"
  from assms(3) subsidy_fit[OF assms(1)] have "first_fit candidates lw lf rate ?sp = Some sel" by simp
  then obtain k where k: "1 \<le> k" "k \<le> 20" "k \<le> length candidates" and f: "fit_at lw lf rate ?sp (take k candidates) = Some sel"
    by (rule first_fit_cases)
  let ?s = "sum_values (take k candidates)"
  have s_le: "?s \<le> sum_values candidates" using sum_values_take_mono[OF assms(1) k(3)] by simp
  have sp: "unat ?sp = unat (sum_values candidates) - unat reserve"
    by (auto simp: spendable_sats_def saturating_sub_def word_less_nat_alt unat_sub_if')
  have sel: "ss_selected sel = take k candidates" and len: "length (take k candidates) = k"
    using f k(3) by (auto simp: fit_at_def Let_def split: if_splits)
  have sub: "ss_subsidy_sats sel \<le> ?sp" "ss_subsidy_sats sel \<le> ?s" using f by (auto simp: fit_at_def Let_def split: if_splits)
  have fee: "unat (ss_total_fee_sats sel) = unat lf + unat (ss_subsidy_sats sel)"
    using f sub(2) s_le assms(2) by (auto simp: fit_at_def Let_def word_le_nat_alt unat_word_ariths split: if_splits)
  have total: "unat ?s = unat (ss_subsidy_sats sel) + (case ss_change_sats sel of None \<Rightarrow> 0 | Some c \<Rightarrow> unat c)"
    using f by (auto simp: fit_at_def Let_def word_le_nat_alt unat_sub_if' split: if_splits)
  have dust: "\<forall>c. ss_change_sats sel = Some c \<longrightarrow> 546 \<le> c"
    using f by (auto simp: fit_at_def Let_def DUST_LIMIT_SATS_def split: if_splits)
  have nw: "unat lf + unat x < 2 ^ 64" if "x \<le> ?s" for x
    using that s_le assms(2) by (simp add: word_le_nat_alt)
  have "fee_for_weight (final_weight lw sel) rate \<le> ss_total_fee_sats sel"
  proof (cases "ss_change_sats sel")
    case None
    with f len have t: "ss_total_fee_sats sel = lf + ?s" and d: "needed_changeless lw lf rate (of_nat k) \<le> ?s"
      by (auto simp: fit_at_def Let_def split: if_splits)
    have "fee_for_weight (final_weight lw sel) rate \<le> lf + needed_changeless lw lf rate (of_nat k)"
      using None sel len saturating_sub_le nw[OF d] by (simp add: final_weight_def needed_changeless_def)
    also have "\<dots> \<le> lf + ?s" using d nw[OF d] nw[of ?s] by (simp add: word_le_nat_alt unat_word_ariths)
    finally show ?thesis using t by simp
  next
    case (Some c)
    with f len have t: "ss_total_fee_sats sel = lf + needed_with_change lw lf rate (of_nat k)"
      and d: "needed_with_change lw lf rate (of_nat k) \<le> ?s"
      by (auto simp: fit_at_def Let_def split: if_splits)
    then show ?thesis
      using Some sel len saturating_sub_le nw[OF d] by (simp add: final_weight_def needed_with_change_def)
  qed
  with k(1,2) sel total sub(1) sp dust fee show ?thesis by (auto simp: word_le_nat_alt)
qed

definition example_coins :: "subsidy_input list" where
  "example_coins = [\<lparr> si_outpoint = (''a'', 0), si_value_sats = 9000, si_script_pubkey = [] \<rparr>,
     \<lparr> si_outpoint = (''b'', 1), si_value_sats = 4000, si_script_pubkey = [] \<rparr>]"

lemma example_coins_ok: "no_wrap example_coins 1000 10" "unat (250 :: u64) + unat (sum_values example_coins) < 2 ^ 64"
  by (simp_all add: no_wrap_def example_coins_def sum_values_def)

lemma example_selection:
  "select_subsidy_inputs example_coins 1000 250 10 5000
     = Selected \<lparr> ss_selected = [hd example_coins], ss_change_sats = Some 5760, ss_total_fee_sats = 3490, ss_subsidy_sats = 3240 \<rparr>"
  by code_simp

theorem subsidy_selection_is_first_fit_witness:
  "first_fit example_coins 1000 250 10 (spendable_sats example_coins 5000)
     = Some \<lparr> ss_selected = [hd example_coins], ss_change_sats = Some 5760, ss_total_fee_sats = 3490, ss_subsidy_sats = 3240 \<rparr>"
  using subsidy_selection_is_first_fit[OF example_coins_ok(1)] example_selection by blast

theorem subsidy_within_budget_witness:
  "fee_for_weight (final_weight 1000 \<lparr> ss_selected = [hd example_coins], ss_change_sats = Some 5760, ss_total_fee_sats = 3490, ss_subsidy_sats = 3240 \<rparr>) 10 \<le> 3490"
  using subsidy_within_budget[OF example_coins_ok example_selection] by simp

end
