(* ===== verification/Close_Record.thy ===== *)
theory Close_Record
  imports Json
begin

text \<open>
  Close records of \<open>src/rust/src/close_records.rs\<close>, the pure part: the record and its enums, the
  normative merge \<open>merge_close_records\<close>, the derived display status, and the JSON codec shared by the
  local mirror and the cloud backup.  Heights are \<open>u32\<close>, amounts and times \<open>u64\<close>.
\<close>

section \<open>Data\<close>

datatype close_type = Coop | Force | CloseUnknown

fun close_type_str :: "close_type \<Rightarrow> string" where
  "close_type_str Coop = ''coop''"
| "close_type_str Force = ''force''"
| "close_type_str CloseUnknown = ''unknown''"

datatype initiator = Local | Remote | InitiatorUnknown

fun initiator_str :: "initiator \<Rightarrow> string" where
  "initiator_str Local = ''local''"
| "initiator_str Remote = ''remote''"
| "initiator_str InitiatorUnknown = ''unknown''"

datatype close_tx_role = Closing | Commitment | AnchorCpfp | HtlcClaim | Sweep | OtherRole string

fun role_str :: "close_tx_role \<Rightarrow> string" where
  "role_str Closing = ''closing''"
| "role_str Commitment = ''commitment''"
| "role_str AnchorCpfp = ''anchor_cpfp''"
| "role_str HtlcClaim = ''htlc_claim''"
| "role_str Sweep = ''sweep''"
| "role_str (OtherRole r) = r"

definition role_from_str :: "string \<Rightarrow> close_tx_role" where
  "role_from_str r =
     (if r = ''closing'' then Closing
      else if r = ''commitment'' then Commitment
      else if r = ''anchor_cpfp'' then AnchorCpfp
      else if r = ''htlc_claim'' then HtlcClaim
      else if r = ''sweep'' then Sweep
      else OtherRole r)"

fun is_close :: "close_tx_role \<Rightarrow> bool" where
  "is_close Closing = True"
| "is_close Commitment = True"
| "is_close _ = False"

datatype resolution = Verified | UnverifiedRes

fun resolution_str :: "resolution \<Rightarrow> string" where
  "resolution_str Verified = ''verified''"
| "resolution_str UnverifiedRes = ''unverified''"

record close_outpoint =
  op_txid :: string
  op_vout :: u32

record close_record_tx =
  txid :: string
  role :: close_tx_role
  fee_sats :: "u64 option"
  confirmed_at_height :: "u32 option"

record close_record =
  schema_version :: u64
  cr_channel_id :: string
  funding_txo :: "close_outpoint option"
  close_type :: close_type
  cr_initiator :: initiator
  closure_reason :: "string option"
  txs :: "close_record_tx list"
  expected_amount_sats :: "u64 option"
  timelock_blocks :: "u32 option"
  claimable_at_height :: "u32 option"
  created_at_ms :: u64
  completed_at_ms :: "u64 option"
  cr_resolution :: "resolution option"
  extras :: "(string \<times> json) list"

definition CLOSE_RECORD_SCHEMA_VERSION :: u64 where
  "CLOSE_RECORD_SCHEMA_VERSION = 1"

definition skeleton :: "string \<Rightarrow> u64 \<Rightarrow> close_record" where
  "skeleton channel_id created =
     \<lparr> schema_version = CLOSE_RECORD_SCHEMA_VERSION, cr_channel_id = channel_id, funding_txo = None,
       close_type = CloseUnknown, cr_initiator = InitiatorUnknown, closure_reason = None, txs = [],
       expected_amount_sats = None, timelock_blocks = None, claimable_at_height = None,
       created_at_ms = created, completed_at_ms = None, cr_resolution = None, extras = [] \<rparr>"

definition has_confirmed_close_tx :: "close_record \<Rightarrow> bool" where
  "has_confirmed_close_tx r \<longleftrightarrow> list_ex (\<lambda>tx. is_close (role tx) \<and> confirmed_at_height tx \<noteq> None) (txs r)"

section \<open>The merge\<close>

definition opt_or :: "'a option \<Rightarrow> 'a option \<Rightarrow> 'a option" where
  "opt_or a b = (case a of Some x \<Rightarrow> Some x | None \<Rightarrow> b)"

lemma opt_or_simps [simp]:
  "opt_or (Some x) b = Some x" "opt_or None b = b" "opt_or a None = a" "opt_or a a = a"
  by (simp_all add: opt_or_def split: option.split)

lemma opt_or_assoc: "opt_or (opt_or a b) c = opt_or a (opt_or b c)"
  by (cases a) simp_all

fun fill_tx :: "close_record_tx list \<Rightarrow> close_record_tx \<Rightarrow> close_record_tx list" where
  \<comment> \<open>\<open>find\<close> by txid and fill in place, else push\<close>
  "fill_tx [] tx = [tx]"
| "fill_tx (existing # rest) tx =
     (if txid existing = txid tx
      then existing\<lparr> fee_sats := opt_or (fee_sats existing) (fee_sats tx),
             confirmed_at_height := opt_or (confirmed_at_height existing) (confirmed_at_height tx) \<rparr> # rest
      else existing # fill_tx rest tx)"

definition merge_txs :: "close_record_tx list \<Rightarrow> close_record_tx list \<Rightarrow> close_record_tx list" where
  "merge_txs base incoming = fold (\<lambda>tx acc. fill_tx acc tx) incoming base"

definition merge_close_records :: "close_record \<Rightarrow> close_record \<Rightarrow> close_record" where
  "merge_close_records base incoming =
     \<lparr> schema_version = max (schema_version base) (schema_version incoming),
       cr_channel_id = cr_channel_id base,
       funding_txo = opt_or (funding_txo base) (funding_txo incoming),
       close_type = (if close_type incoming \<noteq> CloseUnknown then close_type incoming else close_type base),
       cr_initiator =
         (if cr_initiator incoming \<noteq> InitiatorUnknown then cr_initiator incoming else cr_initiator base),
       closure_reason = opt_or (closure_reason base) (closure_reason incoming),
       txs = merge_txs (txs base) (txs incoming),
       expected_amount_sats = opt_or (expected_amount_sats incoming) (expected_amount_sats base),
       timelock_blocks = opt_or (timelock_blocks base) (timelock_blocks incoming),
       claimable_at_height = opt_or (claimable_at_height incoming) (claimable_at_height base),
       created_at_ms = min (created_at_ms base) (created_at_ms incoming),
       completed_at_ms = opt_or (completed_at_ms base) (completed_at_ms incoming),
       cr_resolution =
         (if cr_resolution base = Some Verified \<or> cr_resolution incoming = Some Verified then Some Verified
          else opt_or (cr_resolution base) (cr_resolution incoming)),
       extras = fold (\<lambda>(k, v). bt_insert k v) (extras base) (extras incoming) \<rparr>"

section \<open>Display status\<close>

datatype close_status_label = StClosing | WaitingTimelock | Returning | Complete | ResolvedUnverified

definition derive_close_status :: "close_record \<Rightarrow> u32 option \<Rightarrow> close_status_label" where
  "derive_close_status r current_height =
     (if completed_at_ms r \<noteq> None then
        (if cr_resolution r = Some UnverifiedRes then ResolvedUnverified else Complete)
      else let sweep = find (\<lambda>tx. role tx = Sweep) (txs r) in
        if (case sweep of Some tx \<Rightarrow> confirmed_at_height tx = None | None \<Rightarrow> False) then Returning
        else if (case claimable_at_height r of
                   None \<Rightarrow> False
                 | Some claimable \<Rightarrow> (case current_height of None \<Rightarrow> True | Some h \<Rightarrow> claimable > h))
        then WaitingTimelock
        else if sweep \<noteq> None then Returning
        else StClosing)"

section \<open>JSON codec\<close>

definition KNOWN_RECORD_KEYS :: "string list" where
  "KNOWN_RECORD_KEYS =
     [''schemaVersion'', ''channelId'', ''fundingTxo'', ''closeType'', ''initiator'', ''closureReason'',
      ''txs'', ''expectedAmountSats'', ''timelockBlocks'', ''claimableAtHeight'', ''createdAt'',
      ''completedAt'', ''resolution'', ''extras'']"

abbreviation JU64 :: "u64 \<Rightarrow> json" where
  "JU64 n \<equiv> JNum (PosInt n)"

abbreviation JU32 :: "u32 \<Rightarrow> json" where
  "JU32 n \<equiv> JNum (PosInt (ucast n))"

definition insert_opt :: "string \<Rightarrow> json option \<Rightarrow> (string \<times> json) list \<Rightarrow> (string \<times> json) list" where
  "insert_opt k v m = (case v of None \<Rightarrow> m | Some x \<Rightarrow> bt_insert k x m)"

definition serialize_tx :: "close_record_tx \<Rightarrow> json" where
  "serialize_tx tx = JObject
     (insert_opt ''confirmedAtHeight'' (map_option JU32 (confirmed_at_height tx))
       (insert_opt ''feeSats'' (map_option (\<lambda>f. JString (u64_to_string f)) (fee_sats tx))
         (bt_insert ''role'' (JString (role_str (role tx)))
           (bt_insert ''txid'' (JString (txid tx)) []))))"

definition serialize_close_record :: "close_record \<Rightarrow> json" where
  "serialize_close_record r =
     (let m0 = bt_of_list (extras r);
          m1 = bt_insert ''schemaVersion'' (JU64 (schema_version r)) m0;
          m2 = bt_insert ''channelId'' (JString (cr_channel_id r)) m1;
          m3 = insert_opt ''fundingTxo'' (map_option (\<lambda>txo. JObject (bt_insert ''vout'' (JU32 (op_vout txo))
                 (bt_insert ''txid'' (JString (op_txid txo)) []))) (funding_txo r)) m2;
          m4 = bt_insert ''closeType'' (JString (close_type_str (close_type r))) m3;
          m5 = bt_insert ''initiator'' (JString (initiator_str (cr_initiator r))) m4;
          m6 = insert_opt ''closureReason'' (map_option JString (closure_reason r)) m5;
          m7 = bt_insert ''txs'' (JArray (map serialize_tx (txs r))) m6;
          m8 = insert_opt ''expectedAmountSats'' (map_option (\<lambda>a. JString (u64_to_string a)) (expected_amount_sats r)) m7;
          m9 = insert_opt ''timelockBlocks'' (map_option JU32 (timelock_blocks r)) m8;
          m10 = insert_opt ''claimableAtHeight'' (map_option JU32 (claimable_at_height r)) m9;
          m11 = bt_insert ''createdAt'' (JU64 (created_at_ms r)) m10;
          m12 = insert_opt ''completedAt'' (map_option JU64 (completed_at_ms r)) m11;
          m13 = insert_opt ''resolution'' (map_option (\<lambda>x. JString (resolution_str x)) (cr_resolution r)) m12
      in JObject m13)"

fun to_u64_or_none :: "json \<Rightarrow> u64 option" where
  "to_u64_or_none (JString raw) = (if raw \<noteq> [] then parse_u64 raw else None)"
| "to_u64_or_none (JNum n) = as_u64 (JNum n)"
| "to_u64_or_none _ = None"

definition as_u32 :: "json \<Rightarrow> u32 option" where
  \<comment> \<open>\<open>as_u64\<close> followed by \<open>as u32\<close>, which truncates\<close>
  "as_u32 v = map_option ucast (as_u64 v)"

definition obj_get :: "(string \<times> json) list \<Rightarrow> string \<Rightarrow> (json \<Rightarrow> 'a option) \<Rightarrow> 'a option" where
  "obj_get obj k f = Option.bind (bt_get obj k) f"

definition deserialize_tx :: "json \<Rightarrow> close_record_tx option" where
  "deserialize_tx raw =
     (case as_object raw of
        None \<Rightarrow> None
      | Some tx \<Rightarrow>
          (case obj_get tx ''txid'' as_str of
             None \<Rightarrow> None
           | Some i \<Rightarrow> Some \<lparr> txid = i,
               role = (case obj_get tx ''role'' as_str of Some r \<Rightarrow> role_from_str r | None \<Rightarrow> Closing),
               fee_sats = obj_get tx ''feeSats'' to_u64_or_none,
               confirmed_at_height = obj_get tx ''confirmedAtHeight'' as_u32 \<rparr>))"

definition deserialize_close_record :: "json \<Rightarrow> u64 \<Rightarrow> close_record option" where
  "deserialize_close_record raw now_ms =
     (case as_object raw of
        None \<Rightarrow> None
      | Some obj \<Rightarrow>
          (case obj_get obj ''channelId'' as_str of
             None \<Rightarrow> None
           | Some cid \<Rightarrow> Some
               \<lparr> schema_version =
                   (case obj_get obj ''schemaVersion'' as_u64 of Some v \<Rightarrow> v | None \<Rightarrow> CLOSE_RECORD_SCHEMA_VERSION),
                 cr_channel_id = cid,
                 funding_txo = obj_get obj ''fundingTxo'' (\<lambda>v. Option.bind (as_object v) (\<lambda>txo.
                   (case (obj_get txo ''txid'' as_str, obj_get txo ''vout'' as_u32) of
                      (Some i, Some n) \<Rightarrow> Some \<lparr> op_txid = i, op_vout = n \<rparr>
                    | _ \<Rightarrow> None))),
                 close_type =
                   (if obj_get obj ''closeType'' as_str = Some ''coop'' then Coop
                    else if obj_get obj ''closeType'' as_str = Some ''force'' then Force
                    else CloseUnknown),
                 cr_initiator =
                   (if obj_get obj ''initiator'' as_str = Some ''local'' then Local
                    else if obj_get obj ''initiator'' as_str = Some ''remote'' then Remote
                    else InitiatorUnknown),
                 closure_reason = obj_get obj ''closureReason'' as_str,
                 txs = (case obj_get obj ''txs'' as_array of
                          None \<Rightarrow> []
                        | Some raws \<Rightarrow> List.map_filter deserialize_tx raws),
                 expected_amount_sats = obj_get obj ''expectedAmountSats'' to_u64_or_none,
                 timelock_blocks = obj_get obj ''timelockBlocks'' as_u32,
                 claimable_at_height = obj_get obj ''claimableAtHeight'' as_u32,
                 created_at_ms = (case obj_get obj ''createdAt'' as_u64 of Some v \<Rightarrow> v | None \<Rightarrow> now_ms),
                 completed_at_ms = obj_get obj ''completedAt'' as_u64,
                 cr_resolution =
                   (if obj_get obj ''resolution'' as_str = Some ''verified'' then Some Verified
                    else if obj_get obj ''resolution'' as_str = Some ''unverified'' then Some UnverifiedRes
                    else None),
                 extras = bt_of_list (filter (\<lambda>(k, _). k \<notin> set KNOWN_RECORD_KEYS) obj) \<rparr>))"

definition encode_records_map :: "(string \<times> close_record) list \<Rightarrow> json" where
  "encode_records_map records = JObject (bt_of_list (map (\<lambda>(k, r). (k, serialize_close_record r)) records))"

definition decode_records_map :: "json \<Rightarrow> u64 \<Rightarrow> (string \<times> close_record) list" where
  "decode_records_map raw now_ms =
     (case as_object raw of
        None \<Rightarrow> []
      | Some obj \<Rightarrow>
          bt_of_list (List.map_filter
            (\<lambda>(_, v). map_option (\<lambda>r. (cr_channel_id r, r)) (deserialize_close_record v now_ms)) obj))"

section \<open>Laws of the transaction union\<close>

definition tx_of :: "string \<Rightarrow> close_record_tx list \<Rightarrow> close_record_tx option" where
  "tx_of i xs = find (\<lambda>t. txid t = i) xs"

definition fill :: "close_record_tx \<Rightarrow> close_record_tx \<Rightarrow> close_record_tx" where
  "fill existing tx = existing\<lparr> fee_sats := opt_or (fee_sats existing) (fee_sats tx),
     confirmed_at_height := opt_or (confirmed_at_height existing) (confirmed_at_height tx) \<rparr>"

lemma txid_fill [simp]: "txid (fill a b) = txid a" "role (fill a b) = role a"
  "fee_sats (fill a b) = opt_or (fee_sats a) (fee_sats b)"
  "confirmed_at_height (fill a b) = opt_or (confirmed_at_height a) (confirmed_at_height b)"
  by (simp_all add: fill_def)

lemma fill_fill [simp]: "fill (fill a b) b = fill a b"
  by (simp add: fill_def opt_or_assoc)

lemma tx_of_fill_tx:
  "tx_of i (fill_tx xs tx) =
     (if i = txid tx then Some (case tx_of i xs of None \<Rightarrow> tx | Some a \<Rightarrow> fill a tx) else tx_of i xs)"
  by (induction xs) (auto simp: tx_of_def fill_def)

lemma map_txid_fill_tx:
  "map txid (fill_tx xs tx) = (if txid tx \<in> txid ` set xs then map txid xs else map txid xs @ [txid tx])"
  by (induction xs) auto

lemma fill_tx_covered: "tx_of (txid tx) xs = Some a \<Longrightarrow> fill a tx = a \<Longrightarrow> fill_tx xs tx = xs"
  by (induction xs) (auto simp: tx_of_def fill_def split: if_splits)

lemma merge_txs_Cons [simp]: "merge_txs xs (y # ys) = merge_txs (fill_tx xs y) ys"
  by (simp add: merge_txs_def)

lemma merge_txs_Nil [simp]: "merge_txs xs [] = xs"
  by (simp add: merge_txs_def)

text \<open>What is known of a transaction only grows: role kept, fee and height written once.\<close>

definition tx_le :: "close_record_tx \<Rightarrow> close_record_tx \<Rightarrow> bool" where
  "tx_le a b \<longleftrightarrow> txid b = txid a \<and> role b = role a
     \<and> (fee_sats a \<noteq> None \<longrightarrow> fee_sats b = fee_sats a)
     \<and> (confirmed_at_height a \<noteq> None \<longrightarrow> confirmed_at_height b = confirmed_at_height a)"

lemma tx_le_refl [simp]: "tx_le a a" by (simp add: tx_le_def)

lemma tx_le_trans: "tx_le a b \<Longrightarrow> tx_le b c \<Longrightarrow> tx_le a c"
  unfolding tx_le_def by metis

lemma tx_le_fill [simp]: "tx_le a (fill a b)"
  by (auto simp: tx_le_def)

lemma tx_of_merge_txs:
  "tx_of i xs = Some a \<Longrightarrow> \<exists>b. tx_of i (merge_txs xs ys) = Some b \<and> tx_le a b"
proof (induction ys arbitrary: xs a)
  case (Cons y ys)
  obtain a' where "tx_of i (fill_tx xs y) = Some a'" "tx_le a a'"
    using Cons.prems by (cases "i = txid y") (auto simp: tx_of_fill_tx)
  with Cons.IH[of "fill_tx xs y" a'] show ?case using tx_le_trans by auto
qed simp

lemma set_txid_fill_tx: "txid ` set (fill_tx xs tx) = insert (txid tx) (txid ` set xs)"
  using map_txid_fill_tx[of xs tx] by (metis (no_types, lifting) insert_absorb list.set_map set_append empty_set list.simps(15) Un_insert_right sup_bot_right)

lemma set_txid_merge_txs: "txid ` set (merge_txs xs ys) = txid ` set xs \<union> txid ` set ys"
  by (induction ys arbitrary: xs) (simp_all add: set_txid_fill_tx)

lemma distinct_txid_merge_txs:
  "distinct (map txid xs) \<Longrightarrow> distinct (map txid (merge_txs xs ys))"
  by (induction ys arbitrary: xs) (auto simp: map_txid_fill_tx)

lemma merge_txs_prefix: "\<exists>zs. map txid (merge_txs xs ys) = map txid xs @ zs"
proof (induction ys arbitrary: xs)
  case (Cons y ys)
  from Cons.IH[of "fill_tx xs y"] show ?case by (auto simp: map_txid_fill_tx split: if_splits)
qed simp

lemma tx_of_distinct: "distinct (map txid xs) \<Longrightarrow> a \<in> set xs \<Longrightarrow> tx_of (txid a) xs = Some a"
  by (induction xs) (auto simp: tx_of_def image_iff)

lemma tx_of_mem: "tx_of i xs = Some a \<Longrightarrow> a \<in> set xs \<and> txid a = i"
  by (induction xs) (auto simp: tx_of_def split: if_splits)

text \<open>Replaying the same facts is absorbed.\<close>

lemma merge_txs_covered:
  assumes "\<forall>y \<in> set ys. \<exists>a. tx_of (txid y) xs = Some a \<and> fill a y = a"
  shows "merge_txs xs ys = xs"
  using assms by (induction ys) (auto simp: fill_tx_covered)

lemma merge_txs_covers:
  "y \<in> set ys \<Longrightarrow> \<exists>a. tx_of (txid y) (merge_txs xs ys) = Some a \<and> fill a y = a"
proof (induction ys arbitrary: xs)
  case (Cons z ys)
  show ?case
  proof (cases "y \<in> set ys")
    case True
    with Cons.IH show ?thesis by simp
  next
    case False
    with Cons.prems have y: "y = z" by simp
    define a where "a = (case tx_of (txid y) xs of None \<Rightarrow> y | Some a \<Rightarrow> fill a y)"
    have a: "tx_of (txid y) (fill_tx xs y) = Some a" by (simp add: tx_of_fill_tx a_def)
    have fa: "fill a y = a"
    proof (cases "tx_of (txid y) xs")
      case None
      then show ?thesis by (simp add: a_def fill_def)
    next
      case (Some c)
      then show ?thesis by (simp add: a_def)
    qed
    from tx_of_merge_txs[OF a, of ys] obtain b where b: "tx_of (txid y) (merge_txs (fill_tx xs y) ys) = Some b" "tx_le a b"
      by blast
    from fa have "(fee_sats a = None \<longrightarrow> fee_sats y = None) \<and> (confirmed_at_height a = None \<longrightarrow> confirmed_at_height y = None)"
      by (metis opt_or_simps(2) txid_fill(3,4))
    with b(2) have "opt_or (fee_sats b) (fee_sats y) = fee_sats b \<and> opt_or (confirmed_at_height b) (confirmed_at_height y) = confirmed_at_height b"
      by (cases "fee_sats b"; cases "confirmed_at_height b") (auto simp: tx_le_def)
    then have "fill b y = b" by (simp add: fill_def)
    with b y show ?thesis by auto
  qed
qed simp

lemma merge_txs_replay: "merge_txs (merge_txs xs ys) ys = merge_txs xs ys"
  using merge_txs_covers by (intro merge_txs_covered) blast

section \<open>Laws of the record merge\<close>

text \<open>The information order: everything \<open>a\<close> establishes still holds in \<open>b\<close>.\<close>

definition record_le :: "close_record \<Rightarrow> close_record \<Rightarrow> bool" where
  "record_le a b \<longleftrightarrow>
     cr_channel_id b = cr_channel_id a \<and> schema_version a \<le> schema_version b
     \<and> created_at_ms b \<le> created_at_ms a
     \<and> (funding_txo a \<noteq> None \<longrightarrow> funding_txo b = funding_txo a)
     \<and> (closure_reason a \<noteq> None \<longrightarrow> closure_reason b = closure_reason a)
     \<and> (timelock_blocks a \<noteq> None \<longrightarrow> timelock_blocks b = timelock_blocks a)
     \<and> (completed_at_ms a \<noteq> None \<longrightarrow> completed_at_ms b = completed_at_ms a)
     \<and> (cr_resolution a = Some Verified \<longrightarrow> cr_resolution b = Some Verified)
     \<and> (cr_resolution a \<noteq> None \<longrightarrow> cr_resolution b \<noteq> None)
     \<and> (expected_amount_sats a \<noteq> None \<longrightarrow> expected_amount_sats b \<noteq> None)
     \<and> (claimable_at_height a \<noteq> None \<longrightarrow> claimable_at_height b \<noteq> None)
     \<and> (close_type a \<noteq> CloseUnknown \<longrightarrow> close_type b \<noteq> CloseUnknown)
     \<and> (cr_initiator a \<noteq> InitiatorUnknown \<longrightarrow> cr_initiator b \<noteq> InitiatorUnknown)
     \<and> (\<forall>i x. tx_of i (txs a) = Some x \<longrightarrow> (\<exists>y. tx_of i (txs b) = Some y \<and> tx_le x y))
     \<and> (\<forall>x \<in> set (txs a). \<exists>y \<in> set (txs b). tx_le x y)"

lemma record_le_refl [simp]: "record_le a a"
  by (auto simp: record_le_def intro: tx_le_refl)

lemma record_le_trans:
  assumes "record_le a b" and "record_le b c"
  shows "record_le a c"
proof -
  have "\<exists>z. tx_of i (txs c) = Some z \<and> tx_le x z" if x: "tx_of i (txs a) = Some x" for i x
  proof -
    from assms(1) x obtain y where y: "tx_of i (txs b) = Some y" "tx_le x y"
      unfolding record_le_def by blast
    from assms(2) y(1) obtain z where "tx_of i (txs c) = Some z" "tx_le y z"
      unfolding record_le_def by blast
    with y show ?thesis using tx_le_trans by blast
  qed
  moreover have "\<forall>x \<in> set (txs a). \<exists>z \<in> set (txs c). tx_le x z"
  proof
    fix x assume "x \<in> set (txs a)"
    with assms(1) obtain y where y: "y \<in> set (txs b)" "tx_le x y" unfolding record_le_def by blast
    with assms(2) obtain z where "z \<in> set (txs c)" "tx_le y z" unfolding record_le_def by blast
    with y(2) tx_le_trans show "\<exists>z \<in> set (txs c). tx_le x z" by blast
  qed
  ultimately show ?thesis
    using assms unfolding record_le_def by (elim conjE, intro conjI; metis order_trans)
qed

lemma opt_or_kept: "a \<noteq> None \<Longrightarrow> opt_or a b = a"
  by (auto simp: opt_or_def)

lemma opt_or_known: "b \<noteq> None \<Longrightarrow> opt_or a b \<noteq> None"
  by (auto simp: opt_or_def split: option.split)

lemma fill_tx_keeps: "x \<in> set xs \<Longrightarrow> \<exists>y \<in> set (fill_tx xs tx). tx_le x y"
  by (induction xs) (auto simp: tx_le_def opt_or_kept)

lemma merge_txs_keeps: "x \<in> set xs \<Longrightarrow> \<exists>y \<in> set (merge_txs xs ys). tx_le x y"
proof (induction ys arbitrary: x xs)
  case (Cons t ys)
  from fill_tx_keeps[OF Cons.prems] obtain y where y: "y \<in> set (fill_tx xs t)" "tx_le x y" by blast
  from Cons.IH[OF y(1)] y(2) tx_le_trans show ?case by fastforce
qed (auto intro: tx_le_refl)

lemma merge_close_records_le: "record_le base (merge_close_records base incoming)"
  unfolding record_le_def
  by (intro conjI allI impI ballI)
    (simp_all add: merge_close_records_def opt_or_kept opt_or_known tx_of_merge_txs merge_txs_keeps)

lemma merge_extras_replay:
  assumes "bt_wf a" and "bt_wf b"
  shows "fold (\<lambda>(k, v). bt_insert k v) (fold (\<lambda>(k, v). bt_insert k v) a b) b
    = fold (\<lambda>(k, v). bt_insert k v) a b"
proof (rule bt_wf_ext)
  let ?m = "fold (\<lambda>(k, v). bt_insert k v) a b"
  have wf: "bt_wf ?m" using assms by blast
  have m: "bt_get ?m = bt_get b ++ map_of a"
    using map_of_rev_wf[OF assms(1)] by (simp add: bt_get_fold_insert)
  then show "bt_get (fold (\<lambda>(k, v). bt_insert k v) ?m b) = bt_get ?m"
    using map_of_rev_wf[OF wf]
    by (auto simp: bt_get_fold_insert[of ?m b] map_add_def fun_eq_iff split: option.splits)
qed (use assms in blast)+

section \<open>Laws of the codec\<close>

lemma bt_get_insert_opt: "bt_get (insert_opt k v m) k' = (if k' = k then opt_or v (bt_get m k) else bt_get m k')"
  by (simp add: insert_opt_def bt_get_insert split: option.split)

lemma bind_map_option: "Option.bind (map_option g x) f = Option.bind x (\<lambda>y. f (g y))"
  by (cases x) simp_all

lemma filter_bt_insert: "\<not> P k \<Longrightarrow> filter (\<lambda>(k, _). P k) (bt_insert k v m) = filter (\<lambda>(k, _). P k) m"
  by (induction k v m rule: bt_insert.induct) auto

lemma filter_insert_opt: "\<not> P k \<Longrightarrow> filter (\<lambda>(k, _). P k) (insert_opt k v m) = filter (\<lambda>(k, _). P k) m"
  by (simp add: insert_opt_def filter_bt_insert split: option.split)

lemma u64_to_string_nonempty [simp]: "u64_to_string n \<noteq> []"
  by (simp add: u64_to_string_def)

lemma ucast_u32_u64 [simp]: "ucast (ucast (n :: u32) :: u64) = n"
  by (simp add: ucast_up_ucast_id is_up)

definition role_canonical :: "close_tx_role \<Rightarrow> bool" where
  "role_canonical r \<longleftrightarrow> role_from_str (role_str r) = r"

lemma deserialize_serialize_tx:
  "role_canonical (role tx) \<Longrightarrow> deserialize_tx (serialize_tx tx) = Some tx"
  by (simp add: deserialize_tx_def serialize_tx_def obj_get_def bt_get_insert_opt bt_get_insert
      bind_map_option as_u32_def role_canonical_def)

lemma map_filter_serialize_tx:
  "\<forall>tx \<in> set ts. role_canonical (role tx) \<Longrightarrow> List.map_filter deserialize_tx (map serialize_tx ts) = ts"
  by (induction ts) (simp_all add: deserialize_serialize_tx)

lemma str_eq_iffs:
  "close_type_str c = ''coop'' \<longleftrightarrow> c = Coop" "close_type_str c = ''force'' \<longleftrightarrow> c = Force"
  "initiator_str i = ''local'' \<longleftrightarrow> i = Local" "initiator_str i = ''remote'' \<longleftrightarrow> i = Remote"
  "resolution_str v = ''verified'' \<longleftrightarrow> v = Verified" "resolution_str v = ''unverified'' \<longleftrightarrow> v = UnverifiedRes"
  by (cases c; cases i; cases v; simp)+

lemma enum_round:
  "(if c = Coop then Coop else if c = Force then Force else CloseUnknown) = c"
  "(if i = Local then Local else if i = Remote then Remote else InitiatorUnknown) = i"
  "(if v = Some Verified then Some Verified else if v = Some UnverifiedRes then Some UnverifiedRes else None) = v"
  by (cases c; cases i; cases v; cases "the v"; simp)+

lemma bind_resolution_str:
  "Option.bind v (\<lambda>x. Some (resolution_str x)) = Some ''verified'' \<longleftrightarrow> v = Some Verified"
  "Option.bind v (\<lambda>x. Some (resolution_str x)) = Some ''unverified'' \<longleftrightarrow> v = Some UnverifiedRes"
  by (cases v; simp add: str_eq_iffs)+

definition record_wf :: "close_record \<Rightarrow> bool" where
  \<comment> \<open>unknown fields are kept apart from the known ones, in map order; roles are spelled canonically\<close>
  "record_wf r \<longleftrightarrow> bt_wf (extras r) \<and> (\<forall>k \<in> fst ` set (extras r). k \<notin> set KNOWN_RECORD_KEYS)
     \<and> (\<forall>tx \<in> set (txs r). role_canonical (role tx))"

lemma serialize_get_known:
  assumes "record_wf r"
  shows "\<exists>obj. serialize_close_record r = JObject obj
    \<and> bt_get obj ''schemaVersion'' = Some (JU64 (schema_version r))
    \<and> bt_get obj ''channelId'' = Some (JString (cr_channel_id r))
    \<and> bt_get obj ''fundingTxo'' = map_option (\<lambda>txo. JObject (bt_insert ''vout'' (JU32 (op_vout txo))
                 (bt_insert ''txid'' (JString (op_txid txo)) []))) (funding_txo r)
    \<and> bt_get obj ''closeType'' = Some (JString (close_type_str (close_type r)))
    \<and> bt_get obj ''initiator'' = Some (JString (initiator_str (cr_initiator r)))
    \<and> bt_get obj ''closureReason'' = map_option JString (closure_reason r)
    \<and> bt_get obj ''txs'' = Some (JArray (map serialize_tx (txs r)))
    \<and> bt_get obj ''expectedAmountSats'' = map_option (\<lambda>a. JString (u64_to_string a)) (expected_amount_sats r)
    \<and> bt_get obj ''timelockBlocks'' = map_option JU32 (timelock_blocks r)
    \<and> bt_get obj ''claimableAtHeight'' = map_option JU32 (claimable_at_height r)
    \<and> bt_get obj ''createdAt'' = Some (JU64 (created_at_ms r))
    \<and> bt_get obj ''completedAt'' = map_option JU64 (completed_at_ms r)
    \<and> bt_get obj ''resolution'' = map_option (\<lambda>x. JString (resolution_str x)) (cr_resolution r)
    \<and> filter (\<lambda>(k, _). k \<notin> set KNOWN_RECORD_KEYS) obj = extras r"
proof -
  have ext: "bt_get (extras r) k = None" if "k \<in> set KNOWN_RECORD_KEYS" for k
    using assms that by (auto simp: record_wf_def map_of_eq_None_iff)
  have keep: "filter (\<lambda>(k, _). k \<notin> set KNOWN_RECORD_KEYS) (extras r) = extras r"
    using assms by (force simp: record_wf_def intro!: filter_True)
  have wf: "bt_of_list (extras r) = extras r"
    using assms by (simp add: record_wf_def bt_of_list_id)
  show ?thesis
    unfolding serialize_close_record_def Let_def wf
    by (rule exI, rule conjI[OF refl], intro conjI)
      (simp_all add: bt_get_insert_opt bt_get_insert ext KNOWN_RECORD_KEYS_def[THEN arg_cong[of _ _ set], simplified],
       simp add: filter_bt_insert filter_insert_opt keep[unfolded KNOWN_RECORD_KEYS_def, simplified])
qed

lemma deserialize_serialize:
  assumes "record_wf r"
  shows "deserialize_close_record (serialize_close_record r) now_ms = Some r"
proof -
  from serialize_get_known[OF assms] obtain obj where obj: "serialize_close_record r = JObject obj"
    "bt_get obj ''schemaVersion'' = Some (JU64 (schema_version r))"
    "bt_get obj ''channelId'' = Some (JString (cr_channel_id r))"
    "bt_get obj ''fundingTxo'' = map_option (\<lambda>txo. JObject (bt_insert ''vout'' (JU32 (op_vout txo))
                 (bt_insert ''txid'' (JString (op_txid txo)) []))) (funding_txo r)"
    "bt_get obj ''closeType'' = Some (JString (close_type_str (close_type r)))"
    "bt_get obj ''initiator'' = Some (JString (initiator_str (cr_initiator r)))"
    "bt_get obj ''closureReason'' = map_option JString (closure_reason r)"
    "bt_get obj ''txs'' = Some (JArray (map serialize_tx (txs r)))"
    "bt_get obj ''expectedAmountSats'' = map_option (\<lambda>a. JString (u64_to_string a)) (expected_amount_sats r)"
    "bt_get obj ''timelockBlocks'' = map_option JU32 (timelock_blocks r)"
    "bt_get obj ''claimableAtHeight'' = map_option JU32 (claimable_at_height r)"
    "bt_get obj ''createdAt'' = Some (JU64 (created_at_ms r))"
    "bt_get obj ''completedAt'' = map_option JU64 (completed_at_ms r)"
    "bt_get obj ''resolution'' = map_option (\<lambda>x. JString (resolution_str x)) (cr_resolution r)"
    "filter (\<lambda>(k, _). k \<notin> set KNOWN_RECORD_KEYS) obj = extras r"
    by blast
  have txs: "List.map_filter deserialize_tx (map serialize_tx (txs r)) = txs r"
    using assms by (simp add: record_wf_def map_filter_serialize_tx)
  have ext: "bt_of_list (extras r) = extras r"
    using assms by (simp add: record_wf_def bt_of_list_id)
  have txo: "(\<lambda>txo. Some \<lparr> op_txid = op_txid txo, op_vout = op_vout txo \<rparr>) = Some"
    by (simp add: fun_eq_iff)
  show ?thesis
    by (simp add: deserialize_close_record_def obj obj_get_def bind_map_option as_u32_def bt_get_insert
        txs ext txo str_eq_iffs enum_round bind_resolution_str
        cong: if_cong split del: if_split)
qed

section \<open>Properties\<close>


text \<open>
  replaying an event is harmless: merging the same facts a second time changes nothing.
\<close>
theorem merge_replay_is_noop:
  assumes "bt_wf (extras base)" and "bt_wf (extras incoming)"
  shows "merge_close_records (merge_close_records base incoming) incoming = merge_close_records base incoming"
  using merge_extras_replay[OF assms]
  by (simp add: merge_close_records_def merge_txs_replay opt_or_assoc max.assoc min.assoc)
    (auto simp: opt_or_def split: option.split)

text \<open>
  A record that shows as complete keeps showing as complete, and one resolved without
  verification can only stay so or become complete, whatever facts are merged in later and
  whatever the chain height is.
\<close>
theorem completed_status_is_terminal:
  assumes "completed_at_ms r \<noteq> None" and "cr_resolution r \<noteq> None"
  shows "derive_close_status (merge_close_records r incoming) h \<in>
    (if derive_close_status r h' = Complete then {Complete} else {ResolvedUnverified, Complete})"
proof (cases "cr_resolution r = Some Verified")
  case True
  with assms show ?thesis by (auto simp: derive_close_status_def merge_close_records_def)
next
  case False
  then have "cr_resolution r = Some UnverifiedRes"
    using assms(2) by (auto intro: resolution.exhaust)
  with assms show ?thesis by (auto simp: derive_close_status_def merge_close_records_def)
qed

text \<open>
  The close-record codec round-trips: decoding what was encoded gives back the same record,
  unknown fields from newer schema versions included.
\<close>
theorem close_record_roundtrip:
  assumes "record_wf r"
  shows "deserialize_close_record (serialize_close_record r) now_ms = Some r"
  by (rule deserialize_serialize[OF assms])

text \<open>
  The close type and the initiator of a record are not set-once: a record known as a
  cooperative close becomes a force close when later facts say so.
\<close>
theorem merge_overrides_known_close_type:
  "\<exists>base incoming. close_type base = Coop \<and> cr_initiator base = Local
     \<and> close_type (merge_close_records base incoming) = Force
     \<and> cr_initiator (merge_close_records base incoming) = Remote"
proof -
  let ?base = "(skeleton ''c'' 0)\<lparr> close_type := Coop, cr_initiator := Local \<rparr>"
  let ?incoming = "(skeleton ''c'' 0)\<lparr> close_type := Force, cr_initiator := Remote \<rparr>"
  show ?thesis
    by (rule exI[of _ ?base], rule exI[of _ ?incoming]) (simp add: merge_close_records_def skeleton_def)
qed

section \<open>The properties at concrete inputs\<close>

definition example_record :: close_record where
  "example_record = (skeleton ''chan'' 1000)\<lparr> close_type := Force, cr_resolution := Some UnverifiedRes,
     completed_at_ms := Some 5, expected_amount_sats := Some 7,
     txs := [\<lparr> txid = ''t1'', role = Commitment, fee_sats = Some 12, confirmed_at_height = None \<rparr>],
     extras := [(''zz'', JNull)] \<rparr>"

lemma example_record_wf: "record_wf example_record"
  by (simp add: record_wf_def example_record_def skeleton_def bt_wf_def KNOWN_RECORD_KEYS_def
      role_canonical_def role_from_str_def)

theorem merge_replay_is_noop_witness:
  "let r = example_record; i = r\<lparr> cr_resolution := Some Verified \<rparr>
   in bt_wf (extras r) \<and> merge_close_records (merge_close_records r i) i = merge_close_records r i"
  using merge_replay_is_noop[of example_record "example_record\<lparr> cr_resolution := Some Verified \<rparr>"] example_record_wf
  by (simp add: record_wf_def Let_def)

theorem completed_status_is_terminal_witness:
  "derive_close_status (merge_close_records example_record (example_record\<lparr> cr_resolution := Some Verified \<rparr>)) (Some 9)
     \<in> {ResolvedUnverified, Complete}"
  using completed_status_is_terminal[of example_record "example_record\<lparr> cr_resolution := Some Verified \<rparr>" "Some 9" None]
  by (simp add: example_record_def skeleton_def derive_close_status_def split: if_splits)

theorem close_record_roundtrip_witness:
  "deserialize_close_record (serialize_close_record example_record) 0 = Some example_record"
  by (rule close_record_roundtrip[OF example_record_wf])

end
