(* ===== verification/Close_Store.thy ===== *)
theory Close_Store
  imports Close_Record Vss_Transport
begin

text \<open>
  The close-record store and its chain-truth reconciliation (\<open>src/rust/src/close_records.rs\<close>): the
  in-memory read model with its local mirror and scheduled cloud writes, the event-side signals,
  the closure-reason table, and the budgeted reconcile pass.

  The in-memory \<open>HashMap\<close>s are sorted association lists, so that iteration has one fixed order.
  \<open>scheduled\<close> lists the whole-map blobs handed to the VSS store's merge write.  The chain
  (\<open>ChainTruth\<close>) is a record of queries over a network state \<open>'w\<close>; wallet receipts are a
  predicate on txids.  \<open>u32\<close> heights wrap as they do in the release build.
\<close>

section \<open>The store\<close>

record funding_txo_entry =
  ft_txid :: string
  ft_vout :: u32
  ft_timelock_blocks :: "u32 option"

record 'l close_env =
  ce_local :: "'l disk"
  ce_codec :: json_codec

record 'l close_store =
  records :: "(string \<times> close_record) list"
  funding_txos :: "(string \<times> funding_txo_entry) list"
  cs_loc :: 'l
  vss_attached :: bool
  scheduled :: "bytes list"
  last_tip_height :: "u32 option"

definition CLOSE_RECORDS_NS :: string where "CLOSE_RECORDS_NS = ''close_records''"
definition RECORDS_LOCAL_KEY :: string where "RECORDS_LOCAL_KEY = ''records''"
definition FUNDING_TXOS_LOCAL_KEY :: string where "FUNDING_TXOS_LOCAL_KEY = ''funding_txos''"

definition serialize_funding_entry :: "funding_txo_entry \<Rightarrow> json" where
  "serialize_funding_entry f = JObject (insert_opt ''timelockBlocks'' (map_option JU32 (ft_timelock_blocks f))
     (bt_insert ''vout'' (JU32 (ft_vout f)) (bt_insert ''txid'' (JString (ft_txid f)) [])))"

definition encode_records :: "'l close_env \<Rightarrow> 'l close_store \<Rightarrow> bytes" where
  "encode_records e s = to_vec (ce_codec e) (encode_records_map (records s))"

definition persist_records_locally :: "'l close_env \<Rightarrow> bytes \<Rightarrow> 'l close_store \<Rightarrow> 'l close_store" where
  \<comment> \<open>every caller logs a failure and goes on\<close>
  "persist_records_locally e b s =
     s\<lparr> cs_loc := snd (d_write (ce_local e) CLOSE_RECORDS_NS [] RECORDS_LOCAL_KEY b (cs_loc s)) \<rparr>"

definition sync_vss :: "bytes \<Rightarrow> 'l close_store \<Rightarrow> 'l close_store" where
  "sync_vss b s = (if vss_attached s then s\<lparr> scheduled := scheduled s @ [b] \<rparr> else s)"

definition merge_into :: "string \<Rightarrow> close_record \<Rightarrow> (string \<times> close_record) list \<Rightarrow> (string \<times> close_record) list" where
  "merge_into channel_id incoming rs =
     bt_insert channel_id
       (case bt_get rs channel_id of
          Some existing \<Rightarrow> merge_close_records existing incoming
        | None \<Rightarrow> incoming) rs"

definition upsert :: "'l close_env \<Rightarrow> close_record \<Rightarrow> 'l close_store \<Rightarrow> 'l close_store" where
  "upsert e incoming s =
     (let s1 = s\<lparr> records := merge_into (cr_channel_id incoming) incoming (records s) \<rparr>;
          b = encode_records e s1
      in sync_vss b (persist_records_locally e b s1))"

definition get_record :: "'l close_store \<Rightarrow> string \<Rightarrow> close_record option" where
  "get_record s channel_id = bt_get (records s) channel_id"

definition snapshot :: "'l close_store \<Rightarrow> close_record list" where
  "snapshot s = sort_key (\<lambda>r. 2 ^ 64 - unat (created_at_ms r)) (map snd (records s))"

definition absorb_remote :: "'l close_env \<Rightarrow> u64 \<Rightarrow> bytes \<Rightarrow> 'l close_store \<Rightarrow> bytes \<times> 'l close_store" where
  "absorb_remote e now_ms remote_bytes s =
     (let remote_map = (case from_slice (ce_codec e) remote_bytes of
                          None \<Rightarrow> [] | Some raw \<Rightarrow> decode_records_map raw now_ms);
          s1 = s\<lparr> records := fold (\<lambda>(cid, incoming). merge_into cid incoming) remote_map (records s) \<rparr>;
          b = encode_records e s1
      in (b, persist_records_locally e b s1))"

definition close_reset :: "'l close_store \<Rightarrow> 'l close_store" where
  "close_reset s = s\<lparr> records := [], funding_txos := [], last_tip_height := None \<rparr>"

definition persist_funding_txos :: "'l close_env \<Rightarrow> 'l close_store \<Rightarrow> 'l close_store" where
  "persist_funding_txos e s =
     s\<lparr> cs_loc := snd (d_write (ce_local e) CLOSE_RECORDS_NS [] FUNDING_TXOS_LOCAL_KEY
          (to_vec (ce_codec e) (JObject (map (\<lambda>(k, f). (k, serialize_funding_entry f)) (funding_txos s))))
          (cs_loc s)) \<rparr>"

definition record_funding_txo ::
  "'l close_env \<Rightarrow> string \<Rightarrow> funding_txo_entry \<Rightarrow> 'l close_store \<Rightarrow> 'l close_store"
where
  "record_funding_txo e channel_id entry s =
     (if bt_get (funding_txos s) channel_id = Some entry then s
      else persist_funding_txos e (s\<lparr> funding_txos := bt_insert channel_id entry (funding_txos s) \<rparr>))"

definition remove_funding_txo :: "'l close_env \<Rightarrow> string \<Rightarrow> 'l close_store \<Rightarrow> 'l close_store" where
  "remove_funding_txo e channel_id s =
     (if bt_get (funding_txos s) channel_id = None then s
      else persist_funding_txos e (s\<lparr> funding_txos := bt_remove channel_id (funding_txos s) \<rparr>))"

definition attach_vss :: "'l close_store \<Rightarrow> 'l close_store" where
  "attach_vss s = s\<lparr> vss_attached := True \<rparr>"

definition detach_vss :: "'l close_store \<Rightarrow> 'l close_store" where
  "detach_vss s = s\<lparr> vss_attached := False \<rparr>"

definition seed_from_remote :: "'l close_env \<Rightarrow> u64 \<Rightarrow> bytes \<Rightarrow> 'l close_store \<Rightarrow> 'l close_store" where
  "seed_from_remote e now_ms remote_bytes s = snd (absorb_remote e now_ms remote_bytes s)"

definition deserialize_funding_entry :: "json \<Rightarrow> funding_txo_entry option" where
  "deserialize_funding_entry v =
     (case as_object v of None \<Rightarrow> None | Some ob \<Rightarrow>
        (case (fld ob ''txid'' as_str, fld ob ''vout'' as_u32, opt_fld ob ''timelockBlocks'' as_u32) of
           (Some i, Some n, Some t) \<Rightarrow> Some \<lparr> ft_txid = i, ft_vout = n, ft_timelock_blocks = t \<rparr>
         | _ \<Rightarrow> None))"

definition deserialize_funding_map :: "json \<Rightarrow> (string \<times> funding_txo_entry) list option" where
  \<comment> \<open>one bad entry fails the whole map\<close>
  "deserialize_funding_map v =
     Option.bind (as_object v)
       (\<lambda>kvs. map_option bt_of_list
          (those (map (\<lambda>(k, j). map_option (Pair k) (deserialize_funding_entry j)) kvs)))"

definition close_store_new :: "'l close_env \<Rightarrow> u64 \<Rightarrow> 'l \<Rightarrow> 'l close_store" where
  "close_store_new e now_ms l =
     (let read_map = (\<lambda>k. case d_read (ce_local e) CLOSE_RECORDS_NS [] k l of
                        Inl _ \<Rightarrow> None | Inr b \<Rightarrow> from_slice (ce_codec e) b)
      in \<lparr> records = (case read_map RECORDS_LOCAL_KEY of
                       None \<Rightarrow> [] | Some raw \<Rightarrow> decode_records_map raw now_ms),
           funding_txos = (case Option.bind (read_map FUNDING_TXOS_LOCAL_KEY) deserialize_funding_map of
                       None \<Rightarrow> [] | Some m \<Rightarrow> m),
           cs_loc = l, vss_attached = False, scheduled = [], last_tip_height = None \<rparr>)"

record close_record_summary =
  sum_channel_id :: string
  sum_created_at_ms :: u64
  sum_expected_amount_sats :: "u64 option"
  sum_status :: close_status_label
  absorbed_txids :: "string list"

definition summaries :: "'l close_store \<Rightarrow> close_record_summary list" where
  "summaries s = map (\<lambda>r. \<lparr> sum_channel_id = cr_channel_id r, sum_created_at_ms = created_at_ms r,
     sum_expected_amount_sats = expected_amount_sats r,
     sum_status = derive_close_status r (last_tip_height s),
     absorbed_txids = map txid (txs r) \<rparr>) (snapshot s)"

section \<open>Closure reasons\<close>

datatype closure_reason =
    LegacyCooperativeClosure
  | LocallyInitiatedCooperativeClosure
  | CounterpartyInitiatedCooperativeClosure
  | HolderForceClosed
  | CounterpartyForceClosed
  | CommitmentTxConfirmed
  | HTLCsTimedOut
  | ProcessingError
  | OutdatedChannelManager
  | PeerFeerateTooLow
  | DisconnectedPeer
  | FundingTimedOut
  | CounterpartyCoopClosedUnfundedChannel
  | LocallyCoopClosedUnfundedChannel
  | FundingBatchClosure

record closure_classification =
  cc_description :: string
  cc_close_type :: close_type
  cc_initiator :: initiator
  has_onchain_tx :: bool

definition classification :: "string \<Rightarrow> close_type \<Rightarrow> initiator \<Rightarrow> bool \<Rightarrow> closure_classification" where
  "classification d c i h = \<lparr> cc_description = d, cc_close_type = c, cc_initiator = i, has_onchain_tx = h \<rparr>"

fun classify_closure_reason :: "closure_reason \<Rightarrow> closure_classification" where
  "classify_closure_reason LegacyCooperativeClosure =
     classification ''Cooperative close'' Coop InitiatorUnknown True"
| "classify_closure_reason LocallyInitiatedCooperativeClosure =
     classification ''Cooperative close'' Coop Local True"
| "classify_closure_reason CounterpartyInitiatedCooperativeClosure =
     classification ''Cooperative close (initiated by peer)'' Coop Remote True"
| "classify_closure_reason HolderForceClosed = classification ''Force closed by you'' Force Local True"
| "classify_closure_reason CounterpartyForceClosed =
     classification ''Counterparty force closed'' Force Remote True"
| "classify_closure_reason CommitmentTxConfirmed =
     classification ''Commitment transaction confirmed'' Force Remote True"
| "classify_closure_reason HTLCsTimedOut =
     classification ''Force closed to resolve timed-out payments'' Force Local True"
| "classify_closure_reason ProcessingError = classification ''Processing error'' Force Local True"
| "classify_closure_reason OutdatedChannelManager =
     classification ''Outdated channel manager'' Force Local True"
| "classify_closure_reason PeerFeerateTooLow = classification ''Peer feerate too low'' Force Local True"
| "classify_closure_reason DisconnectedPeer =
     classification ''Peer disconnected'' CloseUnknown InitiatorUnknown False"
| "classify_closure_reason FundingTimedOut =
     classification ''Funding timed out'' CloseUnknown InitiatorUnknown False"
| "classify_closure_reason CounterpartyCoopClosedUnfundedChannel =
     classification ''Counterparty closed unfunded channel'' CloseUnknown Remote False"
| "classify_closure_reason LocallyCoopClosedUnfundedChannel =
     classification ''Closed unfunded channel'' CloseUnknown Local False"
| "classify_closure_reason FundingBatchClosure =
     classification ''Funding batch closure'' CloseUnknown InitiatorUnknown False"

section \<open>Event-side signals\<close>

definition on_channel_closed ::
  "'l close_env \<Rightarrow> string \<Rightarrow> closure_classification \<Rightarrow> close_outpoint option \<Rightarrow> u64 option \<Rightarrow> u64
     \<Rightarrow> 'l close_store \<Rightarrow> 'l close_store"
where
  "on_channel_closed e cid c event_txo last_balance now_ms s =
     (let map_entry = bt_get (funding_txos s) cid;
          txo = opt_or event_txo (map_option (\<lambda>f. \<lparr> op_txid = ft_txid f, op_vout = ft_vout f \<rparr>) map_entry);
          timelock = Option.bind map_entry ft_timelock_blocks
      in if \<not> has_onchain_tx c \<and> get_record s cid = None then remove_funding_txo e cid s
         else remove_funding_txo e cid
           (upsert e ((skeleton cid now_ms)\<lparr> funding_txo := txo, close_type := cc_close_type c,
              cr_initiator := cc_initiator c, closure_reason := Some (cc_description c),
              expected_amount_sats := last_balance, timelock_blocks := timelock \<rparr>) s))"

definition on_commitment_broadcast ::
  "'l close_env \<Rightarrow> string \<Rightarrow> string \<Rightarrow> u64 \<Rightarrow> u64 \<Rightarrow> 'l close_store \<Rightarrow> 'l close_store"
where
  "on_commitment_broadcast e cid i fee now_ms s =
     upsert e ((skeleton cid now_ms)\<lparr> close_type := Force,
       txs := [\<lparr> txid = i, role = Commitment, fee_sats = Some fee, confirmed_at_height = None \<rparr>] \<rparr>) s"

definition record_sweep_tx ::
  "'l close_env \<Rightarrow> string \<Rightarrow> string list \<Rightarrow> u64 \<Rightarrow> 'l close_store \<Rightarrow> 'l close_store"
where
  "record_sweep_tx e i channel_ids now_ms s =
     fold (\<lambda>cid. upsert e ((skeleton cid now_ms)\<lparr>
       txs := [\<lparr> txid = i, role = Sweep, fee_sats = None, confirmed_at_height = None \<rparr>] \<rparr>)) channel_ids s"

section \<open>Chain-truth reconciliation\<close>

record 'w chain =
  c_tip_height :: "'w \<Rightarrow> (string + u32) \<times> 'w"
  c_outspend :: "string \<Rightarrow> u32 \<Rightarrow> 'w \<Rightarrow> (string + string option) \<times> 'w"
  c_tx_confirmed_height :: "string \<Rightarrow> 'w \<Rightarrow> (string + u32 option) \<times> 'w"

definition FINALITY_CONFS :: u32 where "FINALITY_CONFS = 6"
definition MAX_TIMELOCK_BLOCKS :: u32 where "MAX_TIMELOCK_BLOCKS = 2016"
definition MAX_QUERIES_PER_PASS :: nat where "MAX_QUERIES_PER_PASS = 8"
definition OFFLINE_CLOSE_REASON :: string where
  "OFFLINE_CLOSE_REASON = ''Channel closed while the app was offline''"

definition confirmations :: "u32 \<Rightarrow> u32 \<Rightarrow> u32" where
  "confirmations tip h = (if h \<le> tip then tip - h else 0) + 1"

definition with_budget ::
  "nat \<Rightarrow> ('w \<Rightarrow> (string + 'a option) \<times> 'w) \<Rightarrow> 'w \<Rightarrow> (string + 'a option) \<times> nat \<times> 'w"
where
  "with_budget budget query w =
     (if budget = 0 then (Inr None, 0, w)
      else case query w of (res, w') \<Rightarrow> (res, budget - 1, w'))"

type_synonym 'w pass = "(string + close_record \<times> bool) \<times> nat \<times> 'w"

definition discover_close :: "'w chain \<Rightarrow> close_record \<Rightarrow> close_record \<Rightarrow> nat \<Rightarrow> 'w \<Rightarrow> 'w pass" where
  \<comment> \<open>step (a)\<close>
  "discover_close ch r facts budget w =
     (case (if has_confirmed_close_tx r then None else funding_txo r) of
        None \<Rightarrow> (Inr (facts, False), budget, w)
      | Some txo \<Rightarrow>
          (case with_budget budget (c_outspend ch (op_txid txo) (op_vout txo)) w of
             (Inl err, b1, w1) \<Rightarrow> (Inl err, b1, w1)
           | (Inr None, b1, w1) \<Rightarrow> (Inr (facts, False), b1, w1)
           | (Inr (Some spender), b1, w1) \<Rightarrow>
               (case with_budget b1 (c_tx_confirmed_height ch spender) w1 of
                  (Inl err, b2, w2) \<Rightarrow> (Inl err, b2, w2)
                | (Inr status, b2, w2) \<Rightarrow>
                    (Inr (facts\<lparr> txs := txs facts @
                       [\<lparr> txid = spender, role = (if close_type r = Coop then Closing else Commitment),
                          fee_sats = None, confirmed_at_height = status \<rparr>] \<rparr>, True), b2, w2))))"

fun note_heights :: "'w chain \<Rightarrow> close_record_tx list \<Rightarrow> close_record \<Rightarrow> bool \<Rightarrow> nat \<Rightarrow> 'w \<Rightarrow> 'w pass" where
  \<comment> \<open>step (b)\<close>
  "note_heights ch [] facts changed budget w = (Inr (facts, changed), budget, w)"
| "note_heights ch (tx # rest) facts changed budget w =
     (if confirmed_at_height tx \<noteq> None then note_heights ch rest facts changed budget w
      else case with_budget budget (c_tx_confirmed_height ch (txid tx)) w of
        (Inl err, b', w') \<Rightarrow> (Inl err, b', w')
      | (Inr None, b', w') \<Rightarrow> note_heights ch rest facts changed b' w'
      | (Inr (Some h), b', w') \<Rightarrow>
          note_heights ch rest (facts\<lparr> txs := txs facts @ [tx\<lparr> confirmed_at_height := Some h \<rparr>] \<rparr>) True b' w')"

definition derive_timelock :: "close_record \<Rightarrow> close_record \<Rightarrow> bool \<Rightarrow> close_record \<times> bool" where
  \<comment> \<open>step (b2)\<close>
  "derive_timelock r facts changed =
     (if claimable_at_height r = None \<and> close_type r \<noteq> Coop \<and> cr_initiator r \<noteq> Remote then
        (case timelock_blocks r of
           None \<Rightarrow> (facts, changed)
         | Some timelock \<Rightarrow>
             (case find (\<lambda>tx. is_close (role tx) \<and> confirmed_at_height tx \<noteq> None) (txs facts @ txs r) of
                None \<Rightarrow> (facts, changed)
              | Some tx \<Rightarrow>
                  (case confirmed_at_height tx of
                     None \<Rightarrow> (facts, changed)
                   | Some h \<Rightarrow> (facts\<lparr> claimable_at_height := Some (h + timelock) \<rparr>, True))))
      else (facts, changed))"

definition deep_conf :: "u32 \<Rightarrow> u32 option \<Rightarrow> bool" where
  "deep_conf tip h = (case h of None \<Rightarrow> False | Some h \<Rightarrow> confirmations tip h \<ge> FINALITY_CONFS)"

definition close_tx_of :: "close_record \<Rightarrow> close_record_tx option" where
  "close_tx_of r = find (\<lambda>tx. is_close (role tx)) (txs r)"

definition close_height_of :: "close_record \<Rightarrow> u32 option" where
  "close_height_of r = Option.bind (close_tx_of r) confirmed_at_height"

definition is_receipt :: "(string \<Rightarrow> bool) \<Rightarrow> u32 \<Rightarrow> close_record_tx \<Rightarrow> bool" where
  "is_receipt wallet tip tx \<longleftrightarrow>
     role tx \<in> {Sweep, Closing, Commitment} \<and> deep_conf tip (confirmed_at_height tx) \<and> wallet (txid tx)"

definition completion_of :: "close_record \<Rightarrow> u64 \<Rightarrow> resolution \<Rightarrow> close_record" where
  "completion_of facts now_ms res = facts\<lparr> txs := [], completed_at_ms := Some now_ms, cr_resolution := Some res \<rparr>"

definition complete_record ::
  "'l close_env \<Rightarrow> (string \<Rightarrow> bool) \<Rightarrow> close_record \<Rightarrow> close_record \<Rightarrow> u32 \<Rightarrow> string set \<Rightarrow> u64
     \<Rightarrow> 'l close_store \<Rightarrow> 'l close_store"
where
  \<comment> \<open>step (c)\<close>
  "complete_record e wallet r facts tip pending now_ms s =
     (let current = (case get_record s (cr_channel_id r) of Some c \<Rightarrow> c | None \<Rightarrow> r) in
      if cr_channel_id current \<in> pending then s
      else
        let close_final = deep_conf tip (close_height_of current) in
        if list_ex (is_receipt wallet tip) (txs current) then upsert e (completion_of facts now_ms Verified) s
        else if (case claimable_at_height current of None \<Rightarrow> False | Some c \<Rightarrow> \<not> c \<le> tip) then s
        else if expected_amount_sats current = Some 0 \<and> close_final
        then upsert e (completion_of facts now_ms Verified) s
        else if close_final
          \<and> (close_type current = Coop
             \<or> (case claimable_at_height current of None \<Rightarrow> False | Some c \<Rightarrow> c + FINALITY_CONFS \<le> tip)
             \<or> (case close_height_of current of
                  None \<Rightarrow> False | Some h \<Rightarrow> h + MAX_TIMELOCK_BLOCKS + FINALITY_CONFS \<le> tip))
        then upsert e (completion_of facts now_ms UnverifiedRes) s
        else s)"

definition reconcile_one_record ::
  "'l close_env \<Rightarrow> 'w chain \<Rightarrow> (string \<Rightarrow> bool) \<Rightarrow> close_record \<Rightarrow> bool \<Rightarrow> u32 \<Rightarrow> string set \<Rightarrow> u64
     \<Rightarrow> nat \<Rightarrow> 'l close_store \<Rightarrow> 'w \<Rightarrow> (string + unit) \<times> nat \<times> 'l close_store \<times> 'w"
where
  "reconcile_one_record e ch wallet r tip_changed tip pending now_ms budget s w =
     (case discover_close ch r (skeleton (cr_channel_id r) (created_at_ms r)) budget w of
        (Inl err, b1, w1) \<Rightarrow> (Inl err, b1, s, w1)
      | (Inr (facts1, changed1), b1, w1) \<Rightarrow>
          (case (if tip_changed then note_heights ch (txs r) facts1 changed1 b1 w1
                 else (Inr (facts1, changed1), b1, w1)) of
             (Inl err, b2, w2) \<Rightarrow> (Inl err, b2, s, w2)
           | (Inr (facts2, changed2), b2, w2) \<Rightarrow>
               (case derive_timelock r facts2 changed2 of
                  (facts3, changed3) \<Rightarrow>
                    let s1 = (if changed3 then upsert e facts3 s else s) in
                    (Inr (), b2,
                     (if tip_changed then complete_record e wallet r facts3 tip pending now_ms s1 else s1),
                     w2))))"

fun reconcile_records ::
  "'l close_env \<Rightarrow> 'w chain \<Rightarrow> (string \<Rightarrow> bool) \<Rightarrow> bool \<Rightarrow> u32 \<Rightarrow> string set \<Rightarrow> u64
     \<Rightarrow> close_record list \<Rightarrow> nat \<Rightarrow> 'l close_store \<Rightarrow> 'w \<Rightarrow> nat \<times> 'l close_store \<times> 'w"
where
  "reconcile_records e ch wallet tip_changed tip pending now_ms [] budget s w = (budget, s, w)"
| "reconcile_records e ch wallet tip_changed tip pending now_ms (r # rs) budget s w =
     (case reconcile_one_record e ch wallet r tip_changed tip pending now_ms budget s w of
        (_, b', s', w') \<Rightarrow>
          if b' = 0 then (b', s', w')
          else reconcile_records e ch wallet tip_changed tip pending now_ms rs b' s' w')"

definition safety_net ::
  "'l close_env \<Rightarrow> string set \<Rightarrow> u64 \<Rightarrow> (string \<times> funding_txo_entry) list \<Rightarrow> 'l close_store \<Rightarrow> 'l close_store"
where
  "safety_net e open_ids now_ms funding_map s =
     fold (\<lambda>(cid, f) s.
       if cid \<in> open_ids then s
       else if get_record s cid \<noteq> None then remove_funding_txo e cid s
       else remove_funding_txo e cid
         (upsert e ((skeleton cid now_ms)\<lparr> funding_txo := Some \<lparr> op_txid = ft_txid f, op_vout = ft_vout f \<rparr>,
            closure_reason := Some OFFLINE_CLOSE_REASON, timelock_blocks := ft_timelock_blocks f \<rparr>) s))
       funding_map s"

definition pending_records :: "'l close_store \<Rightarrow> close_record list" where
  "pending_records s = filter (\<lambda>r. completed_at_ms r = None) (snapshot s)"

definition reconcile_close_records ::
  "'l close_env \<Rightarrow> 'w chain \<Rightarrow> (string \<Rightarrow> bool) \<Rightarrow> string set \<Rightarrow> string set \<Rightarrow> u64
     \<Rightarrow> 'l close_store \<Rightarrow> 'w \<Rightarrow> 'l close_store \<times> 'w"
where
  "reconcile_close_records e ch wallet open_ids pending now_ms s w =
     (let recs = pending_records s; funding_map = funding_txos s in
      if recs = [] \<and> funding_map = [] then (s, w)
      else case c_tip_height ch w of
        (Inl _, w1) \<Rightarrow> (s, w1)
      | (Inr tip, w1) \<Rightarrow>
          let tip_changed = (last_tip_height s \<noteq> Some tip);
              s1 = s\<lparr> last_tip_height := Some tip \<rparr>;
              undiscovered = list_ex (\<lambda>r. funding_txo r \<noteq> None \<and> \<not> has_confirmed_close_tx r) recs
          in if \<not> tip_changed \<and> \<not> undiscovered then (s1, w1)
             else
               let s2 = (if tip_changed \<and> funding_map \<noteq> [] then safety_net e open_ids now_ms funding_map s1 else s1)
               in (case reconcile_records e ch wallet tip_changed tip pending now_ms (pending_records s2)
                          MAX_QUERIES_PER_PASS s2 w1 of
                     (_, s3, w3) \<Rightarrow> (s3, w3)))"

end
