(* ===== verification/Sweep.thy ===== *)
theory Sweep
  imports Subsidy Close_Store
begin

text \<open>
  The sweep pipeline of \<open>src/rust/src/sweep.rs\<close>: the persisted store of spendable outputs, the tracking of
  LDK's \<open>SpendableOutputs\<close> events, and a sweep pass with its stages in the order of the source: decode
  and prune, all-or-nothing spend, removal of unsignable members, broadcast, subsidized fallback,
  commit. Signing and PSBT construction are LDK's and rust-bitcoin's (record \<open>spender\<close>), the wallet
  calls are BDK's behind \<open>OnchainWallet\<close> (record \<open>sweep_wallet\<close>), and the broadcast surface is the trait
  \<open>SweepBroadcast\<close> (record \<open>sweep_broadcast\<close>), whose production instance is \<open>chain_broadcast\<close>. The close-record
  store keeps its own part of the local disk. \<open>HashSet\<close>s whose order is never observed are sets;
  the set of contributing channels is a list without repetition.
\<close>

section \<open>Interfaces\<close>

record txout =
  to_value :: u64
  to_script :: script

datatype descriptor_view =
    StaticOutput txout "bytes option" \<comment> \<open>output, channel keys id\<close>
  | DelayedPaymentOutput txout u16 \<comment> \<open>output, to_self_delay\<close>
  | StaticPaymentOutput txout bool \<comment> \<open>output, \<open>needs_csv_1_for_spend()\<close>\<close>

record 'x psbt_input =
  pi_outpoint :: outpoint
  pi_sequence :: u32
  pi_witness_utxo :: "txout option"
  pi_rest :: "'x option" \<comment> \<open>the fields of \<open>psbt::Input\<close> LDK fills; \<open>None\<close> is \<open>Default::default()\<close>\<close>

record 'x psbt =
  ps_inputs :: "'x psbt_input list"
  ps_outputs :: "txout list"

record ('d, 'tx, 'x) spender =
  sp_encode :: "'d \<Rightarrow> bytes"
  sp_read :: "bytes \<Rightarrow> 'd option"
  sp_view :: "'d \<Rightarrow> descriptor_view"
  sp_outpoint :: "'d \<Rightarrow> string \<times> u16"
  sp_spend :: "'d list \<Rightarrow> script \<Rightarrow> u32 \<Rightarrow> 'tx option"
  sp_create_psbt :: "'d list \<Rightarrow> script \<Rightarrow> u32 \<Rightarrow> ('x psbt \<times> u64) option"
  sp_sign_psbt :: "'d list \<Rightarrow> 'x psbt \<Rightarrow> 'x psbt option"
  sp_probe_psbt :: "'d \<Rightarrow> u32 \<Rightarrow> u64 \<Rightarrow> script \<Rightarrow> 'x psbt option"
  sp_fee :: "'x psbt \<Rightarrow> string + u64"
  sp_extract_tx :: "'x psbt \<Rightarrow> 'tx option"
  sp_txid :: "'tx \<Rightarrow> string"
  sp_outputs :: "'tx \<Rightarrow> txout list"
  sp_weight :: "'tx \<Rightarrow> u64"

record ('w, 'tx, 'x) sweep_wallet =
  wl_is_mine :: "script \<Rightarrow> 'w \<Rightarrow> bool"
  wl_peek_external :: "u32 \<Rightarrow> 'w \<Rightarrow> script"
  wl_destination :: "u32 \<Rightarrow> 'w \<Rightarrow> (unit + script) \<times> 'w"
  wl_reveal_next :: "'w \<Rightarrow> (unit + script) \<times> 'w"
  wl_change_script :: "'w \<Rightarrow> (unit + script) \<times> 'w"
  wl_confirmed_utxos :: "'w \<Rightarrow> (outpoint \<times> txout) list"
  wl_sign_trusted :: "'x psbt \<Rightarrow> 'w \<Rightarrow> (string + bool) \<times> 'x psbt \<times> 'w"
  wl_apply_unconfirmed :: "'tx \<Rightarrow> u64 \<Rightarrow> 'w \<Rightarrow> 'w"

record ('n, 'tx) sweep_broadcast =
  sb_persist_pending :: "'tx \<Rightarrow> 'n \<Rightarrow> 'n"
  sb_broadcast :: "'tx \<Rightarrow> 'n \<Rightarrow> broadcast_outcome \<times> 'n"
  sb_tx_known :: "string \<Rightarrow> 'n \<Rightarrow> bool \<times> 'n"

definition chain_broadcast ::
  "('l, 'n, 'tx) broadcast_env \<Rightarrow> u64 \<Rightarrow> (string \<Rightarrow> 'n \<Rightarrow> (string + 'tx option) \<times> 'n)
     \<Rightarrow> (('l, 'n, 'tx) broadcaster, 'tx) sweep_broadcast"
where
  \<comment> \<open>\<open>impl SweepBroadcast for ChainSource\<close>; the third argument is \<open>transaction_by_txid\<close>\<close>
  "chain_broadcast e now fetch =
     \<lparr> sb_persist_pending = persist_pending_broadcast e now, sb_broadcast = broadcast_transaction e,
       sb_tx_known = (\<lambda>i s. case fetch i (bc_net s) of (r, n) \<Rightarrow> ((case r of Inr (Some _) \<Rightarrow> True | _ \<Rightarrow> False), s\<lparr> bc_net := n \<rparr>)) \<rparr>"

record ('l, 'c, 'd, 'w, 'n, 'tx, 'x) sweep_env =
  se_disk :: "'l disk"
  se_codec :: json_codec
  se_close :: "'c close_env"
  se_spender :: "('d, 'tx, 'x) spender"
  se_wallet :: "('w, 'tx, 'x) sweep_wallet"
  se_broadcast :: "('n, 'tx) sweep_broadcast"
  se_fees :: fee_estimator
  se_reserve :: u64
  se_now_ms :: u64
  se_now_secs :: u64

record sweep_flags =
  sf_last_attempt_failed :: bool
  sf_shortfall_sats :: "u64 option"

record ('l, 'c, 'w, 'n) sweep_world =
  sw_disk :: 'l
  sw_flags :: sweep_flags
  sw_close :: "'c close_store"
  sw_wallet :: 'w
  sw_net :: 'n
  sw_spent :: "outpoint set" \<comment> \<open>\<open>spent_subsidy_outpoints\<close>\<close>
  sw_in_progress :: bool
  sw_notified :: nat \<comment> \<open>\<open>SweepStateChanged\<close> events emitted\<close>

section \<open>The store\<close>

definition SPENDABLE_OUTPUTS_NS :: string where "SPENDABLE_OUTPUTS_NS = ''spendable_outputs''"

record stored_outpoint =
  so_txid :: string
  so_vout :: u32
  so_value_sats :: string

record stored_entry =
  en_descriptors :: "string list"
  en_channel_id_hex :: "string option"
  en_outpoints :: "stored_outpoint list"

definition outpoint_to_json :: "stored_outpoint \<Rightarrow> json" where
  "outpoint_to_json p = JObject [(''txid'', JString (so_txid p)), (''valueSats'', JString (so_value_sats p)),
     (''vout'', JNum (PosInt (ucast (so_vout p))))]"

definition entry_to_json :: "stored_entry \<Rightarrow> json" where
  "entry_to_json en = JObject
     [(''channelIdHex'', case en_channel_id_hex en of None \<Rightarrow> JNull | Some i \<Rightarrow> JString i),
      (''descriptors'', JArray (map JString (en_descriptors en))),
      (''outpoints'', JArray (map outpoint_to_json (en_outpoints en)))]"

lemma entry_json_wf [simp]: "json_wf (entry_to_json en)"
  by (auto simp: entry_to_json_def outpoint_to_json_def list_all_iff split: option.split)

fun all_some :: "'a option list \<Rightarrow> 'a list option" where
  "all_some [] = Some []"
| "all_some (None # xs) = None"
| "all_some (Some x # xs) = map_option (Cons x) (all_some xs)"

definition as_serde_u32 :: "json \<Rightarrow> u32 option" where
  "as_serde_u32 v = (case as_u64 v of Some n \<Rightarrow> if unat n < 2 ^ 32 then Some (ucast n) else None | None \<Rightarrow> None)"

definition make_outpoint :: "string option \<Rightarrow> u32 option \<Rightarrow> string option \<Rightarrow> stored_outpoint option" where
  "make_outpoint t v x =
     (case (t, v, x) of (Some t, Some v, Some x) \<Rightarrow> Some \<lparr> so_txid = t, so_vout = v, so_value_sats = x \<rparr> | _ \<Rightarrow> None)"

fun outpoint_of_json :: "json \<Rightarrow> stored_outpoint option" where
  "outpoint_of_json (JObject ob) = make_outpoint (fld ob ''txid'' as_str) (fld ob ''vout'' as_serde_u32) (fld ob ''valueSats'' as_str)"
| "outpoint_of_json (JArray [t, v, x]) = make_outpoint (as_str t) (as_serde_u32 v) (as_str x)"
| "outpoint_of_json _ = None"

definition make_entry :: "string list option \<Rightarrow> string option option \<Rightarrow> stored_outpoint list option \<Rightarrow> stored_entry option" where
  "make_entry d c p =
     (case (d, c, p) of (Some d, Some c, Some p) \<Rightarrow> Some \<lparr> en_descriptors = d, en_channel_id_hex = c, en_outpoints = p \<rparr> | _ \<Rightarrow> None)"

definition as_list :: "(json \<Rightarrow> 'a option) \<Rightarrow> json \<Rightarrow> 'a list option" where
  "as_list f v = Option.bind (as_array v) (\<lambda>xs. all_some (map f xs))"

definition as_option :: "(json \<Rightarrow> 'a option) \<Rightarrow> json \<Rightarrow> 'a option option" where
  "as_option f v = (if v = JNull then Some None else map_option Some (f v))"

fun entry_of_json :: "json \<Rightarrow> stored_entry option" where
  "entry_of_json (JObject ob) =
     make_entry (fld ob ''descriptors'' (as_list as_str)) (opt_fld ob ''channelIdHex'' as_str) (fld ob ''outpoints'' (as_list outpoint_of_json))"
| "entry_of_json (JArray [d, c, p]) = make_entry (as_list as_str d) (as_option as_str c) (as_list outpoint_of_json p)"
| "entry_of_json _ = None"

definition read_entry :: "('l, 'c, 'd, 'w, 'n, 'tx, 'x) sweep_env \<Rightarrow> 'l \<Rightarrow> string \<Rightarrow> stored_entry option" where
  "read_entry e l k =
     (case d_read (se_disk e) SPENDABLE_OUTPUTS_NS [] k l of
        Inl _ \<Rightarrow> None
      | Inr bs \<Rightarrow> Option.bind (from_slice (se_codec e) bs) entry_of_json)"

definition entries :: "('l, 'c, 'd, 'w, 'n, 'tx, 'x) sweep_env \<Rightarrow> 'l \<Rightarrow> (string \<times> stored_entry) list" where
  "entries e l =
     (case d_list (se_disk e) SPENDABLE_OUTPUTS_NS [] l of
        Inl _ \<Rightarrow> []
      | Inr ks \<Rightarrow> List.map_filter (\<lambda>k. map_option (Pair k) (read_entry e l k)) ks)"

definition write_entry ::
  "('l, 'c, 'd, 'w, 'n, 'tx, 'x) sweep_env \<Rightarrow> string \<Rightarrow> stored_entry \<Rightarrow> 'l \<Rightarrow> (io_error + unit) \<times> 'l"
where
  "write_entry e k en = d_write (se_disk e) SPENDABLE_OUTPUTS_NS [] k (to_vec (se_codec e) (entry_to_json en))"

definition remove_entries :: "('l, 'c, 'd, 'w, 'n, 'tx, 'x) sweep_env \<Rightarrow> string list \<Rightarrow> 'l \<Rightarrow> 'l" where
  "remove_entries e ks l = fold (\<lambda>k l. snd (d_remove (se_disk e) SPENDABLE_OUTPUTS_NS [] k False l)) ks l"

definition pending_channel_ids :: "('l, 'c, 'd, 'w, 'n, 'tx, 'x) sweep_env \<Rightarrow> 'l \<Rightarrow> string set" where
  "pending_channel_ids e l = set (List.map_filter (\<lambda>(_, en). en_channel_id_hex en) (entries e l))"

definition outpoint_key :: "string \<Rightarrow> nat \<Rightarrow> string" where
  "outpoint_key i n = i @ '':'' @ nat_to_string n"

abbreviation stored_key :: "stored_outpoint \<Rightarrow> string" where
  "stored_key p \<equiv> outpoint_key (so_txid p) (unat (so_vout p))"

record pending_sweep_info =
  ps_entry_count :: u32
  ps_descriptor_count :: u32
  ps_pending_sats :: u64
  ps_has_unknown_value :: bool
  ps_last_attempt_failed :: bool
  ps_needs_onchain_funds :: bool
  ps_shortfall_sats :: "u64 option"

fun count_outpoints :: "stored_outpoint list \<Rightarrow> string set \<Rightarrow> u64 \<Rightarrow> bool \<Rightarrow> string set \<times> u64 \<times> bool" where
  "count_outpoints [] seen sats unknown = (seen, sats, unknown)"
| "count_outpoints (p # ps) seen sats unknown =
     (if stored_key p \<in> seen then count_outpoints ps seen sats unknown
      else case parse_u64 (so_value_sats p) of
        Some v \<Rightarrow> count_outpoints ps (insert (stored_key p) seen) (sats + v) unknown
      | None \<Rightarrow> count_outpoints ps (insert (stored_key p) seen) sats True)"

fun count_entries :: "stored_entry list \<Rightarrow> string set \<Rightarrow> u64 \<Rightarrow> bool \<Rightarrow> u64 \<times> bool" where
  "count_entries [] seen sats unknown = (sats, unknown)"
| "count_entries (en # ens) seen sats unknown =
     (case count_outpoints (en_outpoints en) seen sats (unknown \<or> en_outpoints en = []) of
        (seen', sats', unknown') \<Rightarrow> count_entries ens seen' sats' unknown')"

definition pending_info :: "('l, 'c, 'd, 'w, 'n, 'tx, 'x) sweep_env \<Rightarrow> sweep_flags \<Rightarrow> 'l \<Rightarrow> pending_sweep_info option" where
  "pending_info e flags l =
     (let ens = entries e l in
      if ens = [] then None
      else case count_entries (map snd ens) {} 0 False of
        (sats, unknown) \<Rightarrow>
          Some \<lparr> ps_entry_count = of_nat (length ens), ps_descriptor_count = of_nat (card (\<Union>(_, en) \<in> set ens. set (en_descriptors en))),
                 ps_pending_sats = sats, ps_has_unknown_value = unknown, ps_last_attempt_failed = sf_last_attempt_failed flags,
                 ps_needs_onchain_funds = (sf_shortfall_sats flags \<noteq> None), ps_shortfall_sats = sf_shortfall_sats flags \<rparr>)"

definition needs_onchain_funds :: "sweep_flags \<Rightarrow> bool" where
  "needs_onchain_funds flags \<longleftrightarrow> sf_shortfall_sats flags \<noteq> None"

definition sweep_reset :: "('l, 'c, 'w, 'n) sweep_world \<Rightarrow> ('l, 'c, 'w, 'n) sweep_world" where
  "sweep_reset s = s\<lparr> sw_flags := \<lparr> sf_last_attempt_failed = False, sf_shortfall_sats = None \<rparr> \<rparr>"

definition set_flags :: "bool \<Rightarrow> u64 option \<Rightarrow> sweep_flags \<Rightarrow> bool \<times> sweep_flags" where
  "set_flags failed shortfall flags =
     (let next = \<lparr> sf_last_attempt_failed = failed, sf_shortfall_sats = shortfall \<rparr> in (flags \<noteq> next, next))"

section \<open>Descriptors\<close>

fun view_output :: "descriptor_view \<Rightarrow> txout" where
  "view_output (StaticOutput t _) = t"
| "view_output (DelayedPaymentOutput t _) = t"
| "view_output (StaticPaymentOutput t _) = t"

definition descriptor_value_sats :: "('d, 'tx, 'x) spender \<Rightarrow> 'd \<Rightarrow> u64" where
  "descriptor_value_sats sp d = to_value (view_output (sp_view sp d))"

fun descriptor_probe_sequence :: "descriptor_view \<Rightarrow> u32" where
  "descriptor_probe_sequence (StaticOutput _ _) = 0"
| "descriptor_probe_sequence (DelayedPaymentOutput _ delay) = ucast delay"
| "descriptor_probe_sequence (StaticPaymentOutput _ csv) = (if csv then 1 else 0)"

fun radix16_digit :: "char \<Rightarrow> nat option" where
  \<comment> \<open>\<open>char::to_digit(16)\<close>\<close>
  "radix16_digit c =
     (let n = of_char c :: nat in
      if 48 \<le> n \<and> n \<le> 57 then Some (n - 48)
      else if 97 \<le> n \<and> n \<le> 102 then Some (n - 87)
      else if 65 \<le> n \<and> n \<le> 70 then Some (n - 55)
      else None)"

fun radix16_u8 :: "char \<Rightarrow> char \<Rightarrow> u8 option" where
  \<comment> \<open>\<open>u8::from_str_radix(_, 16)\<close> of two characters, the first of which may be a plus sign\<close>
  "radix16_u8 a b =
     (if a = CHR ''+'' then map_option of_nat (radix16_digit b)
      else case (radix16_digit a, radix16_digit b) of (Some x, Some y) \<Rightarrow> Some (of_nat (16 * x + y)) | _ \<Rightarrow> None)"

fun decode_hex :: "string \<Rightarrow> bytes option" where
  \<comment> \<open>on ASCII text; the slices of the source would panic inside a multi-byte character\<close>
  "decode_hex [] = Some []"
| "decode_hex [a] = None"
| "decode_hex (a # b # s) = (case (radix16_u8 a b, decode_hex s) of (Some x, Some xs) \<Rightarrow> Some (x # xs) | _ \<Rightarrow> None)"

definition new_entry_key :: "bytes \<Rightarrow> string" where
  "new_entry_key r = hex_str (take 4 r) @ ''-'' @ hex_str (take 2 (drop 4 r)) @ ''-'' @ hex_str (take 2 (drop 6 r))
     @ ''-'' @ hex_str (take 2 (drop 8 r)) @ ''-'' @ hex_str (take 6 (drop 10 r))"

section \<open>Tracking\<close>

definition DESTINATION_INDEX_SPACE :: u32 where "DESTINATION_INDEX_SPACE = 10000"

definition from_be_bytes_u32 :: "bytes \<Rightarrow> u32" where
  "from_be_bytes_u32 bs = of_nat (foldl (\<lambda>acc b. acc * 256 + unat b) 0 bs)"

definition destination_index :: "bytes \<Rightarrow> u32" where
  "destination_index channel_keys_id = from_be_bytes_u32 (take 4 channel_keys_id) mod DESTINATION_INDEX_SPACE"

definition is_wallet_owned_static_output ::
  "('d, 'tx, 'x) spender \<Rightarrow> ('w, 'tx, 'x) sweep_wallet \<Rightarrow> 'd \<Rightarrow> 'w \<Rightarrow> bool \<times> 'w"
where
  "is_wallet_owned_static_output sp wl d w =
     (case sp_view sp d of
        StaticOutput t keys_id \<Rightarrow>
          if wl_is_mine wl (to_script t) w then (True, w)
          else (case keys_id of
            Some i \<Rightarrow>
              if list_ex (\<lambda>b. b \<noteq> 0) i \<and> wl_peek_external wl (destination_index i) w = to_script t
              then (True, snd (wl_destination wl (destination_index i) w))
              else (False, w)
          | None \<Rightarrow> (False, w))
      | _ \<Rightarrow> (False, w))"

abbreviation descriptor_key :: "('d, 'tx, 'x) spender \<Rightarrow> 'd \<Rightarrow> string" where
  "descriptor_key sp d \<equiv> outpoint_key (fst (sp_outpoint sp d)) (unat (snd (sp_outpoint sp d)))"

fun collect_outputs ::
  "('d, 'tx, 'x) spender \<Rightarrow> ('w, 'tx, 'x) sweep_wallet \<Rightarrow> 'd list \<Rightarrow> string set \<Rightarrow> string set \<Rightarrow> 'w
     \<Rightarrow> string list \<times> stored_outpoint list \<times> 'w"
where
  "collect_outputs sp wl [] hexes keys w = ([], [], w)"
| "collect_outputs sp wl (d # ds) hexes keys w =
     (case is_wallet_owned_static_output sp wl d w of
        (True, w1) \<Rightarrow> collect_outputs sp wl ds hexes keys w1
      | (False, w1) \<Rightarrow>
          let hex = hex_str (sp_encode sp d); k = descriptor_key sp d in
          if hex \<in> hexes \<or> k \<in> keys then collect_outputs sp wl ds hexes keys w1
          else (case collect_outputs sp wl ds (insert hex hexes) (insert k keys) w1 of
            (hs, ps, w2) \<Rightarrow>
              (hex # hs,
               \<lparr> so_txid = fst (sp_outpoint sp d), so_vout = ucast (snd (sp_outpoint sp d)),
                 so_value_sats = u64_to_string (descriptor_value_sats sp d) \<rparr> # ps, w2)))"

definition track_spendable_outputs ::
  "('l, 'c, 'd, 'w, 'n, 'tx, 'x) sweep_env \<Rightarrow> bytes \<Rightarrow> 'd list \<Rightarrow> string option \<Rightarrow> ('l, 'c, 'w, 'n) sweep_world
     \<Rightarrow> (io_error + nat) \<times> ('l, 'c, 'w, 'n) sweep_world"
where
  \<comment> \<open>the second argument is the entropy of the new entry's key\<close>
  "track_spendable_outputs e random outputs channel_id_hex s =
     (let ens = map snd (entries e (sw_disk s));
          hexes = (\<Union>en \<in> set ens. set (en_descriptors en));
          keys = (\<Union>en \<in> set ens. stored_key ` set (en_outpoints en)) in
      case collect_outputs (se_spender e) (se_wallet e) outputs hexes keys (sw_wallet s) of
        (hs, ps, w) \<Rightarrow>
          let s1 = s\<lparr> sw_wallet := w \<rparr> in
          if hs = [] then (Inr 0, s1)
          else (case write_entry e (new_entry_key random)
                       \<lparr> en_descriptors = hs, en_channel_id_hex = channel_id_hex, en_outpoints = ps \<rparr> (sw_disk s1) of
            (Inl err, l) \<Rightarrow> (Inl err, s1\<lparr> sw_disk := l \<rparr>)
          | (Inr _, l) \<Rightarrow> (Inr (length hs), s1\<lparr> sw_disk := l \<rparr>)))"

section \<open>Stage 1: decode and prune\<close>

record 'd batch_member =
  bm_bytes :: bytes
  bm_descriptor :: 'd
  bm_entry_key :: string

record 'd scan =
  sc_kept :: "string list"
  sc_members :: "(bytes \<times> 'd) list"
  sc_pruned_keys :: "string set"
  sc_pruned :: nat
  sc_seen :: "string set"
  sc_valid :: bool

fun scan_entry ::
  "('d, 'tx, 'x) spender \<Rightarrow> ('w, 'tx, 'x) sweep_wallet \<Rightarrow> string list \<Rightarrow> 'd scan \<Rightarrow> 'w \<Rightarrow> 'd scan \<times> 'w"
where
  "scan_entry sp wl [] a w = (a, w)"
| "scan_entry sp wl (hex # hs) a w =
     (if hex \<in> sc_seen a then scan_entry sp wl hs (a\<lparr> sc_pruned := Suc (sc_pruned a) \<rparr>) w
      else case Option.bind (decode_hex hex) (\<lambda>bs. map_option (Pair bs) (sp_read sp bs)) of
        None \<Rightarrow> (a\<lparr> sc_valid := False \<rparr>, w)
      | Some (bs, d) \<Rightarrow>
          let a1 = a\<lparr> sc_seen := insert hex (sc_seen a) \<rparr> in
          (case is_wallet_owned_static_output sp wl d w of
             (True, w1) \<Rightarrow>
               scan_entry sp wl hs (a1\<lparr> sc_pruned_keys := insert (descriptor_key sp d) (sc_pruned_keys a1), sc_pruned := Suc (sc_pruned a1) \<rparr>) w1
           | (False, w1) \<Rightarrow>
               scan_entry sp wl hs (a1\<lparr> sc_kept := sc_kept a1 @ [hex], sc_members := sc_members a1 @ [(bs, d)] \<rparr>) w1))"

record 'd gathered =
  ga_batch :: "'d batch_member list"
  ga_channels :: "string list"
  ga_keys :: "string list"
  ga_emptied :: "string list"
  ga_seen :: "string set"
  ga_skipped :: nat

definition gathered_new :: "'d gathered" where
  "gathered_new = \<lparr> ga_batch = [], ga_channels = [], ga_keys = [], ga_emptied = [], ga_seen = {}, ga_skipped = 0 \<rparr>"

definition gather_entry ::
  "('l, 'c, 'd, 'w, 'n, 'tx, 'x) sweep_env \<Rightarrow> string \<Rightarrow> stored_entry \<Rightarrow> 'd gathered \<Rightarrow> 'l \<Rightarrow> 'w \<Rightarrow> 'd gathered \<times> 'l \<times> 'w"
where
  "gather_entry e k en g l w =
     (case scan_entry (se_spender e) (se_wallet e) (en_descriptors en)
             \<lparr> sc_kept = [], sc_members = [], sc_pruned_keys = {}, sc_pruned = 0, sc_seen = ga_seen g, sc_valid = True \<rparr> w of
        (a, w1) \<Rightarrow>
          let g1 = g\<lparr> ga_seen := sc_seen a \<rparr> in
          if \<not> sc_valid a then (g1\<lparr> ga_skipped := ga_skipped g1 + length (en_descriptors en) \<rparr>, l, w1)
          else if sc_members a = [] then (g1\<lparr> ga_emptied := ga_emptied g1 @ [k] \<rparr>, l, w1)
          else
            let l1 = (if sc_pruned a > 0
                      then snd (write_entry e k \<lparr> en_descriptors = sc_kept a, en_channel_id_hex = en_channel_id_hex en,
                             en_outpoints = filter (\<lambda>p. stored_key p \<notin> sc_pruned_keys a) (en_outpoints en) \<rparr> l)
                      else l);
                ch = (case en_channel_id_hex en of Some i \<Rightarrow> List.insert i (ga_channels g1) | None \<Rightarrow> ga_channels g1)
            in (g1\<lparr> ga_channels := ch, ga_keys := ga_keys g1 @ [k],
                    ga_batch := ga_batch g1 @ map (\<lambda>(bs, d). \<lparr> bm_bytes = bs, bm_descriptor = d, bm_entry_key = k \<rparr>) (sc_members a) \<rparr>, l1, w1))"

fun gather ::
  "('l, 'c, 'd, 'w, 'n, 'tx, 'x) sweep_env \<Rightarrow> (string \<times> stored_entry) list \<Rightarrow> 'd gathered \<Rightarrow> 'l \<Rightarrow> 'w \<Rightarrow> 'd gathered \<times> 'l \<times> 'w"
where
  "gather e [] g l w = (g, l, w)"
| "gather e ((k, en) # ens) g l w = (case gather_entry e k en g l w of (g1, l1, w1) \<Rightarrow> gather e ens g1 l1 w1)"

section \<open>Stages 2 and 3: rate, spend, removal of unsignable members\<close>

definition MIN_SWEEP_RATE_SAT_PER_VB :: u64 where "MIN_SWEEP_RATE_SAT_PER_VB = 2"
definition MAX_SWEEP_RATE_SAT_PER_VB :: u64 where "MAX_SWEEP_RATE_SAT_PER_VB = 500"
definition FLOOR_FEERATE_SAT_PER_KW :: u32 where "FLOOR_FEERATE_SAT_PER_KW = 250"
definition RBF_SEQUENCE :: u32 where "RBF_SEQUENCE = 0xFFFFFFFD"

definition sweep_rate_sat_per_vb :: "fee_estimator \<Rightarrow> u64" where
  "sweep_rate_sat_per_vb f = max MIN_SWEEP_RATE_SAT_PER_VB (min (onchain_send_rate_sat_per_vb f) MAX_SWEEP_RATE_SAT_PER_VB)"

definition spend_batch :: "('d, 'tx, 'x) spender \<Rightarrow> 'd batch_member list \<Rightarrow> script \<Rightarrow> u32 \<Rightarrow> 'tx option" where
  "spend_batch sp batch destination rate = sp_spend sp (map bm_descriptor batch) destination rate"

definition descriptor_is_unsignable :: "('d, 'tx, 'x) spender \<Rightarrow> script \<Rightarrow> 'd \<Rightarrow> bool" where
  "descriptor_is_unsignable sp probe d =
     (case sp_probe_psbt sp d (descriptor_probe_sequence (sp_view sp d)) (descriptor_value_sats sp d) probe of
        None \<Rightarrow> False
      | Some psbt \<Rightarrow> sp_sign_psbt sp [d] psbt = None)"

fun rewrite_members ::
  "('l, 'c, 'd, 'w, 'n, 'tx, 'x) sweep_env \<Rightarrow> string set \<Rightarrow> string set \<Rightarrow> string set \<Rightarrow> (string \<times> stored_entry) list
     \<Rightarrow> string list \<Rightarrow> 'l \<Rightarrow> string list \<times> 'l"
where
  "rewrite_members e hexes keys affected [] emptied l = (emptied, l)"
| "rewrite_members e hexes keys affected ((k, en) # ens) emptied l =
     (if k \<notin> affected then rewrite_members e hexes keys affected ens emptied l
      else let ds = filter (\<lambda>h. h \<notin> hexes) (en_descriptors en) in
        if ds = [] then rewrite_members e hexes keys affected ens (emptied @ [k]) l
        else rewrite_members e hexes keys affected ens emptied
               (snd (write_entry e k \<lparr> en_descriptors = ds, en_channel_id_hex = en_channel_id_hex en,
                       en_outpoints = filter (\<lambda>p. stored_key p \<notin> keys) (en_outpoints en) \<rparr> l)))"

definition remove_members ::
  "('l, 'c, 'd, 'w, 'n, 'tx, 'x) sweep_env \<Rightarrow> ('d batch_member \<Rightarrow> bool) \<Rightarrow> 'd batch_member list \<Rightarrow> 'l \<Rightarrow> 'd batch_member list \<times> 'l"
where
  \<comment> \<open>the poisoned members are given by the predicate that selected their indexes\<close>
  "remove_members e poisoned batch l =
     (let bad = filter poisoned batch;
          hexes = (\<lambda>m. hex_str (bm_bytes m)) ` set bad;
          keys = (\<lambda>m. descriptor_key (se_spender e) (bm_descriptor m)) ` set bad;
          affected = bm_entry_key ` set bad in
      case rewrite_members e hexes keys affected (entries e l) [] l of
        (emptied, l1) \<Rightarrow> (filter (\<lambda>m. \<not> poisoned m) batch, remove_entries e emptied l1))"

section \<open>The subsidized fallback\<close>

datatype subsidized_outcome =
    SubBroadcast string u64 \<comment> \<open>txid, subsidy\<close>
  | SubShortfall u64 u64 u64
  | SubNotEconomical u64 u64
  | SubFailed string

definition is_p2wpkh :: "script \<Rightarrow> bool" where
  "is_p2wpkh s \<longleftrightarrow> length s = 22 \<and> take 2 s = [0x00, 0x14]"

definition confirmed_p2wpkh_candidates :: "(outpoint \<times> txout) list \<Rightarrow> outpoint set \<Rightarrow> subsidy_input list" where
  "confirmed_p2wpkh_candidates utxos reserved =
     rev (sort_key si_value_sats (rev
       (map (\<lambda>(p, t). \<lparr> si_outpoint = p, si_value_sats = to_value t, si_script_pubkey = to_script t \<rparr>)
         (filter (\<lambda>(p, t). p \<notin> reserved \<and> is_p2wpkh (to_script t)) utxos))))"

definition sum_outputs :: "txout list \<Rightarrow> u64" where
  "sum_outputs outs = sum_list (map to_value outs)"

definition append_subsidy :: "subsidy_input list \<Rightarrow> txout option \<Rightarrow> 'x psbt \<Rightarrow> 'x psbt" where
  "append_subsidy selected change p =
     p\<lparr> ps_inputs := ps_inputs p @ map (\<lambda>i. \<lparr> pi_outpoint = si_outpoint i, pi_sequence = RBF_SEQUENCE,
           pi_witness_utxo = Some \<lparr> to_value = si_value_sats i, to_script = si_script_pubkey i \<rparr>, pi_rest = None \<rparr>) selected,
        ps_outputs := ps_outputs p @ (case change of Some t \<Rightarrow> [t] | None \<Rightarrow> []) \<rparr>"

definition minimum_subsidy :: "u64 \<Rightarrow> u64 \<Rightarrow> u64 \<Rightarrow> u64" where
  "minimum_subsidy ldk_weight ldk_fee rate =
     saturating_sub (fee_for_weight (ldk_weight + SUBSIDY_INPUT_WEIGHT_WU + CHANGE_OUTPUT_WEIGHT_WU) rate) ldk_fee"

definition plan_subsidy ::
  "('l, 'c, 'd, 'w, 'n, 'tx, 'x) sweep_env \<Rightarrow> 'd list \<Rightarrow> script \<Rightarrow> u64 \<Rightarrow> ('l, 'c, 'w, 'n) sweep_world
     \<Rightarrow> subsidized_outcome + 'x psbt \<times> u64 \<times> subsidy_selection"
where
  \<comment> \<open>up to the selection: LDK's PSBT at the floor rate, the dust and net-positive gates, the coins\<close>
  "plan_subsidy e ds destination rate s =
     (case sp_create_psbt (se_spender e) ds destination FLOOR_FEERATE_SAT_PER_KW of
        None \<Rightarrow> Inl (SubFailed ''ldk-create-psbt'')
      | Some (psbt, lw) \<Rightarrow>
          if list_ex (\<lambda>t. to_value t < DUST_LIMIT_SATS) (ps_outputs psbt) then Inl (SubFailed ''sub-dust-output'')
          else
            let ldk_in = sum_outputs (List.map_filter pi_witness_utxo (ps_inputs psbt)); ldk_out = sum_outputs (ps_outputs psbt) in
            if ldk_in < ldk_out then Inl (SubFailed ''negative-ldk-fee'')
            else
              let lf = ldk_in - ldk_out; minimum = minimum_subsidy lw lf rate in
              if minimum = 0 then Inl (SubFailed ''no-subsidy-needed'')
              else if minimum \<ge> ldk_out then Inl (SubNotEconomical minimum ldk_in)
              else
                let candidates = confirmed_p2wpkh_candidates (wl_confirmed_utxos (se_wallet e) (sw_wallet s)) (sw_spent s) in
                (case select_subsidy_inputs candidates lw lf rate (se_reserve e) of
                   SelectionShortfall needed available \<Rightarrow> Inl (SubShortfall needed available (max (saturating_sub needed available) 1))
                 | Selected sel \<Rightarrow>
                     if ss_subsidy_sats sel \<ge> ldk_out then Inl (SubNotEconomical (ss_subsidy_sats sel) ldk_in)
                     else Inr (psbt, lw, sel)))"

definition change_output ::
  "('w, 'tx, 'x) sweep_wallet \<Rightarrow> u64 option \<Rightarrow> 'w \<Rightarrow> (string + txout option) \<times> 'w"
where
  "change_output wl change w =
     (case change of
        None \<Rightarrow> (Inr None, w)
      | Some sats \<Rightarrow>
          (case wl_change_script wl w of
             (Inl _, w1) \<Rightarrow> (Inl ''change-script'', w1)
           | (Inr script, w1) \<Rightarrow>
               if length script \<noteq> 22 then (Inl ''unexpected-change-script'', w1)
               else (Inr (Some \<lparr> to_value = sats, to_script = script \<rparr>), w1)))"

definition estimated_weight :: "u64 \<Rightarrow> subsidy_selection \<Rightarrow> u64" where
  "estimated_weight lw sel = lw + of_nat (length (ss_selected sel)) * SUBSIDY_INPUT_WEIGHT_WU
     + (if ss_change_sats sel \<noteq> None then CHANGE_OUTPUT_WEIGHT_WU else 0)"

definition sign_subsidy ::
  "('l, 'c, 'd, 'w, 'n, 'tx, 'x) sweep_env \<Rightarrow> 'd list \<Rightarrow> u64 \<Rightarrow> subsidy_selection \<Rightarrow> 'x psbt \<Rightarrow> 'w \<Rightarrow> (string + 'tx) \<times> 'w"
where
  \<comment> \<open>fee verification, fee sanity, both signatures, verification after signing, extraction\<close>
  "sign_subsidy e ds lw sel psbt w =
     (case sp_fee (se_spender e) psbt of
        Inl err \<Rightarrow> (Inl (''fee-unreadable: '' @ err), w)
      | Inr fee \<Rightarrow>
          if fee \<noteq> ss_total_fee_sats sel then (Inl ''fee-mismatch'', w)
          else case check_fee_sanity (ss_total_fee_sats sel) (estimated_weight lw sel) (fee_sanity_max_sat_per_kw (se_fees e)) of
            Inl err \<Rightarrow> (Inl (fee_sanity_display u64_to_string err), w)
          | Inr _ \<Rightarrow>
              (case sp_sign_psbt (se_spender e) ds psbt of
                 None \<Rightarrow> (Inl ''ldk-sign'', w)
               | Some psbt1 \<Rightarrow>
                   (case wl_sign_trusted (se_wallet e) psbt1 w of
                      (Inl err, psbt2, w1) \<Rightarrow> (Inl (''bdk-sign: '' @ err), w1)
                    | (Inr finalized, psbt2, w1) \<Rightarrow>
                        if \<not> finalized then (Inl ''bdk-sign-incomplete'', w1)
                        else if sp_fee (se_spender e) psbt2 \<noteq> Inr (ss_total_fee_sats sel) then (Inl ''post-sign-fee-mismatch'', w1)
                        else (case sp_extract_tx (se_spender e) psbt2 of
                                None \<Rightarrow> (Inl ''extract-tx'', w1)
                              | Some tx \<Rightarrow> (Inr tx, w1)))))"

definition mark_subsidy_inputs_spent ::
  "('l, 'c, 'd, 'w, 'n, 'tx, 'x) sweep_env \<Rightarrow> 'tx \<Rightarrow> subsidy_input list \<Rightarrow> ('l, 'c, 'w, 'n) sweep_world \<Rightarrow> ('l, 'c, 'w, 'n) sweep_world"
where
  "mark_subsidy_inputs_spent e tx selected s =
     s\<lparr> sw_spent := sw_spent s \<union> si_outpoint ` set selected,
        sw_wallet := wl_apply_unconfirmed (se_wallet e) tx (se_now_secs e) (sw_wallet s) \<rparr>"

definition broadcast_subsidized ::
  "('l, 'c, 'd, 'w, 'n, 'tx, 'x) sweep_env \<Rightarrow> subsidy_selection \<Rightarrow> 'tx \<Rightarrow> ('l, 'c, 'w, 'n) sweep_world
     \<Rightarrow> subsidized_outcome \<times> ('l, 'c, 'w, 'n) sweep_world"
where
  "broadcast_subsidized e sel tx s =
     (let b = se_broadcast e; i = sp_txid (se_spender e) tx;
          ok = (\<lambda>s. (SubBroadcast i (ss_subsidy_sats sel), mark_subsidy_inputs_spent e tx (ss_selected sel) s)) in
      case sb_broadcast b tx (sb_persist_pending b tx (sw_net s)) of
        (Accepted, n) \<Rightarrow> ok (s\<lparr> sw_net := n \<rparr>)
      | (AlreadyKnown, n) \<Rightarrow>
          (case sb_tx_known b i n of
             (True, n1) \<Rightarrow> ok (s\<lparr> sw_net := n1 \<rparr>)
           | (False, n1) \<Rightarrow> (SubFailed ''broadcast-ambiguous'', s\<lparr> sw_net := n1 \<rparr>))
      | (BroadcastFailed err, n) \<Rightarrow> (SubFailed (''broadcast: '' @ err), s\<lparr> sw_net := n \<rparr>))"

definition attempt_subsidized ::
  "('l, 'c, 'd, 'w, 'n, 'tx, 'x) sweep_env \<Rightarrow> 'd batch_member list \<Rightarrow> script \<Rightarrow> u64 \<Rightarrow> ('l, 'c, 'w, 'n) sweep_world
     \<Rightarrow> subsidized_outcome \<times> ('l, 'c, 'w, 'n) sweep_world"
where
  "attempt_subsidized e batch destination rate s =
     (let ds = map bm_descriptor batch in
      case plan_subsidy e ds destination rate s of
        Inl outcome \<Rightarrow> (outcome, s)
      | Inr (psbt, lw, sel) \<Rightarrow>
          (case change_output (se_wallet e) (ss_change_sats sel) (sw_wallet s) of
             (Inl reason, w1) \<Rightarrow> (SubFailed reason, s\<lparr> sw_wallet := w1 \<rparr>)
           | (Inr change, w1) \<Rightarrow>
               (case sign_subsidy e ds lw sel (append_subsidy (ss_selected sel) change psbt) w1 of
                  (Inl reason, w2) \<Rightarrow> (SubFailed reason, s\<lparr> sw_wallet := w2 \<rparr>)
                | (Inr tx, w2) \<Rightarrow> broadcast_subsidized e sel tx (s\<lparr> sw_wallet := w2 \<rparr>))))"

section \<open>A sweep pass\<close>

record sweep_summary =
  sm_swept :: nat
  sm_skipped :: nat
  sm_txid :: "string option"

definition summary_default :: sweep_summary where
  "summary_default = \<lparr> sm_swept = 0, sm_skipped = 0, sm_txid = None \<rparr>"

definition commit_swept ::
  "('l, 'c, 'd, 'w, 'n, 'tx, 'x) sweep_env \<Rightarrow> string list \<Rightarrow> string \<Rightarrow> string list \<Rightarrow> ('l, 'c, 'w, 'n) sweep_world \<Rightarrow> ('l, 'c, 'w, 'n) sweep_world"
where
  "commit_swept e keys i channels s =
     s\<lparr> sw_disk := remove_entries e keys (sw_disk s),
        sw_close := (if channels = [] then sw_close s else record_sweep_tx (se_close e) i channels (se_now_ms e) (sw_close s)) \<rparr>"

definition finish_attempt :: "bool \<Rightarrow> u64 option \<Rightarrow> ('l, 'c, 'w, 'n) sweep_world \<Rightarrow> ('l, 'c, 'w, 'n) sweep_world" where
  "finish_attempt failed shortfall s =
     s\<lparr> sw_flags := snd (set_flags failed shortfall (sw_flags s)), sw_notified := Suc (sw_notified s) \<rparr>"

definition plain_sweep ::
  "('l, 'c, 'd, 'w, 'n, 'tx, 'x) sweep_env \<Rightarrow> 'd gathered \<Rightarrow> 'd batch_member list \<Rightarrow> 'tx \<Rightarrow> ('l, 'c, 'w, 'n) sweep_world
     \<Rightarrow> sweep_summary \<times> ('l, 'c, 'w, 'n) sweep_world"
where
  "plain_sweep e g batch tx s =
     (let input = sum_list (map (\<lambda>m. descriptor_value_sats (se_spender e) (bm_descriptor m)) batch);
          fee = saturating_sub input (sum_outputs (sp_outputs (se_spender e) tx));
          failed = \<lparr> sm_swept = 0, sm_skipped = ga_skipped g + length batch, sm_txid = None \<rparr> in
      case check_fee_sanity fee (sp_weight (se_spender e) tx) (fee_sanity_max_sat_per_kw (se_fees e)) of
        Inl _ \<Rightarrow> (failed, finish_attempt True None s)
      | Inr _ \<Rightarrow>
          (case sb_broadcast (se_broadcast e) tx (sb_persist_pending (se_broadcast e) tx (sw_net s)) of
             (BroadcastFailed _, n) \<Rightarrow> (failed, finish_attempt True None (s\<lparr> sw_net := n \<rparr>))
           | (_, n) \<Rightarrow>
               (\<lparr> sm_swept = length batch, sm_skipped = ga_skipped g, sm_txid = Some (sp_txid (se_spender e) tx) \<rparr>,
                finish_attempt (ga_skipped g > 0) None
                  (commit_swept e (ga_keys g) (sp_txid (se_spender e) tx) (ga_channels g) (s\<lparr> sw_net := n \<rparr>)))))"

definition subsidized_sweep ::
  "('l, 'c, 'd, 'w, 'n, 'tx, 'x) sweep_env \<Rightarrow> 'd gathered \<Rightarrow> 'd batch_member list \<Rightarrow> script \<Rightarrow> u64 \<Rightarrow> ('l, 'c, 'w, 'n) sweep_world
     \<Rightarrow> sweep_summary \<times> ('l, 'c, 'w, 'n) sweep_world"
where
  "subsidized_sweep e g batch destination rate s =
     (let failed = \<lparr> sm_swept = 0, sm_skipped = ga_skipped g + length batch, sm_txid = None \<rparr> in
      case attempt_subsidized e batch destination rate s of
        (SubBroadcast i _, s1) \<Rightarrow>
          (\<lparr> sm_swept = length batch, sm_skipped = ga_skipped g, sm_txid = Some i \<rparr>,
           finish_attempt (ga_skipped g > 0) None (commit_swept e (ga_keys g) i (ga_channels g) s1))
      | (SubShortfall _ _ shortfall, s1) \<Rightarrow> (failed, finish_attempt True (Some shortfall) s1)
      | (SubNotEconomical _ _, s1) \<Rightarrow> (failed, finish_attempt True None s1)
      | (SubFailed _, s1) \<Rightarrow> (failed, finish_attempt True None s1))"

definition conclude ::
  "('l, 'c, 'd, 'w, 'n, 'tx, 'x) sweep_env \<Rightarrow> 'd gathered \<Rightarrow> 'd batch_member list \<Rightarrow> script \<Rightarrow> 'tx option \<Rightarrow> ('l, 'c, 'w, 'n) sweep_world
     \<Rightarrow> sweep_summary \<times> ('l, 'c, 'w, 'n) sweep_world"
where
  \<comment> \<open>a transaction without outputs counts as a failed spend\<close>
  "conclude e g batch destination spent s =
     (case spent of
        Some tx \<Rightarrow> if sp_outputs (se_spender e) tx = [] then subsidized_sweep e g batch destination (sweep_rate_sat_per_vb (se_fees e)) s
                   else plain_sweep e g batch tx s
      | None \<Rightarrow> subsidized_sweep e g batch destination (sweep_rate_sat_per_vb (se_fees e)) s)"

definition spend_and_conclude ::
  "('l, 'c, 'd, 'w, 'n, 'tx, 'x) sweep_env \<Rightarrow> 'd gathered \<Rightarrow> script \<Rightarrow> ('l, 'c, 'w, 'n) sweep_world
     \<Rightarrow> sweep_summary \<times> ('l, 'c, 'w, 'n) sweep_world"
where
  "spend_and_conclude e g destination s =
     (let sp = se_spender e; rate_kw = ucast (sweep_rate_sat_per_vb (se_fees e) * 250);
          bad = (\<lambda>m. descriptor_is_unsignable sp destination (bm_descriptor m)) in
      case spend_batch sp (ga_batch g) destination rate_kw of
        Some tx \<Rightarrow> conclude e g (ga_batch g) destination (Some tx) s
      | None \<Rightarrow>
          if \<not> list_ex bad (ga_batch g) then conclude e g (ga_batch g) destination None s
          else (case remove_members e bad (ga_batch g) (sw_disk s) of
            (batch, l) \<Rightarrow>
              let s1 = s\<lparr> sw_disk := l \<rparr> in
              if batch = [] then (\<lparr> sm_swept = 0, sm_skipped = ga_skipped g, sm_txid = None \<rparr>, finish_attempt (ga_skipped g > 0) None s1)
              else conclude e g batch destination (spend_batch sp batch destination rate_kw) s1))"

definition sweep_pass ::
  "('l, 'c, 'd, 'w, 'n, 'tx, 'x) sweep_env \<Rightarrow> ('l, 'c, 'w, 'n) sweep_world \<Rightarrow> sweep_summary \<times> ('l, 'c, 'w, 'n) sweep_world"
where
  "sweep_pass e s =
     (if entries e (sw_disk s) = [] then (summary_default, s)
      else case gather e (entries e (sw_disk s)) gathered_new (sw_disk s) (sw_wallet s) of
        (g, l, w) \<Rightarrow>
          let s1 = s\<lparr> sw_disk := remove_entries e (ga_emptied g) l, sw_wallet := w \<rparr> in
          if ga_batch g = []
          then (\<lparr> sm_swept = 0, sm_skipped = ga_skipped g, sm_txid = None \<rparr>, finish_attempt (ga_skipped g > 0) None s1)
          else (case wl_reveal_next (se_wallet e) (sw_wallet s1) of
            (Inl _, w1) \<Rightarrow>
              (\<lparr> sm_swept = 0, sm_skipped = ga_skipped g + length (ga_batch g), sm_txid = None \<rparr>,
               finish_attempt True None (s1\<lparr> sw_wallet := w1 \<rparr>))
          | (Inr destination, w1) \<Rightarrow> spend_and_conclude e g destination (s1\<lparr> sw_wallet := w1 \<rparr>)))"

definition sweep_once ::
  "('l, 'c, 'd, 'w, 'n, 'tx, 'x) sweep_env \<Rightarrow> ('l, 'c, 'w, 'n) sweep_world \<Rightarrow> sweep_summary \<times> ('l, 'c, 'w, 'n) sweep_world"
where
  "sweep_once e s =
     (if sw_in_progress s then (summary_default, s)
      else case sweep_pass e (s\<lparr> sw_in_progress := True \<rparr>) of (summary, s1) \<Rightarrow> (summary, s1\<lparr> sw_in_progress := False \<rparr>))"

end
