(* ===== verification/Sweep_Safety.thy ===== *)
theory Sweep_Safety
  imports Sweep
begin

text \<open>
  What the sweep pipeline guarantees: a pass forgets a tracked output only when the wallet already owns
  it, when it can never be signed, or when a transaction that spends it is known to the network;
  replaying LDK's event tracks nothing twice and drops nothing; a subsidized sweep stays within the
  policy and never reuses a coin of the session.
\<close>

section \<open>Entries on disk\<close>

lemma all_some_map [simp]: "all_some (map Some xs) = Some xs"
  by (induction xs) simp_all

lemma u32_serde [simp]: "as_serde_u32 (JNum (PosInt (ucast (n :: u32)))) = Some n"
proof -
  have "unat (ucast n :: u64) < 2 ^ 32" using unsigned_less[of n, where 'a = nat] by simp
  then show ?thesis by (simp add: as_serde_u32_def ucast_up_ucast_id is_up)
qed

lemma outpoint_json [simp]: "outpoint_of_json (outpoint_to_json p) = Some p"
  by (simp add: outpoint_to_json_def make_outpoint_def fld_def)

lemma entry_json [simp]: "entry_of_json (entry_to_json en) = Some en"
  by (simp add: entry_to_json_def make_entry_def fld_def opt_fld_def as_list_def comp_def split: option.splits)

lemma radix16_digit_hex: "d < 16 \<Longrightarrow> radix16_digit (hex_digit d) = Some d"
  by (auto simp: hex_digit_def Let_def)

lemma hex_digit_not_plus: "d < 16 \<Longrightarrow> hex_digit d \<noteq> CHR ''+''"
  using hex_digit_lower_hex[of d] by (auto simp: is_lower_hex_iff)

lemma decode_hex_str [simp]: "decode_hex (hex_str bs) = Some bs"
proof (induction bs)
  case (Cons b bs)
  have "radix16_u8 (hex_digit (unat b div 16)) (hex_digit (unat b mod 16)) = Some b"
    using byte_nibbles[of b] hex_digit_not_plus[of "unat b div 16"]
    by (simp add: radix16_digit_hex del: radix16_digit.simps)
  with Cons show ?case by (simp add: hex_str_def del: radix16_u8.simps)
qed (simp add: hex_str_def)

lemma read_entry_Some:
  "read_entry e l k = Some en \<longleftrightarrow>
     (\<exists>b. d_read (se_disk e) SPENDABLE_OUTPUTS_NS [] k l = Inr b \<and> Option.bind (from_slice (se_codec e) b) entry_of_json = Some en)"
  by (auto simp: read_entry_def split: sum.splits)

definition tracked :: "('l, 'c, 'd, 'w, 'n, 'tx, 'x) sweep_env \<Rightarrow> 'l \<Rightarrow> string \<Rightarrow> string \<Rightarrow> bool" where
  "tracked e l k h \<longleftrightarrow> (\<exists>en. read_entry e l k = Some en \<and> h \<in> set (en_descriptors en))"

locale sweep_disk =
  fixes e :: "('l, 'c, 'd, 'w, 'n, 'tx, 'x) sweep_env"
  assumes store: "removable_store (d_read (se_disk e)) (d_write (se_disk e)) (d_list (se_disk e)) (d_remove (se_disk e))"
    and codec: "codec_ok (se_codec e)"
    and list_ok: "\<exists>ks. d_list (se_disk e) SPENDABLE_OUTPUTS_NS [] l = Inr ks \<and> distinct ks"
begin

lemmas read_written = atomic_store.read_after_write[OF removable_store.axioms(1)[OF store]]
lemmas read_removed = removable_store.read_after_remove[OF store]
lemmas listed = listed_store.lists[OF atomic_store.axioms(1)[OF removable_store.axioms(1)[OF store]]]

lemma entries_mem: "(k, en) \<in> set (entries e l) \<longleftrightarrow> read_entry e l k = Some en"
proof -
  obtain ks where ks: "d_list (se_disk e) SPENDABLE_OUTPUTS_NS [] l = Inr ks" using list_ok by blast
  have "read_entry e l k = Some en \<Longrightarrow> k \<in> set ks"
    using listed[OF ks] by (auto simp: read_entry_def split: sum.splits)
  with ks show ?thesis by (force simp: entries_def List.map_filter_def image_iff)
qed

lemma entries_distinct: "distinct (map fst (entries e l))"
proof -
  obtain ks where ks: "d_list (se_disk e) SPENDABLE_OUTPUTS_NS [] l = Inr ks" "distinct ks" using list_ok by blast
  have "map fst (List.map_filter (\<lambda>k. map_option (Pair k) (read_entry e l k)) ks) = filter (\<lambda>k. read_entry e l k \<noteq> None) ks"
    by (induction ks) (auto simp: List.map_filter_simps split: option.splits)
  with ks show ?thesis by (simp add: entries_def)
qed

lemma read_after_write_entry:
  "read_entry e (snd (write_entry e k en l)) k'
     = (if k' = k \<and> fst (write_entry e k en l) = Inr () then Some en else read_entry e l k')"
proof -
  obtain r l' where w: "d_write (se_disk e) SPENDABLE_OUTPUTS_NS [] k (to_vec (se_codec e) (entry_to_json en)) l = (r, l')" by fastforce
  show ?thesis using read_written[OF w, of SPENDABLE_OUTPUTS_NS "[]" k'] codec
    by (auto simp: read_entry_def write_entry_def w)
qed

lemma read_after_remove_one:
  "read_entry e (snd (d_remove (se_disk e) SPENDABLE_OUTPUTS_NS [] j False l)) k = Some en
     \<longleftrightarrow> read_entry e l k = Some en \<and> (k \<noteq> j \<or> fst (d_remove (se_disk e) SPENDABLE_OUTPUTS_NS [] j False l) \<noteq> Inr ())"
proof -
  obtain r l' where d: "d_remove (se_disk e) SPENDABLE_OUTPUTS_NS [] j False l = (r, l')" by fastforce
  show ?thesis unfolding read_entry_Some d fst_conv snd_conv using read_removed[OF d, of SPENDABLE_OUTPUTS_NS "[]" k] by auto
qed

lemma read_after_remove_entries:
  assumes "k \<notin> set ks"
  shows "read_entry e (remove_entries e ks l) k = Some en \<longleftrightarrow> read_entry e l k = Some en"
  using assms by (induction ks arbitrary: l) (auto simp: remove_entries_def read_after_remove_one)

lemma tracked_remove: "k \<notin> set ks \<Longrightarrow> tracked e (remove_entries e ks l) k h \<longleftrightarrow> tracked e l k h"
  by (simp add: tracked_def read_after_remove_entries)

lemma tracked_write_other: "k' \<noteq> k \<Longrightarrow> tracked e (snd (write_entry e k en l)) k' h \<longleftrightarrow> tracked e l k' h"
  by (simp add: tracked_def read_after_write_entry)

end

section \<open>Decoding and pruning\<close>

definition decodes :: "('l, 'c, 'd, 'w, 'n, 'tx, 'x) sweep_env \<Rightarrow> string \<Rightarrow> bytes \<Rightarrow> 'd \<Rightarrow> bool" where
  "decodes e h bs d \<longleftrightarrow> decode_hex h = Some bs \<and> sp_read (se_spender e) bs = Some d"

inductive wallet_after :: "('w, 'tx, 'x) sweep_wallet \<Rightarrow> 'w \<Rightarrow> 'w \<Rightarrow> bool" for wl w0 where
  \<comment> \<open>the wallet states of stage 1: only destination indexes are revealed\<close>
  start: "wallet_after wl w0 w0"
| reveal: "wallet_after wl w0 w \<Longrightarrow> wallet_after wl w0 (snd (wl_destination wl i w))"

definition wallet_owned :: "('l, 'c, 'd, 'w, 'n, 'tx, 'x) sweep_env \<Rightarrow> 'w \<Rightarrow> 'd \<Rightarrow> bool" where
  "wallet_owned e w0 d \<longleftrightarrow> (\<exists>w. wallet_after (se_wallet e) w0 w \<and> fst (is_wallet_owned_static_output (se_spender e) (se_wallet e) d w))"

lemma ownership_check_wallet:
  "wallet_after wl w0 w \<Longrightarrow> wallet_after wl w0 (snd (is_wallet_owned_static_output sp wl d w))"
  by (auto simp: is_wallet_owned_static_output_def intro: wallet_after.intros split: descriptor_view.splits option.splits)

definition unsignable :: "('l, 'c, 'd, 'w, 'n, 'tx, 'x) sweep_env \<Rightarrow> 'd \<Rightarrow> bool" where
  "unsignable e d \<longleftrightarrow> (\<exists>destination. descriptor_is_unsignable (se_spender e) destination d)"

definition owned_hex :: "('l, 'c, 'd, 'w, 'n, 'tx, 'x) sweep_env \<Rightarrow> 'w \<Rightarrow> string \<Rightarrow> bool" where
  "owned_hex e w0 h \<longleftrightarrow> (\<exists>bs d. decodes e h bs d \<and> wallet_owned e w0 d)"

definition scan_ok :: "('l, 'c, 'd, 'w, 'n, 'tx, 'x) sweep_env \<Rightarrow> 'd scan \<Rightarrow> bool" where
  "scan_ok e a \<longleftrightarrow> (\<forall>h \<in> set (sc_kept a). \<exists>bs d. decodes e h bs d \<and> (bs, d) \<in> set (sc_members a))
     \<and> (\<forall>(bs, d) \<in> set (sc_members a). sp_read (se_spender e) bs = Some d)"

lemma scan_entry_spec:
  assumes "scan_entry (se_spender e) (se_wallet e) hs a w = (a', w')" and "scan_ok e a" and "wallet_after (se_wallet e) w0 w"
  shows "scan_ok e a' \<and> wallet_after (se_wallet e) w0 w' \<and> sc_seen a \<subseteq> sc_seen a' \<and> set (sc_kept a) \<subseteq> set (sc_kept a') \<and> set (sc_kept a') \<subseteq> set (sc_kept a) \<union> set hs
    \<and> (\<forall>h \<in> sc_seen a' - sc_seen a. h \<in> set hs \<and> (owned_hex e w0 h \<or> h \<in> set (sc_kept a')))
    \<and> (sc_valid a' \<longrightarrow> set hs \<subseteq> sc_seen a')"
  using assms
proof (induction hs arbitrary: a w)
  case (Cons hex hs)
  show ?case
  proof (cases "hex \<in> sc_seen a")
    case True
    with Cons.prems have s: "scan_entry (se_spender e) (se_wallet e) hs (a\<lparr> sc_pruned := Suc (sc_pruned a) \<rparr>) w = (a', w')" by simp
    have "scan_ok e (a\<lparr> sc_pruned := Suc (sc_pruned a) \<rparr>)" using Cons.prems(2) by (simp add: scan_ok_def)
    from Cons.IH[OF s this Cons.prems(3)] True show ?thesis by auto
  next
    case new: False
    show ?thesis
    proof (cases "Option.bind (decode_hex hex) (\<lambda>bs. map_option (Pair bs) (sp_read (se_spender e) bs))")
      case None
      with Cons.prems new have "a' = a\<lparr> sc_valid := False \<rparr>" by simp
      with Cons.prems new None show ?thesis by (auto simp: scan_ok_def)
    next
      case (Some p)
      obtain bs d where p: "p = (bs, d)" by fastforce
      with Some have dec: "decodes e hex bs d" by (auto simp: decodes_def bind_eq_Some_conv)
      obtain own w1 where o: "is_wallet_owned_static_output (se_spender e) (se_wallet e) d w = (own, w1)" by fastforce
      have wa: "wallet_after (se_wallet e) w0 w1" using ownership_check_wallet[OF Cons.prems(3), of "se_spender e" d] o by simp
      let ?a1 = "a\<lparr> sc_seen := insert hex (sc_seen a) \<rparr>"
      show ?thesis
      proof (cases own)
        case True
        with o Cons.prems(3) have own: "owned_hex e w0 hex" using dec unfolding owned_hex_def wallet_owned_def by (metis fst_conv)
        let ?a2 = "?a1\<lparr> sc_pruned_keys := insert (descriptor_key (se_spender e) d) (sc_pruned_keys ?a1), sc_pruned := Suc (sc_pruned ?a1) \<rparr>"
        from Cons.prems(1) new Some p o True have s: "scan_entry (se_spender e) (se_wallet e) hs ?a2 w1 = (a', w')" by simp
        have "scan_ok e ?a2" using Cons.prems(2) by (simp add: scan_ok_def)
        from Cons.IH[OF s this wa] own show ?thesis by auto
      next
        case False
        let ?a2 = "?a1\<lparr> sc_kept := sc_kept ?a1 @ [hex], sc_members := sc_members ?a1 @ [(bs, d)] \<rparr>"
        from Cons.prems(1) new Some p o False have s: "scan_entry (se_spender e) (se_wallet e) hs ?a2 w1 = (a', w')" by simp
        have "scan_ok e ?a2" using Cons.prems(2) dec by (auto simp: scan_ok_def decodes_def)
        from Cons.IH[OF s this wa] show ?thesis by auto
      qed
    qed
  qed
qed simp

definition accounted :: "('l, 'c, 'd, 'w, 'n, 'tx, 'x) sweep_env \<Rightarrow> 'w \<Rightarrow> 'd gathered \<Rightarrow> 'l \<Rightarrow> string set \<Rightarrow> string \<Rightarrow> bool" where
  \<comment> \<open>a hex is owned, in the batch under a stored entry, or in a stored entry the pass leaves alone\<close>
  "accounted e w0 g l rem h \<longleftrightarrow> owned_hex e w0 h
     \<or> (\<exists>m \<in> set (ga_batch g). decode_hex h = Some (bm_bytes m) \<and> tracked e l (bm_entry_key m) h)
     \<or> (\<exists>k. tracked e l k h \<and> k \<notin> set (ga_keys g) \<union> set (ga_emptied g) \<union> rem)"

definition gathered_ok :: "('l, 'c, 'd, 'w, 'n, 'tx, 'x) sweep_env \<Rightarrow> 'w \<Rightarrow> 'd gathered \<Rightarrow> 'l \<Rightarrow> (string \<times> stored_entry) list \<Rightarrow> string set \<Rightarrow> bool" where
  "gathered_ok e w0 g l rem H \<longleftrightarrow>
     (\<forall>h \<in> H \<union> ga_seen g. accounted e w0 g l (fst ` set rem) h)
     \<and> (\<forall>m \<in> set (ga_batch g). sp_read (se_spender e) (bm_bytes m) = Some (bm_descriptor m) \<and> bm_entry_key m \<in> set (ga_keys g))
     \<and> set (ga_keys g) \<inter> set (ga_emptied g) = {} \<and> (set (ga_keys g) \<union> set (ga_emptied g)) \<inter> fst ` set rem = {}
     \<and> distinct (map fst rem) \<and> (\<forall>(k, en) \<in> set rem. read_entry e l k = Some en)"

lemma gathered_okI:
  assumes "\<And>h. h \<in> H \<union> ga_seen g \<Longrightarrow> accounted e w0 g l (fst ` set rem) h"
    and "\<And>m. m \<in> set (ga_batch g) \<Longrightarrow> sp_read (se_spender e) (bm_bytes m) = Some (bm_descriptor m) \<and> bm_entry_key m \<in> set (ga_keys g)"
    and "set (ga_keys g) \<inter> set (ga_emptied g) = {}" and "(set (ga_keys g) \<union> set (ga_emptied g)) \<inter> fst ` set rem = {}"
    and "distinct (map fst rem)" and "\<And>k en. (k, en) \<in> set rem \<Longrightarrow> read_entry e l k = Some en"
  shows "gathered_ok e w0 g l rem H"
  unfolding gathered_ok_def using assms by blast

context sweep_disk
begin

lemma gather_entry_ok:
  assumes "gathered_ok e w0 g l ((k, en) # rem) H" and "gather_entry e k en g l w = (g', l', w')"
    and "wallet_after (se_wallet e) w0 w"
  shows "wallet_after (se_wallet e) w0 w' \<and> gathered_ok e w0 g' l' rem (H \<union> set (en_descriptors en))"
proof -
  let ?a0 = "\<lparr> sc_kept = [], sc_members = [], sc_pruned_keys = {}, sc_pruned = 0, sc_seen = ga_seen g, sc_valid = True \<rparr>"
  obtain a w1 where sc: "scan_entry (se_spender e) (se_wallet e) (en_descriptors en) ?a0 w = (a, w1)" by fastforce
  have "scan_ok e ?a0" by (simp add: scan_ok_def)
  from scan_entry_spec[OF sc this assms(3)] have ok: "scan_ok e a" and w1: "wallet_after (se_wallet e) w0 w1" and kept: "set (sc_kept a) \<subseteq> set (en_descriptors en)"
    and new: "\<And>h. h \<in> sc_seen a \<Longrightarrow> h \<notin> ga_seen g \<Longrightarrow> h \<in> set (en_descriptors en) \<and> (owned_hex e w0 h \<or> h \<in> set (sc_kept a))"
    and all: "sc_valid a \<Longrightarrow> set (en_descriptors en) \<subseteq> sc_seen a"
    by auto
  have old: "\<And>h. h \<in> H \<union> ga_seen g \<Longrightarrow> accounted e w0 g l (insert k (fst ` set rem)) h"
    and mem: "\<And>m. m \<in> set (ga_batch g) \<Longrightarrow> sp_read (se_spender e) (bm_bytes m) = Some (bm_descriptor m) \<and> bm_entry_key m \<in> set (ga_keys g)"
    and disj: "set (ga_keys g) \<inter> set (ga_emptied g) = {}" "(set (ga_keys g) \<union> set (ga_emptied g)) \<inter> fst ` set rem = {}"
    and knew: "k \<notin> set (ga_keys g) \<union> set (ga_emptied g)" "k \<notin> fst ` set rem"
    and dist: "distinct (map fst rem)" and en: "read_entry e l k = Some en"
    and rest: "\<And>k' en'. (k', en') \<in> set rem \<Longrightarrow> read_entry e l k' = Some en'"
    using assms(1) by (simp_all add: gathered_ok_def ball_Un) blast+
  have "w' = w1" using assms(2) sc by (auto simp: gather_entry_def Let_def split: if_splits)
  with w1 have wa: "wallet_after (se_wallet e) w0 w'" by simp
  have "gathered_ok e w0 g' l' rem (H \<union> set (en_descriptors en))"
  proof (cases "sc_valid a")
    case False
    with assms(2) sc have g': "g' = g\<lparr> ga_seen := sc_seen a, ga_skipped := ga_skipped g + length (en_descriptors en) \<rparr>" and l': "l' = l"
      by (auto simp: gather_entry_def Let_def)
    have 1: "accounted e w0 g' l' (fst ` set rem) h" if "h \<in> H \<union> ga_seen g" for h
      using old[OF that] g' l' by (auto simp: accounted_def)
    have 2: "accounted e w0 g' l' (fst ` set rem) h" if "h \<in> set (en_descriptors en)" for h
      using that en knew g' l' unfolding accounted_def tracked_def by auto
    show ?thesis using 1 2 new g' l' by (intro gathered_okI) (auto simp: mem disj dist rest)
  next
    case valid: True
    show ?thesis
    proof (cases "sc_members a = []")
      case True
      with valid assms(2) sc have g': "g' = g\<lparr> ga_seen := sc_seen a, ga_emptied := ga_emptied g @ [k] \<rparr>" and l': "l' = l"
        by (auto simp: gather_entry_def Let_def)
      have o: "accounted e w0 g' l' (fst ` set rem) h" if "h \<in> H \<union> ga_seen g" for h
        using old[OF that] g' l' by (auto simp: accounted_def)
      have none: "sc_kept a = []" using ok True by (cases "sc_kept a") (auto simp: scan_ok_def)
      have seen: "accounted e w0 g' l' (fst ` set rem) h" if "h \<in> sc_seen a" for h
        using that new[of h] none o[of h] by (cases "h \<in> ga_seen g") (auto simp: accounted_def)
      show ?thesis using o seen all[OF valid] g' l' knew disj by (intro gathered_okI) (auto simp: mem dist rest)
    next
      case False
      let ?en' = "\<lparr> en_descriptors = sc_kept a, en_channel_id_hex = en_channel_id_hex en,
          en_outpoints = filter (\<lambda>p. stored_key p \<notin> sc_pruned_keys a) (en_outpoints en) \<rparr>"
      have l': "l' = (if sc_pruned a > 0 then snd (write_entry e k ?en' l) else l)"
        and batch: "ga_batch g' = ga_batch g @ map (\<lambda>(bs, d). \<lparr> bm_bytes = bs, bm_descriptor = d, bm_entry_key = k \<rparr>) (sc_members a)"
        and keys: "ga_keys g' = ga_keys g @ [k]" and em: "ga_emptied g' = ga_emptied g" and seen': "ga_seen g' = sc_seen a"
        using assms(2) sc valid False by (auto simp: gather_entry_def Let_def)
      have other: "tracked e l' k' h = tracked e l k' h" "read_entry e l' k' = read_entry e l k'" if "k' \<noteq> k" for k' h
        using that l' by (simp_all add: tracked_def read_after_write_entry)
      have here: "tracked e l' k h" if "h \<in> set (sc_kept a)" for h
        using that en kept l' by (auto simp: tracked_def read_after_write_entry)
      have o: "accounted e w0 g' l' (fst ` set rem) h" if "h \<in> H \<union> ga_seen g" for h
      proof -
        have "bm_entry_key m \<noteq> k" if "m \<in> set (ga_batch g)" for m using mem[OF that] knew by auto
        with old[OF that] other batch keys em show ?thesis unfolding accounted_def by (elim disjE) (auto, metis)
      qed
      have k: "accounted e w0 g' l' (fst ` set rem) h" if "h \<in> set (sc_kept a)" for h
      proof -
        from ok that obtain bs d where "decodes e h bs d" "(bs, d) \<in> set (sc_members a)" by (auto simp: scan_ok_def)
        then have "\<lparr> bm_bytes = bs, bm_descriptor = d, bm_entry_key = k \<rparr> \<in> set (ga_batch g')" "decode_hex h = Some bs"
          using batch by (auto simp: decodes_def image_iff)
        with here[OF that] show ?thesis unfolding accounted_def by fastforce
      qed
      have w: "accounted e w0 g' l' (fst ` set rem) h" if "owned_hex e w0 h" for h using that by (simp add: accounted_def)
      have seen: "accounted e w0 g' l' (fst ` set rem) h" if "h \<in> sc_seen a" for h using that o k w new by blast
      show ?thesis
      proof (rule gathered_okI)
        show "accounted e w0 g' l' (fst ` set rem) h" if "h \<in> (H \<union> set (en_descriptors en)) \<union> ga_seen g'" for h
          using that o seen all[OF valid] seen' by blast
        show "sp_read (se_spender e) (bm_bytes m) = Some (bm_descriptor m) \<and> bm_entry_key m \<in> set (ga_keys g')" if "m \<in> set (ga_batch g')" for m
          using that mem[of m] ok unfolding batch keys by (auto simp: scan_ok_def)
        show "read_entry e l' k' = Some en'" if "(k', en') \<in> set rem" for k' en'
          using that rest[OF that] other(2)[of k'] knew(2) by (force simp: image_iff)
      qed (use keys em disj knew dist in auto)
    qed
  qed
  with wa show ?thesis ..
qed

lemma gather_ok:
  assumes "gathered_ok e w0 g l rem H" and "gather e rem g l w = (g', l', w')" and "wallet_after (se_wallet e) w0 w"
  shows "gathered_ok e w0 g' l' [] (H \<union> (\<Union>(k, en) \<in> set rem. set (en_descriptors en)))"
  using assms
proof (induction rem arbitrary: g l w H)
  case (Cons p rem)
  obtain k en where p: "p = (k, en)" by fastforce
  obtain g1 l1 w1 where g1: "gather_entry e k en g l w = (g1, l1, w1)" by (metis prod_cases3)
  note g2 = gather_entry_ok[OF Cons.prems(1)[unfolded p] g1 Cons.prems(3)]
  from Cons.IH[OF conjunct2[OF g2] _ conjunct1[OF g2]] Cons.prems(2) p g1
  show ?case by (simp add: Un_assoc)
qed simp

lemma gather_start: "gathered_ok e w0 gathered_new l (entries e l) {}"
  using entries_distinct entries_mem by (intro gathered_okI) (auto simp: gathered_new_def)

end

section \<open>Removal of unsignable members\<close>

context sweep_disk
begin

lemma rewrite_members_keeps:
  assumes "rewrite_members e hexes keys affected ens emptied l = (emptied', l')"
    and "distinct (map fst ens)" and "\<And>k en. (k, en) \<in> set ens \<Longrightarrow> read_entry e l k = Some en"
    and "h \<notin> hexes" and "tracked e l k h" and "k \<notin> set emptied"
  shows "tracked e l' k h \<and> k \<notin> set emptied'"
  using assms
proof (induction ens arbitrary: emptied l)
  case (Cons p ens)
  obtain j en where p: "p = (j, en)" by fastforce
  have en: "read_entry e l j = Some en" using Cons.prems(3) p by simp
  let ?ds = "filter (\<lambda>h. h \<notin> hexes) (en_descriptors en)"
  let ?en' = "\<lparr> en_descriptors = ?ds, en_channel_id_hex = en_channel_id_hex en,
    en_outpoints = filter (\<lambda>p. stored_key p \<notin> keys) (en_outpoints en) \<rparr>"
  have keep: "h \<in> set ?ds" if "k = j" using that Cons.prems(4,5) en by (auto simp: tracked_def)
  consider (other) "j \<notin> affected" | (gone) "j \<in> affected" "?ds = []" | (cut) "j \<in> affected" "?ds \<noteq> []" by blast
  then show ?case
  proof cases
    case other
    with Cons.prems p show ?thesis by (intro Cons.IH[of emptied l]) auto
  next
    case gone
    have "k \<noteq> j" using keep gone(2) by auto
    with Cons.prems p gone show ?thesis by (intro Cons.IH[of "emptied @ [j]" l]) auto
  next
    case cut
    let ?l1 = "snd (write_entry e j ?en' l)"
    have "tracked e ?l1 k h" using Cons.prems(5) keep by (auto simp: tracked_def read_after_write_entry)
    moreover have "read_entry e ?l1 k' = Some en1" if "(k', en1) \<in> set ens" for k' en1
    proof -
      have "k' \<noteq> j" using that Cons.prems(2) p by force
      then show ?thesis using that Cons.prems(3) by (simp add: read_after_write_entry)
    qed
    ultimately show ?thesis using Cons.prems p cut by (intro Cons.IH[of emptied ?l1]) (auto simp: Let_def)
  qed
qed simp

lemma remove_members_keeps:
  assumes "remove_members e bad batch l = (batch', l')" and "tracked e l k h"
    and "\<And>m. m \<in> set batch \<Longrightarrow> bad m \<Longrightarrow> h \<noteq> hex_str (bm_bytes m)"
  shows "tracked e l' k h"
proof -
  let ?bad = "filter bad batch"
  obtain em l1 where r: "rewrite_members e ((\<lambda>m. hex_str (bm_bytes m)) ` set ?bad) ((\<lambda>m. descriptor_key (se_spender e) (bm_descriptor m)) ` set ?bad)
      (bm_entry_key ` set ?bad) (entries e l) [] l = (em, l1)" by fastforce
  have "tracked e l1 k h \<and> k \<notin> set em"
    by (rule rewrite_members_keeps[OF r entries_distinct _ _ assms(2)]) (use assms(3) entries_mem in auto)
  moreover have "l' = remove_entries e em l1" using assms(1) r by (simp add: remove_members_def Let_def)
  ultimately show ?thesis by (simp add: tracked_remove)
qed

end

section \<open>The end of a pass\<close>

definition confirmed_broadcast :: "('l, 'c, 'd, 'w, 'n, 'tx, 'x) sweep_env \<Rightarrow> 'tx \<Rightarrow> bool" where
  \<comment> \<open>the transaction was stored for rebroadcast, and the network then took it or already had it\<close>
  "confirmed_broadcast e tx \<longleftrightarrow>
     (\<exists>n. fst (sb_broadcast (se_broadcast e) tx (sb_persist_pending (se_broadcast e) tx n)) \<in> {Accepted, AlreadyKnown})"

definition spends :: "('l, 'c, 'd, 'w, 'n, 'tx, 'x) sweep_env \<Rightarrow> 'd list \<Rightarrow> 'tx \<Rightarrow> bool" where
  "spends e ds tx \<longleftrightarrow> (\<exists>destination rate. sp_spend (se_spender e) ds destination rate = Some tx)
     \<or> (\<exists>destination psbt lw sel change w. sp_create_psbt (se_spender e) ds destination FLOOR_FEERATE_SAT_PER_KW = Some (psbt, lw)
          \<and> fst (sign_subsidy e ds lw sel (append_subsidy (ss_selected sel) change psbt) w) = Inr tx)"

definition settled :: "('l, 'c, 'd, 'w, 'n, 'tx, 'x) sweep_env \<Rightarrow> string \<Rightarrow> 'd \<Rightarrow> bool" where
  "settled e i d \<longleftrightarrow> (\<exists>ds tx. d \<in> set ds \<and> spends e ds tx \<and> confirmed_broadcast e tx \<and> i = sp_txid (se_spender e) tx)"

lemma finish_disk [simp]: "sw_disk (finish_attempt b x s) = sw_disk s"
  by (simp add: finish_attempt_def)

lemma commit_disk [simp]: "sw_disk (commit_swept e keys i ch s) = remove_entries e keys (sw_disk s)"
  by (simp add: commit_swept_def)

lemma mark_disk [simp]: "sw_disk (mark_subsidy_inputs_spent e tx sel s) = sw_disk s"
  by (simp add: mark_subsidy_inputs_spent_def)

lemma broadcast_subsidized_spec:
  assumes "broadcast_subsidized e sel tx s = (out, s')"
  shows "sw_disk s' = sw_disk s"
    and "out = SubBroadcast i sub \<Longrightarrow> confirmed_broadcast e tx \<and> i = sp_txid (se_spender e) tx"
proof -
  obtain r n where b: "sb_broadcast (se_broadcast e) tx (sb_persist_pending (se_broadcast e) tx (sw_net s)) = (r, n)" by fastforce
  then have c: "r \<in> {Accepted, AlreadyKnown} \<Longrightarrow> confirmed_broadcast e tx" unfolding confirmed_broadcast_def by (metis fst_conv)
  note d = assms[unfolded broadcast_subsidized_def Let_def b prod.case]
  show "sw_disk s' = sw_disk s" using d by (auto split: broadcast_outcome.splits prod.splits bool.splits)
  show "confirmed_broadcast e tx \<and> i = sp_txid (se_spender e) tx" if "out = SubBroadcast i sub"
    using d c that by (auto split: broadcast_outcome.splits prod.splits bool.splits)
qed

lemma plan_subsidy_psbt:
  assumes "plan_subsidy e ds destination rate s = Inr (psbt, lw, sel)"
  shows "sp_create_psbt (se_spender e) ds destination FLOOR_FEERATE_SAT_PER_KW = Some (psbt, lw)"
  using assms by (auto simp: plan_subsidy_def Let_def split: option.splits prod.splits if_splits selection_outcome.splits)

lemma attempt_subsidized_spec:
  assumes "attempt_subsidized e batch destination rate s = (out, s')"
  shows "sw_disk s' = sw_disk s"
    and "out = SubBroadcast i sub \<Longrightarrow> m \<in> set batch \<Longrightarrow> settled e i (bm_descriptor m)"
proof -
  let ?ds = "map bm_descriptor batch"
  have "sw_disk s' = sw_disk s \<and> (out = SubBroadcast i sub \<longrightarrow> m \<in> set batch \<longrightarrow> settled e i (bm_descriptor m))"
  proof (cases "plan_subsidy e ?ds destination rate s")
    case (Inl o1)
    then have "out \<noteq> SubBroadcast i sub"
      using assms by (auto simp: attempt_subsidized_def plan_subsidy_def Let_def split: option.splits prod.splits if_splits selection_outcome.splits)
    with Inl assms show ?thesis by (auto simp: attempt_subsidized_def)
  next
    case (Inr p)
    then obtain psbt lw sel where p: "plan_subsidy e ?ds destination rate s = Inr (psbt, lw, sel)" by (metis prod_cases3)
    obtain r w1 where ch: "change_output (se_wallet e) (ss_change_sats sel) (sw_wallet s) = (r, w1)" by fastforce
    show ?thesis
    proof (cases r)
      case (Inl reason)
      with assms p ch show ?thesis by (auto simp: attempt_subsidized_def)
    next
      case (Inr change)
      obtain q w2 where sg: "sign_subsidy e ?ds lw sel (append_subsidy (ss_selected sel) change psbt) w1 = (q, w2)" by fastforce
      show ?thesis
      proof (cases q)
        case (Inl reason)
        with assms p ch Inr sg show ?thesis by (auto simp: attempt_subsidized_def)
      next
        case (Inr tx)
        with assms p ch \<open>r = Inr change\<close> sg have b: "broadcast_subsidized e sel tx (s\<lparr> sw_wallet := w2 \<rparr>) = (out, s')"
          by (simp add: attempt_subsidized_def)
        have "spends e ?ds tx" unfolding spends_def using plan_subsidy_psbt[OF p] sg Inr by (metis fst_conv)
        with broadcast_subsidized_spec[OF b] show ?thesis unfolding settled_def by (auto intro!: exI[of _ ?ds])
      qed
    qed
  qed
  then show "sw_disk s' = sw_disk s" and "out = SubBroadcast i sub \<Longrightarrow> m \<in> set batch \<Longrightarrow> settled e i (bm_descriptor m)" by auto
qed

definition concluded ::
  "('l, 'c, 'd, 'w, 'n, 'tx, 'x) sweep_env \<Rightarrow> 'd gathered \<Rightarrow> 'd batch_member list \<Rightarrow> 'l \<Rightarrow> sweep_summary \<Rightarrow> 'l \<Rightarrow> bool"
where
  \<comment> \<open>nothing was deleted, or the batch's entries were and a transaction settles every member\<close>
  "concluded e g batch l sm l' \<longleftrightarrow> l' = l
     \<or> (l' = remove_entries e (ga_keys g) l \<and> (\<exists>i. sm_txid sm = Some i \<and> (\<forall>m \<in> set batch. settled e i (bm_descriptor m))))"

lemma plain_sweep_concluded:
  assumes "plain_sweep e g batch tx s = (sm, s')" and "spend_batch (se_spender e) batch destination rate = Some tx"
  shows "concluded e g batch (sw_disk s) sm (sw_disk s')"
proof -
  obtain r n where b: "sb_broadcast (se_broadcast e) tx (sb_persist_pending (se_broadcast e) tx (sw_net s)) = (r, n)" by fastforce
  then have c: "r \<in> {Accepted, AlreadyKnown} \<Longrightarrow> confirmed_broadcast e tx" unfolding confirmed_broadcast_def by (metis fst_conv)
  have "spends e (map bm_descriptor batch) tx" using assms(2) unfolding spends_def spend_batch_def by blast
  with c have "r \<in> {Accepted, AlreadyKnown} \<Longrightarrow> \<forall>m \<in> set batch. settled e (sp_txid (se_spender e) tx) (bm_descriptor m)"
    unfolding settled_def by (auto intro!: exI[of _ "map bm_descriptor batch"])
  with assms(1) b show ?thesis
    by (auto simp: plain_sweep_def Let_def concluded_def split: sum.splits broadcast_outcome.splits)
qed

lemma subsidized_sweep_concluded:
  assumes "subsidized_sweep e g batch destination rate s = (sm, s')"
  shows "concluded e g batch (sw_disk s) sm (sw_disk s')"
proof -
  obtain out s1 where a: "attempt_subsidized e batch destination rate s = (out, s1)" by fastforce
  from assms attempt_subsidized_spec[OF a] show ?thesis
    by (cases out) (auto simp: subsidized_sweep_def Let_def concluded_def a)
qed

lemma conclude_concluded:
  assumes "conclude e g batch destination spent s = (sm, s')"
    and "spent = spend_batch (se_spender e) batch destination rate"
  shows "concluded e g batch (sw_disk s) sm (sw_disk s')"
  using assms plain_sweep_concluded subsidized_sweep_concluded
  by (fastforce simp: conclude_def split: option.splits if_splits)

definition explained ::
  "('l, 'c, 'd, 'w, 'n, 'tx, 'x) sweep_env \<Rightarrow> 'w \<Rightarrow> sweep_summary \<Rightarrow> string \<Rightarrow> bool"
where
  "explained e w0 sm h \<longleftrightarrow>
     (\<exists>bs d. decodes e h bs d \<and> (wallet_owned e w0 d \<or> unsignable e d \<or> (\<exists>i. sm_txid sm = Some i \<and> settled e i d)))"

context sweep_disk
begin

lemma concluded_keeps:
  assumes c: "concluded e g batch l sm l'" and acc: "accounted e w0 g l {} h"
    and m: "\<And>m. m \<in> set (ga_batch g) \<Longrightarrow> decode_hex h = Some (bm_bytes m) \<Longrightarrow> sp_read (se_spender e) (bm_bytes m) = Some (bm_descriptor m) \<and> m \<in> set batch"
  shows "(\<exists>k. tracked e l' k h) \<or> explained e w0 sm h"
  using acc unfolding accounted_def
proof (elim disjE bexE exE conjE)
  assume "owned_hex e w0 h"
  then show ?thesis by (auto simp: owned_hex_def explained_def)
next
  fix m assume "m \<in> set (ga_batch g)" "decode_hex h = Some (bm_bytes m)" "tracked e l (bm_entry_key m) h"
  with c m[of m] show ?thesis by (auto simp: concluded_def explained_def decodes_def)
next
  fix k assume "tracked e l k h" "k \<notin> set (ga_keys g) \<union> set (ga_emptied g) \<union> {}"
  with c tracked_remove[of k "ga_keys g" l h] show ?thesis by (auto simp: concluded_def)
qed

lemma spend_and_conclude_keeps:
  assumes r: "spend_and_conclude e g destination s = (sm, s')" and acc: "accounted e w0 g (sw_disk s) {} h"
    and m: "\<And>m. m \<in> set (ga_batch g) \<Longrightarrow> sp_read (se_spender e) (bm_bytes m) = Some (bm_descriptor m)"
  shows "(\<exists>k. tracked e (sw_disk s') k h) \<or> explained e w0 sm h"
proof -
  let ?sp = "se_spender e" and ?rate = "ucast (sweep_rate_sat_per_vb (se_fees e) * 250) :: u32"
  let ?bad = "\<lambda>m. descriptor_is_unsignable ?sp destination (bm_descriptor m)"
  show ?thesis
  proof (cases "spend_batch ?sp (ga_batch g) destination ?rate = None \<and> list_ex ?bad (ga_batch g)")
    case False
    then have "conclude e g (ga_batch g) destination (spend_batch ?sp (ga_batch g) destination ?rate) s = (sm, s')"
      using r by (auto simp: spend_and_conclude_def Let_def split: option.splits)
    from concluded_keeps[OF conclude_concluded[OF this refl] acc] m show ?thesis by blast
  next
    case True
    obtain batch l where rm: "remove_members e ?bad (ga_batch g) (sw_disk s) = (batch, l)" by fastforce
    then have batch: "batch = filter (\<lambda>m. \<not> ?bad m) (ga_batch g)" by (auto simp: remove_members_def Let_def split: prod.splits)
    have bad: ?thesis if "x \<in> set (ga_batch g)" "?bad x" "decode_hex h = Some (bm_bytes x)" for x
      using that m[of x] unfolding explained_def decodes_def unsignable_def by blast
    show ?thesis
    proof (cases "\<exists>x \<in> set (ga_batch g). ?bad x \<and> decode_hex h = Some (bm_bytes x)")
      case True
      then show ?thesis using bad by blast
    next
      case False
      then have keep: "tracked e l k h" if "tracked e (sw_disk s) k h" for k
        using remove_members_keeps[OF rm that] by (metis decode_hex_str)
      from acc have acc': "accounted e w0 g l {} h" unfolding accounted_def using keep by blast
      have "concluded e g batch l sm (sw_disk s')"
      proof (cases "batch = []")
        case True
        then show ?thesis using r \<open>_ = None \<and> _\<close> rm by (auto simp: spend_and_conclude_def Let_def concluded_def)
      next
        case False
        then have "conclude e g batch destination (spend_batch ?sp batch destination ?rate) (s\<lparr> sw_disk := l \<rparr>) = (sm, s')"
          using r \<open>_ = None \<and> _\<close> rm by (simp add: spend_and_conclude_def Let_def)
        from conclude_concluded[OF this refl] show ?thesis by simp
      qed
      from concluded_keeps[OF this acc'] m False batch show ?thesis by auto
    qed
  qed
qed

lemma sweep_pass_keeps:
  assumes r: "sweep_pass e s = (sm, s')" and t: "tracked e (sw_disk s) k h"
  shows "(\<exists>k. tracked e (sw_disk s') k h) \<or> explained e (sw_wallet s) sm h"
proof -
  from t obtain en where en: "(k, en) \<in> set (entries e (sw_disk s))" "h \<in> set (en_descriptors en)"
    by (auto simp: tracked_def entries_mem)
  obtain g l w where g: "gather e (entries e (sw_disk s)) gathered_new (sw_disk s) (sw_wallet s) = (g, l, w)" by (metis prod_cases3)
  from gather_ok[OF gather_start g wallet_after.start] have ok: "gathered_ok e (sw_wallet s) g l [] (\<Union>(k, en) \<in> set (entries e (sw_disk s)). set (en_descriptors en))" by simp
  let ?l1 = "remove_entries e (ga_emptied g) l"
  have mem: "m \<in> set (ga_batch g) \<Longrightarrow> sp_read (se_spender e) (bm_bytes m) = Some (bm_descriptor m) \<and> bm_entry_key m \<in> set (ga_keys g)"
    and disj: "set (ga_keys g) \<inter> set (ga_emptied g) = {}" and acc0: "accounted e (sw_wallet s) g l {} h" for m
    using ok en by (auto simp: gathered_ok_def)
  have acc: "accounted e (sw_wallet s) g ?l1 {} h"
    using acc0 mem disj tracked_remove[of _ "ga_emptied g" l h] unfolding accounted_def by (elim disjE) blast+
  have stays: "(\<exists>k. tracked e ?l1 k h) \<or> explained e (sw_wallet s) sm h"
    using acc unfolding accounted_def owned_hex_def explained_def by blast
  have ne: "entries e (sw_disk s) \<noteq> []" using en by auto
  let ?s1 = "s\<lparr> sw_disk := ?l1, sw_wallet := w \<rparr>"
  show ?thesis
  proof (cases "ga_batch g = []")
    case True
    with r ne g stays show ?thesis by (auto simp: sweep_pass_def Let_def)
  next
    case False
    obtain d w1 where rv: "wl_reveal_next (se_wallet e) w = (d, w1)" by fastforce
    show ?thesis
    proof (cases d)
      case (Inl u)
      with r ne g stays False rv show ?thesis by (auto simp: sweep_pass_def Let_def)
    next
      case (Inr destination)
      with r ne g False rv have "spend_and_conclude e g destination (?s1\<lparr> sw_wallet := w1 \<rparr>) = (sm, s')"
        by (simp add: sweep_pass_def Let_def)
      from spend_and_conclude_keeps[OF this _ conjunct1[OF mem]] acc show ?thesis by simp
    qed
  qed
qed

end

section \<open>Tracking an event\<close>

locale sweep_wallet_laws =
  fixes wl :: "('w, 'tx, 'x) sweep_wallet"
  assumes mine_stays: "wl_is_mine wl sc w \<Longrightarrow> wl_is_mine wl sc (snd (wl_destination wl i w))"
    and peek_stable: "wl_peek_external wl j (snd (wl_destination wl i w)) = wl_peek_external wl j w"
begin

lemma later_mine: "wallet_after wl w w' \<Longrightarrow> wl_is_mine wl sc w \<Longrightarrow> wl_is_mine wl sc w'"
  by (induction rule: wallet_after.induct) (auto intro: mine_stays)

lemma later_peek: "wallet_after wl w w' \<Longrightarrow> wl_peek_external wl j w' = wl_peek_external wl j w"
  by (induction rule: wallet_after.induct) (auto simp: peek_stable)

lemma owned_stays:
  assumes "wallet_after wl w w'" and "fst (is_wallet_owned_static_output sp wl d w)"
  shows "fst (is_wallet_owned_static_output sp wl d w')"
  using assms later_mine[OF assms(1)] later_peek[OF assms(1)]
  by (auto simp: is_wallet_owned_static_output_def split: descriptor_view.splits if_splits option.splits)

end

lemma wallet_after_trans: "wallet_after wl w1 w2 \<Longrightarrow> wallet_after wl w0 w1 \<Longrightarrow> wallet_after wl w0 w2"
  by (induction rule: wallet_after.induct) (auto intro: wallet_after.intros)

lemma stored_key_u16 [simp]: "unat (ucast (v :: u16) :: u32) = unat v"
  using unsigned_less[of v, where 'a = nat] by (simp add: unsigned_ucast_eq take_bit_nat_eq_self)

context sweep_wallet_laws
begin

lemma collect_outputs_covers:
  assumes "collect_outputs sp wl ds H K w = (hs, ps, w')"
  shows "wallet_after wl w w' \<and> length hs = length ps \<and>
    (\<forall>d \<in> set ds. fst (is_wallet_owned_static_output sp wl d w') \<or> hex_str (sp_encode sp d) \<in> H \<union> set hs
       \<or> descriptor_key sp d \<in> K \<union> stored_key ` set ps)"
  using assms
proof (induction ds arbitrary: H K w hs ps)
  case Nil
  then show ?case by (auto intro: wallet_after.start)
next
  case (Cons d ds)
  obtain own w1 where o: "is_wallet_owned_static_output sp wl d w = (own, w1)" by fastforce
  have w1: "wallet_after wl w w1" using ownership_check_wallet[OF wallet_after.start, of wl w sp d] o by simp
  let ?hex = "hex_str (sp_encode sp d)" and ?k = "descriptor_key sp d"
  consider (own) own | (dup) "\<not> own" "?hex \<in> H \<or> ?k \<in> K" | (new) "\<not> own" "\<not> (?hex \<in> H \<or> ?k \<in> K)" by blast
  then show ?case
  proof cases
    case own
    with Cons.prems o have r: "collect_outputs sp wl ds H K w1 = (hs, ps, w')" by simp
    have "fst (is_wallet_owned_static_output sp wl d w')"
      using owned_stays[OF wallet_after_trans[OF conjunct1[OF Cons.IH[OF r]] w1], of sp d] o own by simp
    with Cons.IH[OF r] wallet_after_trans[OF _ w1] show ?thesis by auto
  next
    case dup
    with Cons.prems o have r: "collect_outputs sp wl ds H K w1 = (hs, ps, w')" by simp
    with Cons.IH[OF r] wallet_after_trans[OF _ w1] dup show ?thesis by auto
  next
    case new
    obtain hs1 ps1 where r: "collect_outputs sp wl ds (insert ?hex H) (insert ?k K) w1 = (hs1, ps1, w')"
      and hs: "hs = ?hex # hs1" "ps = \<lparr> so_txid = fst (sp_outpoint sp d), so_vout = ucast (snd (sp_outpoint sp d)),
                 so_value_sats = u64_to_string (descriptor_value_sats sp d) \<rparr> # ps1"
      using Cons.prems o new by (auto simp: Let_def split: prod.splits)
    from Cons.IH[OF r] wallet_after_trans[OF _ w1] hs show ?thesis by auto
  qed
qed

lemma collect_outputs_covered:
  assumes "\<And>d. d \<in> set ds \<Longrightarrow> fst (is_wallet_owned_static_output sp wl d w) \<or> hex_str (sp_encode sp d) \<in> H \<or> descriptor_key sp d \<in> K"
  shows "\<exists>w'. collect_outputs sp wl ds H K w = ([], [], w')"
  using assms
proof (induction ds arbitrary: w)
  case (Cons d ds)
  obtain own w1 where o: "is_wallet_owned_static_output sp wl d w = (own, w1)" by fastforce
  have w1: "wallet_after wl w w1" using ownership_check_wallet[OF wallet_after.start, of wl w sp d] o by simp
  have "\<exists>w'. collect_outputs sp wl ds H K w1 = ([], [], w')"
    by (rule Cons.IH) (use Cons.prems owned_stays[OF w1] in \<open>metis list.set_intros(2)\<close>)
  moreover have "own \<or> hex_str (sp_encode sp d) \<in> H \<or> descriptor_key sp d \<in> K" using Cons.prems[of d] o by simp
  ultimately show ?case using o by (auto simp: Let_def split: bool.splits)
qed simp

end


section \<open>What a pass forgets\<close>


section \<open>The policy of a subsidized sweep\<close>

lemma select_loop_subset:
  "select_loop lw lf rate sp rest chosen x = Inl sel \<Longrightarrow> set (ss_selected sel) \<subseteq> set chosen \<union> set rest \<and> ss_selected sel \<noteq> []"
proof (induction rest arbitrary: chosen x)
  case (Cons c rest)
  note IH = Cons.IH[of "chosen @ [c]" "x + si_value_sats c"]
  from Cons.prems have "set (ss_selected sel) \<subseteq> set (chosen @ [c]) \<union> set rest \<and> ss_selected sel \<noteq> []"
    by (simp add: Let_def del: subset_insertI2 split: if_splits) (use IH in auto)
  then show ?case by auto
qed simp

lemma selected_candidates:
  "select_subsidy_inputs cs lw lf rate reserve = Selected sel \<Longrightarrow> set (ss_selected sel) \<subseteq> set cs \<and> ss_selected sel \<noteq> []"
  using select_loop_subset[of lw lf rate "spendable_sats cs reserve" cs "[]" 0]
  by (auto simp: select_subsidy_inputs_def Let_def split: sum.splits)

lemma candidate_coins:
  assumes "c \<in> set (confirmed_p2wpkh_candidates utxos reserved)"
  shows "si_outpoint c \<notin> reserved \<and> is_p2wpkh (si_script_pubkey c)
    \<and> (si_outpoint c, \<lparr> to_value = si_value_sats c, to_script = si_script_pubkey c \<rparr>) \<in> set utxos"
  using assms by (auto simp: confirmed_p2wpkh_candidates_def) (metis txout.surjective old.unit.exhaust)

lemma plan_subsidy_policy:
  assumes "plan_subsidy e ds destination rate s = Inr (psbt, lw, sel)"
  shows "\<forall>t \<in> set (ps_outputs psbt). DUST_LIMIT_SATS \<le> to_value t" and "ss_subsidy_sats sel < sum_outputs (ps_outputs psbt)"
    and "ss_selected sel \<noteq> []"
    and "set (ss_selected sel) \<subseteq> set (confirmed_p2wpkh_candidates (wl_confirmed_utxos (se_wallet e) (sw_wallet s)) (sw_spent s))"
proof -
  obtain lw' where "\<not> list_ex (\<lambda>t. to_value t < DUST_LIMIT_SATS) (ps_outputs psbt)"
      and sub: "\<not> ss_subsidy_sats sel \<ge> sum_outputs (ps_outputs psbt)"
      and sel: "\<exists>lf. select_subsidy_inputs (confirmed_p2wpkh_candidates (wl_confirmed_utxos (se_wallet e) (sw_wallet s)) (sw_spent s)) lw' lf rate (se_reserve e) = Selected sel"
    using assms by (auto simp: plan_subsidy_def Let_def split: option.splits prod.splits if_splits selection_outcome.splits)
  then show "\<forall>t \<in> set (ps_outputs psbt). DUST_LIMIT_SATS \<le> to_value t" by (auto simp: list_ex_iff not_less)
  show "ss_subsidy_sats sel < sum_outputs (ps_outputs psbt)" using sub by simp
  from sel selected_candidates show "ss_selected sel \<noteq> []"
    and "set (ss_selected sel) \<subseteq> set (confirmed_p2wpkh_candidates (wl_confirmed_utxos (se_wallet e) (sw_wallet s)) (sw_spent s))" by blast+
qed

lemma attempt_broadcastE:
  assumes "attempt_subsidized e batch destination rate s = (SubBroadcast i sub, s')"
  obtains psbt lw sel tx w where "plan_subsidy e (map bm_descriptor batch) destination rate s = Inr (psbt, lw, sel)"
    and "broadcast_subsidized e sel tx (s\<lparr> sw_wallet := w \<rparr>) = (SubBroadcast i sub, s')"
proof (cases "plan_subsidy e (map bm_descriptor batch) destination rate s")
  case (Inl out)
  then have "out \<noteq> SubBroadcast i sub"
    by (auto simp: plan_subsidy_def Let_def split: option.splits prod.splits if_splits selection_outcome.splits)
  with Inl assms show ?thesis by (simp add: attempt_subsidized_def)
next
  case (Inr p)
  obtain psbt lw sel where "p = (psbt, lw, sel)" by (rule prod_cases3)
  with Inr assms that show ?thesis by (auto simp: attempt_subsidized_def split: prod.splits sum.splits)
qed

lemma broadcast_marks:
  assumes "broadcast_subsidized e sel tx s = (SubBroadcast i sub, s')"
  shows "sub = ss_subsidy_sats sel \<and> sw_spent s' = sw_spent s \<union> si_outpoint ` set (ss_selected sel)"
  using assms by (auto simp: broadcast_subsidized_def Let_def mark_subsidy_inputs_spent_def split: prod.splits broadcast_outcome.splits bool.splits)

text \<open>C15: A subsidized sweep stays within its policy: when it broadcasts, LDK's part of the transaction has no
  output under the dust limit and recovers strictly more than the subsidy the wallet adds; the coins
  it adds are confirmed P2WPKH coins of the wallet, none of them used by an earlier subsidized
  sweep of the session, and all of them are marked as used afterwards.\<close>
theorem subsidized_sweep_within_policy:
  assumes "attempt_subsidized e batch destination rate s = (SubBroadcast i sub, s')"
  shows "\<exists>psbt lw. \<exists>coins :: subsidy_input list. sp_create_psbt (se_spender e) (map bm_descriptor batch) destination FLOOR_FEERATE_SAT_PER_KW = Some (psbt, lw)
    \<and> (\<forall>t \<in> set (ps_outputs psbt). DUST_LIMIT_SATS \<le> to_value t) \<and> sub < sum_outputs (ps_outputs psbt)
    \<and> coins \<noteq> [] \<and> (\<forall>c \<in> set coins. si_outpoint c \<notin> sw_spent s \<and> is_p2wpkh (si_script_pubkey c)
         \<and> (si_outpoint c, \<lparr> to_value = si_value_sats c, to_script = si_script_pubkey c \<rparr>) \<in> set (wl_confirmed_utxos (se_wallet e) (sw_wallet s)))
    \<and> sw_spent s' = sw_spent s \<union> si_outpoint ` set coins"
proof -
  from assms obtain psbt lw sel tx w where p: "plan_subsidy e (map bm_descriptor batch) destination rate s = Inr (psbt, lw, sel)"
    and b: "broadcast_subsidized e sel tx (s\<lparr> sw_wallet := w \<rparr>) = (SubBroadcast i sub, s')" by (rule attempt_broadcastE)
  note pol = plan_subsidy_policy[OF p]
  have coins: "\<forall>c \<in> set (ss_selected sel). si_outpoint c \<notin> sw_spent s \<and> is_p2wpkh (si_script_pubkey c)
      \<and> (si_outpoint c, \<lparr> to_value = si_value_sats c, to_script = si_script_pubkey c \<rparr>) \<in> set (wl_confirmed_utxos (se_wallet e) (sw_wallet s))"
    using pol(4) candidate_coins by blast
  from broadcast_marks[OF b] have marks: "sub = ss_subsidy_sats sel" "sw_spent s' = sw_spent s \<union> si_outpoint ` set (ss_selected sel)" by auto
  show ?thesis by (intro exI conjI) (rule plan_subsidy_psbt[OF p] pol(1) pol(2)[folded marks(1)] pol(3) coins marks(2))+
qed

section \<open>A concrete pipeline\<close>

text \<open>Descriptors are bytes, a transaction is the list of the descriptors it spends and the wallet is the
  list of its revealed scripts; the network takes everything.\<close>

definition example_spender :: "(u8, u8 list, unit) spender" where
  "example_spender = \<lparr> sp_encode = (\<lambda>d. [d]), sp_read = (\<lambda>bs. case bs of [d] \<Rightarrow> Some d | _ \<Rightarrow> None),
     sp_view = (\<lambda>d. StaticOutput \<lparr> to_value = 1000, to_script = [d] \<rparr> None), sp_outpoint = (\<lambda>d. (''aa'', ucast d)),
     sp_spend = (\<lambda>ds dest rate. if length ds > 1 then Some ds else None),
     sp_create_psbt = (\<lambda>ds dest rate. Some (\<lparr> ps_inputs = [\<lparr> pi_outpoint = (''aa'', 0), pi_sequence = 0,
         pi_witness_utxo = Some \<lparr> to_value = 9000, to_script = [] \<rparr>, pi_rest = Some () \<rparr>], ps_outputs = [\<lparr> to_value = 8750, to_script = dest \<rparr>] \<rparr>, 1000)),
     sp_sign_psbt = (\<lambda>ds p. Some p), sp_probe_psbt = (\<lambda>_ _ _ _. None),
     sp_fee = (\<lambda>p. Inr (sum_outputs (List.map_filter pi_witness_utxo (ps_inputs p)) - sum_outputs (ps_outputs p))),
     sp_extract_tx = (\<lambda>p. Some [1]), sp_txid = hex_str, sp_outputs = (\<lambda>tx. [\<lparr> to_value = 900, to_script = [] \<rparr>]), sp_weight = (\<lambda>tx. 600) \<rparr>"

definition example_wallet :: "(script list, u8 list, unit) sweep_wallet" where
  "example_wallet = \<lparr> wl_is_mine = (\<lambda>sc w. sc \<in> set w), wl_peek_external = (\<lambda>i w. [ucast i]),
     wl_destination = (\<lambda>i w. (Inr [ucast i], [ucast i] # w)), wl_reveal_next = (\<lambda>w. (Inr [7], [7] # w)),
     wl_change_script = (\<lambda>w. (Inr (0x00 # 0x14 # replicate 20 9), w)),
     wl_confirmed_utxos = (\<lambda>w. [((''bb'', 1), \<lparr> to_value = 9000, to_script = 0x00 # 0x14 # replicate 20 3 \<rparr>)]),
     wl_sign_trusted = (\<lambda>p w. (Inr True, p, w)), wl_apply_unconfirmed = (\<lambda>tx t w. w) \<rparr>"

definition example_sweep_env :: "(mem, mem, u8, script list, nat, u8 list, unit) sweep_env" where
  "example_sweep_env = \<lparr> se_disk = mem_disk, se_codec = unary_codec, se_close = \<lparr> ce_local = mem_disk, ce_codec = unary_codec \<rparr>,
     se_spender = example_spender, se_wallet = example_wallet,
     se_broadcast = \<lparr> sb_persist_pending = (\<lambda>tx n. n), sb_broadcast = (\<lambda>tx n. (Accepted, Suc n)), sb_tx_known = (\<lambda>i n. (True, n)) \<rparr>,
     se_fees = fee_estimator_new, se_reserve = 2000, se_now_ms = 5, se_now_secs = 5 \<rparr>"

interpretation example_sweep: sweep_disk example_sweep_env
  by (rule sweep_disk.intro) (simp_all add: example_sweep_env_def mem_kv.removable_store_axioms, simp add: mem_disk_def mem_list_def)

interpretation example_sweep_wallet: sweep_wallet_laws example_wallet
  by unfold_locales (simp_all add: example_wallet_def)

definition example_sweep_world :: "(mem, mem, script list, nat) sweep_world" where
  "example_sweep_world = \<lparr> sw_disk = [], sw_flags = \<lparr> sf_last_attempt_failed = False, sf_shortfall_sats = None \<rparr>,
     sw_close = \<lparr> records = [], funding_txos = [], cs_loc = [], vss_attached = False, scheduled = [], last_tip_height = None \<rparr>,
     sw_wallet = [[5]], sw_net = 0, sw_spent = {}, sw_in_progress = False, sw_notified = 0 \<rparr>"

definition example_entry :: stored_entry where
  "example_entry = \<lparr> en_descriptors = [''01'', ''02'', ''05''], en_channel_id_hex = None, en_outpoints = [] \<rparr>"

definition example_tracked_world :: "(mem, mem, script list, nat) sweep_world" where
  "example_tracked_world = example_sweep_world\<lparr> sw_disk := snd (write_entry example_sweep_env ''k'' example_entry []) \<rparr>"



lemma example_plan:
  "plan_subsidy example_sweep_env [1] [7] 10 example_sweep_world
     = Inr (\<lparr> ps_inputs = [\<lparr> pi_outpoint = (''aa'', 0), pi_sequence = 0,
         pi_witness_utxo = Some \<lparr> to_value = 9000, to_script = [] \<rparr>, pi_rest = Some () \<rparr>], ps_outputs = [\<lparr> to_value = 8750, to_script = [7] \<rparr>] \<rparr>, 1000,
       \<lparr> ss_selected = [\<lparr> si_outpoint = (''bb'', 1), si_value_sats = 9000, si_script_pubkey = 0x00 # 0x14 # replicate 20 3 \<rparr>],
         ss_change_sats = Some 5760, ss_total_fee_sats = 3490, ss_subsidy_sats = 3240 \<rparr>)"
  by code_simp

definition example_batch :: "u8 batch_member list" where
  "example_batch = [\<lparr> bm_bytes = [1], bm_descriptor = 1, bm_entry_key = ''k'' \<rparr>]"

lemma example_fee_cap: "check_fee_sanity 3490 1396 (fee_sanity_max_sat_per_kw fee_estimator_new) = Inr ()"
proof -
  have "get_est_sat_per_1000_weight UrgentOnChainSweep fee_estimator_new = 2500" by (rule fresh_urgent_rate)
  then show ?thesis by (simp add: fee_sanity_max_sat_per_kw_def FEE_SANITY_MULTIPLIER_def check_fee_sanity_def Let_def saturating_mul_def)
qed

lemma hex_01: "hex_str [1] = ''01''"
  by code_simp

lemma example_rescue:
  "\<exists>s'. attempt_subsidized example_sweep_env example_batch [7] 10 example_sweep_world = (SubBroadcast ''01'' 3240, s')"
  using example_plan example_fee_cap
  by (simp add: attempt_subsidized_def example_batch_def Let_def change_output_def sign_subsidy_def broadcast_subsidized_def
      example_sweep_env_def example_wallet_def example_spender_def append_subsidy_def sum_outputs_def estimated_weight_def List.map_filter_def
      SUBSIDY_INPUT_WEIGHT_WU_def CHANGE_OUTPUT_WEIGHT_WU_def hex_01)

theorem subsidized_sweep_within_policy_witness:
  "(3240 :: u64) < 8750 \<and> (''bb'', 1) \<in> sw_spent (snd (attempt_subsidized example_sweep_env example_batch [7] 10 example_sweep_world))"
proof -
  obtain s' where r: "attempt_subsidized example_sweep_env example_batch [7] 10 example_sweep_world = (SubBroadcast ''01'' 3240, s')"
    using example_rescue by blast
  from subsidized_sweep_within_policy[OF r] obtain coins :: "subsidy_input list" where c: "coins \<noteq> []" "sw_spent s' = sw_spent example_sweep_world \<union> si_outpoint ` set coins"
      "\<forall>c \<in> set coins. (si_outpoint c, \<lparr> to_value = si_value_sats c, to_script = si_script_pubkey c \<rparr>)
        \<in> set (wl_confirmed_utxos (se_wallet example_sweep_env) (sw_wallet example_sweep_world))" by blast
  from c(1,3) have "hd coins \<in> set coins \<and> si_outpoint (hd coins) = (''bb'', 1)"
    by (simp add: example_sweep_env_def example_wallet_def)
  with c(2) r show ?thesis by force
qed

end
