(* ===== verification/Close_Reconcile.thy ===== *)
theory Close_Reconcile
  imports Close_Store
begin

text \<open>
  What the close-record store and the reconcile pass of \<open>Close_Store\<close> guarantee: facts are never
  lost, the query budget is respected, a record is completed only on positive evidence and never
  while its channel has unswept outputs.
\<close>

section \<open>The store only gains facts\<close>

definition store_wf :: "'l close_store \<Rightarrow> bool" where
  "store_wf s \<longleftrightarrow> bt_wf (records s) \<and> (\<forall>cid r. get_record s cid = Some r \<longrightarrow> cr_channel_id r = cid)"

definition store_le :: "'l close_store \<Rightarrow> 'l close_store \<Rightarrow> bool" where
  "store_le s s' \<longleftrightarrow>
     (\<forall>cid r. get_record s cid = Some r \<longrightarrow> (\<exists>r'. get_record s' cid = Some r' \<and> record_le r r'))"

lemma store_le_refl [simp]: "store_le s s"
  by (auto simp: store_le_def)

lemma store_le_trans: "store_le a b \<Longrightarrow> store_le b c \<Longrightarrow> store_le a c"
  unfolding store_le_def by (meson record_le_trans)

lemma upsert_sel [simp]:
  "records (upsert e inc s) = merge_into (cr_channel_id inc) inc (records s)"
  "last_tip_height (upsert e inc s) = last_tip_height s"
  by (simp_all add: upsert_def persist_records_locally_def sync_vss_def Let_def)

lemma get_record_upsert:
  "get_record (upsert e inc s) cid =
     (if cid = cr_channel_id inc
      then Some (case get_record s cid of Some r \<Rightarrow> merge_close_records r inc | None \<Rightarrow> inc)
      else get_record s cid)"
  by (simp add: get_record_def merge_into_def bt_get_insert)

lemma get_record_frame [simp]:
  "get_record (remove_funding_txo e cid s) = get_record s"
  "get_record (s\<lparr> last_tip_height := t \<rparr>) = get_record s"
  by (simp_all add: get_record_def remove_funding_txo_def persist_funding_txos_def fun_eq_iff)

lemma records_frame [simp]:
  "records (remove_funding_txo e cid s) = records s"
  by (simp add: remove_funding_txo_def persist_funding_txos_def)

lemma upsert_le: "store_le s (upsert e inc s)"
  by (auto simp: store_le_def get_record_upsert merge_close_records_le)

lemma upsert_wf:
  assumes "store_wf s"
  shows "store_wf (upsert e inc s)"
  using assms
  by (auto simp: store_wf_def get_record_upsert merge_into_def merge_close_records_def split: option.splits)

lemma tip_wf [simp]: "store_wf (s\<lparr> last_tip_height := t \<rparr>) = store_wf s"
  "store_wf (remove_funding_txo e cid s) = store_wf s"
  by (simp_all add: store_wf_def)

lemma complete_record_cases:
  "complete_record e wallet r facts tip pending now_ms s = s
   \<or> (\<exists>res. complete_record e wallet r facts tip pending now_ms s = upsert e (completion_of facts now_ms res) s)"
  unfolding complete_record_def Let_def by (simp split: if_splits) blast

lemma complete_record_le: "store_le s (complete_record e wallet r facts tip pending now_ms s)"
  using complete_record_cases[of e wallet r facts tip pending now_ms s] upsert_le by fastforce

lemma complete_record_wf: "store_wf s \<Longrightarrow> store_wf (complete_record e wallet r facts tip pending now_ms s)"
  using complete_record_cases[of e wallet r facts tip pending now_ms s] upsert_wf by fastforce

text \<open>The facts a pass gathers about a record say nothing about its completion or its amount.\<close>

definition plain_facts :: "string \<Rightarrow> close_record \<Rightarrow> bool" where
  "plain_facts cid f \<longleftrightarrow> cr_channel_id f = cid \<and> completed_at_ms f = None \<and> cr_resolution f = None
     \<and> expected_amount_sats f = None"

lemma plain_skeleton [simp]: "plain_facts cid (skeleton cid t)"
  by (simp add: plain_facts_def skeleton_def)

lemma discover_plain:
  assumes "discover_close ch r f b w = (Inr (f', c'), b', w')" and "plain_facts cid f"
  shows "plain_facts cid f'"
  using assms by (auto simp: discover_close_def plain_facts_def split: option.splits prod.splits sum.splits)

lemma note_heights_plain:
  assumes "note_heights ch ts f c b w = (Inr (f', c'), b', w')" and "plain_facts cid f"
  shows "plain_facts cid f'"
  using assms
proof (induction ch ts f c b w rule: note_heights.induct)
  case (2 ch tx rest f c b w)
  obtain q b1 w1 where q: "with_budget b (c_tx_confirmed_height ch (txid tx)) w = (q, b1, w1)"
    by (metis prod_cases3)
  show ?case
  proof (cases "confirmed_at_height tx")
    case (Some h)
    with 2 show ?thesis by simp
  next
    case None
    show ?thesis
    proof (cases q)
      case (Inl err)
      with None q 2 show ?thesis by simp
    next
      case (Inr hopt)
      with None q 2 show ?thesis
        by (cases hopt) (auto simp: plain_facts_def)
    qed
  qed
qed simp

lemma derive_timelock_plain:
  "derive_timelock r f c = (f', c') \<Longrightarrow> plain_facts cid f \<Longrightarrow> plain_facts cid f'"
  by (auto simp: derive_timelock_def plain_facts_def split: if_splits option.splits)

text \<open>A reconcile step either fails and leaves the store alone, or applies the facts it gathered.\<close>

lemma reconcile_one_cases:
  assumes "reconcile_one_record e ch wallet r tip_changed tip pending now_ms budget s w = (res, b', s', w')"
  obtains (error) err where "res = Inl err" "s' = s"
  | (applied) facts changed s1 where "res = Inr ()" "plain_facts (cr_channel_id r) facts"
      "s1 = (if changed then upsert e facts s else s)"
      "s' = (if tip_changed then complete_record e wallet r facts tip pending now_ms s1 else s1)"
proof -
  obtain d b1 w1 where d: "discover_close ch r (skeleton (cr_channel_id r) (created_at_ms r)) budget w = (d, b1, w1)"
    by (metis prod_cases3)
  show ?thesis
  proof (cases d)
    case (Inl err)
    with assms d error show ?thesis by (auto simp: reconcile_one_record_def)
  next
    case (Inr fc)
    obtain f1 c1 where fc: "fc = (f1, c1)" by fastforce
    have p1: "plain_facts (cr_channel_id r) f1"
      using discover_plain[OF d[unfolded Inr fc]] by simp
    obtain h b2 w2 where h: "(if tip_changed then note_heights ch (txs r) f1 c1 b1 w1 else (Inr (f1, c1), b1, w1)) = (h, b2, w2)"
      by (metis prod_cases3)
    show ?thesis
    proof (cases h)
      case (Inl err)
      with assms d Inr fc h error show ?thesis by (auto simp: reconcile_one_record_def)
    next
      case h2: (Inr fc2)
      obtain f2 c2 where fc2: "fc2 = (f2, c2)" by fastforce
      have p2: "plain_facts (cr_channel_id r) f2"
        using h h2 fc2 p1 note_heights_plain[of ch "txs r" f1 c1 b1 w1 f2 c2 b2 w2] by (auto split: if_splits)
      obtain f3 c3 where t: "derive_timelock r f2 c2 = (f3, c3)" by fastforce
      from applied[OF _ derive_timelock_plain[OF t p2], of "if c3 then upsert e f3 s else s" c3]
        assms d Inr fc h h2 fc2 t
      show ?thesis by (simp add: reconcile_one_record_def Let_def)
    qed
  qed
qed

lemma reconcile_one_le:
  assumes "reconcile_one_record e ch wallet r tip_changed tip pending now_ms budget s w = (res, b', s', w')"
  shows "store_le s s' \<and> (store_wf s \<longrightarrow> store_wf s')"
  using assms
proof (cases rule: reconcile_one_cases)
  case (applied facts changed s1)
  then have "store_le s s1 \<and> (store_wf s \<longrightarrow> store_wf s1)" by (simp add: upsert_le upsert_wf)
  moreover have "store_le s1 s' \<and> (store_wf s1 \<longrightarrow> store_wf s')"
    using applied(4) by (simp add: complete_record_le complete_record_wf)
  ultimately show ?thesis using store_le_trans by blast
qed simp

lemma reconcile_records_le:
  assumes "reconcile_records e ch wallet tip_changed tip pending now_ms rs b s w = (b', s', w')"
  shows "store_le s s' \<and> (store_wf s \<longrightarrow> store_wf s')"
  using assms
proof (induction rs arbitrary: b s w)
  case (Cons r rs)
  obtain res b1 s1 w1 where o: "reconcile_one_record e ch wallet r tip_changed tip pending now_ms b s w = (res, b1, s1, w1)"
    by (metis prod_cases4)
  note step = reconcile_one_le[OF o]
  show ?case
  proof (cases "b1 = 0")
    case True
    with Cons.prems o step show ?thesis by simp
  next
    case False
    with Cons.prems o have "reconcile_records e ch wallet tip_changed tip pending now_ms rs b1 s1 w1 = (b', s', w')"
      by simp
    from Cons.IH[OF this] step show ?thesis using store_le_trans by blast
  qed
qed simp

lemma safety_net_le: "store_le s (safety_net e ids now fm s) \<and> (store_wf s \<longrightarrow> store_wf (safety_net e ids now fm s))"
proof (induction fm arbitrary: s)
  case (Cons x fm)
  obtain cid f where x: "x = (cid, f)" by fastforce
  define s1 where "s1 = (if cid \<in> ids then s else if get_record s cid \<noteq> None then remove_funding_txo e cid s
       else remove_funding_txo e cid
         (upsert e ((skeleton cid now)\<lparr> funding_txo := Some \<lparr> op_txid = ft_txid f, op_vout = ft_vout f \<rparr>,
            closure_reason := Some OFFLINE_CLOSE_REASON, timelock_blocks := ft_timelock_blocks f \<rparr>) s))"
  have "store_le s s1 \<and> (store_wf s \<longrightarrow> store_wf s1)"
    using upsert_le[of s e] upsert_wf[of s e] by (auto simp: s1_def store_le_def)
  with Cons.IH[of s1] show ?case
    using store_le_trans by (auto simp: safety_net_def x s1_def)
qed (simp add: safety_net_def)

section \<open>The query budget\<close>

definition counts_queries :: "'w chain \<Rightarrow> ('w \<Rightarrow> nat) \<Rightarrow> bool" where
  \<comment> \<open>\<open>count\<close> is the number of budgeted queries the network has seen\<close>
  "counts_queries ch count \<longleftrightarrow>
     (\<forall>i v w. count (snd (c_outspend ch i v w)) = Suc (count w))
     \<and> (\<forall>i w. count (snd (c_tx_confirmed_height ch i w)) = Suc (count w))
     \<and> (\<forall>w. count (snd (c_tip_height ch w)) = count w)"

lemma with_budget_count:
  assumes "with_budget b q w = (r, b', w')" and "\<And>w. count (snd (q w)) = Suc (count w)"
  shows "count w' + b' = count w + (b :: nat)"
  using assms(1) assms(2)[of w] by (auto simp: with_budget_def split: if_splits prod.splits)

lemma discover_count:
  assumes "counts_queries ch count" and "discover_close ch r f b w = (res, b', w')"
  shows "count w' + b' = count w + b"
proof (cases "if has_confirmed_close_tx r then None else funding_txo r")
  case None
  with assms(2) show ?thesis by (auto simp: discover_close_def)
next
  case (Some txo)
  obtain q b1 w1 where q: "with_budget b (c_outspend ch (op_txid txo) (op_vout txo)) w = (q, b1, w1)"
    by (metis prod_cases3)
  have c1: "count w1 + b1 = count w + b"
    using with_budget_count[OF q, of count] assms(1) by (simp add: counts_queries_def)
  show ?thesis
  proof (cases "\<exists>spender. q = Inr (Some spender)")
    case False
    then show ?thesis
      using assms(2) Some q c1 by (auto simp: discover_close_def split: sum.splits option.splits)
  next
    case True
    then obtain sp where sp: "q = Inr (Some sp)" by blast
    obtain q2 b2 w2 where q2: "with_budget b1 (c_tx_confirmed_height ch sp) w1 = (q2, b2, w2)"
      by (metis prod_cases3)
    have "count w2 + b2 = count w1 + b1"
      using with_budget_count[OF q2, of count] assms(1) by (simp add: counts_queries_def)
    with assms(2) Some q sp q2 c1 show ?thesis
      by (auto simp: discover_close_def split: sum.splits)
  qed
qed

lemma note_heights_count:
  assumes "counts_queries ch count" and "note_heights ch ts f c b w = (res, b', w')"
  shows "count w' + b' = count w + b"
  using assms(2)
proof (induction ts arbitrary: f c b w)
  case (Cons tx ts)
  obtain q b1 w1 where q: "with_budget b (c_tx_confirmed_height ch (txid tx)) w = (q, b1, w1)"
    by (metis prod_cases3)
  have c1: "count w1 + b1 = count w + b"
    using with_budget_count[OF q, of count] assms(1) by (simp add: counts_queries_def)
  show ?case
  proof (cases "confirmed_at_height tx")
    case None
    with Cons q c1 show ?thesis by (fastforce split: sum.splits option.splits)
  next
    case (Some h)
    with Cons show ?thesis by simp
  qed
qed simp

lemma reconcile_one_count:
  assumes "counts_queries ch count"
    and "reconcile_one_record e ch wallet r tip_changed tip pending now_ms b s w = (res, b', s', w')"
  shows "count w' + b' = count w + b"
proof -
  obtain d b1 w1 where d: "discover_close ch r (skeleton (cr_channel_id r) (created_at_ms r)) b w = (d, b1, w1)"
    by (metis prod_cases3)
  note c1 = discover_count[OF assms(1) d]
  show ?thesis
  proof (cases d)
    case (Inl err)
    with assms(2) d c1 show ?thesis by (auto simp: reconcile_one_record_def)
  next
    case (Inr fc)
    obtain f1 ch1 where fc: "fc = (f1, ch1)" by fastforce
    obtain h b2 w2 where h: "(if tip_changed then note_heights ch (txs r) f1 ch1 b1 w1 else (Inr (f1, ch1), b1, w1)) = (h, b2, w2)"
      by (metis prod_cases3)
    have "count w2 + b2 = count w1 + b1"
      using h note_heights_count[OF assms(1), of "txs r" f1 ch1 b1 w1 h b2 w2] by (auto split: if_splits)
    with assms(2) d Inr fc h c1 show ?thesis
      by (auto simp: reconcile_one_record_def Let_def split: sum.splits prod.splits)
  qed
qed

lemma reconcile_records_count:
  assumes "counts_queries ch count"
    and "reconcile_records e ch wallet tip_changed tip pending now_ms rs b s w = (b', s', w')"
  shows "count w' + b' = count w + b"
  using assms(2)
proof (induction rs arbitrary: b s w)
  case (Cons r rs)
  obtain res b1 s1 w1 where o: "reconcile_one_record e ch wallet r tip_changed tip pending now_ms b s w = (res, b1, s1, w1)"
    by (metis prod_cases4)
  from reconcile_one_count[OF assms(1) o] Cons.IH[of b1 s1 w1] Cons.prems o show ?case
    by (auto split: if_splits)
qed simp

section \<open>Evidence for completion\<close>

definition evidence :: "(string \<Rightarrow> bool) \<Rightarrow> u32 \<Rightarrow> string set \<Rightarrow> close_record \<Rightarrow> bool" where
  "evidence wallet tip pending c \<longleftrightarrow>
     cr_channel_id c \<notin> pending \<and> completed_at_ms c \<noteq> None \<and>
     (cr_resolution c = Some Verified
        \<and> (list_ex (is_receipt wallet tip) (txs c)
            \<or> expected_amount_sats c = Some 0 \<and> deep_conf tip (close_height_of c))
      \<or> cr_resolution c = Some UnverifiedRes \<and> deep_conf tip (close_height_of c))"

lemma is_receipt_le: "tx_le a b \<Longrightarrow> is_receipt wallet tip a \<Longrightarrow> is_receipt wallet tip b"
  by (auto simp: is_receipt_def tx_le_def deep_conf_def split: option.splits)

lemma get_record_upsert_other:
  "cid \<noteq> cr_channel_id inc \<Longrightarrow> get_record (upsert e inc s) cid = get_record s cid"
  by (simp add: get_record_upsert)

lemma complete_record_frame:
  assumes "plain_facts (cr_channel_id r) facts" and "cid \<noteq> cr_channel_id r"
  shows "get_record (complete_record e wallet r facts tip pending now_ms s) cid = get_record s cid"
  using complete_record_cases[of e wallet r facts tip pending now_ms s] assms
  by (auto simp: get_record_upsert_other plain_facts_def completion_of_def)

definition unresolved :: "close_record \<Rightarrow> bool" where
  "unresolved c \<longleftrightarrow> completed_at_ms c = None \<and> cr_resolution c = None"

lemma unresolved_merge_plain: "unresolved c \<Longrightarrow> plain_facts cid f \<Longrightarrow> unresolved (merge_close_records c f)"
  by (simp add: unresolved_def plain_facts_def merge_close_records_def)

lemma merge_completion:
  assumes "unresolved c" and "plain_facts cid f"
  shows "cr_resolution (merge_close_records c (completion_of f now res)) = Some res"
    and "txs (merge_close_records c (completion_of f now res)) = txs c"
    and "cr_channel_id (merge_close_records c (completion_of f now res)) = cr_channel_id c"
    and "expected_amount_sats (merge_close_records c (completion_of f now res)) = expected_amount_sats c"
    and "completed_at_ms (merge_close_records c (completion_of f now res)) = Some now"
  using assms
  by (cases res; simp add: unresolved_def plain_facts_def merge_close_records_def completion_of_def)+

lemma close_height_of_txs: "txs a = txs b \<Longrightarrow> close_height_of a = close_height_of b"
  by (simp add: close_height_of_def close_tx_of_def)

lemma complete_record_evidence:
  assumes cur: "get_record s (cr_channel_id r) = Some cur" "unresolved cur"
    and facts: "plain_facts (cr_channel_id r) facts"
    and post: "get_record (complete_record e wallet r facts tip pending now_ms s) (cr_channel_id r) = Some c"
  shows "unresolved c \<or> evidence wallet tip pending c"
proof -
  have u: "get_record (upsert e (completion_of facts now_ms res) s) (cr_channel_id r)
           = Some (merge_close_records cur (completion_of facts now_ms res))" for res
    using cur(1) facts by (simp add: get_record_upsert plain_facts_def completion_of_def)
  note m = merge_completion[OF cur(2) facts, of now_ms]
  have h: "close_height_of (merge_close_records cur (completion_of facts now_ms res)) = close_height_of cur" for res
    by (rule close_height_of_txs) (rule m(2))
  show ?thesis
    using post cur
    by (auto simp: complete_record_def Let_def evidence_def u m h split: if_splits)
qed

lemma reconcile_one_evidence:
  assumes run: "reconcile_one_record e ch wallet r tip_changed tip pending now_ms b s w = (res, b', s', w')"
    and cur: "get_record s (cr_channel_id r) = Some cur" "unresolved cur"
  shows "(\<forall>cid. cid \<noteq> cr_channel_id r \<longrightarrow> get_record s' cid = get_record s cid)
    \<and> (\<exists>c. get_record s' (cr_channel_id r) = Some c \<and> (unresolved c \<or> evidence wallet tip pending c))"
  using run
proof (cases rule: reconcile_one_cases)
  case (error err)
  with cur show ?thesis by auto
next
  case (applied facts changed s1)
  have id: "cr_channel_id facts = cr_channel_id r" using applied(2) by (simp add: plain_facts_def)
  have frame1: "cid \<noteq> cr_channel_id r \<Longrightarrow> get_record s1 cid = get_record s cid" for cid
    using applied(3) id by (simp add: get_record_upsert_other)
  obtain c1 where c1: "get_record s1 (cr_channel_id r) = Some c1" "unresolved c1"
    using applied(2,3) id cur unresolved_merge_plain[OF cur(2) applied(2)]
    by (cases changed) (auto simp: get_record_upsert)
  have keep: "\<exists>c. get_record s' (cr_channel_id r) = Some c"
    using c1(1) applied(4) complete_record_le[of s1 e wallet r facts tip pending now_ms]
    by (cases tip_changed) (auto simp: store_le_def)
  show ?thesis
  proof (cases tip_changed)
    case True
    then have s': "s' = complete_record e wallet r facts tip pending now_ms s1" using applied(4) by simp
    obtain c where c: "get_record s' (cr_channel_id r) = Some c" using keep by blast
    have "unresolved c \<or> evidence wallet tip pending c"
      using complete_record_evidence[OF c1 applied(2)] c s' by blast
    moreover have "get_record s' cid = get_record s cid" if "cid \<noteq> cr_channel_id r" for cid
      using complete_record_frame[OF applied(2) that, of e wallet tip pending now_ms s1] frame1[OF that] s' by simp
    ultimately show ?thesis using c by blast
  next
    case False
    with applied(4) frame1 c1 show ?thesis by auto
  qed
qed

definition only_on_evidence :: "(string \<Rightarrow> bool) \<Rightarrow> u32 \<Rightarrow> string set \<Rightarrow> 'l close_store \<Rightarrow> 'l close_store \<Rightarrow> bool" where
  "only_on_evidence wallet tip pending s s' \<longleftrightarrow>
     (\<forall>cid c. get_record s' cid = Some c \<longrightarrow>
        get_record s cid = Some c \<or> unresolved c \<or> evidence wallet tip pending c)"

lemma reconcile_records_evidence:
  assumes "reconcile_records e ch wallet tip_changed tip pending now_ms rs b s w = (b', s', w')"
    and "distinct (map cr_channel_id rs)"
    and "\<forall>r \<in> set rs. \<exists>cur. get_record s (cr_channel_id r) = Some cur \<and> unresolved cur"
  shows "only_on_evidence wallet tip pending s s'"
  using assms
proof (induction rs arbitrary: b s w)
  case Nil
  then show ?case by (simp add: only_on_evidence_def)
next
  case (Cons r rs)
  obtain res b1 s1 w1 where o: "reconcile_one_record e ch wallet r tip_changed tip pending now_ms b s w = (res, b1, s1, w1)"
    by (metis prod_cases4)
  obtain cur where cur: "get_record s (cr_channel_id r) = Some cur" "unresolved cur" using Cons.prems(3) by auto
  note step = reconcile_one_evidence[OF o cur]
  have one: "only_on_evidence wallet tip pending s s1"
    using step unfolding only_on_evidence_def by (metis option.inject)
  show ?case
  proof (cases "b1 = 0")
    case True
    with Cons.prems(1) o one show ?thesis by simp
  next
    case False
    then have run: "reconcile_records e ch wallet tip_changed tip pending now_ms rs b1 s1 w1 = (b', s', w')"
      using Cons.prems(1) o by simp
    have "\<forall>r' \<in> set rs. cr_channel_id r' \<noteq> cr_channel_id r" using Cons.prems(2) by (metis image_eqI distinct.simps(2) list.simps(9) set_map)
    then have "\<forall>r' \<in> set rs. \<exists>cur. get_record s1 (cr_channel_id r') = Some cur \<and> unresolved cur"
      using Cons.prems(3) step by fastforce
    with Cons.IH[OF run] Cons.prems(2) have "only_on_evidence wallet tip pending s1 s'" by simp
    with one show ?thesis unfolding only_on_evidence_def by blast
  qed
qed

definition store_ok :: "'l close_store \<Rightarrow> bool" where
  \<comment> \<open>well-formed, and no record has a resolution before it is completed\<close>
  "store_ok s \<longleftrightarrow> store_wf s
     \<and> (\<forall>cid c. get_record s cid = Some c \<longrightarrow> completed_at_ms c = None \<longrightarrow> unresolved c)"

lemma safety_net_ok:
  "store_ok s \<Longrightarrow> store_ok (safety_net e ids now fm s)
     \<and> (\<forall>cid c. get_record (safety_net e ids now fm s) cid = Some c \<longrightarrow> get_record s cid = Some c \<or> unresolved c)"
proof (induction fm arbitrary: s)
  case (Cons x fm)
  obtain cid f where x: "x = (cid, f)" by fastforce
  define rec0 where "rec0 = (skeleton cid now)\<lparr> funding_txo := Some \<lparr> op_txid = ft_txid f, op_vout = ft_vout f \<rparr>,
            closure_reason := Some OFFLINE_CLOSE_REASON, timelock_blocks := ft_timelock_blocks f \<rparr>"
  define s1 where "s1 = (if cid \<in> ids then s else if get_record s cid \<noteq> None then remove_funding_txo e cid s
       else remove_funding_txo e cid (upsert e rec0 s))"
  have rec0: "unresolved rec0" "cr_channel_id rec0 = cid"
    by (simp_all add: rec0_def skeleton_def unresolved_def)
  have wf: "store_wf s1" using Cons.prems upsert_wf[of s e] by (auto simp: s1_def store_ok_def)
  have get: "\<forall>i c. get_record s1 i = Some c \<longrightarrow> get_record s i = Some c \<or> unresolved c"
    by (auto simp: s1_def get_record_upsert rec0)
  have ok: "store_ok s1" using wf get Cons.prems by (auto simp: store_ok_def)
  have "safety_net e ids now (x # fm) s = safety_net e ids now fm s1"
    by (simp add: safety_net_def x s1_def rec0_def)
  with Cons.IH[OF ok] get show ?case by metis
qed (simp add: safety_net_def)

lemma pending_records_ok:
  assumes "store_ok s"
  shows "distinct (map cr_channel_id (pending_records s))"
    and "\<forall>r \<in> set (pending_records s). \<exists>cur. get_record s (cr_channel_id r) = Some cur \<and> unresolved cur"
proof -
  have wf: "bt_wf (records s)" and ids: "\<And>cid r. get_record s cid = Some r \<Longrightarrow> cr_channel_id r = cid"
    using assms by (auto simp: store_ok_def store_wf_def)
  have d: "distinct (map fst (records s))" using wf by (simp add: bt_wf_def strict_sorted_iff)
  have mem: "get_record s k = Some v" if "(k, v) \<in> set (records s)" for k v
    using that d by (simp add: get_record_def)
  have "map cr_channel_id (map snd (records s)) = map fst (records s)"
    using mem ids by (auto)
  then have "distinct (map cr_channel_id (map snd (records s)))" using d by presburger
  then have "distinct (map cr_channel_id (snapshot s))"
    by (simp only: snapshot_def distinct_map distinct_sort set_sort)
  then show "distinct (map cr_channel_id (pending_records s))"
    by (simp add: pending_records_def distinct_map_filter)
  show "\<forall>r \<in> set (pending_records s). \<exists>cur. get_record s (cr_channel_id r) = Some cur \<and> unresolved cur"
    using mem ids assms by (fastforce simp: pending_records_def snapshot_def store_ok_def)
qed

lemma evidence_completed: "evidence wallet tip pending c \<Longrightarrow> completed_at_ms c \<noteq> None"
  by (simp add: evidence_def)

lemma only_on_evidence_ok:
  assumes "only_on_evidence wallet tip pending s s'" and "store_ok s" and "store_wf s'"
  shows "store_ok s'"
  using assms evidence_completed unfolding store_ok_def only_on_evidence_def by blast

lemma reconcile_pass_cases:
  assumes "reconcile_close_records e ch wallet open_ids pending now_ms s w = (s', w')"
  obtains (idle) "s' = s" "w' = w \<or> w' = snd (c_tip_height ch w)"
  | (quiet) tip where "s' = s\<lparr> last_tip_height := Some tip \<rparr>" "w' = snd (c_tip_height ch w)"
  | (pass) tip tip_changed s2 b where "c_tip_height ch w = (Inr tip, snd (c_tip_height ch w))"
      "s2 = s\<lparr> last_tip_height := Some tip \<rparr>
        \<or> s2 = safety_net e open_ids now_ms (funding_txos s) (s\<lparr> last_tip_height := Some tip \<rparr>)"
      "reconcile_records e ch wallet tip_changed tip pending now_ms (pending_records s2)
         MAX_QUERIES_PER_PASS s2 (snd (c_tip_height ch w)) = (b, s', w')"
proof -
  obtain t w1 where t: "c_tip_height ch w = (t, w1)" by fastforce
  show ?thesis
  proof (cases t)
    case (Inl err)
    with assms t idle show ?thesis
      by (auto simp: reconcile_close_records_def Let_def split: if_splits)
  next
    case (Inr tip)
    define s1 where "s1 = s\<lparr> last_tip_height := Some tip \<rparr>"
    define tc where "tc = (last_tip_height s \<noteq> Some tip)"
    define s2 where "s2 = (if tc \<and> funding_txos s \<noteq> [] then safety_net e open_ids now_ms (funding_txos s) s1 else s1)"
    obtain b s3 w3 where r: "reconcile_records e ch wallet tc tip pending now_ms (pending_records s2)
         MAX_QUERIES_PER_PASS s2 w1 = (b, s3, w3)" by (metis prod_cases3)
    consider "(s', w') = (s, w)" | "(s', w') = (s1, w1)" | "(s', w') = (s3, w3)"
      using assms t Inr r unfolding reconcile_close_records_def Let_def
      by (simp add: s1_def[symmetric] tc_def[symmetric] s2_def[symmetric] split: if_splits)
        (auto simp: s2_def s1_def tc_def split: if_splits)
    then show ?thesis
    proof cases
      case 3
      with pass[of tip s2 tc b] t Inr r show ?thesis by (auto simp: s2_def s1_def)
    qed (use idle quiet t s1_def in auto)
  qed
qed

lemma reconcile_close_records_le:
  "store_le s (fst (reconcile_close_records e ch wallet open_ids pending now_ms s w))"
proof -
  obtain s' w' where r: "reconcile_close_records e ch wallet open_ids pending now_ms s w = (s', w')" by fastforce
  from r have "store_le s s'"
  proof (cases rule: reconcile_pass_cases)
    case (pass tip tc s2 b)
    have "store_le s (s\<lparr> last_tip_height := Some tip \<rparr>)" by (simp add: store_le_def)
    then have "store_le s s2" using pass(2) safety_net_le store_le_trans by blast
    with reconcile_records_le[OF pass(3)] show ?thesis using store_le_trans by blast
  qed (simp_all add: store_le_def)
  with r show ?thesis by simp
qed

section \<open>What a reconcile pass guarantees\<close>

text \<open>A reconcile pass never loses a fact: whatever the chain answers, errors included, every
  record that was in the store is still there afterwards, and every fact it held (identity, known
  transactions with their fees and confirmation heights, completion, a verified resolution) is kept.\<close>
theorem reconcile_pass_keeps_facts:
  "store_le s (fst (reconcile_close_records e ch wallet open_ids pending now_ms s w))"
  by (rule reconcile_close_records_le)

text \<open>C32: one reconcile pass makes at most \<open>MAX_QUERIES_PER_PASS\<close> outspend and transaction-status
  queries, however many records are pending and however many transactions they hold.\<close>
theorem reconcile_pass_query_bound:
  assumes "counts_queries ch count"
  shows "count (snd (reconcile_close_records e ch wallet open_ids pending now_ms s w))
           \<le> count w + MAX_QUERIES_PER_PASS"
proof -
  obtain s' w' where r: "reconcile_close_records e ch wallet open_ids pending now_ms s w = (s', w')" by fastforce
  have tip: "count (snd (c_tip_height ch w)) = count w" using assms by (simp add: counts_queries_def)
  from r have "count w' \<le> count w + MAX_QUERIES_PER_PASS"
  proof (cases rule: reconcile_pass_cases)
    case (pass tip tc s2 b)
    with reconcile_records_count[OF assms pass(3)] tip show ?thesis by simp
  qed (use tip in auto)
  with r show ?thesis by simp
qed

text \<open>C33: a reconcile pass completes a record only on positive evidence at the tip it read: every
  record it changes is still open, or it has no unswept outputs pending and it is verified with a
  receipt (a sweep, closing or commitment transaction with six confirmations that is in the wallet),
  verified with nothing to receive behind a deeply confirmed close, or unverified behind a deeply
  confirmed close. The store stays well-formed.\<close>
theorem completion_only_on_evidence:
  assumes "store_ok s"
  shows "store_ok (fst (reconcile_close_records e ch wallet open_ids pending now_ms s w))
    \<and> (\<forall>cid c. get_record (fst (reconcile_close_records e ch wallet open_ids pending now_ms s w)) cid = Some c \<longrightarrow>
          get_record s cid = Some c \<or> unresolved c
          \<or> (\<exists>tip. fst (c_tip_height ch w) = Inr tip \<and> evidence wallet tip pending c))"
proof -
  obtain s' w' where r: "reconcile_close_records e ch wallet open_ids pending now_ms s w = (s', w')" by fastforce
  have frame: "store_ok (s\<lparr> last_tip_height := t \<rparr>)" for t using assms by (simp add: store_ok_def)
  from r have "store_ok s' \<and> (\<forall>cid c. get_record s' cid = Some c \<longrightarrow> get_record s cid = Some c \<or> unresolved c
          \<or> (\<exists>tip. fst (c_tip_height ch w) = Inr tip \<and> evidence wallet tip pending c))"
  proof (cases rule: reconcile_pass_cases)
    case (pass tip tc s2 b)
    have s2: "store_ok s2 \<and> (\<forall>cid c. get_record s2 cid = Some c \<longrightarrow> get_record s cid = Some c \<or> unresolved c)"
      using pass(2) frame safety_net_ok[OF frame, of e open_ids now_ms "funding_txos s" "Some tip"] by auto
    have ev: "only_on_evidence wallet tip pending s2 s'"
      using reconcile_records_evidence[OF pass(3) pending_records_ok] s2 by simp
    have "store_wf s'" using reconcile_records_le[OF pass(3)] s2 by (simp add: store_ok_def)
    with ev s2 have "store_ok s'" using only_on_evidence_ok by blast
    moreover have "fst (c_tip_height ch w) = Inr tip" using pass(1) by (metis fst_conv)
    ultimately show ?thesis using ev s2 unfolding only_on_evidence_def by blast
  qed (use assms frame in auto)
  with r show ?thesis by simp
qed

text \<open>A superseded commitment blocks completion for good. If the first close-role transaction of
  a record has no confirmation height and no transaction of it is a receipt, the completion step
  leaves the store unchanged at every tip height, however deeply another close transaction of the
  same record is confirmed and however long its timelock has expired.\<close>
theorem superseded_commitment_never_completes:
  assumes "get_record s (cr_channel_id r) = Some cur"
    and "close_tx_of cur = Some stale" and "confirmed_at_height stale = None"
    and "\<not> list_ex (\<lambda>tx. wallet (txid tx)) (txs cur)"
  shows "complete_record e wallet r facts tip pending now_ms s = s"
proof -
  have "\<not> list_ex (is_receipt wallet tip) (txs cur)"
    using assms(4) by (auto simp: list_ex_iff is_receipt_def)
  moreover have "close_height_of cur = None" using assms(2,3) by (simp add: close_height_of_def)
  ultimately show ?thesis using assms(1) by (simp add: complete_record_def Let_def deep_conf_def)
qed

section \<open>A concrete store\<close>

definition example_chain :: "nat chain" where
  \<comment> \<open>a network that counts its queries, knows one spend and confirms everything at height 100\<close>
  "example_chain =
     \<lparr> c_tip_height = (\<lambda>w. (Inr 200, w)),
       c_outspend = (\<lambda>i v w. (Inr (Some ''spend''), Suc w)),
       c_tx_confirmed_height = (\<lambda>i w. (Inr (Some 100), Suc w)) \<rparr>"

definition example_disk :: "nat disk" where
  \<comment> \<open>a disk that accepts and counts writes\<close>
  "example_disk = \<lparr> d_read = (\<lambda>_ _ _ _. Inl ''NotFound''), d_write = (\<lambda>_ _ _ _ l. (Inr (), Suc l)),
     d_remove = (\<lambda>_ _ _ _ l. (Inr (), l)), d_list = (\<lambda>_ _ _. Inr []) \<rparr>"

definition example_env :: "nat close_env" where
  "example_env = \<lparr> ce_local = example_disk, ce_codec = unary_codec \<rparr>"

definition superseded_record :: close_record where
  "superseded_record = (skeleton ''cafe'' 5)\<lparr>
     txs := [\<lparr> txid = ''ours'', role = Commitment, fee_sats = None, confirmed_at_height = None \<rparr>,
             \<lparr> txid = ''theirs'', role = Commitment, fee_sats = None, confirmed_at_height = Some 100 \<rparr>] \<rparr>"

definition example_close_store :: "nat close_store" where
  "example_close_store =
     \<lparr> records = [(''cafe'', superseded_record)], funding_txos = [], cs_loc = 0, vss_attached = False,
       scheduled = [], last_tip_height = None \<rparr>"

lemma example_close_store_ok: "store_ok example_close_store"
  by (auto simp: store_ok_def store_wf_def bt_wf_def example_close_store_def superseded_record_def
      get_record_def skeleton_def unresolved_def split: if_splits)

theorem reconcile_pass_query_bound_witness:
  "counts_queries example_chain id
   \<and> id (snd (reconcile_close_records example_env example_chain (\<lambda>_. False) {} {} 9 example_close_store 3))
       \<le> id 3 + MAX_QUERIES_PER_PASS"
proof -
  have "counts_queries example_chain id" by (simp add: counts_queries_def example_chain_def)
  with reconcile_pass_query_bound[of example_chain id] show ?thesis by blast
qed

theorem completion_only_on_evidence_witness:
  "store_ok example_close_store
   \<and> store_ok (fst (reconcile_close_records example_env example_chain (\<lambda>_. True) {} {} 9 example_close_store 0))"
  using example_close_store_ok
    completion_only_on_evidence[of example_close_store example_env example_chain "\<lambda>_. True" "{}" "{}" 9 0]
  by blast

theorem superseded_commitment_never_completes_witness:
  "(\<exists>tx \<in> set (txs superseded_record). is_close (role tx) \<and> deep_conf 100000 (confirmed_at_height tx))
   \<and> complete_record example_env (\<lambda>_. False) superseded_record (skeleton ''cafe'' 5) 100000 {} 9 example_close_store
       = example_close_store"
proof
  show "\<exists>tx \<in> set (txs superseded_record). is_close (role tx) \<and> deep_conf 100000 (confirmed_at_height tx)"
    by (simp add: superseded_record_def deep_conf_def confirmations_def FINALITY_CONFS_def)
  have "get_record example_close_store (cr_channel_id superseded_record) = Some superseded_record"
    "close_tx_of superseded_record
       = Some \<lparr> txid = ''ours'', role = Commitment, fee_sats = None, confirmed_at_height = None \<rparr>"
    by (simp_all add: example_close_store_def superseded_record_def get_record_def skeleton_def close_tx_of_def)
  with superseded_commitment_never_completes[where cur = superseded_record and s = example_close_store
      and wallet = "\<lambda>_. False" and r = superseded_record and e = example_env]
  show "complete_record example_env (\<lambda>_. False) superseded_record (skeleton ''cafe'' 5) 100000 {} 9 example_close_store
       = example_close_store"
    by (simp add: list_ex_iff)
qed

end
