(* ===== verification/Recovery.thy ===== *)
theory Recovery
  imports Sweep_Safety Close_Reconcile
begin

text \<open>
  Force-close recovery, \<open>src/rust/src/recovery.rs\<close>, and the two background tasks of \<open>node/tasks.rs\<close> that
  drive it and the sweep engine: the persisted recovery state with its JSON form, the deposit estimate,
  entry from a \<open>BumpTransaction\<close> event, the exit tick that reads the close records and the sweep-based
  automatic recovery. The remote copy is a list of requests to the versioned store, events are counted.
\<close>

section \<open>State\<close>

datatype recovery_status = NeedsRecovery | SweepConfirmed

record recovery_state =
  rs_status :: recovery_status
  rs_stuck_balance_sat :: "u64 option"
  rs_deposit_address :: string
  rs_deposit_needed_sat :: u64
  rs_channel_ids :: "string list"
  rs_created_at :: u64
  rs_updated_at :: u64

fun status_to_json :: "recovery_status \<Rightarrow> json" where
  "status_to_json NeedsRecovery = JString ''needs_recovery''"
| "status_to_json SweepConfirmed = JString ''sweep_confirmed''"

definition status_of_name :: "string \<Rightarrow> recovery_status option" where
  "status_of_name n = (if n = ''needs_recovery'' then Some NeedsRecovery
     else if n = ''sweep_confirmed'' then Some SweepConfirmed else None)"

fun status_of_json :: "json \<Rightarrow> recovery_status option" where
  \<comment> \<open>a unit variant reads from its name, or from an object with the name and null\<close>
  "status_of_json (JString n) = status_of_name n"
| "status_of_json (JObject [(n, JNull)]) = status_of_name n"
| "status_of_json _ = None"

definition recovery_to_json :: "recovery_state \<Rightarrow> json" where
  "recovery_to_json st = JObject
     [(''channelIds'', JArray (map JString (rs_channel_ids st))), (''createdAt'', JNum (PosInt (rs_created_at st))),
      (''depositAddress'', JString (rs_deposit_address st)), (''depositNeededSat'', JNum (PosInt (rs_deposit_needed_sat st))),
      (''status'', status_to_json (rs_status st)),
      (''stuckBalanceSat'', case rs_stuck_balance_sat st of None \<Rightarrow> JNull | Some v \<Rightarrow> JNum (PosInt v)),
      (''updatedAt'', JNum (PosInt (rs_updated_at st)))]"

definition make_recovery ::
  "recovery_status option \<Rightarrow> u64 option option \<Rightarrow> string option \<Rightarrow> u64 option \<Rightarrow> string list option \<Rightarrow> u64 option \<Rightarrow> u64 option
     \<Rightarrow> recovery_state option"
where
  "make_recovery st b a n c t u =
     (case (st, b, a, n, c, t, u) of
        (Some st, Some b, Some a, Some n, Some c, Some t, Some u) \<Rightarrow>
          Some \<lparr> rs_status = st, rs_stuck_balance_sat = b, rs_deposit_address = a, rs_deposit_needed_sat = n,
                 rs_channel_ids = c, rs_created_at = t, rs_updated_at = u \<rparr>
      | _ \<Rightarrow> None)"

fun recovery_of_json :: "json \<Rightarrow> recovery_state option" where
  "recovery_of_json (JObject ob) =
     make_recovery (fld ob ''status'' status_of_json) (opt_fld ob ''stuckBalanceSat'' as_u64) (fld ob ''depositAddress'' as_str)
       (fld ob ''depositNeededSat'' as_u64) (fld ob ''channelIds'' (as_list as_str)) (fld ob ''createdAt'' as_u64) (fld ob ''updatedAt'' as_u64)"
| "recovery_of_json (JArray [st, b, a, n, c, t, u]) =
     make_recovery (status_of_json st) (as_option as_u64 b) (as_str a) (as_u64 n) (as_list as_str c) (as_u64 t) (as_u64 u)"
| "recovery_of_json _ = None"

section \<open>Deposit calculation\<close>

definition CPFP_VBYTES_ESTIMATE :: f64 where "CPFP_VBYTES_ESTIMATE = Fin 140"
definition DEPOSIT_STEP_SATS :: u64 where "DEPOSIT_STEP_SATS = 5000"
definition DEPOSIT_FALLBACK_SATS :: u64 where "DEPOSIT_FALLBACK_SATS = 25000"
definition AUTO_RECOVER_EVERY_TICKS :: u32 where "AUTO_RECOVER_EVERY_TICKS = 6"
definition SWEEP_RETRY_EVERY_TICKS :: u32 where "SWEEP_RETRY_EVERY_TICKS = 60"

definition div_ceil :: "u64 \<Rightarrow> u64 \<Rightarrow> u64" where
  "div_ceil a b = (if a mod b = 0 then a div b else a div b + 1)"

definition round_up_deposit_needed :: "u64 \<Rightarrow> u64" where
  "round_up_deposit_needed exact = div_ceil (div_ceil (saturating_mul exact 3) 2) DEPOSIT_STEP_SATS * DEPOSIT_STEP_SATS"

definition estimate_deposit_needed :: "f64 option \<Rightarrow> u64" where
  "estimate_deposit_needed rate =
     (case rate of
        Some r \<Rightarrow> if is_finite r \<and> f64_gt r 0 then round_up_deposit_needed (f64_as_u64 (fceil (fmul r CPFP_VBYTES_ESTIMATE)))
                  else DEPOSIT_FALLBACK_SATS
      | None \<Rightarrow> DEPOSIT_FALLBACK_SATS)"

definition close_confirmed_for_all_channels :: "string list \<Rightarrow> (string \<Rightarrow> close_record option) \<Rightarrow> bool" where
  "close_confirmed_for_all_channels ids get \<longleftrightarrow>
     ids \<noteq> [] \<and> list_all (\<lambda>cid. case get cid of
       None \<Rightarrow> False
     | Some r \<Rightarrow> completed_at_ms r \<noteq> None
         \<or> list_ex (\<lambda>t. (case role t of Closing \<Rightarrow> True | Commitment \<Rightarrow> True | _ \<Rightarrow> False) \<and> confirmed_at_height t \<noteq> None) (txs r)) ids"

section \<open>The store\<close>

definition RECOVERY_NS :: string where "RECOVERY_NS = ''force_close_recovery''"
definition RECOVERY_LOCAL_KEY :: string where "RECOVERY_LOCAL_KEY = ''state''"

datatype recovery_request = PutLww bytes | DeleteRemote

record 'm recovery_env =
  re_disk :: "'m disk"
  re_codec :: json_codec

record 'm recovery_store =
  rv_state :: "recovery_state option"
  rv_loc :: 'm
  rv_attached :: bool
  rv_remote :: "recovery_request list"
  rv_events :: nat

definition recovery_store_new :: "'m recovery_env \<Rightarrow> 'm \<Rightarrow> 'm recovery_store" where
  "recovery_store_new e l =
     \<lparr> rv_state = (case d_read (re_disk e) RECOVERY_NS [] RECOVERY_LOCAL_KEY l of
          Inl _ \<Rightarrow> None | Inr b \<Rightarrow> Option.bind (from_slice (re_codec e) b) recovery_of_json),
        rv_loc = l, rv_attached = False, rv_remote = [], rv_events = 0 \<rparr>"

definition recovery_reset :: "'m recovery_store \<Rightarrow> 'm recovery_store" where
  "recovery_reset s = s\<lparr> rv_state := None \<rparr>"

definition recovery_persist_locally :: "'m recovery_env \<Rightarrow> recovery_state \<Rightarrow> 'm recovery_store \<Rightarrow> 'm recovery_store" where
  "recovery_persist_locally e st s =
     s\<lparr> rv_loc := snd (d_write (re_disk e) RECOVERY_NS [] RECOVERY_LOCAL_KEY (to_vec (re_codec e) (recovery_to_json st)) (rv_loc s)) \<rparr>"

definition recovery_seed_from_remote :: "'m recovery_env \<Rightarrow> bytes \<Rightarrow> 'm recovery_store \<Rightarrow> 'm recovery_store" where
  "recovery_seed_from_remote e b s =
     (if rv_state s \<noteq> None then s
      else case Option.bind (from_slice (re_codec e) b) recovery_of_json of
        Some st \<Rightarrow> (recovery_persist_locally e st s)\<lparr> rv_state := Some st, rv_events := Suc (rv_events s) \<rparr>
      | None \<Rightarrow> s)"

definition recovery_write_state :: "'m recovery_env \<Rightarrow> recovery_state \<Rightarrow> 'm recovery_store \<Rightarrow> 'm recovery_store" where
  "recovery_write_state e st s =
     (recovery_persist_locally e st s)
       \<lparr> rv_remote := rv_remote s @ (if rv_attached s then [PutLww (to_vec (re_codec e) (recovery_to_json st))] else []),
         rv_state := Some st, rv_events := Suc (rv_events s) \<rparr>"

definition enter ::
  "'m recovery_env \<Rightarrow> string \<Rightarrow> u64 option \<Rightarrow> string option \<Rightarrow> f64 option \<Rightarrow> u64 \<Rightarrow> 'm recovery_store \<Rightarrow> 'm recovery_store"
where
  "enter e cid balance address rate now s =
     (case rv_state s of
        Some st \<Rightarrow>
          if cid \<in> set (rs_channel_ids st) then s
          else recovery_write_state e (st\<lparr> rs_channel_ids := rs_channel_ids st @ [cid],
                 rs_stuck_balance_sat := (case (rs_stuck_balance_sat st, balance) of (Some a, Some b) \<Rightarrow> Some (a + b) | _ \<Rightarrow> None),
                 rs_deposit_needed_sat := estimate_deposit_needed rate, rs_updated_at := now \<rparr>) s
      | None \<Rightarrow>
          recovery_write_state e \<lparr> rs_status = NeedsRecovery, rs_stuck_balance_sat = balance,
              rs_deposit_address = (case address of Some a \<Rightarrow> a | None \<Rightarrow> []),
              rs_deposit_needed_sat = estimate_deposit_needed rate, rs_channel_ids = [cid], rs_created_at = now, rs_updated_at = now \<rparr> s)"

definition recovery_clear :: "'m recovery_env \<Rightarrow> 'm recovery_store \<Rightarrow> 'm recovery_store" where
  "recovery_clear e s =
     (if rv_state s = None then s
      else s\<lparr> rv_state := None, rv_loc := snd (d_remove (re_disk e) RECOVERY_NS [] RECOVERY_LOCAL_KEY False (rv_loc s)),
              rv_remote := rv_remote s @ (if rv_attached s then [DeleteRemote] else []), rv_events := Suc (rv_events s) \<rparr>)"

definition mark_sweep_confirmed :: "'m recovery_env \<Rightarrow> u64 \<Rightarrow> 'm recovery_store \<Rightarrow> 'm recovery_store" where
  "mark_sweep_confirmed e now s =
     (case rv_state s of
        None \<Rightarrow> s
      | Some st \<Rightarrow> if rs_status st = SweepConfirmed then s
                   else recovery_write_state e (st\<lparr> rs_status := SweepConfirmed, rs_updated_at := now \<rparr>) s)"

definition maybe_clear_resolved :: "'m recovery_env \<Rightarrow> 'c close_store \<Rightarrow> 'm recovery_store \<Rightarrow> bool \<times> 'm recovery_store" where
  "maybe_clear_resolved e cs s =
     (case rv_state s of
        None \<Rightarrow> (False, s)
      | Some st \<Rightarrow>
          if rs_status st = SweepConfirmed then (False, s)
          else if close_confirmed_for_all_channels (rs_channel_ids st) (get_record cs) then (True, recovery_clear e s)
          else (False, s))"

section \<open>The background tasks\<close>

record ('l, 'c, 'w, 'n, 'm, 'v) recovery_world =
  rw_sweep :: "('l, 'c, 'w, 'n) sweep_world"
  rw_recovery :: "'m recovery_store"
  rw_chain :: 'v
  rw_recovery_tick :: u32
  rw_sweep_tick :: u32

definition maybe_auto_recover ::
  "('l, 'c, 'd, 'w, 'n, 'tx, 'x) sweep_env \<Rightarrow> 'm recovery_env \<Rightarrow> u64 \<Rightarrow> ('l, 'c, 'w, 'n, 'm, 'v) recovery_world
     \<Rightarrow> ('l, 'c, 'w, 'n, 'm, 'v) recovery_world"
where
  \<comment> \<open>with the sweep engine as the \<open>RecoverySweeper\<close>\<close>
  "maybe_auto_recover e re now s =
     (case rv_state (rw_recovery s) of
        None \<Rightarrow> s
      | Some st \<Rightarrow>
          if rs_status st = SweepConfirmed then s
          else case sweep_once e (rw_sweep s) of
            (sm, sw) \<Rightarrow>
              let s1 = s\<lparr> rw_sweep := sw \<rparr> in
              if sm_swept sm > 0 then s1\<lparr> rw_recovery := mark_sweep_confirmed re now (rw_recovery s1) \<rparr> else s1)"

definition recovery_tick ::
  "('l, 'c, 'd, 'w, 'n, 'tx, 'x) sweep_env \<Rightarrow> 'm recovery_env \<Rightarrow> u64 \<Rightarrow> ('l, 'c, 'w, 'n, 'm, 'v) recovery_world
     \<Rightarrow> ('l, 'c, 'w, 'n, 'm, 'v) recovery_world"
where
  "recovery_tick e re now s =
     (let t = rw_recovery_tick s + 1;
          s1 = s\<lparr> rw_recovery := snd (maybe_clear_resolved re (sw_close (rw_sweep s)) (rw_recovery s)), rw_recovery_tick := t \<rparr>
      in if t mod AUTO_RECOVER_EVERY_TICKS = 0 then maybe_auto_recover e re now s1 else s1)"

definition sweep_tick ::
  "('l, 'c, 'd, 'w, 'n, 'tx, 'x) sweep_env \<Rightarrow> ('l, 'c, 'w, 'n, 'm, 'v) recovery_world \<Rightarrow> ('l, 'c, 'w, 'n, 'm, 'v) recovery_world"
where
  "sweep_tick e s =
     (let tick = rw_sweep_tick s;
          due = (tick = 0 \<or> needs_onchain_funds (sw_flags (rw_sweep s)) \<or> tick mod SWEEP_RETRY_EVERY_TICKS = 0);
          s1 = s\<lparr> rw_sweep_tick := tick + 1 \<rparr>
      in if due then s1\<lparr> rw_sweep := snd (sweep_once e (rw_sweep s1)) \<rparr> else s1)"

definition observe_bump_transaction ::
  "'c close_env \<Rightarrow> 'm recovery_env \<Rightarrow> string \<Rightarrow> (string \<times> u64) option \<Rightarrow> bool \<Rightarrow> bool \<Rightarrow> string option \<Rightarrow> f64 option \<Rightarrow> u64
     \<Rightarrow> 'c close_store \<Rightarrow> 'm recovery_store \<Rightarrow> 'c close_store \<times> 'm recovery_store"
where
  "observe_bump_transaction ce re cid commitment has_utxo scanned address rate now cs s =
     (let balance = Option.bind (get_record cs cid) expected_amount_sats;
          cs1 = (case commitment of Some (i, fee) \<Rightarrow> on_commitment_broadcast ce cid i fee now cs | None \<Rightarrow> cs)
      in (cs1, if \<not> has_utxo \<and> scanned then enter re cid balance address rate now s else s))"

datatype recovery_op =
    Bump string "(string \<times> u64) option" bool bool "string option" "f64 option" u64
  | RecoveryTick u64
  | SweepTick
  | SweepNow
  | Reconcile "string \<Rightarrow> bool" "string set" "string set" u64
  | Dismiss

fun recovery_step ::
  "('l, 'c, 'd, 'w, 'n, 'tx, 'x) sweep_env \<Rightarrow> 'm recovery_env \<Rightarrow> 'v chain \<Rightarrow> recovery_op
     \<Rightarrow> ('l, 'c, 'w, 'n, 'm, 'v) recovery_world \<Rightarrow> ('l, 'c, 'w, 'n, 'm, 'v) recovery_world"
where
  "recovery_step e re ch (Bump cid commitment has_utxo scanned address rate now) s =
     (case observe_bump_transaction (se_close e) re cid commitment has_utxo scanned address rate now (sw_close (rw_sweep s)) (rw_recovery s) of
        (cs, r) \<Rightarrow> s\<lparr> rw_sweep := (rw_sweep s)\<lparr> sw_close := cs \<rparr>, rw_recovery := r \<rparr>)"
| "recovery_step e re ch (RecoveryTick now) s = recovery_tick e re now s"
| "recovery_step e re ch SweepTick s = sweep_tick e s"
| "recovery_step e re ch SweepNow s = s\<lparr> rw_sweep := snd (sweep_once e (rw_sweep s)) \<rparr>"
| "recovery_step e re ch (Reconcile wallet open_ids pending now) s =
     (case reconcile_close_records (se_close e) ch wallet open_ids pending now (sw_close (rw_sweep s)) (rw_chain s) of
        (cs, v) \<Rightarrow> s\<lparr> rw_sweep := (rw_sweep s)\<lparr> sw_close := cs \<rparr>, rw_chain := v \<rparr>)"
| "recovery_step e re ch Dismiss s = s\<lparr> rw_recovery := recovery_clear re (rw_recovery s) \<rparr>"

definition recovery_run ::
  "('l, 'c, 'd, 'w, 'n, 'tx, 'x) sweep_env \<Rightarrow> 'm recovery_env \<Rightarrow> 'v chain \<Rightarrow> recovery_op list
     \<Rightarrow> ('l, 'c, 'w, 'n, 'm, 'v) recovery_world \<Rightarrow> ('l, 'c, 'w, 'n, 'm, 'v) recovery_world"
where
  "recovery_run e re ch ops s = fold (recovery_step e re ch) ops s"

section \<open>The close records only grow\<close>

definition close_evidence :: "'c close_store \<Rightarrow> string \<Rightarrow> bool" where
  \<comment> \<open>the channel's record is completed or has a confirmed closing or commitment transaction\<close>
  "close_evidence cs cid \<longleftrightarrow> (\<exists>r. get_record cs cid = Some r \<and>
     (completed_at_ms r \<noteq> None \<or> (\<exists>t \<in> set (txs r). role t \<in> {Closing, Commitment} \<and> confirmed_at_height t \<noteq> None)))"

lemma close_confirmed_evidence:
  "close_confirmed_for_all_channels ids (get_record cs) \<longleftrightarrow> ids \<noteq> [] \<and> (\<forall>cid \<in> set ids. close_evidence cs cid)"
proof -
  have "(case r of Closing \<Rightarrow> True | Commitment \<Rightarrow> True | _ \<Rightarrow> False) \<longleftrightarrow> r \<in> {Closing, Commitment}" for r
    by (cases r) auto
  then show ?thesis
    unfolding close_confirmed_for_all_channels_def close_evidence_def list_all_iff list_ex_iff
    by (intro conj_cong ball_cong refl) (simp split: option.split)
qed

lemma close_evidence_mono:
  assumes "store_le a b" and "close_evidence a cid"
  shows "close_evidence b cid"
proof -
  from assms(2) obtain r where r: "get_record a cid = Some r"
    and ev: "completed_at_ms r \<noteq> None \<or> (\<exists>t \<in> set (txs r). role t \<in> {Closing, Commitment} \<and> confirmed_at_height t \<noteq> None)"
    by (auto simp: close_evidence_def)
  from assms(1) r obtain r' where r': "get_record b cid = Some r'" "record_le r r'" unfolding store_le_def by blast
  have "completed_at_ms r' \<noteq> None \<or> (\<exists>t \<in> set (txs r'). role t \<in> {Closing, Commitment} \<and> confirmed_at_height t \<noteq> None)"
    
  proof (rule disj_forward[OF ev])
    show "completed_at_ms r' \<noteq> None" if "completed_at_ms r \<noteq> None" using that r'(2) unfolding record_le_def by simp
  next
    assume "\<exists>t \<in> set (txs r). role t \<in> {Closing, Commitment} \<and> confirmed_at_height t \<noteq> None"
    then obtain t where t: "t \<in> set (txs r)" "role t \<in> {Closing, Commitment}" "confirmed_at_height t \<noteq> None" by blast
    from r'(2) t(1) obtain t' where "t' \<in> set (txs r')" "tx_le t t'" unfolding record_le_def by blast
    with t(2,3) show "\<exists>t \<in> set (txs r'). role t \<in> {Closing, Commitment} \<and> confirmed_at_height t \<noteq> None"
      unfolding tx_le_def by (intro bexI[of _ t']) auto
  qed
  with r'(1) show ?thesis by (auto simp: close_evidence_def)
qed

lemma record_sweep_tx_le: "store_le s (record_sweep_tx e i ids now s)"
  unfolding record_sweep_tx_def
proof (induction ids arbitrary: s)
  case (Cons cid ids)
  show ?case by (simp, rule store_le_trans[OF upsert_le Cons.IH])
qed simp

lemma commit_close_le: "store_le (sw_close s) (sw_close (commit_swept e keys i ch s))"
  by (simp add: commit_swept_def record_sweep_tx_le)

lemma finish_close [simp]: "sw_close (finish_attempt b x s) = sw_close s"
  by (simp add: finish_attempt_def)

lemma broadcast_subsidized_close: "sw_close (snd (broadcast_subsidized e sel tx s)) = sw_close s"
  by (auto simp: broadcast_subsidized_def Let_def mark_subsidy_inputs_spent_def split: broadcast_outcome.splits prod.splits bool.splits)

lemma attempt_subsidized_close: "sw_close (snd (attempt_subsidized e batch destination rate s)) = sw_close s"
  using broadcast_subsidized_close[of e _ _ "s\<lparr> sw_wallet := _ \<rparr>"]
  by (auto simp: attempt_subsidized_def Let_def split: sum.splits prod.splits)

definition reported :: "('l, 'c, 'd, 'w, 'n, 'tx, 'x) sweep_env \<Rightarrow> sweep_summary \<Rightarrow> bool" where
  \<comment> \<open>a summary that counts swept outputs names a transaction the network took\<close>
  "reported e sm \<longleftrightarrow> (sm_swept sm > 0 \<longrightarrow> (\<exists>tx. sm_txid sm = Some (sp_txid (se_spender e) tx) \<and> confirmed_broadcast e tx))"

definition pass_ok ::
  "('l, 'c, 'd, 'w, 'n, 'tx, 'x) sweep_env \<Rightarrow> ('l, 'c, 'w, 'n) sweep_world \<Rightarrow> sweep_summary \<times> ('l, 'c, 'w, 'n) sweep_world \<Rightarrow> bool"
where
  "pass_ok e s r \<longleftrightarrow> reported e (fst r) \<and> store_le (sw_close s) (sw_close (snd r))"

lemma pass_ok_idle: "sm_swept sm = 0 \<Longrightarrow> sw_close s' = sw_close s \<Longrightarrow> pass_ok e s (sm, s')"
  by (simp add: pass_ok_def reported_def)

lemma plain_sweep_ok: "pass_ok e s (plain_sweep e g batch tx s)"
proof -
  obtain r n where b: "sb_broadcast (se_broadcast e) tx (sb_persist_pending (se_broadcast e) tx (sw_net s)) = (r, n)" by fastforce
  then have c: "r \<in> {Accepted, AlreadyKnown} \<Longrightarrow> confirmed_broadcast e tx" unfolding confirmed_broadcast_def by (metis fst_conv)
  show ?thesis using c commit_close_le[of "s\<lparr> sw_net := n \<rparr>"]
    by (auto simp: pass_ok_def reported_def plain_sweep_def Let_def b split: sum.splits broadcast_outcome.splits)
qed

lemma subsidized_sweep_ok: "pass_ok e s (subsidized_sweep e g batch destination rate s)"
proof -
  obtain out s1 where a: "attempt_subsidized e batch destination rate s = (out, s1)" by fastforce
  have cl: "sw_close s1 = sw_close s" using attempt_subsidized_close[of e batch destination rate s] a by simp
  show ?thesis
  proof (cases out)
    case (SubBroadcast i sub)
    with a obtain psbt lw sel tx w where "broadcast_subsidized e sel tx (s\<lparr> sw_wallet := w \<rparr>) = (SubBroadcast i sub, s1)"
      by (auto elim: attempt_broadcastE)
    from broadcast_subsidized_spec(2)[OF this refl] have "confirmed_broadcast e tx \<and> i = sp_txid (se_spender e) tx" .
    then show ?thesis using SubBroadcast a commit_close_le[of s1] cl
      by (auto simp: pass_ok_def reported_def subsidized_sweep_def Let_def)
  qed (use a cl in \<open>auto simp: pass_ok_def reported_def subsidized_sweep_def Let_def\<close>)
qed

lemma conclude_ok: "pass_ok e s (conclude e g batch destination spent s)"
  by (simp add: conclude_def plain_sweep_ok subsidized_sweep_ok split: option.splits)

lemma spend_and_conclude_ok: "pass_ok e s (spend_and_conclude e g destination s)"
proof -
  have "pass_ok e s (conclude e g batch destination spent (s\<lparr> sw_disk := l \<rparr>))" for batch spent l
    using conclude_ok[of e "s\<lparr> sw_disk := l \<rparr>" g batch destination spent] by (simp add: pass_ok_def)
  then show ?thesis using conclude_ok[of e s g]
    by (auto simp: spend_and_conclude_def Let_def pass_ok_idle split: option.splits prod.splits)
qed

lemma sweep_once_ok: "pass_ok e s (sweep_once e s)"
proof -
  have frame: "pass_ok e s (spend_and_conclude e g destination (s\<lparr> sw_in_progress := b, sw_disk := l, sw_wallet := w \<rparr>))" for g destination l w b
    using spend_and_conclude_ok[of e "s\<lparr> sw_in_progress := b, sw_disk := l, sw_wallet := w \<rparr>" g destination] by (simp add: pass_ok_def)
  have "pass_ok e s (sweep_pass e (s\<lparr> sw_in_progress := True \<rparr>))"
    using frame unfolding sweep_pass_def
    by (auto simp: Let_def pass_ok_idle summary_default_def split: prod.splits sum.splits)
  then show ?thesis by (auto simp: sweep_once_def pass_ok_def reported_def summary_default_def split: prod.splits)
qed

lemmas sweep_close_le = sweep_once_ok[unfolded pass_ok_def, THEN conjunct2]

lemma recovery_store_sel [simp]:
  "rv_state (recovery_write_state re st r) = Some st" "rv_state (recovery_clear re r) = None"
  by (simp_all add: recovery_write_state_def recovery_persist_locally_def recovery_clear_def)

lemma maybe_clear_cases:
  assumes "rv_state r = Some st"
  shows "rv_state (snd (maybe_clear_resolved re cs r)) = Some st
    \<or> (rv_state (snd (maybe_clear_resolved re cs r)) = None \<and> rs_status st = NeedsRecovery \<and> (\<forall>cid \<in> set (rs_channel_ids st). close_evidence cs cid))"
  using assms by (cases "rs_status st") (auto simp: maybe_clear_resolved_def close_confirmed_evidence)

lemma enter_keeps: "rv_state r = Some st \<Longrightarrow> \<exists>st'. rv_state (enter re cid b a x now r) = Some st' \<and> set (rs_channel_ids st) \<subseteq> set (rs_channel_ids st') \<and> rs_status st' = rs_status st"
  by (auto simp: enter_def)

lemma mark_keeps: "rv_state r = Some st \<Longrightarrow> \<exists>st'. rv_state (mark_sweep_confirmed re now r) = Some st' \<and> rs_channel_ids st' = rs_channel_ids st"
  by (auto simp: mark_sweep_confirmed_def)

lemma auto_recover_keeps:
  assumes "rv_state (rw_recovery s) = Some st"
  shows "\<exists>st'. rv_state (rw_recovery (maybe_auto_recover e re now s)) = Some st' \<and> rs_channel_ids st' = rs_channel_ids st"
  using assms mark_keeps[OF assms, of re now] by (auto simp: maybe_auto_recover_def Let_def split: prod.splits)

lemma auto_recover_none: "rv_state (rw_recovery s) = None \<Longrightarrow> maybe_auto_recover e re now s = s"
  by (simp add: maybe_auto_recover_def)

lemma auto_recover_close: "store_le (sw_close (rw_sweep s)) (sw_close (rw_sweep (maybe_auto_recover e re now s)))"
  using sweep_close_le[of "rw_sweep s" e] by (auto simp: maybe_auto_recover_def Let_def split: option.splits prod.splits)

lemma recovery_tick_close: "store_le (sw_close (rw_sweep s)) (sw_close (rw_sweep (recovery_tick e re now s)))"
  unfolding recovery_tick_def Let_def
  using auto_recover_close[of "s\<lparr> rw_recovery := snd (maybe_clear_resolved re (sw_close (rw_sweep s)) (rw_recovery s)), rw_recovery_tick := rw_recovery_tick s + 1 \<rparr>" e re now]
  by simp

lemma observe_close_le: "store_le cs (fst (observe_bump_transaction ce re cid c u sc a x now cs r))"
  by (simp add: observe_bump_transaction_def Let_def on_commitment_broadcast_def upsert_le split: option.splits prod.splits)

lemma recovery_step_close: "store_le (sw_close (rw_sweep s)) (sw_close (rw_sweep (recovery_step e re ch op s)))"
proof (cases op)
  case (Bump cid c u sc a x now)
  then show ?thesis using observe_close_le[of "sw_close (rw_sweep s)" "se_close e" re cid c u sc a x now "rw_recovery s"]
    by (auto split: prod.splits)
next
  case (Reconcile wallet open_ids pending now)
  then show ?thesis using reconcile_close_records_le[of "sw_close (rw_sweep s)" "se_close e" ch wallet open_ids pending now "rw_chain s"]
    by (auto split: prod.splits)
qed (simp_all add: recovery_tick_close sweep_tick_def Let_def sweep_close_le)

lemma recovery_tick_lists:
  assumes "rv_state (rw_recovery s) = Some st" and "cid \<in> set (rs_channel_ids st)"
  shows "(\<exists>st'. rv_state (rw_recovery (recovery_tick e re now s)) = Some st' \<and> cid \<in> set (rs_channel_ids st')) \<or> close_evidence (sw_close (rw_sweep s)) cid"
proof -
  let ?s1 = "s\<lparr> rw_recovery := snd (maybe_clear_resolved re (sw_close (rw_sweep s)) (rw_recovery s)), rw_recovery_tick := rw_recovery_tick s + 1 \<rparr>"
  from maybe_clear_cases[OF assms(1), of re "sw_close (rw_sweep s)"] show ?thesis
  proof (elim disjE conjE)
    assume "rv_state (snd (maybe_clear_resolved re (sw_close (rw_sweep s)) (rw_recovery s))) = Some st"
    then show ?thesis using auto_recover_keeps[of ?s1 st e re now] assms(2) by (auto simp: recovery_tick_def Let_def)
  qed (use assms(2) in blast)
qed

lemma recovery_step_lists:
  assumes st: "rv_state (rw_recovery s) = Some st" "cid \<in> set (rs_channel_ids st)" and op: "op \<noteq> Dismiss"
  shows "(\<exists>st'. rv_state (rw_recovery (recovery_step e re ch op s)) = Some st' \<and> cid \<in> set (rs_channel_ids st'))
    \<or> close_evidence (sw_close (rw_sweep s)) cid"
proof (cases op)
  case (Bump c cm u sc a x now)
  have "\<exists>st'. rv_state (snd (observe_bump_transaction (se_close e) re c cm u sc a x now (sw_close (rw_sweep s)) (rw_recovery s))) = Some st' \<and> cid \<in> set (rs_channel_ids st')"
    using enter_keeps[OF st(1), of re c "Option.bind (get_record (sw_close (rw_sweep s)) c) expected_amount_sats" a x now] st
    by (auto simp: observe_bump_transaction_def Let_def)
  with Bump show ?thesis by (auto split: prod.splits)
qed (use st op recovery_tick_lists[OF st, of e re] in \<open>auto simp: sweep_tick_def Let_def split: prod.splits\<close>)

text \<open>C20: A channel in recovery is not forgotten: whatever bump events, ticks, sweeps and reconcile passes follow,
  as long as the user does not dismiss the banner, a listed channel stays listed or its close record
  has, at the end, a confirmed closing or commitment transaction or its completion.\<close>
theorem recovery_ends_on_evidence:
  assumes "rv_state (rw_recovery s) = Some st" and "cid \<in> set (rs_channel_ids st)" and "Dismiss \<notin> set ops"
  shows "(\<exists>st'. rv_state (rw_recovery (recovery_run e re ch ops s)) = Some st' \<and> cid \<in> set (rs_channel_ids st'))
    \<or> close_evidence (sw_close (rw_sweep (recovery_run e re ch ops s))) cid"
proof -
  let ?P = "\<lambda>s. (\<exists>st'. rv_state (rw_recovery s) = Some st' \<and> cid \<in> set (rs_channel_ids st')) \<or> close_evidence (sw_close (rw_sweep s)) cid"
  have step: "?P (recovery_step e re ch op s)" if "?P s" and "op \<noteq> Dismiss" for op s
    using that recovery_step_lists[of s _ cid op e re ch] close_evidence_mono[OF recovery_step_close] by blast
  have "?P s \<Longrightarrow> ?P (fold (recovery_step e re ch) ops s)" using assms(3)
  proof (induction ops arbitrary: s)
    case (Cons op ops)
    have "op \<noteq> Dismiss" "Dismiss \<notin> set ops" using Cons.prems(2) by auto
    from Cons.IH[OF step[OF Cons.prems(1) this(1)] this(2)] show ?case by simp
  qed simp
  with assms(1,2) show ?thesis unfolding recovery_run_def by blast
qed

text \<open>The success banner is honest: a step turns a recovery that asks for a deposit into a confirmed sweep only when
  a sweep run of that step reported a transaction that was stored for rebroadcast and taken by the
  network, or already known to it.\<close>
theorem banner_confirmed_only_after_broadcast:
  assumes "rv_state (rw_recovery s) = Some st" and "rs_status st = NeedsRecovery"
    and "rv_state (rw_recovery (recovery_step e re ch op s)) = Some st'" and "rs_status st' = SweepConfirmed"
  shows "\<exists>sm sw tx. sweep_once e (rw_sweep s) = (sm, sw) \<and> 0 < sm_swept sm
    \<and> sm_txid sm = Some (sp_txid (se_spender e) tx) \<and> confirmed_broadcast e tx"
proof (cases op)
  case (Bump c cm u sc a x now)
  have "rs_status st1 = NeedsRecovery" if "rv_state (snd (observe_bump_transaction (se_close e) re c cm u sc a x now (sw_close (rw_sweep s)) (rw_recovery s))) = Some st1" for st1
    using that enter_keeps[OF assms(1), of re c "Option.bind (get_record (sw_close (rw_sweep s)) c) expected_amount_sats" a x now] assms(1,2)
    by (auto simp: observe_bump_transaction_def Let_def split: if_splits)
  with Bump assms(3,4) show ?thesis by (auto split: prod.splits)
next
  case (RecoveryTick now)
  let ?s1 = "s\<lparr> rw_recovery := snd (maybe_clear_resolved re (sw_close (rw_sweep s)) (rw_recovery s)), rw_recovery_tick := rw_recovery_tick s + 1 \<rparr>"
  obtain sm sw where sw: "sweep_once e (rw_sweep s) = (sm, sw)" by fastforce
  have "0 < sm_swept sm"
    using assms RecoveryTick maybe_clear_cases[OF assms(1), of re "sw_close (rw_sweep s)"] sw
    by (auto simp: recovery_tick_def maybe_auto_recover_def Let_def split: if_splits)
  with sw sweep_once_ok[of e "rw_sweep s"] show ?thesis by (auto simp: pass_ok_def reported_def)
qed (use assms in \<open>auto simp: sweep_tick_def Let_def split: prod.splits if_splits\<close>)

section \<open>The deposit ask and the persisted state\<close>

lemma unat_div_ceil: "0 < unat b \<Longrightarrow> unat (div_ceil a b) = (unat a + unat b - 1) div unat b"
proof -
  assume b: "0 < unat b"
  have lt: "unat a div unat b + 1 < 2 ^ 64" if "unat a mod unat b \<noteq> 0"
  proof -
    have "unat b \<noteq> 1" using that by auto
    with b have "2 \<le> unat b" by simp
    then have "unat a div unat b \<le> unat a div 2" by (rule div_le_mono2[rotated]) simp
    then show ?thesis using unsigned_less[of a, where 'a = nat] by simp
  qed
  have split: "unat a = unat b * (unat a div unat b) + unat a mod unat b" by simp
  have m: "unat a mod unat b < unat b" using b by simp
  have zero: "a mod b = 0 \<longleftrightarrow> unat a mod unat b = 0" by (simp add: unat_mod_distrib word_unat_eq_iff)
  define q where "q = unat a div unat b"
  show ?thesis
  proof (cases "unat a mod unat b = 0")
    case True
    then have "unat a + unat b - 1 = (unat b - 1) + unat b * q" using split b unfolding q_def by linarith
    then have "(unat a + unat b - 1) div unat b = ((unat b - 1) + unat b * q) div unat b" by (rule arg_cong)
    also have "\<dots> = q + (unat b - 1) div unat b" using b by (intro div_mult_self2) simp
    finally have "(unat a + unat b - 1) div unat b = q" using b by simp
    then show ?thesis using True zero by (simp add: div_ceil_def unat_div_distrib q_def)
  next
    case False
    then have "1 \<le> unat a mod unat b" by simp
    moreover have "unat b * (q + 1) = unat b * q + unat b" by simp
    ultimately have "unat a + unat b - 1 = (unat a mod unat b - 1) + unat b * (q + 1)" using split b unfolding q_def by linarith
    then have "(unat a + unat b - 1) div unat b = q + 1" using b m by (simp del: mult_Suc_right)
    then show ?thesis using False zero lt[OF False] by (simp add: div_ceil_def unat_div_distrib unat_word_ariths q_def)
  qed
qed

lemma round_up_deposit_bounds:
  assumes "unat x < 2 ^ 62"
  shows "unat (round_up_deposit_needed x) mod 5000 = 0"
    and "3 * unat x \<le> 2 * unat (round_up_deposit_needed x)"
    and "2 * unat (round_up_deposit_needed x) \<le> 3 * unat x + 10000"
proof -
  let ?b = "div_ceil (saturating_mul x 3) 2"
  have "unat (saturating_mul x 3) = 3 * unat x" using assms by (simp add: saturating_mul_def unat_word_ariths)
  then have b: "unat ?b = (3 * unat x + 1) div 2" by (simp add: unat_div_ceil)
  have d: "unat (div_ceil ?b DEPOSIT_STEP_SATS) = (unat ?b + 4999) div 5000" by (simp add: unat_div_ceil DEPOSIT_STEP_SATS_def)
  have "(unat ?b + 4999) div 5000 * 5000 < 2 ^ 64" using b assms by simp
  then have r: "unat (round_up_deposit_needed x) = (unat ?b + 4999) div 5000 * 5000"
    using d by (simp add: round_up_deposit_needed_def unat_word_ariths DEPOSIT_STEP_SATS_def)
  show "unat (round_up_deposit_needed x) mod 5000 = 0" using r by simp
  show "3 * unat x \<le> 2 * unat (round_up_deposit_needed x)" using r b by simp
  show "2 * unat (round_up_deposit_needed x) \<le> 3 * unat x + 10000" using r b by simp
qed

lemma recovery_json [simp]: "recovery_of_json (recovery_to_json st) = Some st"
proof -
  have "status_of_json (status_to_json x) = Some x" for x by (cases x) (simp_all add: status_of_name_def)
  then show ?thesis
    by (simp add: recovery_to_json_def make_recovery_def fld_def opt_fld_def as_list_def comp_def split: option.splits)
qed

text \<open>A channel whose close needs a deposit is added under the success banner of an earlier recovery: the state stays
  \<open>sweep_confirmed\<close>, so neither the exit tick nor the automatic recovery looks at the channel.\<close>

lemma confirmed_banner_absorbs_new_channel:
  assumes "rv_state r = Some st" and "rs_status st = SweepConfirmed"
  shows "\<exists>st'. rv_state (enter re cid b a x now r) = Some st' \<and> cid \<in> set (rs_channel_ids st') \<and> rs_status st' = SweepConfirmed
    \<and> maybe_clear_resolved re cs (enter re cid b a x now r) = (False, enter re cid b a x now r)"
  using assms by (auto simp: enter_def maybe_clear_resolved_def)

section \<open>Witnesses\<close>

definition example_recovery_env :: "mem recovery_env" where
  "example_recovery_env = \<lparr> re_disk = mem_disk, re_codec = unary_codec \<rparr>"

definition example_recovery_world :: "(mem, mem, script list, nat, mem, nat) recovery_world" where
  "example_recovery_world =
     \<lparr> rw_sweep = example_sweep_world,
       rw_recovery = enter example_recovery_env ''cafe'' None (Some ''bc1'') None 5 (recovery_store_new example_recovery_env []),
       rw_chain = 0, rw_recovery_tick = 0, rw_sweep_tick = 0 \<rparr>"

lemma example_recovery_listed: "\<exists>st. rv_state (rw_recovery example_recovery_world) = Some st \<and> ''cafe'' \<in> set (rs_channel_ids st) \<and> rs_status st = NeedsRecovery"
  by (simp add: example_recovery_world_def enter_def recovery_store_new_def example_recovery_env_def mem_disk_def mem_read_def)

theorem recovery_ends_on_evidence_witness:
  "(\<exists>st'. rv_state (rw_recovery (recovery_run example_sweep_env example_recovery_env example_chain [RecoveryTick 6, SweepNow, Bump ''beef'' None False True None None 7] example_recovery_world)) = Some st'
       \<and> ''cafe'' \<in> set (rs_channel_ids st'))
    \<or> close_evidence (sw_close (rw_sweep (recovery_run example_sweep_env example_recovery_env example_chain [RecoveryTick 6, SweepNow, Bump ''beef'' None False True None None 7] example_recovery_world))) ''cafe''"
proof -
  from example_recovery_listed obtain st where "rv_state (rw_recovery example_recovery_world) = Some st" "''cafe'' \<in> set (rs_channel_ids st)" by blast
  then show ?thesis by (rule recovery_ends_on_evidence) simp
qed

lemma example_tracked_entries: "entries example_sweep_env (sw_disk example_tracked_world) = [(''k'', example_entry)]"
proof -
  have rd: "read_entry example_sweep_env (sw_disk example_tracked_world) ''k'' = Some example_entry"
    unfolding example_tracked_world_def
    by (simp add: example_sweep.read_after_write_entry, simp add: write_entry_def example_sweep_env_def mem_disk_def mem_write_def)
  have "d_list mem_disk SPENDABLE_OUTPUTS_NS [] (sw_disk example_tracked_world) = Inr [''k'']"
    by (simp add: example_tracked_world_def write_entry_def example_sweep_env_def mem_disk_def mem_list_def mem_write_def)
  with rd show ?thesis by (simp add: entries_def example_sweep_env_def List.map_filter_def)
qed

lemma example_hex: "decode_hex ''01'' = Some [1]" "decode_hex ''02'' = Some [2]" "decode_hex ''05'' = Some [5]"
  by code_simp+

lemma example_gather:
  "gather example_sweep_env [(''k'', example_entry)] gathered_new l [[5]]
     = (\<lparr> ga_batch = [\<lparr> bm_bytes = [1], bm_descriptor = 1, bm_entry_key = ''k'' \<rparr>, \<lparr> bm_bytes = [2], bm_descriptor = 2, bm_entry_key = ''k'' \<rparr>],
          ga_channels = [], ga_keys = [''k''], ga_emptied = [], ga_seen = {''01'', ''02'', ''05''}, ga_skipped = 0 \<rparr>,
        snd (write_entry example_sweep_env ''k'' \<lparr> en_descriptors = [''01'', ''02''], en_channel_id_hex = None, en_outpoints = [] \<rparr> l), [[5]])"
  by (simp add: gather_entry_def example_entry_def gathered_new_def example_sweep_env_def example_spender_def example_wallet_def
      is_wallet_owned_static_output_def example_hex Let_def write_entry_def insert_commute del: decode_hex.simps)

lemma example_sweep_fee: "check_fee_sanity 1100 600 (fee_sanity_max_sat_per_kw fee_estimator_new) = Inr ()"
proof -
  have "get_est_sat_per_1000_weight UrgentOnChainSweep fee_estimator_new = 2500" by (rule fresh_urgent_rate)
  then show ?thesis by (simp add: fee_sanity_max_sat_per_kw_def FEE_SANITY_MULTIPLIER_def check_fee_sanity_def Let_def saturating_mul_def)
qed

lemma example_parts:
  "se_spender example_sweep_env = example_spender" "se_wallet example_sweep_env = example_wallet" "se_fees example_sweep_env = fee_estimator_new"
  "sb_broadcast (se_broadcast example_sweep_env) tx n = (Accepted, Suc n)"
  "sp_spend example_spender ds dest rate = (if length ds > 1 then Some ds else None)"
  "sp_outputs example_spender tx = [\<lparr> to_value = 900, to_script = [] \<rparr>]" "sp_weight example_spender tx = 600"
  "descriptor_value_sats example_spender d = 1000" "wl_reveal_next example_wallet w = (Inr [7], [7] # w)"
  by (simp_all add: example_sweep_env_def example_spender_def example_wallet_def descriptor_value_sats_def)

lemma example_sweeps: "sm_swept (fst (sweep_once example_sweep_env example_tracked_world)) = 2"
proof -
  let ?s = "example_tracked_world\<lparr> sw_in_progress := True \<rparr>"
  have w: "sw_wallet example_tracked_world = [[5]]" "\<not> sw_in_progress example_tracked_world"
    by (simp_all add: example_tracked_world_def example_sweep_world_def)
  have "sm_swept (fst (sweep_pass example_sweep_env ?s)) = 2"
    unfolding sweep_pass_def
    by (simp add: w example_tracked_entries example_gather example_parts Let_def spend_and_conclude_def spend_batch_def conclude_def
        plain_sweep_def sum_outputs_def saturating_sub_def example_sweep_fee del: gather.simps)
  then show ?thesis by (auto simp: sweep_once_def w split: prod.splits)
qed

definition example_due_world :: "(mem, mem, script list, nat, mem, nat) recovery_world" where
  "example_due_world = example_recovery_world\<lparr> rw_sweep := example_tracked_world, rw_recovery_tick := 5 \<rparr>"

theorem banner_confirmed_only_after_broadcast_witness:
  "\<exists>sm sw tx. sweep_once example_sweep_env (rw_sweep example_due_world) = (sm, sw) \<and> 0 < sm_swept sm
    \<and> sm_txid sm = Some (sp_txid (se_spender example_sweep_env) tx) \<and> confirmed_broadcast example_sweep_env tx"
proof -
  obtain st where st: "rv_state (rw_recovery example_due_world) = Some st" "rs_status st = NeedsRecovery" "rs_channel_ids st = [''cafe'']"
    by (simp add: example_due_world_def example_recovery_world_def enter_def recovery_store_new_def example_recovery_env_def mem_disk_def mem_read_def)
  have "get_record (sw_close example_tracked_world) ''cafe'' = None"
    by (simp add: example_tracked_world_def example_sweep_world_def get_record_def)
  then have keep: "maybe_clear_resolved example_recovery_env (sw_close example_tracked_world) (rw_recovery example_due_world) = (False, rw_recovery example_due_world)"
    using st by (simp add: maybe_clear_resolved_def close_confirmed_for_all_channels_def)
  obtain sm sw where sw: "sweep_once example_sweep_env example_tracked_world = (sm, sw)" by fastforce
  then have "sm_swept sm = 2" using example_sweeps by simp
  then have "\<exists>st'. rv_state (rw_recovery (recovery_step example_sweep_env example_recovery_env example_chain (RecoveryTick 9) example_due_world)) = Some st' \<and> rs_status st' = SweepConfirmed"
    using st keep sw by (simp add: recovery_tick_def Let_def maybe_auto_recover_def AUTO_RECOVER_EVERY_TICKS_def example_due_world_def mark_sweep_confirmed_def)
  then obtain st' where "rv_state (rw_recovery (recovery_step example_sweep_env example_recovery_env example_chain (RecoveryTick 9) example_due_world)) = Some st'" "rs_status st' = SweepConfirmed" by blast
  from banner_confirmed_only_after_broadcast[OF st(1,2) this] show ?thesis .
qed

end
