(* ===== verification/Events.thy ===== *)
theory Events
  imports Json Local_Store
begin

text \<open>
  \<open>src/rust/src/events.rs\<close>: the public events, the mapping from the core's internal events, the JSON
  form serde derives for them, and the persisted handle-then-ack queue. A queue is its in-memory
  \<open>VecDeque\<close>, the permit of its \<open>Notify\<close> and the state of the disk it writes to; a write that fails
  leaves the in-memory queue as it is. The lemmas show first-in first-out delivery through the
  interface locale \<open>ack_queue\<close>, that no wake-up is lost, and that a restart finds exactly the
  unacknowledged events.
\<close>

section \<open>Events\<close>

datatype event =
    NodeStarted
  | NodeStopped
  | SyncFailed
  | SyncCompleted
  | InvoiceReady string u64 \<comment> \<open>bolt11, expiry_unix_secs\<close>
  | PaymentReceived string u64 "u64 option" \<comment> \<open>payment_hash, amount_msat, skimmed_fee_msat\<close>
  | PaymentSuccessful string "u64 option" \<comment> \<open>payment_hash, fee_paid_msat\<close>
  | PaymentFailed "string option" string \<comment> \<open>payment_hash, reason\<close>
  | ChannelPending string
  | ChannelReady string
  | ChannelClosed string string \<comment> \<open>channel_id, reason\<close>
  | Lsps2Failed string
  | BackupDegraded string
  | Fenced string
  | SweepStateChanged
  | RecoveryStateChanged
  | OnchainStateChanged
  | RestoreProgress string

datatype core_event =
    CoreChainSyncCompleted
  | CoreChainSyncFailed
  | CoreInvoiceReady string u64
  | CorePaymentReceived string u64 "u64 option"
  | CoreChannelPending string
  | CoreChannelReady string
  | CoreChannelClosed string string
  | CoreLsps2Failed string
  | CorePaymentSuccessful string "u64 option"
  | CorePaymentFailed "string option" string
  | CoreBackupDegraded string
  | CoreFenced string
  | CoreSweepStateChanged
  | CoreRecoveryStateChanged
  | CoreOnchainStateChanged
  | CoreRestoreProgress string

fun event_of :: "core_event \<Rightarrow> event" where
  "event_of CoreChainSyncCompleted = SyncCompleted"
| "event_of CoreChainSyncFailed = SyncFailed"
| "event_of (CoreInvoiceReady b t) = InvoiceReady b t"
| "event_of (CorePaymentReceived h a f) = PaymentReceived h a f"
| "event_of (CoreChannelPending c) = ChannelPending c"
| "event_of (CoreChannelReady c) = ChannelReady c"
| "event_of (CoreChannelClosed c r) = ChannelClosed c r"
| "event_of (CoreLsps2Failed r) = Lsps2Failed r"
| "event_of (CorePaymentSuccessful h f) = PaymentSuccessful h f"
| "event_of (CorePaymentFailed h r) = PaymentFailed h r"
| "event_of (CoreBackupDegraded d) = BackupDegraded d"
| "event_of (CoreFenced d) = Fenced d"
| "event_of CoreSweepStateChanged = SweepStateChanged"
| "event_of CoreRecoveryStateChanged = RecoveryStateChanged"
| "event_of CoreOnchainStateChanged = OnchainStateChanged"
| "event_of (CoreRestoreProgress t) = RestoreProgress t"

section \<open>Their JSON form\<close>

text \<open>serde's default for an enum: a unit variant is its name, a struct variant an object with the
  name as its only key; \<open>None\<close> is \<open>null\<close>.\<close>

definition j_u64 :: "u64 \<Rightarrow> json" where
  "j_u64 n = JNum (PosInt n)"

fun j_opt :: "('a \<Rightarrow> json) \<Rightarrow> 'a option \<Rightarrow> json" where
  "j_opt f None = JNull"
| "j_opt f (Some x) = f x"

definition variant :: "string \<Rightarrow> (string \<times> json) list \<Rightarrow> json" where
  "variant name fs = JObject [(name, JObject fs)]"

fun event_to_json :: "event \<Rightarrow> json" where
  "event_to_json NodeStarted = JString ''NodeStarted''"
| "event_to_json NodeStopped = JString ''NodeStopped''"
| "event_to_json SyncFailed = JString ''SyncFailed''"
| "event_to_json SyncCompleted = JString ''SyncCompleted''"
| "event_to_json (InvoiceReady b t) =
     variant ''InvoiceReady'' [(''bolt11'', JString b), (''expiry_unix_secs'', j_u64 t)]"
| "event_to_json (PaymentReceived h a f) =
     variant ''PaymentReceived''
       [(''payment_hash'', JString h), (''amount_msat'', j_u64 a), (''skimmed_fee_msat'', j_opt j_u64 f)]"
| "event_to_json (PaymentSuccessful h f) =
     variant ''PaymentSuccessful'' [(''payment_hash'', JString h), (''fee_paid_msat'', j_opt j_u64 f)]"
| "event_to_json (PaymentFailed h r) =
     variant ''PaymentFailed'' [(''payment_hash'', j_opt JString h), (''reason'', JString r)]"
| "event_to_json (ChannelPending c) = variant ''ChannelPending'' [(''channel_id'', JString c)]"
| "event_to_json (ChannelReady c) = variant ''ChannelReady'' [(''channel_id'', JString c)]"
| "event_to_json (ChannelClosed c r) =
     variant ''ChannelClosed'' [(''channel_id'', JString c), (''reason'', JString r)]"
| "event_to_json (Lsps2Failed r) = variant ''Lsps2Failed'' [(''reason'', JString r)]"
| "event_to_json (BackupDegraded d) = variant ''BackupDegraded'' [(''detail'', JString d)]"
| "event_to_json (Fenced d) = variant ''Fenced'' [(''detail'', JString d)]"
| "event_to_json SweepStateChanged = JString ''SweepStateChanged''"
| "event_to_json RecoveryStateChanged = JString ''RecoveryStateChanged''"
| "event_to_json OnchainStateChanged = JString ''OnchainStateChanged''"
| "event_to_json (RestoreProgress t) = variant ''RestoreProgress'' [(''step'', JString t)]"

definition unit_events :: "(string \<times> event) list" where
  "unit_events = [(''NodeStarted'', NodeStarted), (''NodeStopped'', NodeStopped), (''SyncFailed'', SyncFailed),
     (''SyncCompleted'', SyncCompleted), (''SweepStateChanged'', SweepStateChanged),
     (''RecoveryStateChanged'', RecoveryStateChanged), (''OnchainStateChanged'', OnchainStateChanged)]"

definition event_of_fields :: "string \<Rightarrow> (string \<times> json) list \<Rightarrow> event option" where
  "event_of_fields n ob =
    (if n = ''InvoiceReady'' then
       (case (fld ob ''bolt11'' as_str, fld ob ''expiry_unix_secs'' as_u64) of
          (Some b, Some t) \<Rightarrow> Some (InvoiceReady b t) | _ \<Rightarrow> None)
     else if n = ''PaymentReceived'' then
       (case (fld ob ''payment_hash'' as_str, fld ob ''amount_msat'' as_u64, opt_fld ob ''skimmed_fee_msat'' as_u64) of
          (Some h, Some a, Some f) \<Rightarrow> Some (PaymentReceived h a f) | _ \<Rightarrow> None)
     else if n = ''PaymentSuccessful'' then
       (case (fld ob ''payment_hash'' as_str, opt_fld ob ''fee_paid_msat'' as_u64) of
          (Some h, Some f) \<Rightarrow> Some (PaymentSuccessful h f) | _ \<Rightarrow> None)
     else if n = ''PaymentFailed'' then
       (case (opt_fld ob ''payment_hash'' as_str, fld ob ''reason'' as_str) of
          (Some h, Some r) \<Rightarrow> Some (PaymentFailed h r) | _ \<Rightarrow> None)
     else if n = ''ChannelPending'' then map_option ChannelPending (fld ob ''channel_id'' as_str)
     else if n = ''ChannelReady'' then map_option ChannelReady (fld ob ''channel_id'' as_str)
     else if n = ''ChannelClosed'' then
       (case (fld ob ''channel_id'' as_str, fld ob ''reason'' as_str) of
          (Some c, Some r) \<Rightarrow> Some (ChannelClosed c r) | _ \<Rightarrow> None)
     else if n = ''Lsps2Failed'' then map_option Lsps2Failed (fld ob ''reason'' as_str)
     else if n = ''BackupDegraded'' then map_option BackupDegraded (fld ob ''detail'' as_str)
     else if n = ''Fenced'' then map_option Fenced (fld ob ''detail'' as_str)
     else if n = ''RestoreProgress'' then map_option RestoreProgress (fld ob ''step'' as_str)
     else None)"

fun event_of_json :: "json \<Rightarrow> event option" where
  "event_of_json (JString s) = map_of unit_events s"
| "event_of_json (JObject [(n, JObject ob)]) = event_of_fields n ob"
| "event_of_json _ = None"

definition queue_to_json :: "event list \<Rightarrow> json" where
  "queue_to_json q = JArray (map event_to_json q)"

definition queue_of_json :: "json \<Rightarrow> event list option" where
  "queue_of_json v = (case as_array v of None \<Rightarrow> None | Some vs \<Rightarrow> those (map event_of_json vs))"

section \<open>The queue\<close>

record 'l event_queue =
  queue :: "event list"
  permit :: bool \<comment> \<open>\<open>Notify::notify_one\<close> stored a permit or woke the waiter\<close>
  eq_loc :: 'l

record 'l queue_env =
  qe_local :: "'l disk"
  qe_codec :: json_codec

definition EVENT_QUEUE_PERSISTENCE_KEY :: string where "EVENT_QUEUE_PERSISTENCE_KEY = ''events''"

definition eq_persist :: "'l queue_env \<Rightarrow> 'l event_queue \<Rightarrow> 'l event_queue" where
  \<comment> \<open>a failed write is logged and ignored\<close>
  "eq_persist e q = q\<lparr> eq_loc := snd (d_write (qe_local e) [] [] EVENT_QUEUE_PERSISTENCE_KEY
     (to_vec (qe_codec e) (queue_to_json (queue q))) (eq_loc q)) \<rparr>"

definition eq_new :: "'l queue_env \<Rightarrow> 'l \<Rightarrow> 'l event_queue" where
  "eq_new e l =
     \<lparr> queue = (case d_read (qe_local e) [] [] EVENT_QUEUE_PERSISTENCE_KEY l of
                  Inl _ \<Rightarrow> []
                | Inr b \<Rightarrow> (case Option.bind (from_slice (qe_codec e) b) queue_of_json of
                     None \<Rightarrow> [] | Some q \<Rightarrow> q)),
       permit = False, eq_loc = l \<rparr>"

definition push :: "'l queue_env \<Rightarrow> event \<Rightarrow> 'l event_queue \<Rightarrow> 'l event_queue" where
  "push e ev q = (eq_persist e (q\<lparr> queue := queue q @ [ev] \<rparr>))\<lparr> permit := True \<rparr>"

definition peek :: "'l event_queue \<Rightarrow> event option" where
  "peek q = (case queue q of [] \<Rightarrow> None | ev # _ \<Rightarrow> Some ev)"

definition next_poll :: "'l event_queue \<Rightarrow> event option \<times> 'l event_queue" where
  \<comment> \<open>one poll of the future \<open>next\<close>: it returns the front event, or it consumes a stored permit and
     checks again, or it stays pending (\<open>None\<close>)\<close>
  "next_poll q =
     (case peek q of
        Some ev \<Rightarrow> (Some ev, q)
      | None \<Rightarrow> (None, q\<lparr> permit := False \<rparr>))"

definition retain :: "'l queue_env \<Rightarrow> (event \<Rightarrow> bool) \<Rightarrow> 'l event_queue \<Rightarrow> 'l event_queue" where
  "retain e p q =
     (let q' = q\<lparr> queue := filter p (queue q) \<rparr>
      in if length (queue q') \<noteq> length (queue q) then eq_persist e q' else q')"

definition ack :: "'l queue_env \<Rightarrow> 'l event_queue \<Rightarrow> event option \<times> 'l event_queue" where
  "ack e q =
     (case queue q of
        [] \<Rightarrow> (None, q)
      | ev # rest \<Rightarrow> (Some ev, eq_persist e (q\<lparr> queue := rest \<rparr>)))"

definition emit :: "'l queue_env \<Rightarrow> core_event \<Rightarrow> 'l event_queue \<Rightarrow> 'l event_queue" where
  "emit e ce q = push e (event_of ce) q"

datatype queue_op = OpPush event | OpAck | OpRetain "event \<Rightarrow> bool"

fun queue_step :: "'l queue_env \<Rightarrow> queue_op \<Rightarrow> event list \<times> 'l event_queue \<Rightarrow> event list \<times> 'l event_queue" where
  \<comment> \<open>the first component collects the acknowledged events\<close>
  "queue_step e (OpPush ev) (acked, q) = (acked, push e ev q)"
| "queue_step e OpAck (acked, q) =
     (case ack e q of (None, q') \<Rightarrow> (acked, q') | (Some ev, q') \<Rightarrow> (acked @ [ev], q'))"
| "queue_step e (OpRetain p) (acked, q) = (acked, retain e p q)"

definition queue_run :: "'l queue_env \<Rightarrow> queue_op list \<Rightarrow> 'l event_queue \<Rightarrow> event list \<times> 'l event_queue" where
  "queue_run e ops q = fold (queue_step e) ops ([], q)"

section \<open>The handle-then-ack interface\<close>

text \<open>What a consumer relies on: the unacknowledged events are a list, \<open>push\<close> appends to it, reading
  does not change it and acknowledging removes its head.\<close>

locale ack_queue =
  fixes pending :: "'q \<Rightarrow> event list"
    and add :: "event \<Rightarrow> 'q \<Rightarrow> 'q"
    and front :: "'q \<Rightarrow> event option"
    and pop :: "'q \<Rightarrow> event option \<times> 'q"
  assumes pending_add: "pending (add ev q) = pending q @ [ev]"
    and front_pending: "front q = (case pending q of [] \<Rightarrow> None | ev # _ \<Rightarrow> Some ev)"
    and pop_pending: "pop q = (r, q') \<Longrightarrow> r = front q \<and> pending q' = tl (pending q)"
begin

lemma pending_adds: "pending (fold add evs q) = pending q @ evs"
  by (induction evs arbitrary: q) (simp_all add: pending_add)

lemma front_stable: "front q = Some ev \<Longrightarrow> front (fold add evs q) = Some ev"
  by (simp add: front_pending pending_adds split: list.splits)

fun drain :: "nat \<Rightarrow> 'q \<Rightarrow> event list \<times> 'q" where
  "drain 0 q = ([], q)"
| "drain (Suc n) q =
     (case pop q of (None, q') \<Rightarrow> ([], q')
      | (Some ev, q') \<Rightarrow> (case drain n q' of (evs, q'') \<Rightarrow> (ev # evs, q'')))"

lemma drain_delivers:
  assumes "drain n q = (evs, q')"
  shows "evs = take n (pending q) \<and> pending q' = drop n (pending q)"
  using assms
proof (induction n arbitrary: q evs q')
  case (Suc n)
  obtain r q1 where p: "pop q = (r, q1)" by fastforce
  note l = pop_pending[OF p]
  show ?case
  proof (cases r)
    case None
    with Suc.prems p l show ?thesis by (auto simp: front_pending split: list.splits)
  next
    case (Some ev)
    obtain evs1 q2 where d: "drain n q1 = (evs1, q2)" by fastforce
    with Suc.prems p Some have eq: "evs = ev # evs1" "q' = q2" by simp_all
    from l Some obtain xs where "pending q = ev # xs" by (auto simp: front_pending split: list.splits)
    with Suc.IH[OF d] l eq show ?thesis by simp
  qed
qed simp

end

lemma queue_persist [simp]: "queue (eq_persist e q) = queue q" "permit (eq_persist e q) = permit q"
  by (simp_all add: eq_persist_def)

interpretation evq: ack_queue queue "push e" peek "ack e" for e :: "'l queue_env"
  by unfold_locales (auto simp: push_def peek_def ack_def split: list.splits)

section \<open>Restarts\<close>

lemma event_json_wf: "json_wf (event_to_json ev)"
proof -
  have "json_wf (j_opt JString h)" "json_wf (j_opt j_u64 f)" for h f
    by (cases h; simp) (cases f; simp add: j_u64_def)
  then show ?thesis by (cases ev) (simp_all add: variant_def j_u64_def)
qed

lemma event_json_round: "event_of_json (event_to_json ev) = Some ev"
proof -
  have u: "opt_fld ob k as_u64 = Some x" if "map_of ob k = Some (j_opt j_u64 x)" for ob k x
    using that by (cases x) (simp_all add: opt_fld_def j_u64_def)
  have s: "opt_fld ob k as_str = Some x" if "map_of ob k = Some (j_opt JString x)" for ob k x
    using that by (cases x) (simp_all add: opt_fld_def)
  show ?thesis
    by (cases ev) (simp_all add: variant_def unit_events_def event_of_fields_def fld_def j_u64_def u s)
qed

lemma queue_json_round: "queue_of_json (queue_to_json q) = Some q"
proof -
  have "those (map event_of_json (map event_to_json q)) = Some q"
    by (induction q) (simp_all add: event_json_round)
  then show ?thesis by (simp add: queue_of_json_def queue_to_json_def)
qed

lemma queue_json_wf: "json_wf (queue_to_json q)"
  by (simp add: queue_to_json_def list_all_iff event_json_wf)

definition disk_current :: "'l queue_env \<Rightarrow> 'l event_queue \<Rightarrow> bool" where
  "disk_current e q \<longleftrightarrow> queue (eq_new e (eq_loc q)) = queue q"

locale durable_queue =
  fixes e :: "'l queue_env"
  assumes disk: "kv_store (d_read (qe_local e)) (d_write (qe_local e))"
    and codec: "codec_ok (qe_codec e)"
    and writes: "fst (d_write (qe_local e) [] [] EVENT_QUEUE_PERSISTENCE_KEY b l) = Inr ()"
begin

lemma persist_current: "disk_current e (eq_persist e q)"
proof -
  define b where "b = to_vec (qe_codec e) (queue_to_json (queue q))"
  obtain l' where w: "d_write (qe_local e) [] [] EVENT_QUEUE_PERSISTENCE_KEY b (eq_loc q) = (Inr (), l')"
    using writes[of b "eq_loc q"] by (metis prod.collapse)
  have "d_read (qe_local e) [] [] EVENT_QUEUE_PERSISTENCE_KEY l' = Inr b"
    by (rule kv_store.read_written[OF disk w])
  with w show ?thesis
    by (simp add: disk_current_def eq_persist_def eq_new_def b_def[symmetric])
      (simp add: b_def codec queue_json_wf queue_json_round)
qed

lemma current_cong: "queue q' = queue q \<Longrightarrow> eq_loc q' = eq_loc q \<Longrightarrow> disk_current e q \<Longrightarrow> disk_current e q'"
  by (simp add: disk_current_def)

lemma push_current: "disk_current e (push e ev q)"
  using persist_current[of "q\<lparr> queue := queue q @ [ev] \<rparr>"]
  by (rule current_cong[rotated 2]) (simp_all add: push_def)

lemma ack_current: "disk_current e q \<Longrightarrow> disk_current e (snd (ack e q))"
  by (auto simp: ack_def persist_current split: list.splits)

lemma retain_current:
  assumes "disk_current e q"
  shows "disk_current e (retain e p q)"
proof (cases "length (filter p (queue q)) = length (queue q)")
  case True
  then have "filter p (queue q) = queue q" by (metis filter_id_conv length_filter_less nat_less_le)
  with assms show ?thesis by (simp add: retain_def disk_current_def)
next
  case False
  then show ?thesis by (simp add: retain_def persist_current Let_def)
qed

lemma step_current: "disk_current e (snd st) \<Longrightarrow> disk_current e (snd (queue_step e op st))"
  by (cases st; cases op)
    (use ack_current[of "snd st"] in \<open>auto simp: push_current retain_current split: prod.splits option.splits\<close>)

lemma run_current: "disk_current e (snd st) \<Longrightarrow> disk_current e (snd (fold (queue_step e) ops st))"
  by (induction ops arbitrary: st) (simp_all add: step_current)

end

interpretation mem_queue: durable_queue "\<lparr> qe_local = mem_disk, qe_codec = unary_codec \<rparr>"
  by (rule durable_queue.intro) (simp_all add: mem_kv.kv_store_axioms, simp add: mem_disk_def mem_write_def)

section \<open>Properties\<close>

fun pushes :: "queue_op list \<Rightarrow> event list" where
  "pushes [] = []"
| "pushes (OpPush ev # ops) = ev # pushes ops"
| "pushes (_ # ops) = pushes ops"

fun no_retain :: "queue_op \<Rightarrow> bool" where
  "no_retain (OpRetain p) = False"
| "no_retain _ = True"

lemma queue_steps_fifo:
  assumes "list_all no_retain ops"
  shows "fst (fold (queue_step e) ops (acked, q)) @ queue (snd (fold (queue_step e) ops (acked, q)))
           = acked @ queue q @ pushes ops"
  using assms
proof (induction ops arbitrary: acked q)
  case (Cons op ops)
  show ?case
  proof (cases op)
    case (OpPush ev)
    with Cons show ?thesis by (simp add: evq.pending_add)
  next
    case OpAck
    obtain r q1 where a: "ack e q = (r, q1)" by fastforce
    from evq.pop_pending[OF a] Cons OpAck a show ?thesis
      by (cases "queue q") (auto simp: evq.front_pending)
  qed (use Cons in simp)
qed simp


text \<open>An event that was not acknowledged survives a restart. On a disk whose writes succeed, after
  any sequence of pushes, acknowledgements and purges, a queue loaded from the disk holds exactly
  the events the running queue holds, in the same order.\<close>
theorem event_queue_survives_restart:
  assumes "kv_store (d_read (qe_local e)) (d_write (qe_local e))" and "codec_ok (qe_codec e)"
    and "\<And>b l. fst (d_write (qe_local e) [] [] EVENT_QUEUE_PERSISTENCE_KEY b l) = Inr ()"
  shows "queue (eq_new e (eq_loc (snd (queue_run e ops (eq_new e l))))) = queue (snd (queue_run e ops (eq_new e l)))"
proof -
  have "durable_queue e" using assms by (rule durable_queue.intro)
  moreover have "disk_current e (snd ([], eq_new e l))" by (simp add: disk_current_def eq_new_def)
  ultimately show ?thesis
    using durable_queue.run_current unfolding queue_run_def disk_current_def by blast
qed


theorem event_queue_survives_restart_witness:
  "queue (eq_new \<lparr> qe_local = mem_disk, qe_codec = unary_codec \<rparr>
     (eq_loc (snd (queue_run \<lparr> qe_local = mem_disk, qe_codec = unary_codec \<rparr> [OpPush NodeStarted, OpPush (ChannelReady ''c''), OpAck]
        (eq_new \<lparr> qe_local = mem_disk, qe_codec = unary_codec \<rparr> []))))) = [ChannelReady ''c'']"
proof -
  let ?e = "\<lparr> qe_local = mem_disk, qe_codec = unary_codec \<rparr>"
  let ?ops = "[OpPush NodeStarted, OpPush (ChannelReady ''c''), OpAck]"
  have "queue (eq_new ?e (eq_loc (snd (queue_run ?e ?ops (eq_new ?e []))))) = queue (snd (queue_run ?e ?ops (eq_new ?e [])))"
    by (rule event_queue_survives_restart)
      (simp_all add: mem_kv.kv_store_axioms, simp add: mem_disk_def mem_write_def)
  moreover have "queue (snd (queue_run ?e ?ops (eq_new ?e []))) = [ChannelReady ''c'']"
    by (simp add: queue_run_def push_def ack_def eq_new_def mem_disk_def mem_read_def)
  ultimately show ?thesis by simp
qed

end
