(* ===== verification/Payment_History.thy ===== *)
theory Payment_History
  imports Close_Store Events "HOL-Library.Multiset"
begin

text \<open>
  \<open>src/rust/src/history.rs\<close>: the persisted payment rows with their JSON form, the payment store
  (\<open>record_pending\<close>, \<open>settle\<close>, \<open>record_claimed\<close>, \<open>reconcile_pending\<close>, loading, reset) and the merge
  of payments, on-chain transactions and close records into the activity feed. The store's \<open>HashMap\<close>
  is an association list kept sorted by key; where the code iterates over it the order is a parameter
  \<open>ord\<close>, any rearrangement of the entries.
\<close>

section \<open>Rows\<close>

datatype payment_direction = Inbound | Outbound
datatype payment_status = Pending | Succeeded | Failed

record persisted_payment =
  payment_hash :: string
  direction :: payment_direction
  amount_msat :: u64
  pp_status :: payment_status
  fee_paid_msat :: "u64 option"
  pp_created_at_ms :: u64
  failure_reason :: "string option"

definition PAYMENT_HISTORY_NS :: string where "PAYMENT_HISTORY_NS = ''payment_history''"
definition RECONCILE_GRACE_MS :: u64 where "RECONCILE_GRACE_MS = 60000"
definition INTERRUPTED_REASON :: string where "INTERRUPTED_REASON = ''interrupted''"

fun direction_str :: "payment_direction \<Rightarrow> string" where
  "direction_str Inbound = ''inbound''"
| "direction_str Outbound = ''outbound''"

fun status_str :: "payment_status \<Rightarrow> string" where
  "status_str Pending = ''pending''"
| "status_str Succeeded = ''succeeded''"
| "status_str Failed = ''failed''"

definition payment_to_json :: "persisted_payment \<Rightarrow> json" where
  "payment_to_json r = JObject
     [(''paymentHash'', JString (payment_hash r)), (''direction'', JString (direction_str (direction r))),
      (''amountMsat'', JString (u64_to_string (amount_msat r))), (''status'', JString (status_str (pp_status r))),
      (''feePaidMsat'', j_opt (\<lambda>n. JString (u64_to_string n)) (fee_paid_msat r)),
      (''createdAt'', j_u64 (pp_created_at_ms r)), (''failureReason'', j_opt JString (failure_reason r))]"

definition direction_of_str :: "string \<Rightarrow> payment_direction option" where
  "direction_of_str s = map_of [(''inbound'', Inbound), (''outbound'', Outbound)] s"

definition status_of_str :: "string \<Rightarrow> payment_status option" where
  "status_of_str s = map_of [(''pending'', Pending), (''succeeded'', Succeeded), (''failed'', Failed)] s"

definition u64_as_string :: "json \<Rightarrow> u64 option" where
  "u64_as_string v = Option.bind (as_str v) parse_u64"

fun opt_u64_as_string :: "json \<Rightarrow> u64 option option" where
  "opt_u64_as_string JNull = Some None"
| "opt_u64_as_string v = map_option Some (u64_as_string v)"

definition payment_of_json :: "json \<Rightarrow> persisted_payment option" where
  "payment_of_json v =
     (case as_object v of None \<Rightarrow> None | Some ob \<Rightarrow>
        (case (fld ob ''paymentHash'' as_str,
               fld ob ''direction'' (\<lambda>j. Option.bind (as_str j) direction_of_str),
               fld ob ''amountMsat'' u64_as_string,
               fld ob ''status'' (\<lambda>j. Option.bind (as_str j) status_of_str),
               fld ob ''feePaidMsat'' opt_u64_as_string,
               fld ob ''createdAt'' as_u64,
               opt_fld ob ''failureReason'' as_str) of
           (Some h, Some d, Some a, Some st, Some f, Some t, Some r) \<Rightarrow>
             Some \<lparr> payment_hash = h, direction = d, amount_msat = a, pp_status = st, fee_paid_msat = f,
                    pp_created_at_ms = t, failure_reason = r \<rparr>
         | _ \<Rightarrow> None))"

section \<open>The store\<close>

record 'l payment_store =
  rows :: "(string \<times> persisted_payment) list"
  ps_loc :: 'l

record 'l payment_env =
  pe_local :: "'l disk"
  pe_codec :: json_codec

definition load_row :: "'l payment_env \<Rightarrow> 'l \<Rightarrow> string \<Rightarrow> persisted_payment option" where
  \<comment> \<open>an unreadable or corrupt row is skipped\<close>
  "load_row e l k =
     (case d_read (pe_local e) PAYMENT_HISTORY_NS [] k l of
        Inl _ \<Rightarrow> None
      | Inr b \<Rightarrow> Option.bind (from_slice (pe_codec e) b) payment_of_json)"

definition payment_store_new :: "'l payment_env \<Rightarrow> 'l \<Rightarrow> 'l payment_store" where
  "payment_store_new e l =
     (let keys = (case d_list (pe_local e) PAYMENT_HISTORY_NS [] l of Inl _ \<Rightarrow> [] | Inr ks \<Rightarrow> ks) in
      \<lparr> rows = fold (\<lambda>k m. case load_row e l k of None \<Rightarrow> m | Some r \<Rightarrow> bt_insert k r m) keys [],
        ps_loc = l \<rparr>)"

definition payment_reset :: "'l payment_store \<Rightarrow> 'l payment_store" where
  "payment_reset s = s\<lparr> rows := [] \<rparr>"

definition persist_row ::
  "'l payment_env \<Rightarrow> persisted_payment \<Rightarrow> 'l payment_store \<Rightarrow> (io_error + unit) \<times> 'l payment_store"
where
  "persist_row e row s =
     (case d_write (pe_local e) PAYMENT_HISTORY_NS [] (payment_hash row)
             (to_vec (pe_codec e) (payment_to_json row)) (ps_loc s) of
        (res, l') \<Rightarrow> (res, s\<lparr> ps_loc := l' \<rparr>))"

definition commit_row ::
  "'l payment_env \<Rightarrow> string \<Rightarrow> persisted_payment \<Rightarrow> 'l payment_store \<Rightarrow> (io_error + unit) \<times> 'l payment_store"
where
  \<comment> \<open>the tail of the three writers: persist, then update the map\<close>
  "commit_row e i row s =
     (case persist_row e row s of
        (Inl err, s') \<Rightarrow> (Inl err, s')
      | (Inr u, s') \<Rightarrow> (Inr (), s'\<lparr> rows := bt_insert i row (rows s') \<rparr>))"

definition record_pending ::
  "'l payment_env \<Rightarrow> string \<Rightarrow> payment_direction \<Rightarrow> u64 \<Rightarrow> u64 \<Rightarrow> 'l payment_store
     \<Rightarrow> (io_error + unit) \<times> 'l payment_store"
where
  "record_pending e i d amount now s =
     (if (case bt_get (rows s) i of None \<Rightarrow> False | Some r \<Rightarrow> pp_status r \<noteq> Failed) then (Inr (), s)
      else commit_row e i
        \<lparr> payment_hash = i, direction = d, amount_msat = amount, pp_status = Pending, fee_paid_msat = None,
          pp_created_at_ms = now, failure_reason = None \<rparr> s)"

definition settle ::
  "'l payment_env \<Rightarrow> string \<Rightarrow> payment_status \<Rightarrow> u64 option \<Rightarrow> string option \<Rightarrow> 'l payment_store
     \<Rightarrow> (io_error + unit) \<times> 'l payment_store"
where
  "settle e i st fee reason s =
     (case bt_get (rows s) i of
        None \<Rightarrow> (Inr (), s)
      | Some r \<Rightarrow>
          if pp_status r \<noteq> Pending then (Inr (), s)
          else commit_row e i (r\<lparr> pp_status := st, fee_paid_msat := opt_or fee (fee_paid_msat r),
                 failure_reason := opt_or reason (failure_reason r) \<rparr>) s)"

definition record_claimed ::
  "'l payment_env \<Rightarrow> string \<Rightarrow> u64 \<Rightarrow> u64 \<Rightarrow> 'l payment_store \<Rightarrow> (io_error + unit) \<times> 'l payment_store"
where
  "record_claimed e i amount now s =
     (if bt_get (rows s) i \<noteq> None then (Inr (), s)
      else commit_row e i
        \<lparr> payment_hash = i, direction = Inbound, amount_msat = amount, pp_status = Succeeded,
          fee_paid_msat = None, pp_created_at_ms = now, failure_reason = None \<rparr> s)"

definition is_stale :: "string set \<Rightarrow> u64 \<Rightarrow> persisted_payment \<Rightarrow> bool" where
  "is_stale live now r \<longleftrightarrow> pp_status r = Pending \<and> payment_hash r \<notin> live
     \<and> (if pp_created_at_ms r \<le> now then now - pp_created_at_ms r else 0) > RECONCILE_GRACE_MS"

fun settle_all :: "'l payment_env \<Rightarrow> string list \<Rightarrow> 'l payment_store \<Rightarrow> (io_error + unit) \<times> 'l payment_store" where
  "settle_all e [] s = (Inr (), s)"
| "settle_all e (i # is) s =
     (case settle e i Failed None (Some INTERRUPTED_REASON) s of
        (Inl err, s') \<Rightarrow> (Inl err, s')
      | (Inr u, s') \<Rightarrow> settle_all e is s')"

definition reconcile_pending ::
  "'l payment_env \<Rightarrow> (persisted_payment list \<Rightarrow> persisted_payment list) \<Rightarrow> string set \<Rightarrow> u64 \<Rightarrow> 'l payment_store
     \<Rightarrow> (io_error + nat) \<times> 'l payment_store"
where
  "reconcile_pending e ord live now s =
     (let stale = map payment_hash (filter (is_stale live now) (ord (map snd (rows s)))) in
      case settle_all e stale s of
        (Inl err, s') \<Rightarrow> (Inl err, s')
      | (Inr u, s') \<Rightarrow> (Inr (length stale), s'))"

definition payment_get :: "'l payment_store \<Rightarrow> string \<Rightarrow> persisted_payment option" where
  "payment_get s i = bt_get (rows s) i"

section \<open>The activity feed\<close>

record onchain_tx_summary =
  ot_txid :: string
  sent_sats :: u64
  received_sats :: u64
  confirmed :: bool
  confirmation_time_secs :: "u64 option"
  first_seen_secs :: "u64 option"

datatype activity_kind = Lightning | Onchain | ChannelClose
datatype activity_direction = Sent | Received
datatype activity_status = ActPending | ActConfirmed | ActFailed

record activity_row =
  ar_id :: string
  ar_kind :: activity_kind
  ar_direction :: "activity_direction option"
  ar_amount_msat :: "u64 option"
  ar_amount_sats :: "u64 option"
  ar_status :: activity_status
  ar_created_at_ms :: u64
  ar_payment_hash :: "string option"
  ar_txid :: "string option"
  ar_channel_id :: "string option"
  ar_close_status :: "close_status_label option"
  ar_failure_reason :: "string option"

definition onchain_row :: "onchain_tx_summary \<Rightarrow> activity_row" where
  "onchain_row tx =
     \<lparr> ar_id = ot_txid tx, ar_kind = Onchain,
       ar_direction = Some (if sent_sats tx > received_sats tx then Sent else Received),
       ar_amount_msat = None,
       ar_amount_sats = Some (if sent_sats tx > received_sats tx then sent_sats tx - received_sats tx
                              else received_sats tx - sent_sats tx),
       ar_status = (if confirmed tx then ActConfirmed else ActPending),
       ar_created_at_ms =
         (case opt_or (confirmation_time_secs tx) (first_seen_secs tx) of None \<Rightarrow> 0 | Some t \<Rightarrow> t * 1000),
       ar_payment_hash = None, ar_txid = Some (ot_txid tx), ar_channel_id = None, ar_close_status = None,
       ar_failure_reason = None \<rparr>"

definition lightning_row :: "persisted_payment \<Rightarrow> activity_row" where
  "lightning_row p =
     \<lparr> ar_id = payment_hash p, ar_kind = Lightning,
       ar_direction = Some (case direction p of Outbound \<Rightarrow> Sent | Inbound \<Rightarrow> Received),
       ar_amount_msat = Some (amount_msat p), ar_amount_sats = None,
       ar_status = (if pp_status p = Pending then ActPending else ActConfirmed),
       ar_created_at_ms = pp_created_at_ms p, ar_payment_hash = Some (payment_hash p), ar_txid = None,
       ar_channel_id = None, ar_close_status = None, ar_failure_reason = None \<rparr>"

definition close_row :: "close_record_summary \<Rightarrow> activity_row" where
  "close_row c =
     \<lparr> ar_id = ''close:'' @ sum_channel_id c, ar_kind = ChannelClose, ar_direction = Some Received,
       ar_amount_msat = None, ar_amount_sats = sum_expected_amount_sats c,
       ar_status = (case sum_status c of
          Complete \<Rightarrow> ActConfirmed | ResolvedUnverified \<Rightarrow> ActConfirmed | _ \<Rightarrow> ActPending),
       ar_created_at_ms = sum_created_at_ms c, ar_payment_hash = None, ar_txid = None,
       ar_channel_id = Some (sum_channel_id c), ar_close_status = Some (sum_status c),
       ar_failure_reason = None \<rparr>"

definition merge_activity ::
  "persisted_payment list \<Rightarrow> onchain_tx_summary list \<Rightarrow> close_record_summary list \<Rightarrow> activity_row list"
where
  "merge_activity payments onchain closes =
     (let absorbed = set (concat (map absorbed_txids closes)) in
      sort_key (\<lambda>r. 18446744073709551616 - unat (ar_created_at_ms r))
        (map onchain_row (filter (\<lambda>tx. ot_txid tx \<notin> absorbed) onchain)
         @ map lightning_row (filter (\<lambda>p. pp_status p \<noteq> Failed) payments)
         @ map close_row closes))"

section \<open>Rows and their JSON form\<close>

lemma payment_json_wf [simp]: "json_wf (payment_to_json r)"
  by (cases "fee_paid_msat r"; cases "failure_reason r") (simp_all add: payment_to_json_def j_u64_def)

lemma payment_json_round: "payment_of_json (payment_to_json r) = Some r"
proof -
  have d: "direction_of_str (direction_str x) = Some x" for x by (cases x) (simp_all add: direction_of_str_def)
  have st: "status_of_str (status_str x) = Some x" for x by (cases x) (simp_all add: status_of_str_def)
  have f: "opt_u64_as_string (j_opt (\<lambda>n. JString (u64_to_string n)) x) = Some x" for x
    by (cases x) (simp_all add: u64_as_string_def)
  have s: "opt_fld ob k as_str = Some x" if "map_of ob k = Some (j_opt JString x)" for ob k x
    using that by (cases x) (simp_all add: opt_fld_def)
  show ?thesis
    by (simp add: payment_of_json_def payment_to_json_def fld_def u64_as_string_def j_u64_def d st f s)
qed

section \<open>How the operations change a row\<close>

lemma commit_row_rows:
  assumes "commit_row e i row s = (res, s')"
  shows "rows s' = (if res = Inr () then bt_insert i row (rows s) else rows s)"
  using assms by (auto simp: commit_row_def persist_row_def split: prod.splits sum.splits)

lemma commit_get: "payment_get (snd (commit_row pe i row s)) k = (if k = i \<and> fst (commit_row pe i row s) = Inr () then Some row else payment_get s k)"
  using commit_row_rows[of pe i row s "fst (commit_row pe i row s)" "snd (commit_row pe i row s)"]
  by (simp add: payment_get_def bt_get_insert)

datatype payment_op =
    OpRecordPending string payment_direction u64 u64
  | OpSettle string payment_status "u64 option" "string option"
  | OpRecordClaimed string u64 u64
  | OpReconcile "string set" u64

fun payment_step ::
  "'l payment_env \<Rightarrow> (persisted_payment list \<Rightarrow> persisted_payment list) \<Rightarrow> payment_op \<Rightarrow> 'l payment_store \<Rightarrow> 'l payment_store"
where
  "payment_step e ord (OpRecordPending i d a t) s = snd (record_pending e i d a t s)"
| "payment_step e ord (OpSettle i st f r) s = snd (settle e i st f r s)"
| "payment_step e ord (OpRecordClaimed i a t) s = snd (record_claimed e i a t s)"
| "payment_step e ord (OpReconcile live t) s = snd (reconcile_pending e ord live t s)"

lemma commit_row_other: "j \<noteq> i \<Longrightarrow> payment_get (snd (commit_row e i row s)) j = payment_get s j"
  by (simp add: commit_row_def persist_row_def payment_get_def bt_get_insert split: prod.splits sum.splits)

lemma settle_keeps:
  assumes "payment_get s i = Some r" and "pp_status r \<noteq> Pending"
  shows "payment_get (snd (settle e j st f why s)) i = Some r"
proof (cases "i = j")
  case True
  with assms show ?thesis by (simp add: settle_def payment_get_def)
next
  case False
  with assms show ?thesis
    by (simp add: settle_def commit_row_other split: option.splits)
qed

lemma settle_all_keeps:
  "payment_get s i = Some r \<Longrightarrow> pp_status r \<noteq> Pending \<Longrightarrow> payment_get (snd (settle_all e js s)) i = Some r"
proof (induction js arbitrary: s)
  case (Cons j js)
  obtain res s1 where o: "settle e j Failed None (Some INTERRUPTED_REASON) s = (res, s1)" by fastforce
  with settle_keeps[OF Cons.prems, of e j Failed None "Some INTERRUPTED_REASON"]
  have "payment_get s1 i = Some r" by simp
  with Cons o show ?case by (cases res) simp_all
qed simp

lemma reconcile_rows: "snd (reconcile_pending e ord live t s)
    = snd (settle_all e (map payment_hash (filter (is_stale live t) (ord (map snd (rows s))))) s)"
  by (simp add: reconcile_pending_def Let_def split: prod.splits sum.splits)

lemma payment_step_keeps:
  assumes "payment_get s i = Some r" and "pp_status r = Succeeded"
  shows "payment_get (payment_step e ord op s) i = Some r"
proof (cases op)
  case (OpRecordPending j d a t)
  with assms show ?thesis
    by (cases "i = j") (auto simp: record_pending_def commit_row_other payment_get_def[of s])
next
  case (OpRecordClaimed j a t)
  with assms show ?thesis
    by (cases "i = j") (auto simp: record_claimed_def commit_row_other payment_get_def[of s])
next
  case (OpSettle j st f why)
  with assms settle_keeps[of s i r e j st f why] show ?thesis by simp
next
  case (OpReconcile live t)
  with assms settle_all_keeps[of s i r e] show ?thesis by (simp add: reconcile_rows)
qed

section \<open>Memory and disk\<close>

definition rows_keyed :: "'l payment_store \<Rightarrow> bool" where
  "rows_keyed s \<longleftrightarrow> (\<forall>i r. payment_get s i = Some r \<longrightarrow> payment_hash r = i)"

definition rows_on_disk :: "'l payment_env \<Rightarrow> 'l payment_store \<Rightarrow> bool" where
  "rows_on_disk e s \<longleftrightarrow> rows_keyed s \<and> (\<forall>i. load_row e (ps_loc s) i = payment_get s i)"

locale payment_disk =
  fixes e :: "'l payment_env"
  assumes disk: "atomic_store (d_read (pe_local e)) (d_write (pe_local e)) (d_list (pe_local e))"
    and codec: "codec_ok (pe_codec e)"
    and list_ok: "\<exists>ks. d_list (pe_local e) PAYMENT_HISTORY_NS [] l = Inr ks"
begin

lemma new_loads: "payment_get (payment_store_new e l) i = load_row e l i"
proof -
  obtain ks where ks: "d_list (pe_local e) PAYMENT_HISTORY_NS [] l = Inr ks" using list_ok by blast
  have fold: "bt_get (fold (\<lambda>k m. case load_row e l k of None \<Rightarrow> m | Some r \<Rightarrow> bt_insert k r m) ks m) i
      = (if i \<in> set ks \<and> load_row e l i \<noteq> None then load_row e l i else bt_get m i)" for m
    by (induction ks arbitrary: m) (auto simp: bt_get_insert split: option.splits)
  have "load_row e l i = None" if "i \<notin> set ks"
  proof -
    from that listed_store.lists[OF atomic_store.axioms(1)[OF disk] ks]
    have "\<nexists>b. d_read (pe_local e) PAYMENT_HISTORY_NS [] i l = Inr b" by blast
    then show ?thesis by (simp add: load_row_def split: sum.splits)
  qed
  with ks fold[of "[]"] show ?thesis by (auto simp: payment_store_new_def payment_get_def)
qed

lemma commit_on_disk:
  assumes "rows_on_disk e s" and "payment_hash row = i" and "commit_row e i row s = (res, s')"
  shows "rows_on_disk e s'"
proof -
  define b where "b = to_vec (pe_codec e) (payment_to_json row)"
  obtain r l' where w: "d_write (pe_local e) PAYMENT_HISTORY_NS [] i b (ps_loc s) = (r, l')" by fastforce
  have eq: "ps_loc s' = l'" "res = r"
    using assms(2,3) w by (auto simp: commit_row_def persist_row_def b_def split: sum.splits)
  have ld: "load_row e l' j = (if j = i \<and> res = Inr () then Some row else load_row e (ps_loc s) j)" for j
    using atomic_store.read_after_write[OF disk w, of PAYMENT_HISTORY_NS "[]" j] codec eq
    by (simp add: load_row_def b_def payment_json_round)
  have "payment_get s' j = (if j = i \<and> res = Inr () then Some row else payment_get s j)" for j
    using commit_row_rows[OF assms(3)] by (simp add: payment_get_def bt_get_insert)
  with ld eq assms(1,2) show ?thesis by (simp add: rows_on_disk_def rows_keyed_def)
qed

lemma settle_on_disk: "rows_on_disk e s \<Longrightarrow> rows_on_disk e (snd (settle e i st f why s))"
proof (cases "payment_get s i")
  case (Some r)
  assume a: "rows_on_disk e s"
  with Some have "payment_hash r = i" by (simp add: rows_on_disk_def rows_keyed_def)
  with commit_on_disk[OF a, of "r\<lparr> pp_status := st, fee_paid_msat := opt_or f (fee_paid_msat r),
       failure_reason := opt_or why (failure_reason r) \<rparr>" i] a Some
  show ?thesis by (auto simp: settle_def payment_get_def intro: prod.collapse[symmetric])
qed (simp add: settle_def payment_get_def)

lemma settle_all_on_disk: "rows_on_disk e s \<Longrightarrow> rows_on_disk e (snd (settle_all e js s))"
proof (induction js arbitrary: s)
  case (Cons j js)
  obtain res s1 where o: "settle e j Failed None (Some INTERRUPTED_REASON) s = (res, s1)" by fastforce
  with settle_on_disk[OF Cons.prems, of j Failed None "Some INTERRUPTED_REASON"]
  have "rows_on_disk e s1" by simp
  with Cons o show ?case by (cases res) simp_all
qed simp

lemma step_on_disk: "rows_on_disk e s \<Longrightarrow> rows_on_disk e (payment_step e ord op s)"
  by (cases op)
    (auto simp: record_pending_def record_claimed_def reconcile_rows settle_on_disk settle_all_on_disk
      intro: commit_on_disk[OF _ _ prod.collapse[symmetric]])

lemma steps_on_disk: "rows_on_disk e s \<Longrightarrow> rows_on_disk e (fold (payment_step e ord) ops s)"
  by (induction ops arbitrary: s) (simp_all add: step_on_disk)

end

interpretation quota_payments: payment_disk "\<lparr> pe_local = quota_disk, pe_codec = unary_codec \<rparr>"
  by (rule payment_disk.intro) (simp_all add: quota_kv.atomic_store_axioms, simp add: quota_disk_def mem_list_def)

section \<open>Interrupted payments\<close>

definition interrupted :: "persisted_payment \<Rightarrow> persisted_payment" where
  "interrupted r = r\<lparr> pp_status := Failed, failure_reason := Some INTERRUPTED_REASON \<rparr>"

lemma settle_interrupted:
  assumes "settle e j Failed None (Some INTERRUPTED_REASON) s = (Inr (), s')"
  shows "payment_get s' i = map_option (\<lambda>r. if i = j \<and> pp_status r = Pending then interrupted r else r) (payment_get s i)"
proof (cases "payment_get s j")
  case None
  with assms show ?thesis by (cases "payment_get s i") (auto simp: settle_def payment_get_def)
next
  case (Some r)
  show ?thesis
  proof (cases "pp_status r = Pending")
    case True
    then have "commit_row e j (interrupted r) s = (Inr (), s')"
      using assms Some by (simp add: settle_def payment_get_def interrupted_def)
    with commit_row_rows[OF this] Some True show ?thesis
      by (cases "payment_get s i") (auto simp: payment_get_def bt_get_insert)
  next
    case False
    with assms Some show ?thesis by (cases "payment_get s i") (auto simp: settle_def payment_get_def)
  qed
qed

lemma settle_all_interrupted:
  assumes "settle_all e js s = (Inr (), s')"
  shows "payment_get s' i = map_option (\<lambda>r. if i \<in> set js \<and> pp_status r = Pending then interrupted r else r) (payment_get s i)"
  using assms
proof (induction js arbitrary: s)
  case Nil
  then show ?case by (cases "payment_get s i") auto
next
  case (Cons j js)
  obtain res s1 where o: "settle e j Failed None (Some INTERRUPTED_REASON) s = (res, s1)" by fastforce
  with Cons.prems have "res = Inr ()" and run: "settle_all e js s1 = (Inr (), s')" by (auto split: sum.splits)
  with Cons.IH[OF run] settle_interrupted[of e j s s1 i] o show ?case
    by (cases "payment_get s i") (auto simp: interrupted_def)
qed

section \<open>Properties\<close>

text \<open>A succeeded payment row is final. No sequence of dispatches, settles, claims and startup
  reconciles, replayed events included and whatever the disk does, changes or removes it.\<close>
theorem succeeded_row_is_final:
  assumes "payment_get s i = Some r" and "pp_status r = Succeeded"
  shows "payment_get (fold (payment_step e ord) ops s) i = Some r"
  using assms
proof (induction ops arbitrary: s)
  case (Cons op ops)
  from Cons.IH[OF payment_step_keeps[OF Cons.prems]] Cons.prems(2) show ?case by simp
qed simp

text \<open>C35: memory never runs ahead of the disk. On a disk whose failed writes change nothing, after any
  sequence of operations, failed persists included, a store loaded from the disk finds exactly the
  rows the running store holds.\<close>
theorem payment_rows_survive_restart:
  assumes "atomic_store (d_read (pe_local e)) (d_write (pe_local e)) (d_list (pe_local e))"
    and "codec_ok (pe_codec e)" and "\<And>l. \<exists>ks. d_list (pe_local e) PAYMENT_HISTORY_NS [] l = Inr ks"
    and "rows_on_disk e s"
  shows "payment_get (payment_store_new e (ps_loc (fold (payment_step e ord) ops s))) i
           = payment_get (fold (payment_step e ord) ops s) i"
proof -
  have p: "payment_disk e" by (rule payment_disk.intro) (use assms in auto)
  have "rows_on_disk e (fold (payment_step e ord) ops s)" by (rule payment_disk.steps_on_disk[OF p assms(4)])
  then show ?thesis by (simp add: payment_disk.new_loads[OF p] rows_on_disk_def)
qed

text \<open>a startup reconcile that succeeds fails exactly the orphaned payments: a pending row that LDK
  does not know and that is older than the grace period becomes failed with the reason
  \<open>interrupted\<close>, every other row is untouched, and no stale pending row is left.\<close>
theorem reconcile_pending_exact:
  assumes "reconcile_pending e ord live now s = (Inr n, s')" and "rows_keyed s" and "bt_wf (rows s)"
    and "\<And>xs. set (ord xs) = set xs"
  shows "payment_get s' i = map_option (\<lambda>r. if is_stale live now r then interrupted r else r) (payment_get s i)"
proof -
  define js where "js = map payment_hash (filter (is_stale live now) (ord (map snd (rows s))))"
  have run: "settle_all e js s = (Inr (), s')"
    using assms(1) by (auto simp: reconcile_pending_def js_def[symmetric] Let_def split: prod.splits sum.splits)
  have js: "i \<in> set js \<and> pp_status r = Pending \<longleftrightarrow> is_stale live now r" if r: "payment_get s i = Some r" for r
  proof -
    have mem: "(i', r') \<in> set (rows s) \<longleftrightarrow> payment_get s i' = Some r'" for i' r'
      using bt_get_mem[OF assms(3)] by (simp add: payment_get_def)
    have "set js = payment_hash ` {r' \<in> snd ` set (rows s). is_stale live now r'}"
      using assms(4) by (simp add: js_def)
    also have "\<dots> = {i'. \<exists>r'. payment_get s i' = Some r' \<and> is_stale live now r'}"
      using assms(2) mem by (fastforce simp: rows_keyed_def image_iff)
    finally have "i \<in> set js \<longleftrightarrow> (\<exists>r'. is_stale live now r' \<and> payment_get s i = Some r')" by auto
    with r show ?thesis by (auto simp: is_stale_def)
  qed
  show ?thesis using settle_all_interrupted[OF run, of i] js by (cases "payment_get s i") auto
qed

text \<open>The activity feed is newest first and shows every wallet transaction once: a transaction
  that belongs to a channel close is absorbed by the close's row and has no row of its own, any
  other one has as many rows as the wallet lists it, and each close record has exactly its row.\<close>
theorem activity_shows_each_once:
  "sorted_wrt (\<lambda>a b. ar_created_at_ms b \<le> ar_created_at_ms a) (merge_activity payments onchain closes)
   \<and> count_list (map ar_txid (merge_activity payments onchain closes)) (Some t)
       = (if \<exists>c \<in> set closes. t \<in> set (absorbed_txids c) then 0 else count_list (map ot_txid onchain) t)
   \<and> count_list (map ar_channel_id (merge_activity payments onchain closes)) (Some c)
       = count_list (map sum_channel_id closes) c"
proof -
  let ?key = "\<lambda>r. 18446744073709551616 - unat (ar_created_at_ms r)"
  have cnt: "count_list (map f (sort_key ?key xs)) x = count_list (map f xs) x" for f :: "activity_row \<Rightarrow> 'b" and xs x
    by (simp only: count_mset[symmetric] mset_map mset_sort)
  have le: "ar_created_at_ms b \<le> ar_created_at_ms a" if "?key a \<le> ?key b" for a b
  proof -
    have "unat (ar_created_at_ms b) < 18446744073709551616" "unat (ar_created_at_ms a) < 18446744073709551616"
      using unsigned_less[of "ar_created_at_ms b"] unsigned_less[of "ar_created_at_ms a"] by simp_all
    with that show ?thesis unfolding word_le_nat_alt by linarith
  qed
  have "sorted_wrt (\<lambda>a b. ?key a \<le> ?key b) (merge_activity payments onchain closes)"
    unfolding merge_activity_def Let_def using sorted_sort_key by (metis sorted_map)
  then have srt: "sorted_wrt (\<lambda>a b. ar_created_at_ms b \<le> ar_created_at_ms a) (merge_activity payments onchain closes)"
    by (rule sorted_wrt_mono_rel[rotated]) (rule le)
  have on: "count_list (map (\<lambda>x. ar_txid (onchain_row x)) xs) (Some t) = count_list (map ot_txid xs) t" for xs
    by (induction xs) (simp_all add: onchain_row_def)
  have fl: "count_list (map ot_txid (filter (\<lambda>tx. P (ot_txid tx)) xs)) t = (if P t then count_list (map ot_txid xs) t else 0)" for P :: "string \<Rightarrow> bool" and xs
    by (induction xs) auto
  have z: "count_list (map (\<lambda>x. ar_txid (lightning_row x)) ps) (Some t) = 0"
    "count_list (map (\<lambda>x. ar_txid (close_row x)) cs) (Some t) = 0"
    "count_list (map (\<lambda>x. ar_channel_id (lightning_row x)) ps) (Some c) = 0"
    "count_list (map (\<lambda>x. ar_channel_id (onchain_row x)) xs) (Some c) = 0" for ps cs xs
    by (simp_all add: count_list_0_iff lightning_row_def close_row_def onchain_row_def image_iff)
  have cl: "count_list (map (\<lambda>x. ar_channel_id (close_row x)) cs) (Some c) = count_list (map sum_channel_id cs) c" for cs
    by (induction cs) (simp_all add: close_row_def)
  show ?thesis
    using srt fl[of "\<lambda>i. \<forall>x \<in> set closes. i \<notin> set (absorbed_txids x)" onchain]
    by (simp add: merge_activity_def cnt comp_def on z cl)
qed

definition example_payments :: "(nat \<times> mem) payment_env" where
  "example_payments = \<lparr> pe_local = quota_disk, pe_codec = unary_codec \<rparr>"

definition example_paid :: persisted_payment where
  "example_paid = \<lparr> payment_hash = ''aa'', direction = Outbound, amount_msat = 7000, pp_status = Succeeded,
     fee_paid_msat = Some 3, pp_created_at_ms = 10, failure_reason = None \<rparr>"

definition example_inflight :: persisted_payment where
  "example_inflight = \<lparr> payment_hash = ''bb'', direction = Outbound, amount_msat = 5, pp_status = Pending,
     fee_paid_msat = None, pp_created_at_ms = 20, failure_reason = None \<rparr>"

definition example_payment_store :: "(nat \<times> mem) payment_store" where
  "example_payment_store = \<lparr> rows = [(''aa'', example_paid), (''bb'', example_inflight)], ps_loc = (5, []) \<rparr>"

theorem succeeded_row_is_final_witness:
  "payment_get example_payment_store ''aa'' = Some example_paid \<and> pp_status example_paid = Succeeded
   \<and> payment_get (fold (payment_step example_payments rev)
       [OpRecordPending ''aa'' Outbound 9 9, OpSettle ''aa'' Failed None None, OpReconcile {} 1000000] example_payment_store) ''aa''
     = Some example_paid"
proof -
  have a: "payment_get example_payment_store ''aa'' = Some example_paid" "pp_status example_paid = Succeeded"
    by (simp_all add: payment_get_def example_payment_store_def example_paid_def)
  with succeeded_row_is_final[OF a] show ?thesis by blast
qed

theorem payment_rows_survive_restart_witness:
  "payment_get (payment_store_new example_payments
     (ps_loc (fold (payment_step example_payments rev) [OpRecordClaimed ''cc'' 8 9, OpRecordClaimed ''dd'' 8 9]
        \<lparr> rows = [], ps_loc = (1, []) \<rparr>))) ''cc''
   = Some \<lparr> payment_hash = ''cc'', direction = Inbound, amount_msat = 8, pp_status = Succeeded,
       fee_paid_msat = None, pp_created_at_ms = 9, failure_reason = None \<rparr>"
proof -
  let ?s = "\<lparr> rows = [], ps_loc = (1, []) \<rparr> :: (nat \<times> mem) payment_store"
  let ?ops = "[OpRecordClaimed ''cc'' 8 9, OpRecordClaimed ''dd'' 8 9]"
  have "payment_get (payment_store_new example_payments (ps_loc (fold (payment_step example_payments rev) ?ops ?s))) ''cc''
      = payment_get (fold (payment_step example_payments rev) ?ops ?s) ''cc''"
  proof (rule payment_rows_survive_restart)
    show "rows_on_disk example_payments ?s"
      by (simp add: example_payments_def rows_on_disk_def rows_keyed_def payment_get_def load_row_def
          quota_disk_def mem_read_def)
  qed (use quota_payments.disk quota_payments.list_ok in \<open>simp_all add: example_payments_def\<close>)
  moreover have "payment_get (fold (payment_step example_payments rev) ?ops ?s) ''cc''
      = Some \<lparr> payment_hash = ''cc'', direction = Inbound, amount_msat = 8, pp_status = Succeeded,
       fee_paid_msat = None, pp_created_at_ms = 9, failure_reason = None \<rparr>"
    by (simp add: record_claimed_def commit_row_def persist_row_def payment_get_def example_payments_def
        quota_disk_def quota_write_def)
  ultimately show ?thesis by simp
qed

theorem reconcile_pending_exact_witness:
  "\<exists>s'. reconcile_pending example_payments rev {} 1000000 example_payment_store = (Inr 1, s')
     \<and> payment_get s' ''bb'' = Some (interrupted example_inflight) \<and> payment_get s' ''aa'' = Some example_paid"
proof -
  obtain n s' where r: "reconcile_pending example_payments rev {} 1000000 example_payment_store = (Inr n, s')" and n: "n = 1"
    by (simp add: reconcile_pending_def example_payment_store_def example_paid_def example_inflight_def is_stale_def
        RECONCILE_GRACE_MS_def settle_def commit_row_def persist_row_def example_payments_def quota_disk_def quota_write_def)
  have "''aa'' < ''bb''" by code_simp
  then have k: "rows_keyed example_payment_store" "bt_wf (rows example_payment_store)"
    by (auto simp: rows_keyed_def payment_get_def example_payment_store_def example_paid_def example_inflight_def
        bt_wf_def split: if_splits)
  have "is_stale {} 1000000 example_inflight" "\<not> is_stale {} 1000000 example_paid"
    by (simp_all add: is_stale_def example_inflight_def example_paid_def RECONCILE_GRACE_MS_def)
  with reconcile_pending_exact[OF r k, of "''bb''"] reconcile_pending_exact[OF r k, of "''aa''"] r n
  have "payment_get s' ''bb'' = Some (interrupted example_inflight)" "payment_get s' ''aa'' = Some example_paid"
    by (simp_all add: payment_get_def example_payment_store_def)
  with r n show ?thesis by blast
qed

end
