(* ===== verification/Event_Handler.thy ===== *)
theory Event_Handler
  imports Channels Recovery Payment_History Liquidity
begin

text \<open>
  The event switchboard, \<open>src/rust/src/node/event_handler.rs\<close>, with the fee gate of \<open>bump.rs\<close> and the failure
  texts of \<open>payment.rs\<close>: every LDK event the node observes goes through \<open>handle_ldk_event\<close>, which calls
  the components modelled in the other theories. The state \<open>node_world\<close> holds each component's state;
  the on-chain wallet and the broadcaster are those of the sweep engine and are shared with the
  funding flow and the bump handler. The stores keep disjoint namespaces of one local directory,
  each state holds its own part. LDK's \<open>Result<(), ReplayEvent>\<close> is a sum of units; log lines are left out.
\<close>

section \<open>Events and state\<close>

datatype payment_failure_reason =
    RecipientRejected | UserAbandoned | RetriesExhausted | PaymentExpired | RouteNotFound | UnexpectedError
  | UnknownRequiredFeatures | InvoiceRequestExpired | InvoiceRequestRejected | BlindedPathCreationFailed

definition describe_failure_reason :: "payment_failure_reason option \<Rightarrow> string" where
  "describe_failure_reason reason =
     (case reason of
        Some RecipientRejected \<Rightarrow> ''Payment was rejected by the recipient''
      | Some UserAbandoned \<Rightarrow> ''Payment was cancelled''
      | Some RetriesExhausted \<Rightarrow> ''No route found after multiple attempts''
      | Some PaymentExpired \<Rightarrow> ''Payment expired''
      | Some RouteNotFound \<Rightarrow> ''No route found to the recipient''
      | Some UnexpectedError \<Rightarrow> ''An unexpected error occurred''
      | Some UnknownRequiredFeatures \<Rightarrow> ''Recipient requires unsupported features''
      | Some InvoiceRequestExpired \<Rightarrow> ''Invoice request timed out '' @ bytes_str [0xE2, 0x80, 0x94] @ '' recipient may be offline''
      | Some InvoiceRequestRejected \<Rightarrow> ''Invoice request was rejected by the recipient''
      | _ \<Rightarrow> ''Payment failed'')"

datatype bump_view =
    BumpChannelClose bytes string u64 u32 \<comment> \<open>channel, commitment txid, its fee, package target in sat/kW\<close>
  | BumpHtlcResolution bytes u32 \<comment> \<open>channel, target in sat/kW\<close>

datatype ('d, 'b) ldk_event =
    EvSpendableOutputs "'d list" "bytes option"
  | EvOpenChannelRequest bytes node_id
  | EvPaymentClaimable payment_hash u64 "preimage option"
  | EvPaymentClaimed payment_hash u64
  | EvChannelPending bytes "bytes option" string u32 \<comment> \<open>channel, former temporary id, funding txid and output\<close>
  | EvChannelReady bytes
  | EvFundingGenerationReady bytes node_id u64 script
  | EvFundingTxBroadcastSafe bytes
  | EvDiscardFunding bytes
  | EvChannelClosed bytes closure_reason string "node_id option" "(string \<times> u16) option" "u64 option"
      \<comment> \<open>channel, reason and its \<open>Display\<close>, counterparty, funding output, last local balance in msat\<close>
  | EvPaymentSent "bytes option" payment_hash "u64 option"
  | EvPaymentFailed bytes "payment_hash option" "payment_failure_reason option"
  | EvBumpTransaction 'b
  | EvPaymentPathSuccessful
  | EvPaymentPathFailed
  | EvOther

record ('l, 'w, 'n, 'tx, 'r, 'v, 'k) node_world =
  nw_sweep :: "('l, 'l, 'w, ('l, 'n, 'tx) broadcaster) sweep_world"
  nw_wake :: bool \<comment> \<open>the permit of \<open>sweep_wake\<close>\<close>
  nw_liquidity :: liquidity_source
  nw_payments :: "'l payment_store"
  nw_peers :: "('r, 'l, 'v) peers_store"
  nw_ldk :: 'k
  nw_recovery :: "'l recovery_store"
  nw_events :: "'l event_queue"

record ('l, 'w, 'n, 'tx, 'r, 'v, 'k, 'd, 'x, 'p, 'b) node_env =
  ne_sweep :: "('l, 'l, 'd, 'w, ('l, 'n, 'tx) broadcaster, 'tx, 'x) sweep_env"
  ne_random :: bytes
  ne_payments :: "'l payment_env"
  ne_peers :: "('r, 'l, 'v) env"
  ne_recovery :: "'l recovery_env"
  ne_events :: "'l queue_env"
  ne_ldk :: "(node_id, 'k) ldk"
  ne_channel_action :: "channel_action \<Rightarrow> 'k \<Rightarrow> 'k"
  ne_htlc_action :: "htlc_action \<Rightarrow> 'k \<Rightarrow> 'k"
  ne_generated :: "bytes \<Rightarrow> node_id \<Rightarrow> 'tx \<Rightarrow> 'k \<Rightarrow> (string + unit) \<times> 'k"
  ne_bdk :: "('w, 'p, 'tx) bdk"
  ne_render :: "tx_build_failure \<Rightarrow> string"
  ne_broadcast :: "('l, 'n, 'tx) broadcast_env"
  ne_has_confirmed_utxo :: "'w \<Rightarrow> bool"
  ne_scan_complete :: "'w \<Rightarrow> bool"
  ne_receive_address :: "'w \<Rightarrow> string option \<times> 'w"
  ne_bump_view :: "'b \<Rightarrow> bump_view"
  ne_bump_handler :: "'b \<Rightarrow> 'w \<times> ('l, 'n, 'tx) broadcaster \<Rightarrow> 'w \<times> ('l, 'n, 'tx) broadcaster"

type_synonym replay = "unit + unit" \<comment> \<open>\<open>Inl ()\<close> is \<open>ReplayEvent\<close>\<close>

definition say :: "('l, 'w, 'n, 'tx, 'r, 'v, 'k, 'd, 'x, 'p, 'b) node_env \<Rightarrow> core_event \<Rightarrow> ('l, 'w, 'n, 'tx, 'r, 'v, 'k) node_world
    \<Rightarrow> ('l, 'w, 'n, 'tx, 'r, 'v, 'k) node_world" where
  "say e ce s = s\<lparr> nw_events := emit (ne_events e) ce (nw_events s) \<rparr>"

section \<open>Payment outcomes\<close>

definition settle_payment_sent ::
  "('l, 'w, 'n, 'tx, 'r, 'v, 'k, 'd, 'x, 'p, 'b) node_env \<Rightarrow> bytes option \<Rightarrow> payment_hash \<Rightarrow> u64 option \<Rightarrow> ('l, 'w, 'n, 'tx, 'r, 'v, 'k) node_world
     \<Rightarrow> replay \<times> ('l, 'w, 'n, 'tx, 'r, 'v, 'k) node_world"
where
  "settle_payment_sent e payment_id h fee s =
     (let row_key = (case payment_id of Some i \<Rightarrow> hex_str i | None \<Rightarrow> hex_str h) in
      case settle (ne_payments e) row_key Succeeded fee None (nw_payments s) of
        (Inl _, ps) \<Rightarrow> (Inl (), s\<lparr> nw_payments := ps \<rparr>)
      | (Inr _, ps) \<Rightarrow> (Inr (), say e (CorePaymentSuccessful (hex_str h) fee) (s\<lparr> nw_payments := ps \<rparr>)))"

definition settle_payment_failed ::
  "('l, 'w, 'n, 'tx, 'r, 'v, 'k, 'd, 'x, 'p, 'b) node_env \<Rightarrow> bytes \<Rightarrow> payment_hash option \<Rightarrow> payment_failure_reason option
     \<Rightarrow> ('l, 'w, 'n, 'tx, 'r, 'v, 'k) node_world \<Rightarrow> replay \<times> ('l, 'w, 'n, 'tx, 'r, 'v, 'k) node_world"
where
  "settle_payment_failed e payment_id h why s =
     (let reason = describe_failure_reason why in
      case settle (ne_payments e) (hex_str payment_id) Failed None (Some reason) (nw_payments s) of
        (Inl _, ps) \<Rightarrow> (Inl (), s\<lparr> nw_payments := ps \<rparr>)
      | (Inr _, ps) \<Rightarrow> (Inr (), say e (CorePaymentFailed (map_option hex_str h) reason) (s\<lparr> nw_payments := ps \<rparr>)))"

definition record_payment_claimed ::
  "('l, 'w, 'n, 'tx, 'r, 'v, 'k, 'd, 'x, 'p, 'b) node_env \<Rightarrow> payment_hash \<Rightarrow> u64 \<Rightarrow> u64 \<Rightarrow> ('l, 'w, 'n, 'tx, 'r, 'v, 'k) node_world
     \<Rightarrow> replay \<times> ('l, 'w, 'n, 'tx, 'r, 'v, 'k) node_world"
where
  "record_payment_claimed e h amount now s =
     (case record_claimed (ne_payments e) (hex_str h) amount now (nw_payments s) of
        (Inl _, ps) \<Rightarrow> (Inl (), s\<lparr> nw_payments := ps \<rparr>)
      | (Inr _, ps) \<Rightarrow>
          (case source_take_skim h (nw_liquidity s) of
             (skim, lq) \<Rightarrow> (Inr (), say e (CorePaymentReceived (hex_str h) amount skim) (s\<lparr> nw_payments := ps, nw_liquidity := lq \<rparr>))))"

section \<open>Fee bumps\<close>

fun bump_event_target_sat_per_kw :: "bump_view \<Rightarrow> u32" where
  "bump_event_target_sat_per_kw (BumpChannelClose _ _ _ target) = target"
| "bump_event_target_sat_per_kw (BumpHtlcResolution _ target) = target"

definition check_bump_target_sanity :: "u32 \<Rightarrow> fee_estimator \<Rightarrow> fee_sanity_error + unit" where
  "check_bump_target_sanity target f = check_fee_sanity (ucast target) 1000 (fee_sanity_max_sat_per_kw f)"

fun bump_observed :: "bump_view \<Rightarrow> string \<times> (string \<times> u64) option" where
  "bump_observed (BumpChannelClose cid i fee _) = (hex_str cid, Some (i, fee))"
| "bump_observed (BumpHtlcResolution cid _) = (hex_str cid, None)"

definition observe_bump ::
  "('l, 'w, 'n, 'tx, 'r, 'v, 'k, 'd, 'x, 'p, 'b) node_env \<Rightarrow> bump_view \<Rightarrow> ('l, 'w, 'n, 'tx, 'r, 'v, 'k) node_world \<Rightarrow> ('l, 'w, 'n, 'tx, 'r, 'v, 'k) node_world"
where
  \<comment> \<open>the deposit address is asked for only when a new recovery state is created\<close>
  "observe_bump e v s =
     (let (cid, commitment) = bump_observed v;
          sw = nw_sweep s;
          has_utxo = ne_has_confirmed_utxo e (sw_wallet sw);
          scanned = ne_scan_complete e (sw_wallet sw);
          (address, w) = (if \<not> has_utxo \<and> scanned \<and> rv_state (nw_recovery s) = None then ne_receive_address e (sw_wallet sw) else (None, sw_wallet sw));
          rate = Some (f64_of_rat (of_nat (unat (onchain_send_rate_sat_per_vb (se_fees (ne_sweep e))))));
          (cs, rv) = observe_bump_transaction (se_close (ne_sweep e)) (ne_recovery e) cid commitment has_utxo scanned address rate
                       (se_now_ms (ne_sweep e)) (sw_close sw) (nw_recovery s)
      in (say e CoreRecoveryStateChanged ^^ (rv_events rv - rv_events (nw_recovery s)))
           (s\<lparr> nw_sweep := sw\<lparr> sw_close := cs, sw_wallet := w \<rparr>, nw_recovery := rv \<rparr>))"

definition on_bump_transaction ::
  "('l, 'w, 'n, 'tx, 'r, 'v, 'k, 'd, 'x, 'p, 'b) node_env \<Rightarrow> 'b \<Rightarrow> ('l, 'w, 'n, 'tx, 'r, 'v, 'k) node_world \<Rightarrow> ('l, 'w, 'n, 'tx, 'r, 'v, 'k) node_world"
where
  "on_bump_transaction e bump s =
     (let v = ne_bump_view e bump; s1 = observe_bump e v s
      in case check_bump_target_sanity (bump_event_target_sat_per_kw v) (se_fees (ne_sweep e)) of
           Inl _ \<Rightarrow> s1
         | Inr _ \<Rightarrow>
             (case ne_bump_handler e bump (sw_wallet (nw_sweep s1), sw_net (nw_sweep s1)) of
                (w', n') \<Rightarrow> s1\<lparr> nw_sweep := (nw_sweep s1)\<lparr> sw_wallet := w', sw_net := n' \<rparr> \<rparr>))"

section \<open>Channels\<close>

definition on_funding_disk ::
  "('l \<Rightarrow> 'l) \<Rightarrow> ('l, 'w, 'n, 'tx, 'r, 'v, 'k) node_world \<Rightarrow> ('l, 'w, 'n, 'tx, 'r, 'v, 'k) node_world"
where
  "on_funding_disk f s = s\<lparr> nw_sweep := (nw_sweep s)\<lparr> sw_net := (sw_net (nw_sweep s))\<lparr> bc_disk := f (bc_disk (sw_net (nw_sweep s))) \<rparr> \<rparr> \<rparr>"

definition on_channel_pending ::
  "('l, 'w, 'n, 'tx, 'r, 'v, 'k, 'd, 'x, 'p, 'b) node_env \<Rightarrow> bytes \<Rightarrow> bytes option \<Rightarrow> string \<Rightarrow> u32
     \<Rightarrow> ('l, 'w, 'n, 'tx, 'r, 'v, 'k) node_world \<Rightarrow> ('l, 'w, 'n, 'tx, 'r, 'v, 'k) node_world"
where
  "on_channel_pending e cid former i vout s =
     (let s1 = (case former of Some temp \<Rightarrow> on_funding_disk (record_channel_id_map (ne_broadcast e) (hex_str cid) (hex_str temp)) s | None \<Rightarrow> s);
          timelock = map_option ucast (Option.bind (find (\<lambda>d. cd_channel_id d = cid) (lk_channels (ne_ldk e) (nw_ldk s1))) cd_spend_delay);
          s2 = s1\<lparr> nw_sweep := (nw_sweep s1)\<lparr> sw_close := record_funding_txo (se_close (ne_sweep e)) (hex_str cid)
                    \<lparr> ft_txid = i, ft_vout = vout, ft_timelock_blocks = timelock \<rparr> (sw_close (nw_sweep s1)) \<rparr> \<rparr>
      in say e (CoreChannelPending (hex_str cid)) s2)"

definition on_channel_closed_event ::
  "('l, 'w, 'n, 'tx, 'r, 'v, 'k, 'd, 'x, 'p, 'b) node_env \<Rightarrow> bytes \<Rightarrow> closure_reason \<Rightarrow> string \<Rightarrow> node_id option \<Rightarrow> (string \<times> u16) option \<Rightarrow> u64 option
     \<Rightarrow> ('l, 'w, 'n, 'tx, 'r, 'v, 'k) node_world \<Rightarrow> ('l, 'w, 'n, 'tx, 'r, 'v, 'k) node_world"
where
  "on_channel_closed_event e cid reason display counterparty funding balance s =
     (let s1 = s\<lparr> nw_sweep := (nw_sweep s)\<lparr> sw_close := on_channel_closed (se_close (ne_sweep e)) (hex_str cid) (classify_closure_reason reason)
                    (map_option (\<lambda>(i, v). \<lparr> op_txid = i, op_vout = ucast v \<rparr>) funding) (map_option (\<lambda>m. m div 1000) balance)
                    (se_now_ms (ne_sweep e)) (sw_close (nw_sweep s)) \<rparr> \<rparr>;
          s2 = (case counterparty of
                  Some peer \<Rightarrow> s1\<lparr> nw_peers := auto_forget_on_channel_closed (ne_peers e) (lk_pubkey_str (ne_ldk e) peer)
                      (list_ex (\<lambda>d. cd_counterparty d = peer) (lk_channels (ne_ldk e) (nw_ldk s1))) (nw_peers s1) \<rparr>
                | None \<Rightarrow> s1)
      in say e (CoreChannelClosed (hex_str cid) display) (on_funding_disk (remove_channel_id_map (ne_broadcast e) (hex_str cid)) s2))"

definition on_funding_ready ::
  "('l, 'w, 'n, 'tx, 'r, 'v, 'k, 'd, 'x, 'p, 'b) node_env \<Rightarrow> bytes \<Rightarrow> node_id \<Rightarrow> u64 \<Rightarrow> script
     \<Rightarrow> ('l, 'w, 'n, 'tx, 'r, 'v, 'k) node_world \<Rightarrow> ('l, 'w, 'n, 'tx, 'r, 'v, 'k) node_world"
where
  "on_funding_ready e temp peer value script s =
     (let fw = on_funding_generation_ready (ne_bdk e) (ne_render e) (ne_broadcast e) (ne_generated e)
                 (onchain_send_rate_sat_per_vb (se_fees (ne_sweep e))) temp peer value script
                 \<lparr> fw_bc = sw_net (nw_sweep s), fw_wallet = sw_wallet (nw_sweep s), fw_ldk = nw_ldk s \<rparr>
      in s\<lparr> nw_sweep := (nw_sweep s)\<lparr> sw_net := fw_bc fw, sw_wallet := fw_wallet fw \<rparr>, nw_ldk := fw_ldk fw \<rparr>)"

section \<open>The switchboard\<close>

fun handle_ldk_event ::
  "('l, 'w, 'n, 'tx, 'r, 'v, 'k, 'd, 'x, 'p, 'b) node_env \<Rightarrow> ('d, 'b) ldk_event \<Rightarrow> ('l, 'w, 'n, 'tx, 'r, 'v, 'k) node_world
     \<Rightarrow> replay \<times> ('l, 'w, 'n, 'tx, 'r, 'v, 'k) node_world"
where
  "handle_ldk_event e (EvSpendableOutputs outputs cid) s =
     (case track_spendable_outputs (ne_sweep e) (ne_random e) outputs (map_option hex_str cid) (nw_sweep s) of
        (Inr _, sw) \<Rightarrow> (Inr (), s\<lparr> nw_sweep := sw, nw_wake := True \<rparr>)
      | (Inl _, sw) \<Rightarrow> (Inl (), s\<lparr> nw_sweep := sw \<rparr>))"
| "handle_ldk_event e (EvOpenChannelRequest temp peer) s =
     (Inr (), s\<lparr> nw_ldk := ne_channel_action e (on_open_channel_request temp peer (nw_liquidity s)) (nw_ldk s) \<rparr>)"
| "handle_ldk_event e (EvPaymentClaimable h skim preimage) s =
     (case on_payment_claimable h skim preimage (nw_liquidity s) of
        (act, lq) \<Rightarrow> (Inr (), s\<lparr> nw_liquidity := lq, nw_ldk := ne_htlc_action e act (nw_ldk s) \<rparr>))"
| "handle_ldk_event e (EvPaymentClaimed h amount) s = record_payment_claimed e h amount (se_now_ms (ne_sweep e)) s"
| "handle_ldk_event e (EvChannelPending cid former i vout) s = (Inr (), on_channel_pending e cid former i vout s)"
| "handle_ldk_event e (EvChannelReady cid) s = (Inr (), say e (CoreChannelReady (hex_str cid)) s)"
| "handle_ldk_event e (EvFundingGenerationReady temp peer value script) s = (Inr (), on_funding_ready e temp peer value script s)"
| "handle_ldk_event e (EvFundingTxBroadcastSafe temp) s =
     (Inr (), s\<lparr> nw_sweep := (nw_sweep s)\<lparr> sw_net :=
        snd (handle_funding_tx_broadcast_safe (ne_broadcast e) (se_now_secs (ne_sweep e)) (hex_str temp) (sw_net (nw_sweep s))) \<rparr> \<rparr>)"
| "handle_ldk_event e (EvDiscardFunding cid) s =
     (Inr (), on_funding_disk (\<lambda>l. snd (handle_discard_funding (ne_broadcast e) (hex_str cid) l)) s)"
| "handle_ldk_event e (EvChannelClosed cid reason display counterparty funding balance) s =
     (Inr (), on_channel_closed_event e cid reason display counterparty funding balance s)"
| "handle_ldk_event e (EvPaymentSent payment_id h fee) s = settle_payment_sent e payment_id h fee s"
| "handle_ldk_event e (EvPaymentFailed payment_id h reason) s = settle_payment_failed e payment_id h reason s"
| "handle_ldk_event e (EvBumpTransaction bump) s = (Inr (), on_bump_transaction e bump s)"
| "handle_ldk_event e EvPaymentPathSuccessful s = (Inr (), s)"
| "handle_ldk_event e EvPaymentPathFailed s = (Inr (), s)"
| "handle_ldk_event e EvOther s = (Inr (), s)"

end
