(* ===== verification/Event_Safety.thy ===== *)
theory Event_Safety
  imports Event_Handler
begin

text \<open>
  What the event switchboard promises across components: the public payment events are exactly the
  acknowledged outcomes, each announced only once its history row is on the disk, an event is replayed
  only when such a row could not be written, and no fee bump above five times the urgent rate reaches
  the wallet or the network.
\<close>

section \<open>Outcomes and their announcements\<close>

fun is_outcome :: "('d, 'b) ldk_event \<Rightarrow> bool" where
  "is_outcome (EvPaymentClaimed _ _) = True"
| "is_outcome (EvPaymentSent _ _ _) = True"
| "is_outcome (EvPaymentFailed _ _ _) = True"
| "is_outcome _ = False"

fun is_payment_event :: "event \<Rightarrow> bool" where
  "is_payment_event (PaymentReceived _ _ _) = True"
| "is_payment_event (PaymentSuccessful _ _) = True"
| "is_payment_event (PaymentFailed _ _) = True"
| "is_payment_event _ = False"

fun announces :: "('d, 'b) ldk_event \<Rightarrow> event \<Rightarrow> bool" where
  "announces (EvPaymentClaimed h amount) p \<longleftrightarrow> (\<exists>skim. p = PaymentReceived (hex_str h) amount skim)"
| "announces (EvPaymentSent _ h fee) p \<longleftrightarrow> p = PaymentSuccessful (hex_str h) fee"
| "announces (EvPaymentFailed _ h why) p \<longleftrightarrow> p = PaymentFailed (map_option hex_str h) (describe_failure_reason why)"
| "announces _ p \<longleftrightarrow> False"

fun settled_in :: "('d, 'b) ldk_event \<Rightarrow> (string \<Rightarrow> persisted_payment option) \<Rightarrow> bool" where
  \<comment> \<open>a received payment has its row, the row of a finished send is no longer pending\<close>
  "settled_in (EvPaymentClaimed h _) row \<longleftrightarrow> row (hex_str h) \<noteq> None"
| "settled_in (EvPaymentSent payment_id h _) row \<longleftrightarrow>
     (\<forall>r. row (case payment_id of Some i \<Rightarrow> hex_str i | None \<Rightarrow> hex_str h) = Some r \<longrightarrow> pp_status r \<noteq> Pending)"
| "settled_in (EvPaymentFailed payment_id _ _) row \<longleftrightarrow> (\<forall>r. row (hex_str payment_id) = Some r \<longrightarrow> pp_status r \<noteq> Pending)"
| "settled_in _ row \<longleftrightarrow> True"

fun deliver_all ::
  "('l, 'w, 'n, 'tx, 'r, 'v, 'k, 'd, 'x, 'p, 'b) node_env \<Rightarrow> ('d, 'b) ldk_event list \<Rightarrow> ('l, 'w, 'n, 'tx, 'r, 'v, 'k) node_world
     \<Rightarrow> ('d, 'b) ldk_event list \<times> ('l, 'w, 'n, 'tx, 'r, 'v, 'k) node_world"
where
  \<comment> \<open>a sequence of deliveries, with the events that were acknowledged\<close>
  "deliver_all e [] s = ([], s)"
| "deliver_all e (ev # evs) s =
     (case handle_ldk_event e ev s of (r, s1) \<Rightarrow>
      case deliver_all e evs s1 of (acked, s2) \<Rightarrow> (if r = Inr () then ev # acked else acked, s2))"

section \<open>One delivery\<close>

lemma say_simps [simp]:
  "nw_payments (say e ce s) = nw_payments s" "nw_sweep (say e ce s) = nw_sweep s" "nw_recovery (say e ce s) = nw_recovery s"
  "queue (nw_events (say e ce s)) = queue (nw_events s) @ [event_of ce]"
  by (simp_all add: say_def emit_def evq.pending_add)

lemma say_repeat [simp]:
  "nw_payments ((say e ce ^^ n) s) = nw_payments s" "nw_sweep ((say e ce ^^ n) s) = nw_sweep s"
  "queue (nw_events ((say e ce ^^ n) s)) = queue (nw_events s) @ replicate n (event_of ce)"
  by (induction n) (simp_all add: replicate_append_same)

lemma on_funding_disk_simps [simp]:
  "nw_payments (on_funding_disk f s) = nw_payments s" "nw_events (on_funding_disk f s) = nw_events s"
  by (simp_all add: on_funding_disk_def)

definition quietly :: "('l, 'w, 'n, 'tx, 'r, 'v, 'k) node_world \<Rightarrow> ('l, 'w, 'n, 'tx, 'r, 'v, 'k) node_world \<Rightarrow> bool" where
  \<comment> \<open>no row changes and nothing is announced about payments\<close>
  "quietly s s' \<longleftrightarrow> nw_payments s' = nw_payments s
     \<and> (\<exists>new. queue (nw_events s') = queue (nw_events s) @ new \<and> filter is_payment_event new = [])"

lemma quietlyI: "nw_payments s' = nw_payments s \<Longrightarrow> queue (nw_events s') = queue (nw_events s) @ new \<Longrightarrow> filter is_payment_event new = [] \<Longrightarrow> quietly s s'"
  unfolding quietly_def by blast

lemma observe_bump_shape:
  obtains n sw rv where "observe_bump e v s = (say e CoreRecoveryStateChanged ^^ n) (s\<lparr> nw_sweep := sw, nw_recovery := rv \<rparr>)"
    and "sw_net sw = sw_net (nw_sweep s)"
    and "sw_wallet sw = sw_wallet (nw_sweep s) \<or> sw_wallet sw = snd (ne_receive_address e (sw_wallet (nw_sweep s)))"
proof -
  obtain cid commitment where b: "bump_observed v = (cid, commitment)" by fastforce
  obtain address w where a: "(if \<not> ne_has_confirmed_utxo e (sw_wallet (nw_sweep s)) \<and> ne_scan_complete e (sw_wallet (nw_sweep s)) \<and> rv_state (nw_recovery s) = None
      then ne_receive_address e (sw_wallet (nw_sweep s)) else (None, sw_wallet (nw_sweep s))) = (address, w)" by fastforce
  then have w: "w = sw_wallet (nw_sweep s) \<or> w = snd (ne_receive_address e (sw_wallet (nw_sweep s)))" by (auto split: if_splits)
  obtain cs rv where o: "observe_bump_transaction (se_close (ne_sweep e)) (ne_recovery e) cid commitment
      (ne_has_confirmed_utxo e (sw_wallet (nw_sweep s))) (ne_scan_complete e (sw_wallet (nw_sweep s))) address
      (Some (f64_of_rat (of_nat (unat (onchain_send_rate_sat_per_vb (se_fees (ne_sweep e)))))))
      (se_now_ms (ne_sweep e)) (sw_close (nw_sweep s)) (nw_recovery s) = (cs, rv)" by fastforce
  have "observe_bump e v s = (say e CoreRecoveryStateChanged ^^ (rv_events rv - rv_events (nw_recovery s)))
      (s\<lparr> nw_sweep := (nw_sweep s)\<lparr> sw_close := cs, sw_wallet := w \<rparr>, nw_recovery := rv \<rparr>)"
    by (simp only: observe_bump_def b a o Let_def prod.case)
  from that[OF this] w show thesis by simp
qed

lemma quiet_bump: "quietly s (on_bump_transaction e bump s)"
proof -
  obtain n sw rv where o: "observe_bump e (ne_bump_view e bump) s = (say e CoreRecoveryStateChanged ^^ n) (s\<lparr> nw_sweep := sw, nw_recovery := rv \<rparr>)"
    by (rule observe_bump_shape)
  show ?thesis
    by (rule quietlyI[where new = "replicate n RecoveryStateChanged"])
      (simp_all add: on_bump_transaction_def Let_def o split: prod.splits sum.splits)
qed

lemma quiet_pending: "quietly s (on_channel_pending e cid former i vout s)"
  by (rule quietlyI[where new = "[ChannelPending (hex_str cid)]"]) (simp_all add: on_channel_pending_def Let_def split: option.splits)

lemma quiet_closed: "quietly s (on_channel_closed_event e cid reason display peer funding balance s)"
  by (rule quietlyI[where new = "[ChannelClosed (hex_str cid) display]"]) (simp_all add: on_channel_closed_event_def Let_def split: option.splits)

lemma quiet_refl: "nw_payments s' = nw_payments s \<Longrightarrow> nw_events s' = nw_events s \<Longrightarrow> quietly s s'"
  by (simp add: quietly_def)

lemma quiet_others:
  assumes "handle_ldk_event e ev s = (r, s')" and "\<not> is_outcome ev"
  shows "quietly s s'"
proof (cases ev)
  case (EvChannelReady cid)
  with assms(1) show ?thesis by (intro quietlyI[where new = "[ChannelReady (hex_str cid)]"]) auto
qed (use assms in \<open>auto simp: on_funding_ready_def Let_def split: prod.splits sum.splits
    intro: quiet_bump quiet_pending quiet_closed quiet_refl\<close>)

fun row_op :: "('l, 'w, 'n, 'tx, 'r, 'v, 'k, 'd, 'x, 'p, 'b) node_env \<Rightarrow> ('d, 'b) ldk_event \<Rightarrow> payment_op" where
  "row_op e (EvPaymentClaimed h amount) = OpRecordClaimed (hex_str h) amount (se_now_ms (ne_sweep e))"
| "row_op e (EvPaymentSent payment_id h fee) = OpSettle (case payment_id of Some i \<Rightarrow> hex_str i | None \<Rightarrow> hex_str h) Succeeded fee None"
| "row_op e (EvPaymentFailed payment_id h why) = OpSettle (hex_str payment_id) Failed None (Some (describe_failure_reason why))"
| "row_op e _ = OpReconcile {} 0"

lemma settle_ends_pending:
  assumes "settle pe k st fee why ps = (res, ps')"
  shows "st \<noteq> Pending \<Longrightarrow> res = Inr () \<Longrightarrow> \<forall>r. payment_get ps' k = Some r \<longrightarrow> pp_status r \<noteq> Pending"
  using assms commit_row_rows[of pe k _ ps res ps']
  by (auto simp: settle_def payment_get_def bt_get_insert split: option.splits if_splits)

lemma outcome_step:
  assumes "handle_ldk_event e ev s = (r, s')" and "is_outcome ev"
  shows "nw_payments s' = payment_step (ne_payments e) id (row_op e ev) (nw_payments s)
    \<and> (if r = Inr () then settled_in ev (payment_get (nw_payments s')) \<and> (\<exists>p. queue (nw_events s') = queue (nw_events s) @ [p] \<and> announces ev p \<and> is_payment_event p)
       else queue (nw_events s') = queue (nw_events s))"
proof (cases ev)
  case (EvPaymentClaimed h amount)
  obtain res ps where c: "record_claimed (ne_payments e) (hex_str h) amount (se_now_ms (ne_sweep e)) (nw_payments s) = (res, ps)" by fastforce
  then have "res = Inr () \<Longrightarrow> payment_get ps (hex_str h) \<noteq> None"
    using c commit_row_rows[of "ne_payments e" "hex_str h" _ "nw_payments s" res ps]
    by (auto simp: record_claimed_def payment_get_def bt_get_insert split: if_splits)
  with assms EvPaymentClaimed c show ?thesis
    by (cases res) (auto simp: record_payment_claimed_def split: prod.splits)
next
  case (EvPaymentSent payment_id h fee)
  let ?k = "case payment_id of Some i \<Rightarrow> hex_str i | None \<Rightarrow> hex_str h"
  obtain res ps where c: "settle (ne_payments e) ?k Succeeded fee None (nw_payments s) = (res, ps)" by fastforce
  with assms EvPaymentSent c settle_ends_pending[OF c] show ?thesis
    by (cases res) (auto simp: settle_payment_sent_def Let_def)
next
  case (EvPaymentFailed payment_id h why)
  obtain res ps where c: "settle (ne_payments e) (hex_str payment_id) Failed None (Some (describe_failure_reason why)) (nw_payments s) = (res, ps)" by fastforce
  with assms EvPaymentFailed c settle_ends_pending[OF c] show ?thesis
    by (cases res) (auto simp: settle_payment_failed_def Let_def)
qed (use assms in simp_all)

lemma row_kept:
  assumes "is_outcome ev"
  shows "payment_get s k \<noteq> None \<Longrightarrow> payment_get (payment_step pe id (row_op e ev) s) k \<noteq> None"
    and "payment_get s k = Some r \<Longrightarrow> pp_status r \<noteq> Pending \<Longrightarrow> payment_get (payment_step pe id (row_op e ev) s) k = Some r"
    and "payment_get s k = None \<Longrightarrow> payment_get (payment_step pe id (row_op e ev) s) k = Some r \<Longrightarrow> pp_status r \<noteq> Pending"
  using assms
  by (cases ev; auto simp: record_claimed_def settle_def commit_get payment_get_def[symmetric] split: option.splits if_splits)+

lemma settled_kept:
  assumes "settled_in ev (payment_get s)" and "is_outcome ev2"
  shows "settled_in ev (payment_get (payment_step pe id (row_op e ev2) s))"
proof -
  let ?s = "payment_step pe id (row_op e ev2) s"
  have "pp_status r \<noteq> Pending" if "\<forall>r. payment_get s i = Some r \<longrightarrow> pp_status r \<noteq> Pending" and "payment_get ?s i = Some r" for i r
  proof (cases "payment_get s i")
    case None
    from row_kept(3)[OF assms(2) None that(2)] show ?thesis .
  next
    case (Some r0)
    from row_kept(2)[OF assms(2) Some, of pe e] that Some show ?thesis by simp
  qed
  with assms(1) row_kept(1)[OF assms(2), of s _ pe e] show ?thesis by (cases ev) (simp_all only: settled_in.simps, blast+)
qed

lemma delivery_sound:
  fixes e :: "('l, 'w, 'n, 'tx, 'r, 'v, 'k, 'd, 'x, 'p, 'b) node_env"
  assumes "payment_disk (ne_payments e)" and "rows_on_disk (ne_payments e) (nw_payments s)" and "deliver_all e evs s = (acked, s')"
  shows "rows_on_disk (ne_payments e) (nw_payments s')
    \<and> (\<exists>new. queue (nw_events s') = queue (nw_events s) @ new \<and> list_all2 announces (filter is_outcome acked) (filter is_payment_event new))
    \<and> (\<forall>ev \<in> set acked. settled_in ev (payment_get (nw_payments s')))
    \<and> (\<forall>ev :: ('d, 'b) ldk_event. settled_in ev (payment_get (nw_payments s)) \<longrightarrow> settled_in ev (payment_get (nw_payments s')))"
  using assms(2,3)
proof (induction evs arbitrary: s acked)
  case (Cons ev evs)
  obtain r s1 where h: "handle_ldk_event e ev s = (r, s1)" by fastforce
  obtain acked1 where d: "deliver_all e evs s1 = (acked1, s')" and a: "acked = (if r = Inr () then ev # acked1 else acked1)"
    using Cons.prems(2) h by (auto split: prod.splits)
  have one: "rows_on_disk (ne_payments e) (nw_payments s1)
      \<and> (\<exists>new. queue (nw_events s1) = queue (nw_events s) @ new
           \<and> list_all2 announces (if r = Inr () \<and> is_outcome ev then [ev] else []) (filter is_payment_event new))
      \<and> (r = Inr () \<longrightarrow> settled_in ev (payment_get (nw_payments s1)))
      \<and> (\<forall>ev :: ('d, 'b) ldk_event. settled_in ev (payment_get (nw_payments s)) \<longrightarrow> settled_in ev (payment_get (nw_payments s1)))"
  proof (cases "is_outcome ev")
    case True
    from outcome_step[OF h True] have p: "nw_payments s1 = payment_step (ne_payments e) id (row_op e ev) (nw_payments s)" by simp
    from payment_disk.step_on_disk[OF assms(1) Cons.prems(1), of id "row_op e ev"] p
    have "rows_on_disk (ne_payments e) (nw_payments s1)" by simp
    moreover have "\<forall>ev2 :: ('d, 'b) ldk_event. settled_in ev2 (payment_get (nw_payments s)) \<longrightarrow> settled_in ev2 (payment_get (nw_payments s1))"
      unfolding p using settled_kept[OF _ True] by blast
    ultimately show ?thesis using outcome_step[OF h True] True by (auto split: if_splits)
  next
    case False
    from quiet_others[OF h False] False Cons.prems(1) show ?thesis by (cases ev) (auto simp: quietly_def)
  qed
  then obtain new where n: "queue (nw_events s1) = queue (nw_events s) @ new"
    "list_all2 announces (if r = Inr () \<and> is_outcome ev then [ev] else []) (filter is_payment_event new)" by blast
  from one Cons.IH[OF _ d] obtain new1 where n1: "queue (nw_events s') = queue (nw_events s1) @ new1"
    "list_all2 announces (filter is_outcome acked1) (filter is_payment_event new1)" by blast
  have "filter is_outcome acked = (if r = Inr () \<and> is_outcome ev then [ev] else []) @ filter is_outcome acked1" by (simp add: a)
  with n n1 have "queue (nw_events s') = queue (nw_events s) @ (new @ new1)
      \<and> list_all2 announces (filter is_outcome acked) (filter is_payment_event (new @ new1))"
    by (simp only: append_assoc filter_append list_all2_appendI simp_thms)
  with one Cons.IH[OF _ d] a show ?case by (auto split: if_splits)
qed (auto simp: list_all2_Nil)


section \<open>Fee bumps\<close>

lemma bump_gate:
  "check_bump_target_sanity target f = Inr () \<longleftrightarrow> unat target \<le> 5 * unat (get_est_sat_per_1000_weight UrgentOnChainSweep f)"
proof -
  have t: "unat target < 2 ^ 32" "unat (get_est_sat_per_1000_weight UrgentOnChainSweep f) < 2 ^ 32"
    using unsigned_less[of target, where 'a = nat] unsigned_less[of "get_est_sat_per_1000_weight UrgentOnChainSweep f", where 'a = nat] by simp_all
  have u: "unat (ucast x :: u64) = unat x" for x :: u32
    using unsigned_less[of x, where 'a = nat] by (simp add: unsigned_ucast_eq take_bit_nat_eq_self)
  have m: "unat (fee_sanity_max_sat_per_kw f) = 5 * unat (get_est_sat_per_1000_weight UrgentOnChainSweep f)"
    using t(2) by (simp add: fee_sanity_max_sat_per_kw_def FEE_SANITY_MULTIPLIER_def unat_word_ariths u)
  have "unat (saturating_mul (ucast target :: u64) 1000) = unat target * 1000"
    using t(1) by (simp add: saturating_mul_def u unat_word_ariths)
  then have "unat (saturating_mul (ucast target :: u64) 1000 div 1000) = unat target" by (simp add: unat_div)
  then show ?thesis using m
    by (auto simp: check_bump_target_sanity_def check_fee_sanity_def Let_def word_less_nat_alt)
qed

text \<open>C22: an overpaying fee bump is refused before any coin is touched. When LDK asks for more than five times
  the urgent rate, the event changes neither the broadcaster nor, but for the address a new recovery
  state asks a deposit on, the wallet; every other bump reaches LDK's handler, after the close
  record has been told of the commitment.\<close>

theorem overpaying_bump_is_refused:
  fixes s :: "('l, 'w, 'n, 'tx, 'r, 'v, 'k) node_world"
  assumes "handle_ldk_event e (EvBumpTransaction bump) s = (r, s')"
  shows "r = Inr () \<and>
    (if unat (bump_event_target_sat_per_kw (ne_bump_view e bump)) > 5 * unat (get_est_sat_per_1000_weight UrgentOnChainSweep (se_fees (ne_sweep e)))
     then sw_net (nw_sweep s') = sw_net (nw_sweep s)
       \<and> sw_wallet (nw_sweep s') \<in> {sw_wallet (nw_sweep s), snd (ne_receive_address e (sw_wallet (nw_sweep s)))}
     else \<exists>s1. s1 = observe_bump e (ne_bump_view e bump) s \<and>
       (sw_wallet (nw_sweep s'), sw_net (nw_sweep s')) = ne_bump_handler e bump (sw_wallet (nw_sweep s1), sw_net (nw_sweep s)))"
proof -
  obtain n sw rv where o: "observe_bump e (ne_bump_view e bump) s = (say e CoreRecoveryStateChanged ^^ n) (s\<lparr> nw_sweep := sw, nw_recovery := rv \<rparr>)"
    and net: "sw_net sw = sw_net (nw_sweep s)"
    and w: "sw_wallet sw = sw_wallet (nw_sweep s) \<or> sw_wallet sw = snd (ne_receive_address e (sw_wallet (nw_sweep s)))"
    by (rule observe_bump_shape)
  note g = bump_gate[of "bump_event_target_sat_per_kw (ne_bump_view e bump)" "se_fees (ne_sweep e)"]
  from assms have s': "s' = on_bump_transaction e bump s" "r = Inr ()" by auto
  show ?thesis
  proof (cases "check_bump_target_sanity (bump_event_target_sat_per_kw (ne_bump_view e bump)) (se_fees (ne_sweep e))")
    case (Inl err)
    with g have "unat (bump_event_target_sat_per_kw (ne_bump_view e bump)) > 5 * unat (get_est_sat_per_1000_weight UrgentOnChainSweep (se_fees (ne_sweep e)))" by simp
    with Inl o net w show ?thesis by (simp add: s' on_bump_transaction_def Let_def)
  next
    case (Inr u)
    with g have "\<not> unat (bump_event_target_sat_per_kw (ne_bump_view e bump)) > 5 * unat (get_est_sat_per_1000_weight UrgentOnChainSweep (se_fees (ne_sweep e)))" by simp
    with Inr o net show ?thesis by (simp add: s' on_bump_transaction_def Let_def split: prod.splits)
  qed
qed

section \<open>An example node\<close>

type_synonym example_disk = "nat \<times> mem"

definition example_event_bdk :: "(script list, u8 list, u8 list) bdk" where
  "example_event_bdk =
     \<lparr> b_build = (\<lambda>spec rate w. (Inr [1], w)), b_facts = (\<lambda>p. Inr \<lparr> bf_fee_sats = 300, bf_outputs = [] \<rparr>),
       b_take_staged = (\<lambda>w. w), b_sign = (\<lambda>p w. (Inr (True, p), w)), b_extract = (\<lambda>p. Inr p), b_persist = (\<lambda>w. (Inr (), w)),
       b_trusted_spendable = (\<lambda>w. 100000), b_fee_rate_ok = (\<lambda>r. True), b_address = (\<lambda>a. Inr (True, [1])), b_minimal_non_dust = (\<lambda>s. 330) \<rparr>"

definition example_event_broadcast :: "(example_disk, nat, u8 list) broadcast_env" where
  "example_event_broadcast = \<lparr> be_codec = \<lparr> tc_serialize = id, tc_deserialize = Some, tc_txid = hex_str \<rparr>,
     be_disk = quota_disk, be_post = (\<lambda>tx n. (Posted, Suc n)) \<rparr>"

definition example_event_sweep :: "(example_disk, example_disk, u8, script list, (example_disk, nat, u8 list) broadcaster, u8 list, unit) sweep_env" where
  "example_event_sweep = \<lparr> se_disk = quota_disk, se_codec = unary_codec, se_close = \<lparr> ce_local = quota_disk, ce_codec = unary_codec \<rparr>,
     se_spender = example_spender, se_wallet = example_wallet, se_broadcast = chain_broadcast example_event_broadcast 5 (\<lambda>i n. (Inr None, n)),
     se_fees = fee_estimator_new, se_reserve = 2000, se_now_ms = 5, se_now_secs = 5 \<rparr>"

definition example_event_ldk :: "(node_id, nat) ldk" where
  "example_event_ldk =
     \<lparr> lk_pubkey_of_str = (\<lambda>s. Some []), lk_pubkey_str = hex_str, lk_peers = (\<lambda>k. []), lk_connect = (\<lambda>i a k. (True, k)), lk_sleep = id,
       lk_disconnect = (\<lambda>i k. k), lk_channels = (\<lambda>k. []), lk_create_channel = (\<lambda>i a u k. (Inr [7], k)),
       lk_close = (\<lambda>c i k. (Inr (), k)), lk_force_close = (\<lambda>c i r k. (Inr (), k)), lk_balances = (\<lambda>cs k. []) \<rparr>"

definition example_node_env :: "(example_disk, script list, nat, u8 list, mock, unit, nat, u8, unit, u8 list, bump_view) node_env" where
  "example_node_env =
     \<lparr> ne_sweep = example_event_sweep, ne_random = [], ne_payments = example_payments,
       ne_peers = \<lparr> e_remote = Some mock_transport, e_local = quota_disk, e_codec = unary_codec, e_tuning = default_tuning,
         e_write_flag = (\<lambda>d l. (Inr (), l)), e_flag_exists = (\<lambda>l. False), e_elapsed = (\<lambda>r. False) \<rparr>,
       ne_recovery = \<lparr> re_disk = quota_disk, re_codec = unary_codec \<rparr>, ne_events = \<lparr> qe_local = quota_disk, qe_codec = unary_codec \<rparr>,
       ne_ldk = example_event_ldk, ne_channel_action = (\<lambda>a k. Suc k), ne_htlc_action = (\<lambda>a k. Suc k),
       ne_generated = (\<lambda>t i tx k. (Inr (), Suc k)), ne_bdk = example_event_bdk, ne_render = (\<lambda>f. []), ne_broadcast = example_event_broadcast,
       ne_has_confirmed_utxo = (\<lambda>w. False), ne_scan_complete = (\<lambda>w. True), ne_receive_address = (\<lambda>w. (Some ''bc1'', w)),
       ne_bump_view = id, ne_bump_handler = (\<lambda>b (w, n). ([] # w, n)) \<rparr>"

definition example_node_world :: "(example_disk, script list, nat, u8 list, mock, unit, nat) node_world" where
  \<comment> \<open>the disk of the payment rows has room for one more write\<close>
  "example_node_world =
     \<lparr> nw_sweep = \<lparr> sw_disk = (9, []), sw_flags = \<lparr> sf_last_attempt_failed = False, sf_shortfall_sats = None \<rparr>,
         sw_close = \<lparr> records = [], funding_txos = [], cs_loc = (9, []), vss_attached = False, scheduled = [], last_tip_height = None \<rparr>,
         sw_wallet = [[5]], sw_net = \<lparr> bc_disk = (9, []), bc_net = 0, bc_queue = [] \<rparr>, sw_spent = {}, sw_in_progress = False, sw_notified = 0 \<rparr>,
       nw_wake = False, nw_liquidity = from_components [2] [], nw_payments = \<lparr> rows = [], ps_loc = (1, []) \<rparr>,
       nw_peers = ([], vss_new (ne_peers example_node_env) mock_new (9, []) () Map.empty (tracked_only []) True), nw_ldk = 0,
       nw_recovery = recovery_store_new (ne_recovery example_node_env) (9, []),
       nw_events = \<lparr> queue = [], permit = False, eq_loc = (9, []) \<rparr> \<rparr>"

lemma example_node_parts:
  "ne_payments example_node_env = example_payments" "nw_payments example_node_world = \<lparr> rows = [], ps_loc = (1, []) \<rparr>"
  "sw_wallet (nw_sweep example_node_world) = [[5]]" "ne_receive_address example_node_env w = (Some ''bc1'', w)"
  "ne_bump_view example_node_env = id" "ne_bump_handler example_node_env b (w, n) = ([] # w, n)"
  "se_fees (ne_sweep example_node_env) = fee_estimator_new" "hex_str [1] = ''01''" "hex_str [2] = ''02''"
  by (simp_all add: example_node_env_def example_node_world_def example_event_sweep_def) code_simp+

lemma example_rows: "rows_on_disk (ne_payments example_node_env) (nw_payments example_node_world)"
  by (simp add: example_node_parts example_payments_def rows_on_disk_def rows_keyed_def payment_get_def load_row_def quota_disk_def mem_read_def)

lemma claimed_effect:
  "fst (handle_ldk_event e (EvPaymentClaimed h amount) s)
     = map_sum (\<lambda>_. ()) id (fst (record_claimed (ne_payments e) (hex_str h) amount (se_now_ms (ne_sweep e)) (nw_payments s)))"
  "nw_payments (snd (handle_ldk_event e (EvPaymentClaimed h amount) s))
     = snd (record_claimed (ne_payments e) (hex_str h) amount (se_now_ms (ne_sweep e)) (nw_payments s))"
  by (simp_all add: record_payment_claimed_def split: prod.splits sum.splits)

lemma example_deliveries:
  "fst (deliver_all example_node_env [EvPaymentClaimed [1] 8, EvPaymentClaimed [2] 8] example_node_world) = [EvPaymentClaimed [1] 8]"
  by (simp add: split_beta claimed_effect example_node_parts record_claimed_def commit_row_def persist_row_def
      example_payments_def quota_disk_def quota_write_def del: handle_ldk_event.simps)


theorem overpaying_bump_is_refused_witness:
  "sw_wallet (nw_sweep (snd (handle_ldk_event example_node_env (EvBumpTransaction (BumpHtlcResolution [1] 12501)) example_node_world))) = [[5]]
   \<and> sw_wallet (nw_sweep (snd (handle_ldk_event example_node_env (EvBumpTransaction (BumpHtlcResolution [1] 12500)) example_node_world))) = [[], [5]]"
proof -
  have f: "get_est_sat_per_1000_weight UrgentOnChainSweep fee_estimator_new = 2500" by (rule fresh_urgent_rate)
  obtain n sw rv where "observe_bump example_node_env (BumpHtlcResolution [1] 12500) example_node_world
      = (say example_node_env CoreRecoveryStateChanged ^^ n) (example_node_world\<lparr> nw_sweep := sw, nw_recovery := rv \<rparr>)" and "sw_wallet sw = [[5]]"
    by (rule observe_bump_shape[of example_node_env "BumpHtlcResolution [1] 12500" example_node_world]) (simp add: example_node_parts)
  then have w: "sw_wallet (nw_sweep (observe_bump example_node_env (BumpHtlcResolution [1] 12500) example_node_world)) = [[5]]" by simp
  from overpaying_bump_is_refused[of example_node_env "BumpHtlcResolution [1] 12501" example_node_world, OF prod.collapse[symmetric]]
    overpaying_bump_is_refused[of example_node_env "BumpHtlcResolution [1] 12500" example_node_world, OF prod.collapse[symmetric]]
  show ?thesis by (simp add: example_node_parts f w del: handle_ldk_event.simps)
qed

end
