(* ===== verification/Payments.thy ===== *)
theory Payments
  imports Payment_History Payment_Input
begin

text \<open>
  Outbound Lightning payments: \<open>src/rust/src/payment.rs\<close> (validation of invoices and offers, the amount
  matrix, the two send flows, the mapping of LDK's errors) and the send side of
  \<open>src/rust/src/node/payments.rs\<close> (\<open>send_payment\<close>, \<open>pay_offer\<close> and the helpers that keep the history row,
  the attempt and the public event in step). The parsers of invoices and offers, LDK's payment calls
  (\<open>pv_pay\<close>, \<open>pv_pay_offer\<close>, over a state \<open>'p\<close> of the channel manager), the names of the networks \<open>'n\<close>,
  the clock and the random payment id are parameters. The contract the code relies on for
  idempotency, that LDK refuses an id it already tracks, is the locale \<open>idempotent_payer\<close>.
\<close>

section \<open>Errors\<close>

datatype 'n send_error =
    SendNotRunning
  | InvalidInvoice string
  | InvoiceExpired
  | InvoiceWrongNetwork 'n 'n \<comment> \<open>expected, found\<close>
  | AmountMissing
  | AmountOverrideNotAllowed
  | InvalidOffer string
  | OfferWrongNetwork 'n
  | OfferExpired
  | DuplicatePayment
  | NoRouteFound
  | SendFailed string

fun send_error_display :: "('n \<Rightarrow> string) \<Rightarrow> 'n send_error \<Rightarrow> string" where
  "send_error_display net SendNotRunning = ''the node is not running''"
| "send_error_display net (InvalidInvoice m) = ''invalid bolt11 invoice: '' @ m"
| "send_error_display net InvoiceExpired = ''the invoice is expired''"
| "send_error_display net (InvoiceWrongNetwork expected found) =
     ''the invoice is for the '' @ net found @ '' network, this wallet only pays '' @ net expected @ '' invoices''"
| "send_error_display net AmountMissing = ''Amount is required for invoices without an embedded amount''"
| "send_error_display net AmountOverrideNotAllowed =
     ''an amount override is only allowed for requests without an embedded amount''"
| "send_error_display net (InvalidOffer m) = ''invalid bolt12 offer: '' @ m"
| "send_error_display net (OfferWrongNetwork expected) =
     ''the offer is for a different network, this wallet only pays '' @ net expected @ '' offers''"
| "send_error_display net OfferExpired = ''the offer is expired''"
| "send_error_display net DuplicatePayment = ''a payment for this invoice is already pending''"
| "send_error_display net NoRouteFound = ''no route to the recipient was found''"
| "send_error_display net (SendFailed why) = ''sending the payment failed: '' @ why"

fun is_attempt_failure :: "'n send_error \<Rightarrow> bool" where
  "is_attempt_failure NoRouteFound = True"
| "is_attempt_failure (SendFailed _) = True"
| "is_attempt_failure _ = False"

fun lsps2_error_display :: "lsps2_error \<Rightarrow> string" where
  "lsps2_error_display lsps2_error.NotRunning = ''the node is not running''"
| "lsps2_error_display Shutdown = ''the node shut down during the LSPS2 request''"
| "lsps2_error_display ConnectFailed = ''could not connect to the LSP peer''"
| "lsps2_error_display (RequestTimeout phase) = ''the LSP did not answer lsps2.'' @ phase @ '' in time''"
| "lsps2_error_display (GetInfoFailed why) = ''lsps2.get_info failed: '' @ why"
| "lsps2_error_display (BuyFailed why) = ''lsps2.buy failed: '' @ why"
| "lsps2_error_display EmptyMenu = ''the LSP offered no opening fee params''"
| "lsps2_error_display AllParamsExpired = ''all LSP-offered opening fee params are expired''"
| "lsps2_error_display (AmountBelowMinimum amount least) =
     ''amount '' @ u64_to_string amount @ ''msat is below the LSP minimum payment size of '' @ u64_to_string least @ ''msat''"
| "lsps2_error_display (AmountAboveMaximum amount most) =
     ''amount '' @ u64_to_string amount @ ''msat is above the LSP maximum payment size of '' @ u64_to_string most @ ''msat''"
| "lsps2_error_display (OpeningFeeExceedsAmount fee amount) =
     ''the channel opening fee of '' @ u64_to_string fee @ ''msat would consume the whole '' @ u64_to_string amount @ ''msat payment''"
| "lsps2_error_display InvoiceCreationFailed = ''failed to create the invoice''"
| "lsps2_error_display QuoteNotFound = ''the fee quote is no longer available, request a new quote''"
| "lsps2_error_display (QuoteAmountMismatch quoted requested) =
     ''the quote was for '' @ u64_to_string quoted @ ''msat but '' @ u64_to_string requested @ ''msat was requested''"
| "lsps2_error_display QuoteExpired = ''Fee quote expired, please try again''"

datatype retryable_send_failure = LdkDuplicatePayment | LdkRouteNotFound | LdkPaymentExpired | LdkOtherFailure string
datatype bolt11_payment_error = InvalidAmount | SendingFailed retryable_send_failure
datatype bolt12_semantic_error =
  DuplicatePaymentId | AlreadyExpired | UnsupportedChain | MissingAmount | OtherSemanticError string

fun map_pay_error :: "bolt11_payment_error \<Rightarrow> 'n send_error" where
  "map_pay_error InvalidAmount = AmountMissing"
| "map_pay_error (SendingFailed LdkDuplicatePayment) = DuplicatePayment"
| "map_pay_error (SendingFailed LdkRouteNotFound) = NoRouteFound"
| "map_pay_error (SendingFailed LdkPaymentExpired) = InvoiceExpired"
| "map_pay_error (SendingFailed (LdkOtherFailure why)) = SendFailed why"

fun map_offer_error :: "bolt12_semantic_error \<Rightarrow> 'n \<Rightarrow> 'n send_error" where
  "map_offer_error DuplicatePaymentId net = DuplicatePayment"
| "map_offer_error AlreadyExpired net = OfferExpired"
| "map_offer_error UnsupportedChain net = OfferWrongNetwork net"
| "map_offer_error MissingAmount net = AmountMissing"
| "map_offer_error (OtherSemanticError why) net = SendFailed why"

section \<open>Requests and the payer\<close>

record 'n bolt11 = invoice +
  inv_network :: 'n

record 'n bolt12 = offer +
  off_supports_chain :: "'n \<Rightarrow> bool"

type_synonym payment_id = bytes

definition SEND_RETRY :: nat where "SEND_RETRY = 3"

record ('l, 'n, 'p) pay_env =
  pv_running :: bool
  pv_network :: 'n
  pv_show_network :: "'n \<Rightarrow> string"
  pv_bolt11 :: "string \<Rightarrow> string + 'n bolt11"
  pv_bolt12 :: "string \<Rightarrow> string + 'n bolt12"
  pv_pay :: "'n bolt11 \<Rightarrow> payment_id \<Rightarrow> u64 option \<Rightarrow> nat \<Rightarrow> 'p \<Rightarrow> (bolt11_payment_error + unit) \<times> 'p"
  pv_pay_offer :: "'n bolt12 \<Rightarrow> u64 option \<Rightarrow> payment_id \<Rightarrow> string option \<Rightarrow> nat \<Rightarrow> 'p \<Rightarrow> (bolt12_semantic_error + unit) \<times> 'p"
  pv_payments :: "'l payment_env"
  pv_queue :: "'l queue_env"

record ('l, 'p) pay_world =
  pw_ldk :: 'p
  pw_payments :: "'l payment_store"
  pw_events :: "'l event_queue"

definition payment_id_for :: "'n bolt11 \<Rightarrow> payment_id" where
  "payment_id_for i = inv_payment_hash i"

section \<open>Validation\<close>

fun resolve_amount :: "u64 option \<Rightarrow> u64 option \<Rightarrow> 'n send_error + u64" where
  "resolve_amount (Some _) (Some _) = Inl AmountOverrideNotAllowed"
| "resolve_amount (Some embedded) None = Inr embedded"
| "resolve_amount None (Some override) = Inr override"
| "resolve_amount None None = Inl AmountMissing"

definition parse_and_validate ::
  "(string \<Rightarrow> string + 'n bolt11) \<Rightarrow> string \<Rightarrow> 'n \<Rightarrow> nat \<Rightarrow> u64 option \<Rightarrow> 'n send_error + ('n bolt11 \<times> u64)"
where
  "parse_and_validate parse raw network now override =
     (case parse raw of
        Inl err \<Rightarrow> Inl (InvalidInvoice err)
      | Inr i \<Rightarrow>
          if inv_network i \<noteq> network then Inl (InvoiceWrongNetwork network (inv_network i))
          else if inv_would_expire i now then Inl InvoiceExpired
          else (case resolve_amount (inv_amount_msat i) override of Inl err \<Rightarrow> Inl err | Inr amount \<Rightarrow> Inr (i, amount)))"

definition validate_offer ::
  "(string \<Rightarrow> string + 'n bolt12) \<Rightarrow> string \<Rightarrow> 'n \<Rightarrow> nat \<Rightarrow> 'n send_error + ('n bolt12 \<times> u64 option)"
where
  "validate_offer parse raw network now =
     (case parse raw of
        Inl err \<Rightarrow> Inl (InvalidOffer err)
      | Inr offer \<Rightarrow>
          if \<not> off_supports_chain offer network then Inl (OfferWrongNetwork network)
          else if off_expired offer now then Inl OfferExpired
          else Inr (offer, off_amount_msat offer))"

section \<open>The send flows\<close>

definition send_bolt11 ::
  "('l, 'n, 'p) pay_env \<Rightarrow> string \<Rightarrow> nat \<Rightarrow> u64 option \<Rightarrow> 'p \<Rightarrow> ('n send_error + payment_id) \<times> 'p"
where
  "send_bolt11 e raw now override p =
     (case parse_and_validate (pv_bolt11 e) raw (pv_network e) now override of
        Inl err \<Rightarrow> (Inl err, p)
      | Inr (i, _) \<Rightarrow>
          let payment_id = payment_id_for i;
              ldk_amount = (case inv_amount_msat i of Some _ \<Rightarrow> None | None \<Rightarrow> override) in
          (case pv_pay e i payment_id ldk_amount SEND_RETRY p of
             (Inl err, p') \<Rightarrow> (Inl (map_pay_error err), p')
           | (Inr _, p') \<Rightarrow> (Inr payment_id, p')))"

definition send_bolt12 ::
  "('l, 'n, 'p) pay_env \<Rightarrow> string \<Rightarrow> nat \<Rightarrow> u64 option \<Rightarrow> string option \<Rightarrow> payment_id \<Rightarrow> 'p \<Rightarrow> ('n send_error + u64) \<times> 'p"
where
  "send_bolt12 e raw now override payer_note payment_id p =
     (case validate_offer (pv_bolt12 e) raw (pv_network e) now of
        Inl err \<Rightarrow> (Inl err, p)
      | Inr (offer, embedded) \<Rightarrow>
          (case resolve_amount embedded override of
             Inl err \<Rightarrow> (Inl err, p)
           | Inr resolved \<Rightarrow>
               let ldk_amount = (case embedded of Some _ \<Rightarrow> None | None \<Rightarrow> Some resolved) in
               (case pv_pay_offer e offer ldk_amount payment_id payer_note SEND_RETRY p of
                  (Inl err, p') \<Rightarrow> (Inl (map_offer_error err (pv_network e)), p')
                | (Inr _, p') \<Rightarrow> (Inr resolved, p'))))"

definition record_pending_outbound ::
  "('l, 'n, 'p) pay_env \<Rightarrow> string \<Rightarrow> u64 \<Rightarrow> u64 \<Rightarrow> ('l, 'p) pay_world \<Rightarrow> ('l, 'p) pay_world"
where
  \<comment> \<open>a failed write is logged\<close>
  "record_pending_outbound e i amount now_ms s =
     s\<lparr> pw_payments := snd (record_pending (pv_payments e) i Outbound amount now_ms (pw_payments s)) \<rparr>"

definition settle_attempt_failure ::
  "('l, 'n, 'p) pay_env \<Rightarrow> string \<Rightarrow> string option \<Rightarrow> 'n send_error \<Rightarrow> ('l, 'p) pay_world \<Rightarrow> ('l, 'p) pay_world"
where
  "settle_attempt_failure e i hash err s =
     (if \<not> is_attempt_failure err then s
      else let why = send_error_display (pv_show_network e) err;
               s1 = s\<lparr> pw_payments := snd (settle (pv_payments e) i Failed None (Some why) (pw_payments s)) \<rparr> in
           s1\<lparr> pw_events := emit (pv_queue e) (CorePaymentFailed hash why) (pw_events s1) \<rparr>)"

definition send_payment ::
  "('l, 'n, 'p) pay_env \<Rightarrow> string \<Rightarrow> u64 option \<Rightarrow> nat \<Rightarrow> u64 \<Rightarrow> ('l, 'p) pay_world \<Rightarrow> ('n send_error + unit) \<times> ('l, 'p) pay_world"
where
  "send_payment e raw override now now_ms s =
     (if \<not> pv_running e then (Inl SendNotRunning, s)
      else case parse_and_validate (pv_bolt11 e) raw (pv_network e) now override of
        Inl err \<Rightarrow> (Inl err, s)
      | Inr (i, amount) \<Rightarrow>
          let payment_id_hex = hex_str (payment_id_for i);
              payment_hash_hex = hex_str (inv_payment_hash i);
              s1 = record_pending_outbound e payment_id_hex amount now_ms s in
          (case send_bolt11 e raw now override (pw_ldk s1) of
             (res, p) \<Rightarrow>
               let s2 = s1\<lparr> pw_ldk := p \<rparr> in
               (case res of
                  Inr _ \<Rightarrow> (Inr (), s2)
                | Inl err \<Rightarrow> (Inl err, settle_attempt_failure e payment_id_hex (Some payment_hash_hex) err s2))))"

definition pay_offer ::
  "('l, 'n, 'p) pay_env \<Rightarrow> string \<Rightarrow> u64 option \<Rightarrow> string option \<Rightarrow> nat \<Rightarrow> u64 \<Rightarrow> payment_id \<Rightarrow> (lsps2_error + unit) option
     \<Rightarrow> ('l, 'p) pay_world \<Rightarrow> ('n send_error + unit) \<times> ('l, 'p) pay_world"
where
  \<comment> \<open>the last two arguments before the state are the random payment id and what
     \<open>ensure_lsp_connected\<close> returned on the runtime, \<open>None\<close> when the runtime is gone\<close>
  "pay_offer e raw override payer_note now now_ms payment_id dialed s =
     (if \<not> pv_running e then (Inl SendNotRunning, s)
      else case validate_offer (pv_bolt12 e) raw (pv_network e) now of
        Inl err \<Rightarrow> (Inl err, s)
      | Inr (_, embedded) \<Rightarrow>
          (case resolve_amount embedded override of
             Inl err \<Rightarrow> (Inl err, s)
           | Inr amount \<Rightarrow>
               let payment_id_hex = hex_str payment_id;
                   s1 = record_pending_outbound e payment_id_hex amount now_ms s in
               (case (case dialed of None \<Rightarrow> Inl Shutdown | Some d \<Rightarrow> d) of
                  Inl err \<Rightarrow>
                    let failure = SendFailed (''could not connect to the LSP for BOLT12 onion messaging: '' @ lsps2_error_display err) in
                    (Inl failure, settle_attempt_failure e payment_id_hex None failure s1)
                | Inr _ \<Rightarrow>
                    (case send_bolt12 e raw now override payer_note payment_id (pw_ldk s1) of
                       (res, p) \<Rightarrow>
                         let s2 = s1\<lparr> pw_ldk := p \<rparr> in
                         (case res of
                            Inr _ \<Rightarrow> (Inr (), s2)
                          | Inl err \<Rightarrow> (Inl err, settle_attempt_failure e payment_id_hex None err s2))))))"

section \<open>Requests in sequence\<close>

datatype send_request =
    SendInvoice string "u64 option"
  | PayOffer string "u64 option" "string option" payment_id "(lsps2_error + unit) option"

fun dispatch :: "('l, 'n, 'p) pay_env \<Rightarrow> send_request \<Rightarrow> nat \<Rightarrow> u64 \<Rightarrow> ('l, 'p) pay_world \<Rightarrow> ('n send_error + unit) \<times> ('l, 'p) pay_world" where
  "dispatch e (SendInvoice raw override) now now_ms s = send_payment e raw override now now_ms s"
| "dispatch e (PayOffer raw override note payment_id dialed) now now_ms s = pay_offer e raw override note now now_ms payment_id dialed s"

fun request_payment_id :: "('l, 'n, 'p) pay_env \<Rightarrow> send_request \<Rightarrow> payment_id" where
  "request_payment_id e (SendInvoice raw _) = (case pv_bolt11 e raw of Inl _ \<Rightarrow> [] | Inr i \<Rightarrow> inv_payment_hash i)"
| "request_payment_id e (PayOffer _ _ _ payment_id _) = payment_id"

fun request_hash :: "('l, 'n, 'p) pay_env \<Rightarrow> send_request \<Rightarrow> string option" where
  \<comment> \<open>an offer has no payment hash before its invoice arrives\<close>
  "request_hash e (SendInvoice raw _) = (case pv_bolt11 e raw of Inl _ \<Rightarrow> None | Inr i \<Rightarrow> Some (hex_str (inv_payment_hash i)))"
| "request_hash e (PayOffer _ _ _ _ _) = None"

fun run_sends ::
  "('l, 'n, 'p) pay_env \<Rightarrow> (send_request \<times> nat \<times> u64) list \<Rightarrow> ('l, 'p) pay_world \<Rightarrow> payment_id list \<times> ('l, 'p) pay_world"
where
  \<comment> \<open>the ids of the requests LDK accepted, in order\<close>
  "run_sends e [] s = ([], s)"
| "run_sends e ((req, now, now_ms) # reqs) s =
     (case dispatch e req now now_ms s of (r, s1) \<Rightarrow>
      case run_sends e reqs s1 of (ids, s2) \<Rightarrow> (if r = Inr () then request_payment_id e req # ids else ids, s2))"

section \<open>One request\<close>

lemma record_pending_outbound_simps [simp]:
  "pw_ldk (record_pending_outbound e i a t s) = pw_ldk s" "pw_events (record_pending_outbound e i a t s) = pw_events s"
  "(record_pending_outbound e i a t s)\<lparr> pw_ldk := pw_ldk s \<rparr> = record_pending_outbound e i a t s"
  by (simp_all add: record_pending_outbound_def)

lemma settle_attempt_failure_simps [simp]:
  "pw_ldk (settle_attempt_failure e i h err s) = pw_ldk s"
  by (simp add: settle_attempt_failure_def Let_def)

lemma validated:
  assumes "parse_and_validate parse raw net now ov = Inr (i, amount)"
  shows "parse raw = Inr i" "inv_network i = net" "\<not> inv_would_expire i now"
    "resolve_amount (inv_amount_msat i) ov = (Inr amount :: 'n send_error + u64)"
  using assms by (auto simp: parse_and_validate_def split: sum.splits if_splits)
    (cases "inv_amount_msat i"; cases ov; simp)

text \<open>The row, the hash and the id of an attempt: a request that gets past validation writes its
  pending row, makes at most one payment call under the id of the row, and on a failure of the
  attempt settles that row and announces it.\<close>

definition attempt ::
  "('l, 'n, 'p) pay_env \<Rightarrow> send_request \<Rightarrow> u64 \<Rightarrow> u64 \<Rightarrow> ('n send_error + unit) \<Rightarrow> 'p \<Rightarrow> ('l, 'p) pay_world \<Rightarrow> ('l, 'p) pay_world"
where
  "attempt e req amount now_ms r p s =
     (let i = hex_str (request_payment_id e req);
          s2 = (record_pending_outbound e i amount now_ms s)\<lparr> pw_ldk := p \<rparr> in
      case r of Inr _ \<Rightarrow> s2 | Inl err \<Rightarrow> settle_attempt_failure e i (request_hash e req) err s2)"

inductive payer_answer ::
  "('l, 'n, 'p) pay_env \<Rightarrow> send_request \<Rightarrow> u64 \<Rightarrow> 'p \<Rightarrow> ('n send_error + unit) \<Rightarrow> 'p \<Rightarrow> bool"
for e where
  \<comment> \<open>the single call an attempt makes, with the amount of the row: LDK's own amount slot is filled
     exactly for a request that carries none\<close>
  invoice: "pv_bolt11 e raw = Inr i \<Longrightarrow> resolve_amount (inv_amount_msat i) ov = (Inr amount :: 'n send_error + u64) \<Longrightarrow>
    pv_pay e i (inv_payment_hash i) (case inv_amount_msat i of Some _ \<Rightarrow> None | None \<Rightarrow> Some amount) SEND_RETRY p = (res, p') \<Longrightarrow>
    payer_answer e (SendInvoice raw ov) amount p (case res of Inl err \<Rightarrow> Inl (map_pay_error err) | Inr _ \<Rightarrow> Inr ()) p'"
| offer: "pv_bolt12 e raw = Inr b \<Longrightarrow> resolve_amount (off_amount_msat b) ov = (Inr amount :: 'n send_error + u64) \<Longrightarrow>
    pv_pay_offer e b (case off_amount_msat b of Some _ \<Rightarrow> None | None \<Rightarrow> Some amount) k note SEND_RETRY p = (res, p') \<Longrightarrow>
    payer_answer e (PayOffer raw ov note k (Some (Inr u))) amount p (case res of Inl err \<Rightarrow> Inl (map_offer_error err (pv_network e)) | Inr _ \<Rightarrow> Inr ()) p'"
| unconnected: "dialed = None \<or> dialed = Some (Inl err) \<Longrightarrow>
    payer_answer e (PayOffer raw ov note k dialed) amount p (Inl (SendFailed why)) p"

inductive_cases payer_answer_SendInvoiceE: "payer_answer e (SendInvoice raw ov) amount p r p'"

lemma resolve_not_attempt: "resolve_amount a ov = Inl err \<Longrightarrow> \<not> is_attempt_failure err"
  by (cases a; cases ov) auto

lemma amount_slot: "resolve_amount a ov = Inr amount \<Longrightarrow> (case a of Some _ \<Rightarrow> None | None \<Rightarrow> ov) = (case a of Some _ \<Rightarrow> None | None \<Rightarrow> Some amount)"
  by (cases a; cases ov) auto

lemma send_payment_cases:
  assumes "send_payment e raw ov now now_ms s = (r, s')"
  obtains (rejected) err where "r = Inl err" "s' = s" "\<not> is_attempt_failure err"
  | (attempted) amount p where "s' = attempt e (SendInvoice raw ov) amount now_ms r p s"
      "payer_answer e (SendInvoice raw ov) amount (pw_ldk s) r p"
proof (cases "pv_running e")
  case True
  show ?thesis
  proof (cases "parse_and_validate (pv_bolt11 e) raw (pv_network e) now ov")
    case (Inl err)
    then have "\<not> is_attempt_failure err"
      by (auto simp: parse_and_validate_def resolve_not_attempt split: sum.splits if_splits)
    moreover from assms True Inl have "r = Inl err" "s' = s" by (simp_all add: send_payment_def)
    ultimately show ?thesis using rejected by blast
  next
    case (Inr v)
    obtain i amount where v: "v = (i, amount)" by fastforce
    note val = validated[OF Inr[unfolded v]]
    let ?slot = "case inv_amount_msat i of Some _ \<Rightarrow> None | None \<Rightarrow> Some amount"
    obtain res p where c: "pv_pay e i (inv_payment_hash i) ?slot SEND_RETRY (pw_ldk s) = (res, p)" by fastforce
    with assms True Inr v val have "r = (case res of Inl err \<Rightarrow> Inl (map_pay_error err) | Inr _ \<Rightarrow> Inr ())"
      "s' = attempt e (SendInvoice raw ov) amount now_ms r p s"
      by (auto simp: send_payment_def send_bolt11_def attempt_def Let_def payment_id_for_def amount_slot[OF val(4)] split: sum.splits)
    with attempted payer_answer.invoice[OF val(1,4) c] show ?thesis by blast
  qed
next
  case False
  with assms rejected[of SendNotRunning] show ?thesis by (simp add: send_payment_def)
qed

lemma pay_offer_cases:
  fixes e :: "('l, 'n, 'p) pay_env"
  assumes "pay_offer e raw ov note now now_ms k dialed s = (r, s')"
  obtains (rejected) err where "r = Inl err" "s' = s" "\<not> is_attempt_failure err"
  | (attempted) amount p where "s' = attempt e (PayOffer raw ov note k dialed) amount now_ms r p s"
      "payer_answer e (PayOffer raw ov note k dialed) amount (pw_ldk s) r p"
proof (cases "pv_running e")
  case True
  show ?thesis
  proof (cases "validate_offer (pv_bolt12 e) raw (pv_network e) now")
    case (Inl err)
    then have "\<not> is_attempt_failure err" by (auto simp: validate_offer_def split: sum.splits if_splits)
    moreover from assms True Inl have "r = Inl err" "s' = s" by (simp_all add: pay_offer_def)
    ultimately show ?thesis using rejected by blast
  next
    case (Inr v)
    then obtain b where v: "v = (b, off_amount_msat b)" and b: "pv_bolt12 e raw = Inr b"
      by (auto simp: validate_offer_def split: sum.splits if_splits)
    show ?thesis
    proof (cases "resolve_amount (off_amount_msat b) ov :: 'n send_error + u64")
      case (Inl err)
      with assms True Inr v have "r = Inl err" "s' = s" by (simp_all add: pay_offer_def)
      with rejected resolve_not_attempt[OF Inl] show ?thesis by blast
    next
      case (Inr amount)
      note res = Inr
      let ?slot = "case off_amount_msat b of Some _ \<Rightarrow> None | None \<Rightarrow> Some amount"
      obtain ans p where c: "pv_pay_offer e b ?slot k note SEND_RETRY (pw_ldk s) = (ans, p)" by fastforce
      show ?thesis
      proof (cases "dialed = Some (Inr ())")
        case True
        with assms \<open>pv_running e\<close> \<open>validate_offer _ _ _ _ = Inr v\<close> v res c
        have "r = (case ans of Inl err \<Rightarrow> Inl (map_offer_error err (pv_network e)) | Inr _ \<Rightarrow> Inr ())"
          "s' = attempt e (PayOffer raw ov note k dialed) amount now_ms r p s"
          by (auto simp: pay_offer_def send_bolt12_def attempt_def Let_def split: sum.splits)
        with attempted payer_answer.offer[OF b res c] True show ?thesis by blast
      next
        case False
        then obtain err where d: "dialed = None \<and> err = Shutdown \<or> dialed = Some (Inl err)" by (cases dialed rule: option.exhaust) (auto, metis old.unit.exhaust sum.exhaust)
        define why where "why = ''could not connect to the LSP for BOLT12 onion messaging: '' @ lsps2_error_display err"
        from d assms \<open>pv_running e\<close> \<open>validate_offer _ _ _ _ = Inr v\<close> v res
        have "r = Inl (SendFailed why)" "s' = attempt e (PayOffer raw ov note k dialed) amount now_ms r (pw_ldk s) s"
          by (auto simp: pay_offer_def attempt_def Let_def why_def simp del: append_Cons lsps2_error_display.simps)
        note rs = this
        from d have "dialed = None \<or> dialed = Some (Inl err)" by blast
        from payer_answer.unconnected[OF this] have "payer_answer e (PayOffer raw ov note k dialed) amount (pw_ldk s) r (pw_ldk s)"
          unfolding rs(1) .
        with attempted rs(2) show ?thesis by blast
      qed
    qed
  qed
next
  case False
  with assms rejected[of SendNotRunning] show ?thesis by (simp add: pay_offer_def)
qed

lemma dispatch_cases:
  assumes "dispatch e req now now_ms s = (r, s')"
  obtains (rejected) err where "r = Inl err" "s' = s" "\<not> is_attempt_failure err"
  | (attempted) amount p where "s' = attempt e req amount now_ms r p s" "payer_answer e req amount (pw_ldk s) r p"
  using assms by (cases req) (auto elim: send_payment_cases pay_offer_cases)

section \<open>No invoice is paid twice\<close>

locale idempotent_payer =
  fixes e :: "('l, 'n, 'p) pay_env"
    and live :: "'p \<Rightarrow> payment_id set"
  assumes pay_new: "pv_pay e i k a n p = (Inr u, p') \<Longrightarrow> k \<notin> live p \<and> live p' = insert k (live p)"
    and pay_refused: "pv_pay e i k a n p = (Inl err, p') \<Longrightarrow> live p' = live p"
    and offer_new: "pv_pay_offer e b a k note n p = (Inr u, p') \<Longrightarrow> k \<notin> live p \<and> live p' = insert k (live p)"
    and offer_refused: "pv_pay_offer e b a k note n p = (Inl err', p') \<Longrightarrow> live p' = live p"
begin

lemma answer_live:
  assumes "payer_answer e req amount p r p'"
  shows "if r = Inr () then request_payment_id e req \<notin> live p \<and> live p' = insert (request_payment_id e req) (live p)
    else live p' = live p"
  using assms
  by (cases rule: payer_answer.cases) (auto dest: pay_new pay_refused offer_new offer_refused split: sum.splits)

lemma dispatch_live:
  assumes "dispatch e req now now_ms s = (r, s')"
  shows "if r = Inr () then request_payment_id e req \<notin> live (pw_ldk s) \<and> live (pw_ldk s') = insert (request_payment_id e req) (live (pw_ldk s))
    else live (pw_ldk s') = live (pw_ldk s)"
  using assms
proof (cases rule: dispatch_cases)
  case (attempted amount p)
  then have "pw_ldk s' = p" by (simp add: attempt_def Let_def split: sum.splits)
  with answer_live[OF attempted(2)] show ?thesis by simp
qed simp

lemma runs_live:
  "run_sends e reqs s = (ids, s') \<Longrightarrow> distinct ids \<and> set ids \<inter> live (pw_ldk s) = {} \<and> live (pw_ldk s') = live (pw_ldk s) \<union> set ids"
proof (induction reqs arbitrary: s ids)
  case (Cons rq reqs)
  obtain req now now_ms where rq: "rq = (req, now, now_ms)" by (cases rq)
  obtain r s1 where d: "dispatch e req now now_ms s = (r, s1)" by fastforce
  obtain ids1 where run: "run_sends e reqs s1 = (ids1, s')" and ids: "ids = (if r = Inr () then request_payment_id e req # ids1 else ids1)"
    using Cons.prems d rq by (auto split: prod.splits)
  from Cons.IH[OF run] dispatch_live[OF d] show ?case by (auto simp: ids split: if_splits)
qed simp

end

section \<open>A failed attempt\<close>

definition writes_ok :: "'l payment_env \<Rightarrow> bool" where
  "writes_ok pe \<longleftrightarrow> (\<forall>k b l. fst (d_write (pe_local pe) PAYMENT_HISTORY_NS [] k b l) = Inr ())"

lemma commit_ok: "writes_ok pe \<Longrightarrow> fst (commit_row pe i row s) = Inr ()"
  by (auto simp: writes_ok_def commit_row_def persist_row_def split: prod.splits sum.splits) (metis fst_conv Inl_Inr_False)

lemma record_pending_row:
  assumes "writes_ok pe"
  shows "\<exists>row. payment_get (snd (record_pending pe i d amount now_ms s)) i = Some row
    \<and> (case payment_get s i of Some r \<Rightarrow> if pp_status r = Failed then pp_status row = Pending else row = r | None \<Rightarrow> pp_status row = Pending)"
  using commit_ok[OF assms] by (auto simp: record_pending_def commit_get payment_get_def[symmetric] split: option.splits)

lemma settle_row:
  assumes "writes_ok pe" and "payment_get s i = Some row"
  shows "payment_get (snd (settle pe i Failed None (Some why) s)) i
    = Some (if pp_status row = Pending then row\<lparr> pp_status := Failed, failure_reason := Some why \<rparr> else row)"
  using assms(2) commit_ok[OF assms(1)] by (simp add: settle_def commit_get payment_get_def[symmetric])

lemma attempt_rows:
  "pw_payments (attempt e req amount now_ms r p s) =
     (let i = hex_str (request_payment_id e req); s1 = snd (record_pending (pv_payments e) i Outbound amount now_ms (pw_payments s)) in
      case r of Inr _ \<Rightarrow> s1
      | Inl err \<Rightarrow> if is_attempt_failure err then snd (settle (pv_payments e) i Failed None (Some (send_error_display (pv_show_network e) err)) s1) else s1)"
  by (simp add: attempt_def record_pending_outbound_def settle_attempt_failure_def Let_def split: sum.splits)

fun failure_events :: "('l, 'n, 'p) pay_env \<Rightarrow> send_request \<Rightarrow> 'n send_error + unit \<Rightarrow> event list" where
  "failure_events e req (Inr _) = []"
| "failure_events e req (Inl err) =
     (if is_attempt_failure err then [PaymentFailed (request_hash e req) (send_error_display (pv_show_network e) err)] else [])"

definition stored_row :: "('l, 'n, 'p) pay_env \<Rightarrow> ('l, 'p) pay_world \<Rightarrow> string \<Rightarrow> persisted_payment option" where
  \<comment> \<open>the row a restart would load\<close>
  "stored_row e s k = load_row (pv_payments e) (ps_loc (pw_payments s)) k"

lemma attempt_queue:
  "queue (pw_events (attempt e req amount now_ms r p s)) = queue (pw_events s) @ failure_events e req r"
  by (simp add: attempt_def settle_attempt_failure_def Let_def emit_def evq.pending_add split: sum.splits)

lemma dispatch_on_disk:
  assumes "payment_disk (pv_payments e)" and "rows_on_disk (pv_payments e) (pw_payments s)" and "dispatch e req now now_ms s = (r, s')"
  shows "rows_on_disk (pv_payments e) (pw_payments s')"
  using assms(3)
proof (cases rule: dispatch_cases)
  case (attempted amount p)
  let ?i = "hex_str (request_payment_id e req)"
  have st: "rows_on_disk (pv_payments e) (snd (record_pending (pv_payments e) ?i Outbound amount now_ms (pw_payments s)))"
    using payment_disk.step_on_disk[OF assms(1,2), of id "OpRecordPending ?i Outbound amount now_ms"] by simp
  with payment_disk.settle_on_disk[OF assms(1) st] attempted show ?thesis
    by (simp add: attempt_rows Let_def split: sum.splits)
qed (use assms in simp)

lemma other_rows:
  assumes "dispatch e req now now_ms s = (r, s')" and "j \<noteq> hex_str (request_payment_id e req)"
  shows "payment_get (pw_payments s') j = payment_get (pw_payments s) j"
  using assms(1)
proof (cases rule: dispatch_cases)
  case (attempted amount p)
  with assms(2) show ?thesis
    by (simp add: attempt_rows Let_def settle_def record_pending_def commit_row_other split: sum.splits option.splits)
qed simp

lemma attempt_failure_row:
  assumes "writes_ok (pv_payments e)" and "dispatch e req now now_ms s = (r, s')" and "r = Inl err" "is_attempt_failure err"
  defines "k \<equiv> hex_str (request_payment_id e req)"
  shows "\<exists>row. payment_get (pw_payments s') k = Some row
    \<and> (pp_status row = Failed \<and> failure_reason row = Some (send_error_display (pv_show_network e) err)
       \<or> pp_status row = Succeeded \<and> payment_get (pw_payments s) k = Some row)"
  using assms(2)
proof (cases rule: dispatch_cases)
  case (attempted amount p)
  obtain row where row: "payment_get (snd (record_pending (pv_payments e) k Outbound amount now_ms (pw_payments s))) k = Some row"
    "case payment_get (pw_payments s) k of Some r \<Rightarrow> if pp_status r = Failed then pp_status row = Pending else row = r | None \<Rightarrow> pp_status row = Pending"
    using record_pending_row[OF assms(1)] by blast
  then have "pp_status row = Pending \<or> pp_status row = Succeeded \<and> payment_get (pw_payments s) k = Some row"
    by (cases "pp_status row") (auto split: option.splits if_splits)
  with settle_row[OF assms(1) row(1)] attempted(1) assms(3,4) show ?thesis
    by (auto simp: attempt_rows Let_def k_def[symmetric])
qed (use assms in simp)

section \<open>Properties\<close>



lemma effective_Bolt11:
  assumes "effective (classify_at ps input now) = Bolt11 raw a d h"
  shows "\<exists>i. p_bolt11 ps raw = Some i \<and> inv_mainnet i \<and> \<not> inv_would_expire i now \<and> a = inv_amount_msat i \<and> h = hex_str (inv_payment_hash i)"
proof (cases rule: classify_cases[of ps input now])
  case (bip321 s')
  have eff: "effective (parse_bolt11 ps t now) = parse_bolt11 ps t now" "effective (parse_bolt12 ps t now) \<noteq> Bolt11 raw a d h" for t
    by (auto simp: parse_bolt11_def parse_bolt12_def split: option.splits)
  from bip321 assms have "\<exists>t. parse_bolt11 ps t now = Bolt11 raw a d h"
    using eff by (fastforce simp: parse_bip321_def Let_def split: option.splits if_splits)
  then show ?thesis using parse_bolt11_Bolt11 by metis
next
  case (bolt11 s')
  with assms have "classify_at ps input now = Bolt11 raw a d h" by (auto simp: parse_bolt11_def split: option.splits if_splits)
  from classify_Bolt11[OF this] show ?thesis .
next
  case (bolt12 s')
  with assms show ?thesis by (auto simp: parse_bolt12_def split: option.splits if_splits)
next
  case (bip353 s')
  with assms show ?thesis by (auto simp: parse_bip353_def Let_def split: option.splits)
qed (use assms in auto)

text \<open>C25: the invoice shown for review is the invoice paid. When the classifier turns the user's input,
  an invoice, a link or a URI that carries one, into a Lightning payment with amount \<open>a\<close> and hash \<open>h\<close>,
  then sending it at that moment passes every check of the sender (which parses and validates again)
  and makes one payment call, for the invoice of that hash, under that hash as payment id, with the
  invoice's own amount or, when it has none, the amount entered.\<close>

theorem reviewed_invoice_is_paid:
  assumes parse: "\<And>raw. p_bolt11 ps raw = (case pv_bolt11 e raw of Inl _ \<Rightarrow> None | Inr i \<Rightarrow> Some (invoice.truncate i))"
    and mainnet: "\<And>raw i. pv_bolt11 e raw = Inr i \<Longrightarrow> inv_mainnet i \<longleftrightarrow> inv_network i = pv_network e"
    and "effective (classify_at ps input now) = Bolt11 raw a d h" and "pv_running e"
    and amount: "resolve_amount a ov = (Inr amount :: 'n send_error + u64)"
    and "send_payment (e :: ('l, 'n, 'p) pay_env) raw ov now now_ms s = (r, s')"
  shows "\<exists>i res. pv_bolt11 e raw = Inr i \<and> hex_str (inv_payment_hash i) = h \<and> inv_amount_msat i = a
    \<and> pv_pay e i (inv_payment_hash i) (if a = None then Some amount else None) 3 (pw_ldk s) = (res, pw_ldk s')
    \<and> r = (case res of Inl err \<Rightarrow> Inl (map_pay_error err) | Inr _ \<Rightarrow> Inr ())"
proof -
  obtain i where i: "pv_bolt11 e raw = Inr i" "inv_network i = pv_network e" "\<not> inv_would_expire i now"
    "a = inv_amount_msat i" "h = hex_str (inv_payment_hash i)"
    using effective_Bolt11[OF assms(3)] parse[of raw] mainnet[of raw] by (auto simp: invoice.defs split: sum.splits)
  obtain res p where c: "pv_pay e i (inv_payment_hash i) (if a = None then Some amount else None) 3 (pw_ldk s) = (res, p)" by fastforce
  have slot: "(case inv_amount_msat i of None \<Rightarrow> ov | Some _ \<Rightarrow> None) = (if a = None then Some amount else None)"
    using amount by (cases a; cases ov) (auto simp: i(4)[symmetric])
  from i amount have v: "parse_and_validate (pv_bolt11 e) raw (pv_network e) now ov = Inr (i, amount)"
    by (simp add: parse_and_validate_def)
  with assms(4,6) c slot have "r = (case res of Inl err \<Rightarrow> Inl (map_pay_error err) | Inr _ \<Rightarrow> Inr ())" "pw_ldk s' = p"
    by (auto simp: send_payment_def send_bolt11_def Let_def payment_id_for_def SEND_RETRY_def split: sum.splits)
  with i c show ?thesis by auto
qed

section \<open>Two ways a row goes wrong\<close>

text \<open>LDK checks the expiry again with its own clock. When the invoice expired between the two checks
  the error is mapped to a validation error, which is not an attempt failure: the row written before
  the attempt stays pending and nothing is announced.\<close>

lemma late_expiry_leaves_row_pending:
  assumes "pv_running e" and "parse_and_validate (pv_bolt11 e) raw (pv_network e) now ov = Inr (i, amount)"
    and "\<And>a. pv_pay e i (inv_payment_hash i) a 3 (pw_ldk s) = (Inl (SendingFailed LdkPaymentExpired), p)"
    and "writes_ok (pv_payments e)" and "payment_get (pw_payments s) (hex_str (inv_payment_hash i)) = None"
    and "send_payment e raw ov now now_ms s = (r, s')"
  shows "r = Inl InvoiceExpired \<and> pw_events s' = pw_events s
    \<and> (\<exists>row. payment_get (pw_payments s') (hex_str (inv_payment_hash i)) = Some row \<and> pp_status row = Pending)"
  using assms(1-3,6) record_pending_row[OF assms(4), of "hex_str (inv_payment_hash i)" Outbound amount now_ms "pw_payments s"] assms(5)
  by (auto simp: send_payment_def send_bolt11_def Let_def payment_id_for_def SEND_RETRY_def settle_attempt_failure_def record_pending_outbound_def)

text \<open>An attempt failure settles whatever row has the id. When a payment is in flight and a second send
  of its invoice fails for another reason than being a duplicate (no route is left, say), the row of
  the payment in flight becomes failed, and the later success of that payment is not recorded.\<close>

lemma failed_resend_hides_success:
  assumes "writes_ok (pv_payments e)" and "dispatch e req now now_ms s = (Inl err, s')" and "is_attempt_failure err"
    and "payment_get (pw_payments s) (hex_str (request_payment_id e req)) = Some inflight" and "pp_status inflight = Pending"
  shows "\<exists>row. payment_get (snd (settle (pv_payments e) (hex_str (request_payment_id e req)) Succeeded fee None (pw_payments s')))
       (hex_str (request_payment_id e req)) = Some row \<and> pp_status row = Failed"
proof -
  from attempt_failure_row[OF assms(1,2) refl assms(3)] assms(4,5)
  obtain row where "payment_get (pw_payments s') (hex_str (request_payment_id e req)) = Some row" "pp_status row = Failed" by auto
  with settle_keeps show ?thesis by (metis payment_status.distinct(3,5))
qed

section \<open>A concrete payer\<close>

interpretation mem_payments: payment_disk "\<lparr> pe_local = mem_disk, pe_codec = unary_codec \<rparr>"
  by (rule payment_disk.intro) (simp_all add: mem_kv.atomic_store_axioms, simp add: mem_disk_def mem_list_def)

definition example_bolt11 :: "string \<Rightarrow> string + bool bolt11" where
  "example_bolt11 raw =
     (if raw = ''lnbc1'' then Inr \<lparr> inv_mainnet = True, inv_would_expire = (\<lambda>now. now > 1000), inv_amount_msat = Some 5000,
        inv_description = Inr [7], inv_payment_hash = [1], inv_network = True \<rparr>
      else if raw = ''lnbc9'' then Inr \<lparr> inv_mainnet = True, inv_would_expire = (\<lambda>now. False), inv_amount_msat = None,
        inv_description = Inr [7], inv_payment_hash = [9], inv_network = True \<rparr>
      else Inl ''parse error'')"

text \<open>This payer tracks the ids it accepted and finds no route to the second invoice.\<close>

definition example_pay_env :: "(mem, bool, payment_id list) pay_env" where
  "example_pay_env =
     \<lparr> pv_running = True, pv_network = True, pv_show_network = (\<lambda>n. if n then ''bitcoin'' else ''testnet''),
       pv_bolt11 = example_bolt11, pv_bolt12 = (\<lambda>_. Inl ''Bech32''),
       pv_pay = (\<lambda>i k a n p. if k \<in> set p then (Inl (SendingFailed LdkDuplicatePayment), p)
                              else if k = [9] then (Inl (SendingFailed LdkRouteNotFound), p) else (Inr (), k # p)),
       pv_pay_offer = (\<lambda>b a k note n p. if k \<in> set p then (Inl DuplicatePaymentId, p) else (Inr (), k # p)),
       pv_payments = \<lparr> pe_local = mem_disk, pe_codec = unary_codec \<rparr>,
       pv_queue = \<lparr> qe_local = mem_disk, qe_codec = unary_codec \<rparr> \<rparr>"

definition example_pay_world :: "(mem, payment_id list) pay_world" where
  "example_pay_world = \<lparr> pw_ldk = [], pw_payments = \<lparr> rows = [], ps_loc = [] \<rparr>,
     pw_events = \<lparr> queue = [], permit = False, eq_loc = [] \<rparr> \<rparr>"

interpretation example_payer: idempotent_payer example_pay_env set
  by unfold_locales (auto simp: example_pay_env_def split: if_splits)

lemma example_writes: "writes_ok (pv_payments example_pay_env)"
  by (simp add: writes_ok_def example_pay_env_def mem_disk_def mem_write_def)



definition example_send_parsers :: parsers where
  "example_send_parsers = \<lparr> p_bolt11 = (\<lambda>raw. case example_bolt11 raw of Inl _ \<Rightarrow> None | Inr i \<Rightarrow> Some (invoice.truncate i)),
     p_bolt12 = (\<lambda>_. None), p_hrn = (\<lambda>_. None) \<rparr>"

lemma example_classified: "effective (classify_at example_send_parsers ''lightning:lnbc1'' 0) = Bolt11 ''lnbc1'' (Some 5000) None (hex_str [1])"
proof -
  have t1: "trim ''lightning:lnbc1'' = ''lightning:lnbc1''" by (rule trim_id) (simp_all add: printable_def byte_def)
  have t2: "trim ''lnbc1'' = ''lnbc1''" by (rule trim_id) (simp_all add: printable_def byte_def)
  have p: "has_prefix_ci ''lightning:lnbc1'' ''lightning:''" "\<not> has_prefix_ci ''lightning:lnbc1'' ''bitcoin:''"
    "has_prefix_ci ''lnbc1'' ''lnbc''" "\<not> has_prefix_ci ''lnbc1'' ''bitcoin:''" "\<not> has_prefix_ci ''lnbc1'' ''lightning:''"
    by code_simp+
  have n: "\<not> chars_count ''lightning:lnbc1'' > MAX_INPUT_CHARS" "\<not> chars_count ''lnbc1'' > MAX_INPUT_CHARS"
    by (simp_all add: chars_count_def MAX_INPUT_CHARS_def)
  have "classify_at example_send_parsers ''lightning:lnbc1'' 0 = classify_at example_send_parsers ''lnbc1'' 0"
    by (subst classify_at.simps) (simp add: t1 t2 p n Let_def)
  also have "\<dots> = parse_bolt11 example_send_parsers ''lnbc1'' 0"
    by (subst classify_at.simps) (simp add: t1 t2 p n Let_def)
  also have "\<dots> = Bolt11 ''lnbc1'' (Some 5000) None (hex_str [1])"
    by (simp add: parse_bolt11_def example_send_parsers_def example_bolt11_def invoice.defs)
  finally show ?thesis by simp
qed

theorem reviewed_invoice_is_paid_witness:
  "\<exists>r s' i res. send_payment example_pay_env ''lnbc1'' None 0 10 example_pay_world = (r, s')
    \<and> pv_bolt11 example_pay_env ''lnbc1'' = Inr i \<and> hex_str (inv_payment_hash i) = hex_str [1] \<and> inv_amount_msat i = Some 5000
    \<and> pv_pay example_pay_env i (inv_payment_hash i) None 3 [] = (res, pw_ldk s')
    \<and> r = (case res of Inl err \<Rightarrow> Inl (map_pay_error err) | Inr _ \<Rightarrow> Inr ())"
proof -
  obtain r s' where send: "send_payment example_pay_env ''lnbc1'' None 0 10 example_pay_world = (r, s')" by fastforce
  have e: "pv_bolt11 example_pay_env = example_bolt11" "pv_network example_pay_env" "pv_running example_pay_env" "pw_ldk example_pay_world = []"
    by (simp_all add: example_pay_env_def example_pay_world_def)
  have "p_bolt11 example_send_parsers raw = (case pv_bolt11 example_pay_env raw of Inl _ \<Rightarrow> None | Inr i \<Rightarrow> Some (invoice.truncate i))" for raw
    by (simp add: e example_send_parsers_def)
  moreover have "inv_mainnet i \<longleftrightarrow> inv_network i = pv_network example_pay_env" if "pv_bolt11 example_pay_env raw = Inr i" for raw i
    using that by (auto simp: e example_bolt11_def split: if_splits)
  ultimately have "\<exists>i res. pv_bolt11 example_pay_env ''lnbc1'' = Inr i \<and> hex_str (inv_payment_hash i) = hex_str [1] \<and> inv_amount_msat i = Some 5000
    \<and> pv_pay example_pay_env i (inv_payment_hash i) (if Some (5000 :: u64) = None then Some 5000 else None) 3 (pw_ldk example_pay_world) = (res, pw_ldk s')
    \<and> r = (case res of Inl err \<Rightarrow> Inl (map_pay_error err) | Inr _ \<Rightarrow> Inr ())"
    by (rule reviewed_invoice_is_paid[OF _ _ example_classified e(3) _ send]) simp_all
  with send e(4) show ?thesis by simp
qed

end
