(* ===== verification/Receive.thy ===== *)
theory Receive
  imports Payments Channels
begin

text \<open>
  The receive surface: the capacity decision, the invoice parameters, the offer store and the retry
  schedule of \<open>src/rust/src/receive.rs\<close>, and the receive calls of \<open>src/rust/src/node/payments.rs\<close>, composed of
  the liquidity source, the URI writer, the channel list and the event queue. The channel manager is a
  state \<open>'k\<close> with its calls in \<open>receive_env\<close> (building an invoice or an offer, the async offer cache,
  what it has learnt after a pause), the wallet a state \<open>'w\<close>. What the runtime returned from the
  network is an argument, \<open>None\<close> when the runtime is gone.
\<close>

section \<open>Capacity\<close>

definition usable_inbound_msat :: "channel_view list \<Rightarrow> u64" where
  "usable_inbound_msat channels = sum_list (map cv_inbound_msat (filter cv_usable channels))"

definition has_usable_channel :: "channel_view list \<Rightarrow> bool" where
  "has_usable_channel channels \<longleftrightarrow> list_ex cv_usable channels"

fun needs_jit :: "channel_view list \<Rightarrow> u64 option \<Rightarrow> bool" where
  "needs_jit channels (Some amount) \<longleftrightarrow> usable_inbound_msat channels < amount"
| "needs_jit channels None \<longleftrightarrow> \<not> has_usable_channel channels"

section \<open>Data\<close>

datatype receive_error = ReceiveNotRunning | AddressUnavailable string | ReceiveInvoiceFailed

fun receive_error_display :: "receive_error \<Rightarrow> string" where
  "receive_error_display ReceiveNotRunning = ''the node is not running''"
| "receive_error_display (AddressUnavailable detail) = ''failed to derive a receive address: '' @ detail"
| "receive_error_display ReceiveInvoiceFailed = ''Failed to create Lightning invoice''"

datatype async_receive_status = AsyncDisabled | AwaitingServer | AsyncReady

record async_receive_view =
  av_status :: async_receive_status
  av_offer :: "string option"

definition async_disabled :: async_receive_view where
  "async_disabled = \<lparr> av_status = AsyncDisabled, av_offer = None \<rparr>"
definition awaiting_server :: async_receive_view where
  "awaiting_server = \<lparr> av_status = AwaitingServer, av_offer = None \<rparr>"
definition async_ready :: "string \<Rightarrow> async_receive_view" where
  "async_ready offer = \<lparr> av_status = AsyncReady, av_offer = Some offer \<rparr>"

definition RECEIVE_INVOICE_DESCRIPTION :: string where "RECEIVE_INVOICE_DESCRIPTION = ''Zinqq Wallet''"
definition BOLT12_OFFER_DESCRIPTION :: string where "BOLT12_OFFER_DESCRIPTION = ''zinqq wallet''"
definition OFFER_RETRY_DELAYS :: "nat list" where "OFFER_RETRY_DELAYS = [3, 6, 12, 24, 48]"
definition OFFER_PERSISTENCE_KEY :: string where "OFFER_PERSISTENCE_KEY = ''bolt12_offer''"

record invoice_parameters =
  ip_amount_msats :: "u64 option"
  ip_description :: string
  ip_expiry_delta_secs :: "u32 option"
  ip_min_final_cltv_expiry_delta :: "u32 option"
  ip_payment_hash :: "payment_hash option"

definition standard_invoice_params :: "u64 option \<Rightarrow> invoice_parameters" where
  "standard_invoice_params amount =
     \<lparr> ip_amount_msats = amount, ip_description = RECEIVE_INVOICE_DESCRIPTION,
       ip_expiry_delta_secs = Some INVOICE_MAX_EXPIRY_SECS, ip_min_final_cltv_expiry_delta = None, ip_payment_hash = None \<rparr>"

record jit_invoice =
  ji_bolt11 :: string
  ji_payment_hash :: string
  ji_opening_fee_msat :: u64
  ji_expires_at_unix :: u64

record receive_bundle =
  rb_address :: string
  rb_bolt11 :: "string option"
  rb_payment_hash :: "string option"
  rb_invoice_error :: "string option"
  rb_bip321_uri :: string
  rb_qr_value :: string
  rb_offer :: "string option"
  rb_offer_qr_value :: "string option"
  rb_needs_jit :: bool
  rb_min_receive_sats :: u64

type_synonym signed_invoice = "string \<times> payment_hash" \<comment> \<open>the text of an invoice and its hash\<close>

record ('l, 'w, 'k) receive_env =
  rv_running :: bool
  rv_disk :: "'l disk"
  rv_queue :: "'l queue_env"
  rv_address :: "'w \<Rightarrow> (unit + string) \<times> 'w" \<comment> \<open>\<open>Wallet::next_receive_address\<close>\<close>
  rv_channels :: "'k \<Rightarrow> channel_view list" \<comment> \<open>\<open>list_channels\<close>\<close>
  rv_invoice :: "invoice_parameters \<Rightarrow> 'k \<Rightarrow> (unit + signed_invoice) \<times> 'k" \<comment> \<open>\<open>create_bolt11_invoice\<close>\<close>
  rv_build_offer :: "string \<Rightarrow> 'k \<Rightarrow> (string + string) \<times> 'k" \<comment> \<open>the offer builder, with a description\<close>
  rv_after :: "nat \<Rightarrow> 'k \<Rightarrow> 'k" \<comment> \<open>the state after a pause of some seconds\<close>
  rv_async_offer :: "'k \<Rightarrow> (unit + string) \<times> 'k" \<comment> \<open>\<open>get_async_receive_offer\<close>\<close>
  rv_static_paths :: nat \<comment> \<open>the number of configured static invoice server paths\<close>

record ('l, 'w, 'k) receive_world =
  rw_liquidity :: liquidity_source
  rw_events :: "'l event_queue"
  rw_disk :: 'l
  rw_wallet :: 'w
  rw_ldk :: 'k

section \<open>The offer\<close>

definition read_persisted_offer :: "'l disk \<Rightarrow> 'l \<Rightarrow> string option" where
  "read_persisted_offer d l =
     (case d_read d [] [] OFFER_PERSISTENCE_KEY l of
        Inl _ \<Rightarrow> None
      | Inr b \<Rightarrow> (case from_utf8 b of None \<Rightarrow> None | Some s \<Rightarrow> if s = [] then None else Some s))"

definition persist_offer :: "'l disk \<Rightarrow> string \<Rightarrow> 'l \<Rightarrow> (io_error + unit) \<times> 'l" where
  "persist_offer d offer l = d_write d [] [] OFFER_PERSISTENCE_KEY (as_bytes offer) l"

fun create_offer_with_retry :: "('k \<Rightarrow> (string + string) \<times> 'k) \<Rightarrow> (nat \<Rightarrow> 'k \<Rightarrow> 'k) \<Rightarrow> nat list \<Rightarrow> 'k \<Rightarrow> string option \<times> 'k" where
  \<comment> \<open>one attempt, then one more after each delay\<close>
  "create_offer_with_retry try_create after delays k =
     (case try_create k of
        (Inr offer, k1) \<Rightarrow> (Some offer, k1)
      | (Inl _, k1) \<Rightarrow>
          (case delays of
             [] \<Rightarrow> (None, k1)
           | d # ds \<Rightarrow> create_offer_with_retry try_create after ds (after d k1)))"

definition get_or_create_offer ::
  "('l, 'w, 'k) receive_env \<Rightarrow> bool \<Rightarrow> ('l, 'w, 'k) receive_world \<Rightarrow> string option \<times> ('l, 'w, 'k) receive_world"
where
  \<comment> \<open>the second argument says whether the runtime lived until the attempts were over; a runtime
     that is dropped loses the offer it may have built\<close>
  "get_or_create_offer e runtime_lives s =
     (if \<not> rv_running e then (None, s)
      else case read_persisted_offer (rv_disk e) (rw_disk s) of
        Some existing \<Rightarrow> (Some existing, s)
      | None \<Rightarrow>
          (case create_offer_with_retry (rv_build_offer e BOLT12_OFFER_DESCRIPTION) (rv_after e) OFFER_RETRY_DELAYS (rw_ldk s) of
             (created, k) \<Rightarrow>
               let s1 = s\<lparr> rw_ldk := k \<rparr> in
               (case (if runtime_lives then created else None) of
                  None \<Rightarrow> (None, s1)
                | Some offer \<Rightarrow>
                    (case persist_offer (rv_disk e) offer (rw_disk s1) of
                       (Inr _, l) \<Rightarrow> (Some offer, s1\<lparr> rw_disk := l \<rparr>)
                     | (Inl _, l) \<Rightarrow> (None, s1\<lparr> rw_disk := l \<rparr>)))))"

definition offer_available :: "('l, 'w, 'k) receive_env \<Rightarrow> ('l, 'w, 'k) receive_world \<Rightarrow> bool" where
  "offer_available e s \<longleftrightarrow> rv_running e \<and> has_usable_channel (rv_channels e (rw_ldk s))
     \<and> read_persisted_offer (rv_disk e) (rw_disk s) \<noteq> None"

definition async_receive :: "('l, 'w, 'k) receive_env \<Rightarrow> ('l, 'w, 'k) receive_world \<Rightarrow> async_receive_view \<times> ('l, 'w, 'k) receive_world" where
  "async_receive e s =
     (if rv_static_paths e = 0 then (async_disabled, s)
      else if \<not> rv_running e then (awaiting_server, s)
      else case rv_async_offer e (rw_ldk s) of
        (Inr offer, k) \<Rightarrow> (async_ready offer, s\<lparr> rw_ldk := k \<rparr>)
      | (Inl _, k) \<Rightarrow> (awaiting_server, s\<lparr> rw_ldk := k \<rparr>))"

section \<open>Just-in-time invoices\<close>

definition rw_emit :: "('l, 'w, 'k) receive_env \<Rightarrow> core_event \<Rightarrow> ('l, 'w, 'k) receive_world \<Rightarrow> ('l, 'w, 'k) receive_world" where
  "rw_emit e ev s = s\<lparr> rw_events := emit (rv_queue e) ev (rw_events s) \<rparr>"

definition node_jit_quote ::
  "('l, 'w, 'k) receive_env \<Rightarrow> fee_formula \<Rightarrow> u64 \<Rightarrow> (lsps2_error + unit) \<Rightarrow> fee_result \<Rightarrow> u64 \<Rightarrow> ('l, 'w, 'k) receive_world
     \<Rightarrow> (lsps2_error + jit_quote) \<times> ('l, 'w, 'k) receive_world"
where
  \<comment> \<open>connecting and \<open>get_info\<close> are the fourth and fifth argument; a runtime that is gone answers
     \<open>Shutdown\<close> at the step it reached\<close>
  "node_jit_quote e fee_of amount dialed menu now s =
     (if \<not> rv_running e then (Inl lsps2_error.NotRunning, s)
      else case dialed of
        Inl err \<Rightarrow> (Inl err, s)
      | Inr _ \<Rightarrow>
          (case jit_quote_preconnected fee_of amount menu now (rw_liquidity s) of
             (r, q) \<Rightarrow> (r, s\<lparr> rw_liquidity := q \<rparr>)))"

definition node_jit_accept ::
  "('l, 'w, 'k) receive_env \<Rightarrow> u64 \<Rightarrow> u64 \<Rightarrow> u64 \<Rightarrow> signed_invoice accept_answers option \<Rightarrow> ('l, 'w, 'k) receive_world
     \<Rightarrow> (lsps2_error + jit_invoice) \<times> ('l, 'w, 'k) receive_world"
where
  "node_jit_accept e token amount now ans s =
     (if \<not> rv_running e then (Inl lsps2_error.NotRunning, s)
      else case (case ans of None \<Rightarrow> (Inl Shutdown, rw_liquidity s) | Some a \<Rightarrow> jit_accept token amount now a (rw_liquidity s)) of
        (res, q) \<Rightarrow>
          let s1 = s\<lparr> rw_liquidity := q \<rparr> in
          (case res of
             Inr ((text, h), expires_at, fee) \<Rightarrow>
               (Inr \<lparr> ji_bolt11 = text, ji_payment_hash = hex_str h, ji_opening_fee_msat = fee, ji_expires_at_unix = expires_at \<rparr>,
                rw_emit e (CoreInvoiceReady text expires_at) s1)
           | Inl err \<Rightarrow> (Inl err, rw_emit e (CoreLsps2Failed (lsps2_error_display err)) s1)))"

definition receive_jit ::
  "('l, 'w, 'k) receive_env \<Rightarrow> fee_formula \<Rightarrow> u64 \<Rightarrow> (lsps2_error + unit) \<Rightarrow> fee_result \<Rightarrow> u64 \<Rightarrow> u64 \<Rightarrow> signed_invoice accept_answers
     \<Rightarrow> ('l, 'w, 'k) receive_world \<Rightarrow> (lsps2_error + string \<times> u64) \<times> ('l, 'w, 'k) receive_world"
where
  \<comment> \<open>one call: connect, quote at \<open>now\<close>, accept at \<open>later\<close> without dialing again\<close>
  "receive_jit e fee_of amount dialed menu now later ans s =
     (if \<not> rv_running e then (Inl lsps2_error.NotRunning, s)
      else case
        (case dialed of
           Inl err \<Rightarrow> (Inl err, rw_liquidity s)
         | Inr _ \<Rightarrow>
             (case jit_quote_preconnected fee_of amount menu now (rw_liquidity s) of
                (Inl err, q) \<Rightarrow> (Inl err, q)
              | (Inr quote, q) \<Rightarrow> jit_accept (quote_token quote) amount later (ans\<lparr> ans_connected := Inr () \<rparr>) q))
      of (res, q) \<Rightarrow>
        let s1 = s\<lparr> rw_liquidity := q \<rparr> in
        (case res of
           Inr ((text, h), expires_at, fee) \<Rightarrow> (Inr (text, expires_at), rw_emit e (CoreInvoiceReady text expires_at) s1)
         | Inl err \<Rightarrow> (Inl err, rw_emit e (CoreLsps2Failed (lsps2_error_display err)) s1)))"

definition node_min_receive_sats ::
  "('l, 'w, 'k) receive_env \<Rightarrow> bool \<Rightarrow> fee_result option \<Rightarrow> u64 \<Rightarrow> ('l, 'w, 'k) receive_world \<Rightarrow> u64 \<times> ('l, 'w, 'k) receive_world"
where
  "node_min_receive_sats e refresh fetched now s =
     (if \<not> rv_running e then (MIN_JIT_RECEIVE_SATS, s)
      else if usable_inbound_msat (rv_channels e (rw_ldk s)) \<ge> MIN_JIT_RECEIVE_SATS * 1000 then (MIN_JIT_RECEIVE_SATS, s)
      else case fetched of
        None \<Rightarrow> (MIN_JIT_RECEIVE_SATS, s)
      | Some f \<Rightarrow> (case min_receive_sats refresh f now (rw_liquidity s) of (least, q) \<Rightarrow> (least, s\<lparr> rw_liquidity := q \<rparr>)))"

section \<open>Standard invoices and the bundle\<close>

definition standard_invoice ::
  "('l, 'w, 'k) receive_env \<Rightarrow> u64 option \<Rightarrow> ('l, 'w, 'k) receive_world \<Rightarrow> (receive_error + string \<times> string) \<times> ('l, 'w, 'k) receive_world"
where
  "standard_invoice e amount s =
     (if \<not> rv_running e then (Inl ReceiveNotRunning, s)
      else case rv_invoice e (standard_invoice_params amount) (rw_ldk s) of
        (Inl _, k) \<Rightarrow> (Inl ReceiveInvoiceFailed, s\<lparr> rw_ldk := k \<rparr>)
      | (Inr (text, h), k) \<Rightarrow> (Inr (text, hex_str h), s\<lparr> rw_ldk := k \<rparr>))"

definition node_receive_bundle ::
  "('l, 'w, 'k) receive_env \<Rightarrow> u64 option \<Rightarrow> ('l, 'w, 'k) receive_world \<Rightarrow> (receive_error + receive_bundle) \<times> ('l, 'w, 'k) receive_world"
where
  "node_receive_bundle e amount s =
     (if \<not> rv_running e then (Inl ReceiveNotRunning, s)
      else case rv_address e (rw_wallet s) of
        (Inl _, w) \<Rightarrow> (Inl (AddressUnavailable ''failed to build the transaction: failed to persist the address reveal''), s\<lparr> rw_wallet := w \<rparr>)
      | (Inr address, w) \<Rightarrow>
          let s1 = s\<lparr> rw_wallet := w \<rparr>;
              channels = rv_channels e (rw_ldk s1);
              jit = needs_jit channels amount in
          (case (if jit then ((None, None, None), s1)
                 else case standard_invoice e amount s1 of
                   (Inr (text, h), s2) \<Rightarrow> ((Some text, Some h, None), s2)
                 | (Inl err, s2) \<Rightarrow>
                     ((None, None, case amount of Some a \<Rightarrow> if a > 0 then Some (receive_error_display err) else None | None \<Rightarrow> None), s2)) of
             ((bolt11, hash, invoice_error), s2) \<Rightarrow>
               let uri = build_bip321_uri address (map_option (\<lambda>msat. msat div 1000) amount) bolt11;
                   offer = (if has_usable_channel channels then read_persisted_offer (rv_disk e) (rw_disk s2) else None) in
               (Inr \<lparr> rb_address = address, rb_bolt11 = bolt11, rb_payment_hash = hash, rb_invoice_error = invoice_error,
                      rb_bip321_uri = uri, rb_qr_value = to_ascii_uppercase uri, rb_offer = offer,
                      rb_offer_qr_value = map_option (\<lambda>offer. to_ascii_uppercase (build_bolt12_page_uri offer)) offer,
                      rb_needs_jit = jit,
                      rb_min_receive_sats = (case jit_floor_cache (rw_liquidity s2) of Some f \<Rightarrow> f | None \<Rightarrow> MIN_JIT_RECEIVE_SATS) \<rparr>, s2)))"

definition apply_static_invoice_server_paths :: "('q list \<Rightarrow> 'k \<Rightarrow> (unit + unit) \<times> 'k) \<Rightarrow> 'q list \<Rightarrow> 'k \<Rightarrow> (unit + nat) \<times> 'k" where
  "apply_static_invoice_server_paths set_paths paths k =
     (if paths = [] then (Inr 0, k)
      else case set_paths paths k of (Inl _, k') \<Rightarrow> (Inl (), k') | (Inr _, k') \<Rightarrow> (Inr (length paths), k'))"

section \<open>A session of receive calls\<close>

datatype receive_op =
    ROffer bool
  | RAsync
  | RQuote fee_formula u64 "lsps2_error + unit" fee_result u64
  | RAccept u64 u64 u64 "signed_invoice accept_answers option"
  | RJit fee_formula u64 "lsps2_error + unit" fee_result u64 u64 "signed_invoice accept_answers"
  | RFloor bool "fee_result option" u64
  | RInvoice "u64 option"
  | RBundle "u64 option"

fun receive_step :: "('l, 'w, 'k) receive_env \<Rightarrow> receive_op \<Rightarrow> ('l, 'w, 'k) receive_world \<Rightarrow> ('l, 'w, 'k) receive_world" where
  "receive_step e (ROffer lives) s = snd (get_or_create_offer e lives s)"
| "receive_step e RAsync s = snd (async_receive e s)"
| "receive_step e (RQuote f a d m t) s = snd (node_jit_quote e f a d m t s)"
| "receive_step e (RAccept tok a t ans) s = snd (node_jit_accept e tok a t ans s)"
| "receive_step e (RJit f a d m t t' ans) s = snd (receive_jit e f a d m t t' ans s)"
| "receive_step e (RFloor r f t) s = snd (node_min_receive_sats e r f t s)"
| "receive_step e (RInvoice a) s = snd (standard_invoice e a s)"
| "receive_step e (RBundle a) s = snd (node_receive_bundle e a s)"

inductive later :: "('l, 'w, 'k) receive_env \<Rightarrow> ('l, 'w, 'k) receive_world \<Rightarrow> ('l, 'w, 'k) receive_world \<Rightarrow> bool" for e s where
  \<comment> \<open>any receive calls, and restarts that keep the disk of the store and nothing else\<close>
  now: "later e s s"
| call: "later e s s1 \<Longrightarrow> later e s (receive_step e op s1)"
| restart: "later e s s1 \<Longrightarrow> rw_disk s2 = rw_disk s1 \<Longrightarrow> later e s s2"

lemma step_keeps_disk:
  assumes "read_persisted_offer (rv_disk e) (rw_disk s) \<noteq> None"
  shows "rw_disk (receive_step e op s) = rw_disk s"
proof (cases op)
  case (RBundle a)
  then show ?thesis
    by (auto simp: node_receive_bundle_def standard_invoice_def Let_def split: prod.splits sum.splits if_splits)
qed (use assms in \<open>auto simp: get_or_create_offer_def async_receive_def node_jit_quote_def node_jit_accept_def receive_jit_def
    node_min_receive_sats_def standard_invoice_def rw_emit_def Let_def split: prod.splits sum.splits option.splits\<close>)

lemma later_keeps_offer:
  assumes "later e s s'" and "read_persisted_offer (rv_disk e) (rw_disk s) = Some offer"
  shows "read_persisted_offer (rv_disk e) (rw_disk s') = Some offer"
  using assms by (induction rule: later.induct) (simp_all add: step_keeps_disk)

lemma retry_builds:
  "create_offer_with_retry f after ds k = (Some offer, k') \<Longrightarrow> \<exists>k1. f k1 = (Inr offer, k')"
  by (induction ds arbitrary: k) (auto split: prod.splits sum.splits)

lemma returned_offer_is_stored:
  assumes "kv_store (d_read (rv_disk e)) (d_write (rv_disk e))"
    and "\<And>d k offer k'. rv_build_offer e d k = (Inr offer, k') \<Longrightarrow> offer \<noteq> [] \<and> from_utf8 (as_bytes offer) = Some offer"
    and "get_or_create_offer e lives s = (Some offer, s')"
  shows "read_persisted_offer (rv_disk e) (rw_disk s') = Some offer \<and> rv_running e"
proof (cases "read_persisted_offer (rv_disk e) (rw_disk s)")
  case None
  obtain created k where c: "create_offer_with_retry (rv_build_offer e BOLT12_OFFER_DESCRIPTION) (rv_after e) OFFER_RETRY_DELAYS (rw_ldk s) = (created, k)"
    by fastforce
  with assms(3) None have cr: "created = Some offer" and run: "rv_running e"
    and w: "persist_offer (rv_disk e) offer (rw_disk s) = (Inr (), rw_disk s')"
    by (auto simp: get_or_create_offer_def Let_def split: prod.splits sum.splits if_splits option.splits)
  from c cr obtain k1 where "rv_build_offer e BOLT12_OFFER_DESCRIPTION k1 = (Inr offer, k)" using retry_builds by metis
  with assms(2) have "offer \<noteq> []" "from_utf8 (as_bytes offer) = Some offer" by blast+
  with kv_store.read_written[OF assms(1) w[unfolded persist_offer_def]] run show ?thesis by (simp add: read_persisted_offer_def)
qed (use assms(3) in \<open>auto simp: get_or_create_offer_def split: if_splits\<close>)


section \<open>The request on the screen\<close>

lemma alnum_upper: "is_alnum c \<Longrightarrow> is_alnum (upper_char c)"
  by (auto simp: is_alnum_def is_alpha_def upper_char_def is_lower_def is_upper_def byte_def is_ascii_digit_iff)

lemma upper_btc: "to_ascii_uppercase (sats_to_btc_string n) = sats_to_btc_string n"
  using btc_string_chars[of n]
  by (auto simp: to_ascii_uppercase_def list_all_iff upper_char_def is_lower_def byte_def is_ascii_digit_iff intro!: map_idI)

lemma upper_twice: "list_all bech32_char s \<Longrightarrow> to_ascii_uppercase (to_ascii_uppercase s) = to_ascii_uppercase s"
  by (auto simp: to_ascii_uppercase_def list_all_iff upper_char_def bech32_char_def is_lower_def byte_def is_ascii_digit_iff)

definition uri_text :: "string \<Rightarrow> string \<Rightarrow> string \<Rightarrow> string \<Rightarrow> string \<Rightarrow> string \<Rightarrow> string" where
  "uri_text scheme addr ka amount kl text = scheme @ addr @ CHR ''?'' # (ka @ CHR ''='' # amount) @ CHR ''&'' # (kl @ CHR ''='' # text)"

definition uri_key :: "string \<Rightarrow> bool" where
  "uri_key k \<longleftrightarrow> k \<noteq> [] \<and> list_all (\<lambda>c. byte c < 128 \<and> c \<noteq> CHR ''%'' \<and> c \<noteq> CHR ''='' \<and> c \<noteq> CHR ''&'' \<and> c \<noteq> CHR ''?'') k"

lemma uri_text_classified:
  assumes "is_bech32_mainnet addr" and "list_all is_alnum text" and "text \<noteq> []"
    and sch: "length scheme = 8" "map lower_char scheme = ''bitcoin:''" "printable (hd scheme)"
    and k: "uri_key ka" "uri_key kl" "map lower_char ka = ''amount''" "map lower_char kl = ''lightning''"
    and len: "length (uri_text scheme (to_ascii_uppercase addr) ka (sats_to_btc_string n) kl text) \<le> 2000"
  shows "classify_at ps (uri_text scheme (to_ascii_uppercase addr) ka (sats_to_btc_string n) kl text) now
    = Bip321 (parse_bolt11 ps text now) (Some (to_ascii_uppercase addr)) (Some n)"
proof -
  define up where "up = to_ascii_uppercase addr"
  define q where "q = (ka @ CHR ''='' # sats_to_btc_string n) @ CHR ''&'' # (kl @ CHR ''='' # text)"
  define uri where "uri = uri_text scheme up ka (sats_to_btc_string n) kl text"
  note addr = bech32_addr[OF assms(1)] and u = upper_addr[OF bech32_addr(2,1)[OF assms(1)], folded up_def]
  have uri: "uri = scheme @ up @ CHR ''?'' # q" by (simp add: uri_def uri_text_def q_def)
  have b: "list_all (\<lambda>c. byte c < 128 \<and> c \<noteq> CHR ''%'') text" "CHR ''&'' \<notin> set text" "CHR ''?'' \<notin> set text"
    using assms(2) alnum_props by (force simp: list_all_iff)+
  have ks: "ka \<noteq> []" "kl \<noteq> []" "CHR ''='' \<notin> set ka" "CHR ''='' \<notin> set kl" "CHR ''&'' \<notin> set ka" "CHR ''&'' \<notin> set kl"
    "CHR ''?'' \<notin> set ka" "CHR ''?'' \<notin> set kl"
    "list_all (\<lambda>c. byte c < 128 \<and> c \<noteq> CHR ''%'') ka" "list_all (\<lambda>c. byte c < 128 \<and> c \<noteq> CHR ''%'') kl"
    using k(1,2) by (auto simp: uri_key_def list_all_iff)
  have qq: "CHR ''?'' \<notin> set q" using b ks btc_string_safe(3)[of n] by (auto simp: q_def)
  have "split_on CHR ''&'' q = [ka @ CHR ''='' # sats_to_btc_string n, kl @ CHR ''='' # text]"
    unfolding q_def using b(2) ks btc_string_safe(2)[of n] by (subst split_on_append) (simp_all add: split_on_none)
  moreover have "uri_pair (ka @ CHR ''='' # sats_to_btc_string n) acc = Some (acc\<lparr> up_amount := Some (sats_to_btc_string n) \<rparr>)" for acc
    using uri_pair_value[OF btc_string_safe(1) ks(1,3,9)] by (simp add: k(3))
  moreover have "uri_pair (kl @ CHR ''='' # text) acc = Some (acc\<lparr> up_lightning := Some text \<rparr>)" for acc
    using uri_pair_value[OF b(1) ks(2,4,10)] by (simp add: k(4))
  ultimately have query: "uri_pairs (split_on CHR ''&'' q) no_params
      = Some \<lparr> up_lno = None, up_lightning = Some text, up_amount = Some (sats_to_btc_string n) \<rparr>"
    by (simp only: uri_pairs.simps Option.bind_lunit) (simp add: no_params_def)
  have hd: "hd uri = hd scheme" "uri \<noteq> []" using sch(1) by (auto simp: uri hd_append)
  have "last uri = last text" using assms(3) by (simp add: uri q_def)
  then have "printable (last uri)" using assms(2,3) alnum_props(2) by (simp add: list_all_iff)
  with hd sch(3) have t: "trim uri = uri" by (intro trim_id) auto
  have c: "chars_count uri \<le> 2000"
    using len length_filter_le[of _ uri] unfolding chars_count_def uri_def up_def by (meson le_trans)
  have low: "map lower_char ''bitcoin:'' = ''bitcoin:''" by code_simp
  have pre: "has_prefix_ci uri ''bitcoin:''" using sch(1,2) low by (simp add: uri has_prefix_ci_def eq_ignore_ascii_case_def)
  have seg: "split_on CHR ''?'' (drop 8 uri) = [up, q]"
    using u(2) qq sch(1) by (simp add: uri split_on_append split_on_none)
  have ne: "up \<noteq> []" using addr by (simp add: up_def to_ascii_uppercase_def)
  have "parse_bip321 ps uri now = Bip321 (parse_bolt11 ps text now) (Some up) (Some n)"
    using u ne assms(1) by (simp add: parse_bip321_def seg Let_def query btc_round)
  then show ?thesis using c t pre unfolding uri_def[symmetric] up_def[symmetric]
    by (subst classify_at.simps) (simp add: MAX_INPUT_CHARS_def)
qed

lemma upper_append: "to_ascii_uppercase (a @ b) = to_ascii_uppercase a @ to_ascii_uppercase b"
  by (simp add: to_ascii_uppercase_def)

lemma upper_Cons: "to_ascii_uppercase (c # s) = upper_char c # to_ascii_uppercase s"
  by (simp add: to_ascii_uppercase_def)

lemma upper_parts:
  "to_ascii_uppercase ''bitcoin:'' = ''BITCOIN:''" "to_ascii_uppercase ''amount'' = ''AMOUNT''"
  "to_ascii_uppercase ''lightning'' = ''LIGHTNING''" "upper_char CHR ''?'' = CHR ''?''" "upper_char CHR ''='' = CHR ''=''"
  "upper_char CHR ''&'' = CHR ''&''"
  by code_simp+

lemma uri_words:
  "length ''bitcoin:'' = 8" "map lower_char ''bitcoin:'' = ''bitcoin:''" "printable (hd ''bitcoin:'')"
  "uri_key ''amount''" "uri_key ''lightning''" "map lower_char ''amount'' = ''amount''" "map lower_char ''lightning'' = ''lightning''"
  "length ''BITCOIN:'' = 8" "map lower_char ''BITCOIN:'' = ''bitcoin:''" "printable (hd ''BITCOIN:'')"
  "uri_key ''AMOUNT''" "uri_key ''LIGHTNING''" "map lower_char ''AMOUNT'' = ''amount''" "map lower_char ''LIGHTNING'' = ''lightning''"
  by code_simp+

lemma upper_uri: "to_ascii_uppercase (uri_text scheme addr ka amount kl text)
  = uri_text (to_ascii_uppercase scheme) (to_ascii_uppercase addr) (to_ascii_uppercase ka) (to_ascii_uppercase amount)
      (to_ascii_uppercase kl) (to_ascii_uppercase text)"
  by (simp add: uri_text_def upper_append upper_Cons upper_parts(4-6))

lemma written_uri:
  assumes "is_bech32_mainnet addr" and "text \<noteq> []" and "n > 0"
  shows "build_bip321_uri addr (Some n) (Some text) = uri_text ''bitcoin:'' (to_ascii_uppercase addr) ''amount'' (sats_to_btc_string n) ''lightning'' text"
    and "to_ascii_uppercase (build_bip321_uri addr (Some n) (Some text))
      = uri_text ''BITCOIN:'' (to_ascii_uppercase addr) ''AMOUNT'' (sats_to_btc_string n) ''LIGHTNING'' (to_ascii_uppercase text)"
proof -
  show w: "build_bip321_uri addr (Some n) (Some text) = uri_text ''bitcoin:'' (to_ascii_uppercase addr) ''amount'' (sats_to_btc_string n) ''lightning'' text"
    using assms bech32_addr(1)[OF assms(1)] by (simp add: build_bip321_uri_def build_bip321_uri_parts_def uri_text_def)
  show "to_ascii_uppercase (build_bip321_uri addr (Some n) (Some text))
      = uri_text ''BITCOIN:'' (to_ascii_uppercase addr) ''AMOUNT'' (sats_to_btc_string n) ''LIGHTNING'' (to_ascii_uppercase text)"
    unfolding w upper_uri upper_parts(1-3) upper_btc upper_twice[OF bech32_addr(2)[OF assms(1)]] ..
qed

text \<open>C27: what the receive screen shows can be paid, by copy and by camera. When the bundle for an amount
  carries an invoice, the usable inbound capacity covers the amount, and classifying the copied URI
  and the uppercased QR text both lead back to the invoice of the bundle (in the case written), its address
  as on-chain fallback and the amount in whole sats.\<close>

theorem bundle_is_payable:
  assumes "node_receive_bundle e (Some amount) s = (Inr b, s')" and "rb_bolt11 b = Some text"
    and "is_bech32_mainnet (rb_address b)" and "list_all is_alnum text" and "text \<noteq> []" and "amount \<ge> 1000"
    and "length (rb_bip321_uri b) \<le> 2000"
  shows "amount \<le> usable_inbound_msat (rv_channels e (rw_ldk s))
    \<and> classify_at ps (rb_bip321_uri b) now
        = Bip321 (parse_bolt11 ps text now) (Some (to_ascii_uppercase (rb_address b))) (Some (amount div 1000))
    \<and> classify_at ps (rb_qr_value b) now
        = Bip321 (parse_bolt11 ps (to_ascii_uppercase text) now) (Some (to_ascii_uppercase (rb_address b))) (Some (amount div 1000))"
proof -
  from assms(1,2) have cap: "\<not> usable_inbound_msat (rv_channels e (rw_ldk s)) < amount"
    and uri: "rb_bip321_uri b = build_bip321_uri (rb_address b) (Some (amount div 1000)) (Some text)"
    and qr: "rb_qr_value b = to_ascii_uppercase (rb_bip321_uri b)"
    by (auto simp: node_receive_bundle_def Let_def split: prod.splits sum.splits if_splits)
  have n: "amount div 1000 > 0" using assms(6)
    by (simp add: word_less_nat_alt word_le_nat_alt unat_div div_greater_zero_iff)
  note w = written_uri[OF assms(3,5) n]
  have up: "list_all is_alnum (to_ascii_uppercase text)" "to_ascii_uppercase text \<noteq> []"
    using assms(4,5) alnum_upper by (auto simp: to_ascii_uppercase_def list_all_iff)
  have "classify_at ps (rb_bip321_uri b) now
        = Bip321 (parse_bolt11 ps text now) (Some (to_ascii_uppercase (rb_address b))) (Some (amount div 1000))"
    using assms(7) unfolding uri w(1) by (rule uri_text_classified[OF assms(3,4,5) uri_words(1-7)])
  moreover have "length (rb_qr_value b) \<le> 2000" using assms(7) by (simp add: qr to_ascii_uppercase_def)
  then have "classify_at ps (rb_qr_value b) now
        = Bip321 (parse_bolt11 ps (to_ascii_uppercase text) now) (Some (to_ascii_uppercase (rb_address b))) (Some (amount div 1000))"
    unfolding qr uri w(2) by (rule uri_text_classified[OF assms(3) up uri_words(8-14)])
  ultimately show ?thesis using cap by auto
qed

section \<open>A concrete receiver\<close>

text \<open>The graph of this node can build an offer once nine seconds have passed; it has one channel.\<close>

definition example_receive_env :: "(mem, unit, nat) receive_env" where
  "example_receive_env =
     \<lparr> rv_running = True, rv_disk = mem_disk, rv_queue = \<lparr> qe_local = mem_disk, qe_codec = unary_codec \<rparr>,
       rv_address = (\<lambda>w. (Inr ''bc1qqqqqqqqqqqqqqqqqqqqqqqqqqqq'', w)),
       rv_channels = (\<lambda>k. [\<lparr> cv_channel_id = ''01'', cv_counterparty_pubkey = ''02'', cv_state = LabelActive, cv_capacity_sats = 10000,
         cv_outbound_msat = 0, cv_inbound_msat = 9000000, cv_reserve_sats = None, cv_usable = True, cv_pending_htlc_count = 0 \<rparr>]),
       rv_invoice = (\<lambda>p k. (Inr (''lnbc1'', [1]), k)),
       rv_build_offer = (\<lambda>d k. if k \<ge> 9 then (Inr ''lno1'', k) else (Inl ''no blinded paths'', k)), rv_after = (+),
       rv_async_offer = (\<lambda>k. (Inl (), k)), rv_static_paths = 0 \<rparr>"

definition example_receive_world :: "(mem, unit, nat) receive_world" where
  "example_receive_world = \<lparr> rw_liquidity = from_components [2] [], rw_events = \<lparr> queue = [], permit = False, eq_loc = [] \<rparr>,
     rw_disk = [], rw_wallet = (), rw_ldk = 0 \<rparr>"

lemma example_kv: "kv_store (d_read (rv_disk example_receive_env)) (d_write (rv_disk example_receive_env))"
  using mem_kv.kv_store_axioms by (simp add: example_receive_env_def)

lemma example_offers: "rv_build_offer example_receive_env d k = (Inr offer, k') \<Longrightarrow> offer \<noteq> [] \<and> from_utf8 (as_bytes offer) = Some offer"
proof -
  assume "rv_build_offer example_receive_env d k = (Inr offer, k')"
  then have "offer = ''lno1''" by (simp add: example_receive_env_def split: if_splits)
  moreover have "from_utf8 (as_bytes ''lno1'') = Some ''lno1''" by code_simp
  ultimately show ?thesis by simp
qed


theorem bundle_is_payable_witness:
  "\<exists>b s'. node_receive_bundle example_receive_env (Some 150000) example_receive_world = (Inr b, s') \<and> rb_bolt11 b = Some ''lnbc1''
    \<and> classify_at example_parsers (rb_qr_value b) 0
        = Bip321 (parse_bolt11 example_parsers (to_ascii_uppercase ''lnbc1'') 0) (Some (to_ascii_uppercase (rb_address b))) (Some 150)"
proof -
  obtain b s' where b: "node_receive_bundle example_receive_env (Some 150000) example_receive_world = (Inr b, s')"
    and t: "rb_bolt11 b = Some ''lnbc1''" and a: "rb_address b = ''bc1qqqqqqqqqqqqqqqqqqqqqqqqqqqq''"
    and u: "rb_bip321_uri b = build_bip321_uri ''bc1qqqqqqqqqqqqqqqqqqqqqqqqqqqq'' (Some 150) (Some ''lnbc1'')"
    by (simp add: node_receive_bundle_def standard_invoice_def example_receive_env_def example_receive_world_def usable_inbound_msat_def Let_def)
  have ad: "is_bech32_mainnet (rb_address b)"
    unfolding a by (simp add: is_bech32_mainnet_def strip_prefix_def is_lower_def byte_def)
  have al: "list_all is_alnum ''lnbc1''"
    by (simp add: is_alnum_def is_alpha_def is_lower_def byte_def is_ascii_digit_iff)
  have "length (sats_to_btc_string 150) = 10"
    using pad8_props(1)[of 150] by (simp add: sats_to_btc_string_def nat_to_string.simps[of 0])
  then have len: "length (rb_bip321_uri b) \<le> 2000"
    by (simp add: u build_bip321_uri_def build_bip321_uri_parts_def to_ascii_uppercase_def)
  from bundle_is_payable[OF b t ad al _ _ len, of example_parsers 0] b t show ?thesis by auto
qed

end
