(* ===== verification/Replay.thy ===== *)
theory Replay
  imports Recovery
begin

text \<open>
  \<open>src/rust/src/replay.rs\<close>: after a restore the queue of spendable outputs is empty although close records
  still show force-close funds that were never swept. The pass re-derives the descriptors of the
  transactions these records name, drops every output the chain does not report as unspent, and hands
  the rest to the sweep store. \<open>ChainTruth\<close> is the record of queries of \<open>Close_Store\<close> with two more, over a
  network state \<open>'v\<close>; the chain monitor is the list of its loaded monitors, each with its funding
  outpoint and LDK's \<open>get_spendable_outputs\<close>, and may change between two steps. Transactions are of any
  type \<open>'t\<close>. Each call that may store an entry draws fresh entropy.
\<close>

section \<open>Monitors\<close>

record ('v, 't) chain_truth = "'v chain" +
  c_full_tx :: "string \<Rightarrow> 'v \<Rightarrow> (string + 't option) \<times> 'v"
  c_outpoint_spent :: "string \<Rightarrow> u32 \<Rightarrow> 'v \<Rightarrow> (string + bool) \<times> 'v"

type_synonym ('t, 'd) monitor = "(string \<times> u16) \<times> ('t \<Rightarrow> u32 \<Rightarrow> 'd list)"

definition funding_txo_matches :: "string \<times> u16 \<Rightarrow> close_outpoint \<Rightarrow> bool" where
  "funding_txo_matches monitor_txo record_txo \<longleftrightarrow>
     ucast (snd monitor_txo) = op_vout record_txo \<and> fst monitor_txo = op_txid record_txo"

definition has_monitor :: "('t, 'd) monitor list \<Rightarrow> close_outpoint \<Rightarrow> bool" where
  "has_monitor ms funding \<longleftrightarrow> list_ex (\<lambda>m. funding_txo_matches (fst m) funding) ms"

fun replay_spendable_outputs :: "('t, 'd) monitor list \<Rightarrow> close_outpoint \<Rightarrow> 't \<Rightarrow> u32 \<Rightarrow> 'd list option" where
  "replay_spendable_outputs [] funding tx height = None"
| "replay_spendable_outputs (m # ms) funding tx height =
     (if funding_txo_matches (fst m) funding then Some (snd m tx height) else replay_spendable_outputs ms funding tx height)"

section \<open>Which records, which transactions\<close>

definition needs_descriptor_replay :: "close_record \<Rightarrow> bool" where
  "needs_descriptor_replay r =
     (if close_type r \<noteq> Force then False
      else if funding_txo r = None then False
      else if (case expected_amount_sats r of None \<Rightarrow> True | Some sats \<Rightarrow> sats = 0) then False
      else if cr_resolution r = Some Verified then False
      else if list_ex (\<lambda>t. role t = close_tx_role.Sweep \<and> confirmed_at_height t \<noteq> None) (txs r) then False
      else close_confirmed_for_all_channels [cr_channel_id r] (\<lambda>_. Some r) \<or> list_ex (\<lambda>t. is_close (role t)) (txs r))"

definition scannable :: "close_record_tx \<Rightarrow> bool" where
  "scannable t \<longleftrightarrow> \<not> (case role t of close_tx_role.Sweep \<Rightarrow> True | AnchorCpfp \<Rightarrow> True | _ \<Rightarrow> False)"

definition replay_candidates :: "close_record \<Rightarrow> close_record_tx list" where
  "replay_candidates r =
     filter scannable (filter (\<lambda>t. is_close (role t)) (txs r)) @ filter scannable (filter (\<lambda>t. \<not> is_close (role t)) (txs r))"

section \<open>The pass\<close>

record replay_summary =
  records_examined :: u32
  descriptors_tracked :: u32
  already_spent :: u32

record ('l, 'c, 'w, 'n, 'v) replay_world =
  rp_sweep :: "('l, 'c, 'w, 'n) sweep_world"
  rp_net :: 'v
  rp_draws :: nat \<comment> \<open>entropy drawn so far\<close>

record ('l, 'c, 'd, 'w, 'n, 'tx, 'x, 'v, 't) replay_env =
  re_sweep :: "('l, 'c, 'd, 'w, 'n, 'tx, 'x) sweep_env"
  re_chain :: "('v, 't) chain_truth"
  re_monitors :: "'v \<Rightarrow> ('t, 'd) monitor list"
  re_random :: "nat \<Rightarrow> bytes"

fun spent_guard :: "('v, 't) chain_truth \<Rightarrow> ('d, 'tx, 'x) spender \<Rightarrow> 'd list \<Rightarrow> 'v \<Rightarrow> ('d list \<times> u32) \<times> 'v" where
  \<comment> \<open>the survivors and the number of spent outputs; an error does not count as unspent\<close>
  "spent_guard ch sp [] v = (([], 0), v)"
| "spent_guard ch sp (d # ds) v =
     (case c_outpoint_spent ch (fst (sp_outpoint sp d)) (ucast (snd (sp_outpoint sp d))) v of
        (answer, v1) \<Rightarrow>
          (case spent_guard ch sp ds v1 of
             ((survivors, n), v2) \<Rightarrow>
               (case answer of
                  Inr False \<Rightarrow> ((d # survivors, n), v2)
                | Inr True \<Rightarrow> ((survivors, n + 1), v2)
                | Inl _ \<Rightarrow> ((survivors, n), v2))))"

definition candidate_height :: "('v, 't) chain_truth \<Rightarrow> close_record_tx \<Rightarrow> 'v \<Rightarrow> (string + u32 option) \<times> 'v" where
  "candidate_height ch candidate v =
     (case confirmed_at_height candidate of
        Some h \<Rightarrow> (Inr (Some h), v)
      | None \<Rightarrow> c_tx_confirmed_height ch (txid candidate) v)"

definition replay_one_tx ::
  "('l, 'c, 'd, 'w, 'n, 'tx, 'x, 'v, 't) replay_env \<Rightarrow> close_record \<Rightarrow> close_outpoint \<Rightarrow> close_record_tx
     \<Rightarrow> ('l, 'c, 'w, 'n, 'v) replay_world \<Rightarrow> (string + u32 \<times> u32) \<times> ('l, 'c, 'w, 'n, 'v) replay_world"
where
  "replay_one_tx e r funding candidate s =
     (case c_full_tx (re_chain e) (txid candidate) (rp_net s) of
        (Inl err, v) \<Rightarrow> (Inl err, s\<lparr> rp_net := v \<rparr>)
      | (Inr None, v) \<Rightarrow> (Inr (0, 0), s\<lparr> rp_net := v \<rparr>)
      | (Inr (Some tx), v) \<Rightarrow>
          (case candidate_height (re_chain e) candidate v of
             (Inl err, v) \<Rightarrow> (Inl err, s\<lparr> rp_net := v \<rparr>)
           | (Inr None, v) \<Rightarrow> (Inr (0, 0), s\<lparr> rp_net := v \<rparr>)
           | (Inr (Some height), v) \<Rightarrow>
               (case replay_spendable_outputs (re_monitors e v) funding tx height of
                  None \<Rightarrow> (Inl ''monitor disappeared mid-pass'', s\<lparr> rp_net := v \<rparr>)
                | Some descriptors \<Rightarrow>
                    if descriptors = [] then (Inr (0, 0), s\<lparr> rp_net := v \<rparr>)
                    else (case spent_guard (re_chain e) (se_spender (re_sweep e)) descriptors v of
                      ((survivors, spent), v) \<Rightarrow>
                        if survivors = [] then (Inr (0, spent), s\<lparr> rp_net := v \<rparr>)
                        else (case track_spendable_outputs (re_sweep e) (re_random e (rp_draws s)) survivors (Some (cr_channel_id r)) (rp_sweep s) of
                          (res, sw) \<Rightarrow>
                            let s1 = s\<lparr> rp_net := v, rp_sweep := sw, rp_draws := Suc (rp_draws s) \<rparr> in
                            (case res of Inl err \<Rightarrow> (Inl err, s1) | Inr n \<Rightarrow> (Inr (of_nat n, spent), s1)))))))"

fun replay_txs ::
  "('l, 'c, 'd, 'w, 'n, 'tx, 'x, 'v, 't) replay_env \<Rightarrow> close_record \<Rightarrow> close_outpoint \<Rightarrow> close_record_tx list
     \<Rightarrow> replay_summary \<Rightarrow> ('l, 'c, 'w, 'n, 'v) replay_world \<Rightarrow> replay_summary \<times> ('l, 'c, 'w, 'n, 'v) replay_world"
where
  \<comment> \<open>a failed transaction is logged and skipped\<close>
  "replay_txs e r funding [] sm s = (sm, s)"
| "replay_txs e r funding (t # ts) sm s =
     (case replay_one_tx e r funding t s of
        (Inr (n, spent), s1) \<Rightarrow>
          replay_txs e r funding ts
            (sm\<lparr> descriptors_tracked := descriptors_tracked sm + n, already_spent := already_spent sm + spent \<rparr>) s1
      | (Inl _, s1) \<Rightarrow> replay_txs e r funding ts sm s1)"

fun replay_records ::
  "('l, 'c, 'd, 'w, 'n, 'tx, 'x, 'v, 't) replay_env \<Rightarrow> close_record list \<Rightarrow> replay_summary \<Rightarrow> ('l, 'c, 'w, 'n, 'v) replay_world
     \<Rightarrow> replay_summary \<times> ('l, 'c, 'w, 'n, 'v) replay_world"
where
  "replay_records e [] sm s = (sm, s)"
| "replay_records e (r # rs) sm s =
     (case funding_txo r of
        None \<Rightarrow> replay_records e rs sm s
      | Some funding \<Rightarrow>
          if \<not> has_monitor (re_monitors e (rp_net s)) funding then replay_records e rs sm s
          else (case replay_txs e r funding (replay_candidates r) (sm\<lparr> records_examined := records_examined sm + 1 \<rparr>) s of
            (sm1, s1) \<Rightarrow> replay_records e rs sm1 s1))"

definition replay_missed_spendable_outputs ::
  "('l, 'c, 'd, 'w, 'n, 'tx, 'x, 'v, 't) replay_env \<Rightarrow> ('l, 'c, 'w, 'n, 'v) replay_world
     \<Rightarrow> replay_summary \<times> ('l, 'c, 'w, 'n, 'v) replay_world"
where
  "replay_missed_spendable_outputs e s =
     (let sm = \<lparr> records_examined = 0, descriptors_tracked = 0, already_spent = 0 \<rparr>;
          outstanding = filter needs_descriptor_replay (snapshot (sw_close (rp_sweep s))) in
      if outstanding = [] then (sm, s) else replay_records e outstanding sm s)"

section \<open>What is queued\<close>

definition named_by :: "('l, 'c, 'd, 'w, 'n, 'tx, 'x, 'v, 't) replay_env \<Rightarrow> close_record list \<Rightarrow> (string \<times> u32) set \<Rightarrow> string \<Rightarrow> string \<Rightarrow> bool" where
  \<comment> \<open>an unspent output, re-derived by the monitor of one of the records from a transaction it names\<close>
  "named_by e rs spent cid h \<longleftrightarrow> (\<exists>r \<in> set rs. \<exists>d funding v tx height ds.
     cid = cr_channel_id r \<and> h = hex_str (sp_encode (se_spender (re_sweep e)) d)
     \<and> (fst (sp_outpoint (se_spender (re_sweep e)) d), ucast (snd (sp_outpoint (se_spender (re_sweep e)) d))) \<notin> spent
     \<and> funding_txo r = Some funding \<and> replay_spendable_outputs (re_monitors e v) funding tx height = Some ds \<and> d \<in> set ds)"

definition queue_grows ::
  "('l, 'c, 'd, 'w, 'n, 'tx, 'x, 'v, 't) replay_env \<Rightarrow> close_record list \<Rightarrow> (string \<times> u32) set
     \<Rightarrow> ('l, 'c, 'w, 'n, 'v) replay_world \<Rightarrow> ('l, 'c, 'w, 'n, 'v) replay_world \<Rightarrow> bool"
where
  \<comment> \<open>an old entry stays as it is unless its key was drawn again; a new one is attributed to a record
     and lists only what it names\<close>
  "queue_grows e rs spent s s' \<longleftrightarrow> rp_draws s \<le> rp_draws s'
     \<and> (\<forall>k en. read_entry (re_sweep e) (sw_disk (rp_sweep s)) k = Some en \<longrightarrow>
          read_entry (re_sweep e) (sw_disk (rp_sweep s')) k = Some en
          \<or> (\<exists>n. rp_draws s \<le> n \<and> n < rp_draws s' \<and> k = new_entry_key (re_random e n)))
     \<and> (\<forall>k en. read_entry (re_sweep e) (sw_disk (rp_sweep s')) k = Some en \<longrightarrow>
          read_entry (re_sweep e) (sw_disk (rp_sweep s)) k = Some en
          \<or> (\<exists>cid. en_channel_id_hex en = Some cid \<and> (\<forall>h \<in> set (en_descriptors en). named_by e rs spent cid h)))"

lemma queue_grows_refl: "rp_sweep s' = rp_sweep s \<Longrightarrow> rp_draws s' = rp_draws s \<Longrightarrow> queue_grows e rs spent s s'"
  by (simp add: queue_grows_def)

lemma queue_grows_trans:
  assumes "queue_grows e rs spent s s1" and "queue_grows e rs spent s1 s2"
  shows "queue_grows e rs spent s s2"
  using assms unfolding queue_grows_def by (meson le_trans less_le_trans)

lemma guard_unspent:
  assumes "spent_guard ch sp ds v = ((survivors, n), v')" and "d \<in> set survivors"
  shows "d \<in> set ds \<and> (\<exists>v1. fst (c_outpoint_spent ch (fst (sp_outpoint sp d)) (ucast (snd (sp_outpoint sp d))) v1) = Inr False)"
  using assms
proof (induction ds arbitrary: v survivors n)
  case (Cons x ds)
  obtain answer v1 where a: "c_outpoint_spent ch (fst (sp_outpoint sp x)) (ucast (snd (sp_outpoint sp x))) v = (answer, v1)" by fastforce
  obtain sv m where g: "spent_guard ch sp ds v1 = ((sv, m), v')"
    using Cons.prems(1) a by (auto split: prod.splits sum.splits bool.splits)
  have "d \<in> set sv \<or> d = x \<and> answer = Inr False"
    using Cons.prems a g by (auto split: sum.splits bool.splits)
  then show ?case
  proof
    assume "d \<in> set sv"
    from Cons.IH[OF g this] show ?thesis by simp
  next
    assume "d = x \<and> answer = Inr False"
    then show ?thesis using a by (metis fst_conv list.set_intros(1))
  qed
qed simp

lemma collect_hexes: "collect_outputs sp wl ds H K w = (hs, ps, w') \<Longrightarrow> set hs \<subseteq> (\<lambda>d. hex_str (sp_encode sp d)) ` set ds"
proof (induction ds arbitrary: H K w hs ps)
  case (Cons d ds)
  then show ?case by (fastforce simp: Let_def split: prod.splits bool.splits if_splits)
qed simp

lemma track_reads:
  assumes "sweep_disk e" and "track_spendable_outputs e random outputs channel s = (res, s')"
  shows "\<exists>en. en_channel_id_hex en = channel \<and> set (en_descriptors en) \<subseteq> (\<lambda>d. hex_str (sp_encode (se_spender e) d)) ` set outputs
    \<and> (\<forall>k. read_entry e (sw_disk s') k = read_entry e (sw_disk s) k
         \<or> k = new_entry_key random \<and> read_entry e (sw_disk s') k = Some en)"
proof -
  let ?H = "\<Union>en \<in> set (map snd (entries e (sw_disk s))). set (en_descriptors en)"
  let ?K = "\<Union>en \<in> set (map snd (entries e (sw_disk s))). stored_key ` set (en_outpoints en)"
  obtain hs ps w where c: "collect_outputs (se_spender e) (se_wallet e) outputs ?H ?K (sw_wallet s) = (hs, ps, w)" by (rule prod_cases3)
  let ?en = "\<lparr> en_descriptors = hs, en_channel_id_hex = channel, en_outpoints = ps \<rparr>"
  have "sw_disk s' = sw_disk s \<or> sw_disk s' = snd (write_entry e (new_entry_key random) ?en (sw_disk s))"
    using assms(2) c by (auto simp: track_spendable_outputs_def Let_def split: if_splits prod.splits sum.splits)
  then have "\<forall>k. read_entry e (sw_disk s') k = read_entry e (sw_disk s) k
         \<or> k = new_entry_key random \<and> read_entry e (sw_disk s') k = Some ?en"
    using sweep_disk.read_after_write_entry[OF assms(1)] by (auto split: if_splits)
  with collect_hexes[OF c] show ?thesis by (intro exI[of _ ?en]) simp
qed

locale replay_pass =
  fixes e :: "('l, 'c, 'd, 'w, 'n, 'tx, 'x, 'v, 't) replay_env"
    and spent :: "(string \<times> u32) set"
  assumes disk: "sweep_disk (re_sweep e)"
    and truth: "fst (c_outpoint_spent (re_chain e) i n v) = Inr False \<Longrightarrow> (i, n) \<notin> spent"
begin

lemma one_tx_grows:
  assumes "replay_one_tx e r funding t s = (res, s')" and "r \<in> set rs" and "funding_txo r = Some funding"
  shows "queue_grows e rs spent s s'"
proof (cases "rp_sweep s' = rp_sweep s \<and> rp_draws s' = rp_draws s")
  case True
  with queue_grows_refl show ?thesis by blast
next
  case False
  obtain tx height v ds survivors m v2 res1 sw where
    ds: "replay_spendable_outputs (re_monitors e v) funding tx height = Some ds"
    and g: "spent_guard (re_chain e) (se_spender (re_sweep e)) ds v = ((survivors, m), v2)"
    and tr: "track_spendable_outputs (re_sweep e) (re_random e (rp_draws s)) survivors (Some (cr_channel_id r)) (rp_sweep s) = (res1, sw)"
    and s': "rp_sweep s' = sw" "rp_draws s' = Suc (rp_draws s)"
    using assms(1) False
    by (auto simp: replay_one_tx_def Let_def split: prod.splits sum.splits option.splits if_splits)
  obtain en where en: "en_channel_id_hex en = Some (cr_channel_id r)"
    "set (en_descriptors en) \<subseteq> (\<lambda>d. hex_str (sp_encode (se_spender (re_sweep e)) d)) ` set survivors"
    and rd: "\<And>k. read_entry (re_sweep e) (sw_disk sw) k = read_entry (re_sweep e) (sw_disk (rp_sweep s)) k
       \<or> k = new_entry_key (re_random e (rp_draws s)) \<and> read_entry (re_sweep e) (sw_disk sw) k = Some en"
    using track_reads[OF disk tr] by blast
  have named: "named_by e rs spent (cr_channel_id r) h" if h: "h \<in> set (en_descriptors en)" for h
  proof -
    from h en(2) obtain d where d: "d \<in> set survivors" "h = hex_str (sp_encode (se_spender (re_sweep e)) d)" by blast
    from guard_unspent[OF g d(1)] truth have "d \<in> set ds"
      "(fst (sp_outpoint (se_spender (re_sweep e)) d), ucast (snd (sp_outpoint (se_spender (re_sweep e)) d))) \<notin> spent" by blast+
    with d(2) ds assms(2,3) show ?thesis unfolding named_by_def by blast
  qed
  have "queue_grows e rs spent s s'"
    unfolding queue_grows_def s'(1)
  proof (intro conjI allI impI)
    show "rp_draws s \<le> rp_draws s'" by (simp add: s'(2))
  next
    fix k en' assume "read_entry (re_sweep e) (sw_disk (rp_sweep s)) k = Some en'"
    with rd[of k] show "read_entry (re_sweep e) (sw_disk sw) k = Some en' \<or> (\<exists>n. rp_draws s \<le> n \<and> n < rp_draws s' \<and> k = new_entry_key (re_random e n))"
      by (auto simp: s'(2))
  next
    fix k en' assume "read_entry (re_sweep e) (sw_disk sw) k = Some en'"
    with rd[of k] named en(1) show "read_entry (re_sweep e) (sw_disk (rp_sweep s)) k = Some en'
        \<or> (\<exists>cid. en_channel_id_hex en' = Some cid \<and> (\<forall>h \<in> set (en_descriptors en'). named_by e rs spent cid h))" by auto
  qed
  then show ?thesis .
qed

lemma txs_grow:
  assumes "replay_txs e r funding ts sm s = (sm', s')" and "r \<in> set rs" and "funding_txo r = Some funding"
  shows "queue_grows e rs spent s s'"
  using assms(1)
proof (induction ts arbitrary: sm s)
  case (Cons t ts)
  obtain res s1 where o: "replay_one_tx e r funding t s = (res, s1)" by fastforce
  note one = one_tx_grows[OF o assms(2,3)]
  from Cons.prems o obtain sm1 where "replay_txs e r funding ts sm1 s1 = (sm', s')" by (auto split: sum.splits)
  from Cons.IH[OF this] one show ?case using queue_grows_trans by blast
qed (simp add: queue_grows_refl)

lemma records_grow:
  assumes "replay_records e rs' sm s = (sm', s')" and "set rs' \<subseteq> set rs"
  shows "queue_grows e rs spent s s'"
  using assms
proof (induction rs' arbitrary: sm s)
  case (Cons r rs')
  show ?case
  proof (cases "\<exists>funding. funding_txo r = Some funding \<and> has_monitor (re_monitors e (rp_net s)) funding")
    case True
    then obtain funding where f: "funding_txo r = Some funding" "has_monitor (re_monitors e (rp_net s)) funding" by blast
    obtain sm1 s1 where t: "replay_txs e r funding (replay_candidates r) (sm\<lparr> records_examined := records_examined sm + 1 \<rparr>) s = (sm1, s1)" by fastforce
    with Cons.prems(1) f have rest: "replay_records e rs' sm1 s1 = (sm', s')" by simp
    from Cons.prems(2) have "r \<in> set rs" "set rs' \<subseteq> set rs" by simp_all
    with txs_grow[OF t _ f(1)] Cons.IH[OF rest] show ?thesis using queue_grows_trans by blast
  next
    case False
    with Cons.prems(1) have "replay_records e rs' sm s = (sm', s')" by (auto split: option.splits)
    from Cons.IH[OF this] Cons.prems(2) show ?thesis by simp
  qed
qed (simp add: queue_grows_refl)

end

text \<open>C14: the replay never queues a spent output. With a chain backend that does not report a spent output
  as unspent (it may fail), a pass leaves every stored entry of the sweep queue as it is, unless its
  random key is drawn again, and each entry it adds is attributed to a channel whose close record shows unswept force-close
  funds and holds only descriptors that a monitor of that channel derived and whose outputs are not
  spent. When no record shows such funds the pass changes nothing and asks nothing.\<close>

theorem replay_queues_only_unspent:
  assumes "sweep_disk (re_sweep e)" and "\<And>i n v. fst (c_outpoint_spent (re_chain e) i n v) = Inr False \<Longrightarrow> (i, n) \<notin> spent"
    and "replay_missed_spendable_outputs e s = (sm, s')"
  shows "queue_grows e (filter needs_descriptor_replay (snapshot (sw_close (rp_sweep s)))) spent s s'
    \<and> (list_all (\<lambda>r. \<not> needs_descriptor_replay r) (snapshot (sw_close (rp_sweep s))) \<longrightarrow> s' = s)"
proof -
  let ?rs = "filter needs_descriptor_replay (snapshot (sw_close (rp_sweep s)))"
  have p: "replay_pass e spent" by (rule replay_pass.intro) (use assms(1,2) in blast)+
  show ?thesis
  proof (cases "?rs = []")
    case True
    with assms(3) have "s' = s" by (simp add: replay_missed_spendable_outputs_def Let_def)
    then show ?thesis by (simp add: queue_grows_refl)
  next
    case False
    then have "\<not> list_all (\<lambda>r. \<not> needs_descriptor_replay r) (snapshot (sw_close (rp_sweep s)))"
      by (simp add: filter_empty_conv list_all_iff)
    moreover from False assms(3) obtain sm0 where "replay_records e ?rs sm0 s = (sm, s')"
      by (auto simp: replay_missed_spendable_outputs_def Let_def)
    from replay_pass.records_grow[OF p this] have "queue_grows e ?rs spent s s'" by blast
    ultimately show ?thesis by blast
  qed
qed

section \<open>A concrete pass\<close>

text \<open>A record of a force close whose commitment has two outputs: the chain reports the first as spent.\<close>

definition example_replay_record :: close_record where
  "example_replay_record = (skeleton ''c1'' 7)\<lparr> funding_txo := Some \<lparr> op_txid = ''f'', op_vout = 1 \<rparr>, close_type := Force,
     txs := [\<lparr> txid = ''cm'', role = Commitment, fee_sats = None, confirmed_at_height = Some 90 \<rparr>],
     expected_amount_sats := Some 11500 \<rparr>"

definition example_replay_env :: "(mem, mem, u8, script list, nat, u8 list, unit, unit, string) replay_env" where
  "example_replay_env =
     \<lparr> re_sweep = example_sweep_env,
       re_chain = \<lparr> c_tip_height = (\<lambda>v. (Inr 100, v)), c_outspend = (\<lambda>i n v. (Inr None, v)), c_tx_confirmed_height = (\<lambda>i v. (Inr None, v)),
         c_full_tx = (\<lambda>i v. (Inr (Some i), v)), c_outpoint_spent = (\<lambda>i n v. (Inr (n = 2), v)) \<rparr>,
       re_monitors = (\<lambda>v. [((''f'', 1), \<lambda>tx height. [2, 3])]), re_random = (\<lambda>n. [of_nat n]) \<rparr>"

definition example_replay_world :: "(mem, mem, script list, nat, unit) replay_world" where
  "example_replay_world =
     \<lparr> rp_sweep = example_sweep_world\<lparr> sw_close := (sw_close example_sweep_world)\<lparr> records := [(''c1'', example_replay_record)] \<rparr> \<rparr>,
       rp_net = (), rp_draws = 0 \<rparr>"

interpretation example_replay: replay_pass example_replay_env "{(i, 2) | i. True}"
  by (rule replay_pass.intro) (simp_all add: example_replay_env_def example_sweep.sweep_disk_axioms)

lemma example_replay_runs:
  "\<exists>s'. replay_missed_spendable_outputs example_replay_env example_replay_world
     = (\<lparr> records_examined = 1, descriptors_tracked = 1, already_spent = 1 \<rparr>, s')"
proof -
  have o: "needs_descriptor_replay example_replay_record" "replay_candidates example_replay_record = txs example_replay_record"
    "snapshot (sw_close (rp_sweep example_replay_world)) = [example_replay_record]"
    by (simp_all add: needs_descriptor_replay_def example_replay_record_def skeleton_def replay_candidates_def scannable_def
        snapshot_def example_replay_world_def)
  have p: "re_sweep example_replay_env = example_sweep_env" "funding_txo example_replay_record = Some \<lparr> op_txid = ''f'', op_vout = 1 \<rparr>"
    "has_monitor (re_monitors example_replay_env v) \<lparr> op_txid = ''f'', op_vout = 1 \<rparr>"
    "txs example_replay_record = [\<lparr> txid = ''cm'', role = Commitment, fee_sats = None, confirmed_at_height = Some 90 \<rparr>]" for v
    by (simp_all add: example_replay_env_def example_replay_record_def has_monitor_def funding_txo_matches_def)
  have "\<exists>s'. replay_one_tx example_replay_env example_replay_record \<lparr> op_txid = ''f'', op_vout = 1 \<rparr>
      \<lparr> txid = ''cm'', role = Commitment, fee_sats = None, confirmed_at_height = Some 90 \<rparr> example_replay_world = (Inr (1, 1), s')"
    by (simp add: replay_one_tx_def candidate_height_def example_replay_env_def funding_txo_matches_def example_sweep_env_def example_spender_def
        track_spendable_outputs_def Let_def entries_def write_entry_def mem_disk_def mem_list_def mem_write_def example_replay_world_def
        example_sweep_world_def is_wallet_owned_static_output_def example_wallet_def)
  then show ?thesis by (auto simp: replay_missed_spendable_outputs_def Let_def o p)
qed

theorem replay_queues_only_unspent_witness:
  "\<exists>s'. replay_missed_spendable_outputs example_replay_env example_replay_world
       = (\<lparr> records_examined = 1, descriptors_tracked = 1, already_spent = 1 \<rparr>, s')
     \<and> queue_grows example_replay_env (filter needs_descriptor_replay (snapshot (sw_close (rp_sweep example_replay_world))))
         {(i, 2) | i. True} example_replay_world s'"
proof -
  obtain s' where r: "replay_missed_spendable_outputs example_replay_env example_replay_world
     = (\<lparr> records_examined = 1, descriptors_tracked = 1, already_spent = 1 \<rparr>, s')" using example_replay_runs by blast
  from replay_queues_only_unspent[OF example_replay.disk _ r] example_replay.truth r show ?thesis by blast
qed

end
