(* ===== verification/Spec2Isabelle.thy ===== *)
theory Spec2Isabelle
  imports Vss_Durability Startup Channels_Safety Event_Safety Receive Replay
begin

text \<open>
  Verification development of the zinqq wallet core, the Rust crate under \<open>src/rust/src\<close> of a Lightning
  wallet whose Android and iOS shells only call it. The core wires LDK (channel manager, chain monitor)
  and BDK (the on-chain wallet) to a versioned cloud store (VSS), an Esplora backend and an LSP.

  \<^bold>\<open>How the parts interact.\<close> LDK hands channel-monitor updates and the channel manager to the store
  of \<open>vss/store.rs\<close>, which writes them to the server and to the local \<open>FilesystemStore\<close> and fences the
  wallet when another device wrote the same keys. \<open>vss/startup.rs\<close> decides at each start between a fresh
  wallet, silent recovery, migration and version seeding; \<open>restore.rs\<close> replaces the local wallet by the
  one of a mnemonic. LDK events become rows of \<open>history.rs\<close>, public events of \<open>events.rs\<close> and, for closes,
  records of \<open>close_records.rs\<close> that a background pass reconciles with the chain. \<open>liquidity/\<close> buys inbound
  channels just in time, \<open>send.rs\<close> reads payment requests, \<open>onchain_send.rs\<close> builds on-chain payments.
  \<open>channels.rs\<close> dials peers and opens and closes channels; its funding transactions, and the sweeps of
  \<open>sweep.rs\<close>, go through the pending-broadcast store of \<open>chain.rs\<close> at the rates of \<open>fees.rs\<close>. \<open>recovery.rs\<close> asks
  for a deposit when a force close cannot be paid for. \<open>payment.rs\<close> and \<open>node/payments.rs\<close> pay what \<open>send.rs\<close> read,
  with a row of \<open>history.rs\<close> written before each attempt. \<open>node/event_handler.rs\<close> is the switchboard that hands every LDK
  event to these components.

  \<^bold>\<open>Conventions.\<close> A Rust struct is a record, an enum a datatype; \<open>Result\<close> is a sum with the error on the
  left; a call with effects takes the state and returns it last; machine integers are words of their
  width; \<open>BTreeMap\<close> is a sorted association list (\<open>bt_insert\<close>, \<open>bt_get\<close>). Foreign code is a record of
  functions that the definitions take as an argument: the VSS transport (\<open>transport\<close>), the local store
  (\<open>disk\<close>), the files of the data directory (\<open>fs\<close>), serde's byte codec (\<open>json_codec\<close>), LDK's monitor
  deserializer, BDK, the Esplora backend. What a proof needs of them is a locale or a named predicate,
  each met by a concrete instance. Time is an argument; timers and tokio tasks are explicit steps.

  \<^bold>\<open>Theories.\<close>
    \<^item> \<open>Prelude\<close>: word types, sorted maps, \<open>split_once\<close>, fallible steps (\<open>and_then\<close> is the \<open>?\<close> operator).
      \<open>Json\<close>: serde values, accessors and the codec law. \<open>Text\<close>: the string functions of Rust's standard
      library the code uses, over UTF-8 bytes. \<open>Float64\<close>: the \<open>f64\<close> operations of the fee code. \<open>Socket_Addr\<close>: the
      reader and printer of \<open>std::net::SocketAddr\<close>. \<open>Local_Store\<close>: the \<open>KVStoreSync\<close> interface and its laws.
    \<^item> \<open>Monitor_Keys\<close>, \<open>Vss_Transport\<close>, \<open>Vss_Store\<close>: \<open>vss/store.rs\<close>, from manifest keys to every operation of
      \<open>VssBackedStore\<close> and \<open>DualWriteKvStore\<close>. \<open>Vss_Safety\<close>: a fenced store is inert, a sole writer is never
      fenced, the outcome of a fund-critical put. \<open>Vss_Durability\<close>: a monitor update completes only when
      durable, a manifest write keeps the server's keys, the retry loops end after an outage.
    \<^item> \<open>Known_Peers\<close>: \<open>vss/known_peers.rs\<close>. \<open>Data_Dir\<close>: mnemonic, restore marker and fence flag
      (\<open>keys.rs\<close>, \<open>restore.rs\<close>). \<open>Restore\<close>: the restore engine. \<open>Startup\<close>: \<open>vss/startup.rs\<close> and the prefix of
      \<open>builder::build\<close> and \<open>Node::start\<close> before it. Shown: an aborted restore touches nothing, a finished
      one has every monitor the server held, an interrupted one resumes under the restored words, and
      no start ever begins a fresh wallet over a backup or keeps a half-recovered one.
    \<^item> \<open>Close_Record\<close>, \<open>Close_Store\<close>, \<open>Close_Reconcile\<close>: \<open>close_records.rs\<close>. Merging loses no fact and is
      idempotent, completion is terminal and needs evidence, a pass makes at most eight queries.
    \<^item> \<open>Events\<close>: \<open>events.rs\<close>, a persisted FIFO queue with acknowledgement. \<open>Payment_History\<close>: \<open>history.rs\<close>,
      rows that settle once, and the merged activity feed.
    \<^item> \<open>Liquidity\<close>: \<open>liquidity/\<close> and the receive arithmetic of \<open>receive.rs\<close>. \<open>Payment_Input\<close>: the classifier,
      BIP321 and LNURL code of \<open>send.rs\<close> and the URI writer of \<open>receive.rs\<close>. \<open>Onchain_Send\<close>: \<open>onchain_send.rs\<close>
      with the build-and-sign path of \<open>wallet.rs\<close>.
    \<^item> \<open>Fees\<close>: \<open>fees.rs\<close> and the refresh of \<open>chain.rs\<close>, whose answers stay within their bounds whatever the endpoint
      sends. \<open>Broadcast\<close>: the pending-broadcast store, the queue and the fee-sanity check of \<open>chain.rs\<close>; a persisted
      transaction is not lost before the backend acknowledged it.
    \<^item> \<open>Subsidy\<close>, \<open>Sweep\<close>, \<open>Sweep_Safety\<close>: \<open>sweep.rs\<close>, the store of spendable outputs, the sweep pass and its
      subsidized fallback. Shown: an output is forgotten only when it is swept, owned or unsignable; a
      replayed event records nothing; the coin selection is the first fit and stays within its budget.
    \<^item> \<open>Recovery\<close>: \<open>recovery.rs\<close> and its tasks of \<open>node/tasks.rs\<close>; a channel leaves recovery only on evidence.
      \<open>Replay\<close>: \<open>replay.rs\<close>, which refills the sweep queue after a restore and never with a spent output.
    \<^item> \<open>Channels\<close>, \<open>Channels_Safety\<close>: \<open>channels.rs\<close> and \<open>node/channels_api.rs\<close>. Shown: LDK never knows of a
      funding transaction that is not on the disk, channels open only within their gates, a connected IPv4
      peer is dialed again after a restart and an IPv6 peer is not.
    \<^item> \<open>Event_Handler\<close>, \<open>Event_Safety\<close>: \<open>node/event_handler.rs\<close> with the gate of \<open>bump.rs\<close>, composed of the
      components above. Shown: the public payment events are exactly the acknowledged outcomes, each
      with its row on the disk, and an overpaying fee bump touches no coin.
    \<^item> \<open>Payments\<close>: \<open>payment.rs\<close> and the send side of \<open>node/payments.rs\<close>. Shown: no payment id is accepted
      twice, a failed attempt settles its row and is announced once, the invoice the classifier showed
      is the one paid; and two ways in which a row ends up wrong. \<open>Receive\<close>: the receive side, with the
      offer store and retries of \<open>receive.rs\<close>; the offer given out is stable over restarts, and the URI and
      the QR text of a receive bundle are read back by the classifier.

  \<^bold>\<open>Fuel and bounds.\<close> The unbounded retry loops of the store (\<open>fund_critical_loop\<close>, \<open>manifest_loop\<close>,
  \<open>local_write_loop\<close>) take a number of attempts and return \<open>None\<close> when it is used up; safety is
  proved for every number, and \<open>monitor_job_completes_after_outage\<close> gives one that suffices. All other
  loops recurse over a list.

  \<^bold>\<open>Not modelled.\<close> The wiring of LDK objects in \<open>builder.rs\<close> and \<open>node/tasks.rs\<close>, the UniFFI surface
  \<open>api.rs\<close>, the wrapper of \<open>wallet.rs\<close> around BDK, the HTTP clients, key derivation and encryption (calls
  of cryptographic crates), and the Kotlin and Swift shells: they hold no state or decision of their own beyond what is modelled above, or
  are calls of libraries whose code is not part of the repository.
\<close>

end
